(* ===== verification/Prelude.thy ===== *)
theory Prelude
  imports Main "HOL-Library.Word" "HOL-Library.AList"
begin

text \<open>
  Shared vocabulary of the development: Go's fixed-width integers, byte slices, the
  little- and big-endian codecs of \<open>encoding/binary\<close>, \<open>sort.Search\<close> as the loop the
  standard library runs, and the error values the packages return.

  Integers.  An \<open>int64\<close> is an \<open>int\<close> and \<open>i64\<close> is the wrap-around of one operation
  that may leave the range; a \<open>uint32\<close> is a \<open>nat\<close> and \<open>u32\<close> is its wrap-around;
  \<open>uint32(x)\<close> of a signed value is \<open>u32_of\<close>.  A byte is an \<open>8 word\<close>.
\<close>

named_theorems go_simps \<open>rewriting of byte slices and fixed-width integers\<close>
named_theorems go_len \<open>lengths of the byte slices the code builds\<close>

type_synonym byte = "8 word"

section \<open>Fixed-width integers\<close>

definition in_i64 :: "int \<Rightarrow> bool" where
  "in_i64 x \<longleftrightarrow> - (2 ^ 63) \<le> x \<and> x < 2 ^ 63"

definition i64 :: "int \<Rightarrow> int" where
  "i64 x = (x + 2 ^ 63) mod 2 ^ 64 - 2 ^ 63"

definition u32 :: "nat \<Rightarrow> nat" where
  "u32 n = n mod 2 ^ 32"

definition u32_of :: "int \<Rightarrow> nat" where
  "u32_of x = nat (x mod 2 ^ 32)"

definition u64_of :: "int \<Rightarrow> nat" where
  "u64_of x = nat (x mod 2 ^ 64)"

lemma i64_id [go_simps]: "in_i64 x \<Longrightarrow> i64 x = x"
  by (simp add: in_i64_def i64_def)

lemma i64_in_range: "in_i64 (i64 x)"
proof -
  have "0 \<le> (x + 2 ^ 63) mod 2 ^ 64" and "(x + 2 ^ 63) mod 2 ^ 64 < 2 ^ 64"
    by simp_all
  then show ?thesis unfolding in_i64_def i64_def by simp
qed

lemma i64_diff: "i64 (a - i64 b) = i64 (a - b)" "i64 (i64 a - b) = i64 (a - b)"
proof -
  have "(a - ((b + 2 ^ 63) mod 2 ^ 64 - 2 ^ 63) + 2 ^ 63) mod 2 ^ 64 =
      (a + 2 ^ 63 + 2 ^ 63 - (b + 2 ^ 63) mod 2 ^ 64) mod (2 ^ 64 :: int)"
    by (simp add: algebra_simps)
  also have "\<dots> = (a - b + 2 ^ 63) mod 2 ^ 64"
    by (simp add: mod_diff_right_eq algebra_simps)
  finally show "i64 (a - i64 b) = i64 (a - b)" by (simp add: i64_def)
  have "((a + 2 ^ 63) mod 2 ^ 64 - 2 ^ 63 - b + 2 ^ 63) mod 2 ^ 64 =
      ((a + 2 ^ 63) mod 2 ^ 64 - b) mod (2 ^ 64 :: int)"
    by (simp add: algebra_simps)
  also have "\<dots> = (a - b + 2 ^ 63) mod 2 ^ 64"
    by (simp add: mod_diff_left_eq algebra_simps)
  finally show "i64 (i64 a - b) = i64 (a - b)" by (simp add: i64_def)
qed

lemma i64_id_bounds: "- 9223372036854775808 \<le> x \<Longrightarrow> x < 9223372036854775808 \<Longrightarrow> i64 x = x"
  by (rule i64_id) (simp add: in_i64_def)

lemma u32_id [go_simps]: "n < 4294967296 \<Longrightarrow> u32 n = n"
  by (simp add: u32_def)

lemma u32_less: "u32 n < 4294967296"
  by (simp add: u32_def)

lemma u32_of_id [go_simps]: "0 \<le> x \<Longrightarrow> x < 4294967296 \<Longrightarrow> u32_of x = nat x"
  by (simp add: u32_of_def)

lemma u64_of_id [go_simps]: "0 \<le> x \<Longrightarrow> x < 18446744073709551616 \<Longrightarrow> u64_of x = nat x"
  by (simp add: u64_of_def)

section \<open>Byte slices\<close>

text \<open>\<open>slice xs a n\<close> is Go's \<open>xs[a:a+n]\<close>; \<open>put_at t a xs\<close> is \<open>copy(t[a:], xs)\<close>
  where the copy fits.\<close>

definition slice :: "'a list \<Rightarrow> nat \<Rightarrow> nat \<Rightarrow> 'a list" where
  "slice xs a n = take n (drop a xs)"

definition put_at :: "'a list \<Rightarrow> nat \<Rightarrow> 'a list \<Rightarrow> 'a list" where
  "put_at t a xs = take a t @ xs @ drop (a + length xs) t"

abbreviation zeros :: "nat \<Rightarrow> byte list" where
  "zeros n \<equiv> replicate n 0"

lemma length_slice [go_len, simp]: "a + n \<le> length xs \<Longrightarrow> length (slice xs a n) = n"
  by (simp add: slice_def)

lemma nth_slice [go_simps]: "i < n \<Longrightarrow> a + n \<le> length xs \<Longrightarrow> slice xs a n ! i = xs ! (a + i)"
  by (simp add: slice_def)

lemma length_put_at [go_len, simp]: "a + length xs \<le> length t \<Longrightarrow> length (put_at t a xs) = length t"
  by (simp add: put_at_def)

lemma nth_put_at:
  assumes "a + length xs \<le> length t" and "i < length t"
  shows "put_at t a xs ! i = (if a \<le> i \<and> i < a + length xs then xs ! (i - a) else t ! i)"
  using assms by (auto simp: put_at_def nth_append)

lemma slice_put_at_same [go_simps]:
  "a + length xs \<le> length t \<Longrightarrow> n = length xs \<Longrightarrow> slice (put_at t a xs) a n = xs"
  by (simp add: slice_def put_at_def)

lemma slice_put_at_other:
  assumes "a + length xs \<le> length t" "b + n \<le> length t" "b + n \<le> a \<or> a + length xs \<le> b"
  shows "slice (put_at t a xs) b n = slice t b n"
  by (rule nth_equalityI) (use assms in \<open>auto simp: nth_slice nth_put_at\<close>)

lemma slice_append_split: "slice xs a (m + n) = slice xs a m @ slice xs (a + m) n"
  by (simp add: slice_def take_add add.commute)

lemma slice_full [simp]: "slice xs 0 (length xs) = xs"
  by (simp add: slice_def)

section \<open>Byte order\<close>

primrec le_bytes :: "nat \<Rightarrow> nat \<Rightarrow> byte list" where
  "le_bytes 0 n = []"
| "le_bytes (Suc k) n = word_of_nat n # le_bytes k (n div 256)"

primrec le_val :: "byte list \<Rightarrow> nat" where
  "le_val [] = 0"
| "le_val (b # bs) = unat b + 256 * le_val bs"

definition be_bytes :: "nat \<Rightarrow> nat \<Rightarrow> byte list" where
  "be_bytes k n = rev (le_bytes k n)"

definition be_val :: "byte list \<Rightarrow> nat" where
  "be_val bs = le_val (rev bs)"

definition get_le :: "byte list \<Rightarrow> nat \<Rightarrow> nat \<Rightarrow> nat" where
  "get_le bs a k = le_val (slice bs a k)"

definition get_be :: "byte list \<Rightarrow> nat \<Rightarrow> nat \<Rightarrow> nat" where
  "get_be bs a k = be_val (slice bs a k)"

definition put_le :: "byte list \<Rightarrow> nat \<Rightarrow> nat \<Rightarrow> nat \<Rightarrow> byte list" where
  "put_le bs a k n = put_at bs a (le_bytes k n)"

lemma length_le_bytes [go_len, simp]: "length (le_bytes k n) = k"
  by (induction k arbitrary: n) auto

lemma length_be_bytes [go_len, simp]: "length (be_bytes k n) = k"
  by (simp add: be_bytes_def)

lemma le_val_le_bytes [go_simps]: "le_val (le_bytes k n) = n mod 256 ^ k"
proof (induction k arbitrary: n)
  case 0
  then show ?case by simp
next
  case (Suc k)
  have "n mod (256 * 256 ^ k) = 256 * (n div 256 mod 256 ^ k) + n mod 256"
    by (rule mod_mult2_eq)
  with Suc show ?case by (simp add: unat_of_nat add.commute)
qed

lemma be_val_be_bytes [go_simps]: "be_val (be_bytes k n) = n mod 256 ^ k"
  by (simp add: be_val_def be_bytes_def le_val_le_bytes)

lemma le_val_bound: "le_val bs < 256 ^ length bs"
proof (induction bs)
  case Nil
  then show ?case by simp
next
  case (Cons b bs)
  have "unat b < 256" using unsigned_less [where ?'b = 8 and w = b and ?'a = nat] by simp
  with Cons show ?case by simp
qed

lemma be_val_bound: "be_val bs < 256 ^ length bs"
  using le_val_bound [of "rev bs"] by (simp add: be_val_def)

lemma length_put_le [go_len, simp]: "a + k \<le> length bs \<Longrightarrow> length (put_le bs a k n) = length bs"
  by (simp add: put_le_def)

text \<open>Lengths of a buffer under a sequence of writes, as introduction rules.\<close>

lemma len_put_le: "length bs = N \<Longrightarrow> a + k \<le> N \<Longrightarrow> length (put_le bs a k n) = N"
  by simp

lemma len_put_at: "length t = N \<Longrightarrow> a + length xs \<le> N \<Longrightarrow> length (put_at t a xs) = N"
  by simp

lemma len_update: "length t = N \<Longrightarrow> length (t[i := x]) = N"
  by simp

lemmas len_intros = len_put_le len_put_at len_update

lemma get_le_put_le [go_simps]:
  "a + k \<le> length bs \<Longrightarrow> get_le (put_le bs a k n) a k = n mod 256 ^ k"
  by (simp add: get_le_def put_le_def slice_put_at_same le_val_le_bytes)

lemma le_bytes_le_val: "length bs = k \<Longrightarrow> le_bytes k (le_val bs) = bs"
proof (induction bs arbitrary: k)
  case Nil
  then show ?case by simp
next
  case (Cons b bs)
  have "unat b < 256" using unsigned_less [where ?'b = 8 and w = b and ?'a = nat] by simp
  moreover have z: "(256 :: byte) = 0" by simp
  have "(256 :: byte) * x = 0" for x by (simp only: z mult_zero_left)
  ultimately have "word_of_nat (unat b + 256 * le_val bs) = b"
    "(unat b + 256 * le_val bs) div 256 = le_val bs"
    by simp_all
  with Cons show ?case by auto
qed

lemma slice_of_get_le:
  "a + k \<le> length bs \<Longrightarrow> slice bs a k = le_bytes k (get_le bs a k)"
  by (simp add: get_le_def le_bytes_le_val)

lemma get_le_put_le_other:
  "a + k \<le> length bs \<Longrightarrow> b + j \<le> length bs \<Longrightarrow> b + j \<le> a \<or> a + k \<le> b \<Longrightarrow>
   get_le (put_le bs a k n) b j = get_le bs b j"
  by (simp add: get_le_def put_le_def slice_put_at_other)

lemma le_val_zeros [simp]: "le_val (zeros n) = 0"
  by (induction n) auto

lemma get_le_zeros [simp]: "get_le (zeros n) a k = 0"
  by (simp add: get_le_def slice_def)

section \<open>Binary search as \<open>sort.Search\<close> runs it\<close>

function sort_search_loop :: "(nat \<Rightarrow> bool) \<Rightarrow> nat \<Rightarrow> nat \<Rightarrow> nat" where
  "sort_search_loop f i j =
     (if i < j
      then let h = (i + j) div 2
           in if \<not> f h then sort_search_loop f (h + 1) j else sort_search_loop f i h
      else i)"
  by pat_completeness auto
termination
  by (relation "measure (\<lambda>(f, i, j). j - i)") auto

declare sort_search_loop.simps [simp del]

definition sort_search :: "nat \<Rightarrow> (nat \<Rightarrow> bool) \<Rightarrow> nat" where
  "sort_search n f = sort_search_loop f 0 n"

lemma sort_search_loop_bounds:
  "i \<le> j \<Longrightarrow> i \<le> sort_search_loop f i j \<and> sort_search_loop f i j \<le> j"
proof (induction f i j rule: sort_search_loop.induct)
  case (1 f i j)
  show ?case
  proof (cases "i < j")
    case True
    then have "i \<le> (i + j) div 2" "(i + j) div 2 < j" by auto
    with True 1 show ?thesis
      by (subst (1 2) sort_search_loop.simps) (auto simp: Let_def)
  next
    case False
    with "1.prems" show ?thesis by (simp add: sort_search_loop.simps)
  qed
qed

lemma sort_search_loop_hit:
  "i \<le> j \<Longrightarrow> sort_search_loop f i j < j \<Longrightarrow> f (sort_search_loop f i j)"
proof (induction f i j rule: sort_search_loop.induct)
  case (1 f i j)
  define h where "h = (i + j) div 2"
  have step: "sort_search_loop f i j = (if i < j then
      (if \<not> f h then sort_search_loop f (h + 1) j else sort_search_loop f i h) else i)"
    by (subst sort_search_loop.simps) (simp add: h_def Let_def)
  show ?case
  proof (cases "i < j")
    case True
    then have h: "i \<le> h" "h < j" by (auto simp: h_def)
    show ?thesis
    proof (cases "f h")
      case False
      with step True have eq: "sort_search_loop f i j = sort_search_loop f (h + 1) j" by simp
      with "1.IH"(1) [OF True h_def False] "1.prems" h show ?thesis by simp
    next
      case fh: True
      with step True have eq: "sort_search_loop f i j = sort_search_loop f i h" by simp
      show ?thesis
      proof (cases "sort_search_loop f i h < h")
        case True
        with eq "1.IH"(2) [OF \<open>i < j\<close> h_def] fh h show ?thesis by simp
      next
        case False
        with sort_search_loop_bounds [OF h(1)] have "sort_search_loop f i h = h"
          by (metis le_neq_implies_less)
        with eq fh show ?thesis by simp
      qed
    qed
  next
    case False
    with "1.prems" step show ?thesis by simp
  qed
qed

lemma sort_search_loop_miss:
  "\<lbrakk> \<And>a b. a \<le> b \<Longrightarrow> b < j \<Longrightarrow> f a \<Longrightarrow> f b; i \<le> j; i \<le> k; k < sort_search_loop f i j \<rbrakk> \<Longrightarrow> \<not> f k"
proof (induction f i j rule: sort_search_loop.induct)
  case (1 f i j)
  define h where "h = (i + j) div 2"
  have step: "sort_search_loop f i j = (if i < j then
      (if \<not> f h then sort_search_loop f (h + 1) j else sort_search_loop f i h) else i)"
    by (subst sort_search_loop.simps) (simp add: h_def Let_def)
  have less: "i < j"
    using "1.prems"(3,4) step by (cases "i < j") auto
  then have h: "i \<le> h" "h < j" by (auto simp: h_def)
  show ?case
  proof (cases "f h")
    case False
    show ?thesis
    proof (cases "k \<le> h")
      case True
      with "1.prems"(1) [of k h] h False show ?thesis by blast
    next
      case k: False
      from step less False have "sort_search_loop f i j = sort_search_loop f (h + 1) j" by simp
      with k h False "1.prems" show ?thesis
        by (intro "1.IH"(1) [OF less h_def]) auto
    qed
  next
    case True
    from step less True have "sort_search_loop f i j = sort_search_loop f i h" by simp
    with h True "1.prems" show ?thesis
      by (intro "1.IH"(2) [OF less h_def]) auto
  qed
qed

lemma sort_search_le: "sort_search n f \<le> n"
  using sort_search_loop_bounds [of 0 n f] by (simp add: sort_search_def)

lemma sort_search_hit: "sort_search n f < n \<Longrightarrow> f (sort_search n f)"
  using sort_search_loop_hit [of 0 n f] by (simp add: sort_search_def)

lemma sort_search_miss:
  "(\<And>a b. a \<le> b \<Longrightarrow> b < n \<Longrightarrow> f a \<Longrightarrow> f b) \<Longrightarrow> k < sort_search n f \<Longrightarrow> \<not> f k"
  using sort_search_loop_miss [of n f 0 k] by (simp add: sort_search_def)

lemma sort_search_eqI:
  assumes mono: "\<And>a b. a \<le> b \<Longrightarrow> b < n \<Longrightarrow> f a \<Longrightarrow> f b"
    and "i \<le> n" and "\<And>k. k < i \<Longrightarrow> \<not> f k" and "i < n \<Longrightarrow> f i"
  shows "sort_search n f = i"
proof (rule ccontr)
  assume ne: "sort_search n f \<noteq> i"
  then consider "sort_search n f < i" | "i < sort_search n f" by linarith
  then show False
  proof cases
    case 1
    have "f (sort_search n f)" by (rule sort_search_hit) (use 1 assms(2) in simp)
    with assms(3) [OF 1] show ?thesis by simp
  next
    case 2
    have "\<not> f i" by (rule sort_search_miss [OF mono 2])
    moreover have "i < n" using 2 sort_search_le [of n f] by simp
    ultimately show ?thesis using assms(4) by simp
  qed
qed

section \<open>Error values\<close>

text \<open>
  The \<open>error\<close> values the packages compare or return.  \<open>Msg\<close> is \<open>errors.New\<close> (or a
  \<open>fmt.Errorf\<close> without \<open>%w\<close>), \<open>Wrap\<close> is \<open>fmt.Errorf("prefix: %w", err)\<close> and \<open>Coded\<close>
  an error with an \<open>ErrorCode\<close> method.  A result \<open>(v, err)\<close> is a sum, \<open>Inl\<close> the error.
\<close>

datatype go_err =
    EOF | UnexpectedEOF | ErrClosed | ErrPermission | ErrNotExist | ErrNoProgress
  | ErrShortWrite | Errno nat | Msg string | Coded string | Wrap string go_err

primrec errors_Is :: "go_err \<Rightarrow> go_err \<Rightarrow> bool" where
  "errors_Is EOF t = (t = EOF)"
| "errors_Is UnexpectedEOF t = (t = UnexpectedEOF)"
| "errors_Is ErrClosed t = (t = ErrClosed)"
| "errors_Is ErrPermission t = (t = ErrPermission)"
| "errors_Is ErrNotExist t = (t = ErrNotExist)"
| "errors_Is ErrNoProgress t = (t = ErrNoProgress)"
| "errors_Is ErrShortWrite t = (t = ErrShortWrite)"
| "errors_Is (Errno n) t = (t = Errno n)"
| "errors_Is (Msg s) t = (t = Msg s)"
| "errors_Is (Coded s) t = (t = Coded s)"
| "errors_Is (Wrap s e) t = (t = Wrap s e \<or> errors_Is e t)"

section \<open>Sorting\<close>

text \<open>
  \<open>sort.Slice\<close> with a strict order on a key.  Go's sort is not stable; the code sorts by
  keys that are distinct, where every sort gives the same list.
\<close>

definition sort_slice :: "('a \<Rightarrow> 'k::linorder) \<Rightarrow> 'a list \<Rightarrow> 'a list" where
  "sort_slice key xs = sort_key key xs"

lemma set_sort_slice [simp]: "set (sort_slice key xs) = set xs"
  by (simp add: sort_slice_def)

lemma length_sort_slice [simp]: "length (sort_slice key xs) = length xs"
  by (simp add: sort_slice_def)

lemma sorted_sort_slice: "sorted (map key (sort_slice key xs))"
  by (simp add: sort_slice_def)

lemma distinct_map_sort_slice [simp]: "distinct (map f (sort_slice key xs)) = distinct (map f xs)"
  by (simp add: sort_slice_def distinct_map)

end
