(* ===== verification/Export_Profile.thy ===== *)
theory Export_Profile
  imports Prelude
begin

text \<open>
  \<open>server/host-daemon/exportprofile/manager.go\<close>: the manager that serialises platform
  export transitions.  A profile is the Go interface as a record of its answers
  (\<open>Validate\<close> and \<open>Close\<close> give their error, \<open>None\<close> for \<open>nil\<close>); \<open>pfId\<close> is the identity
  that \<open>previous != next\<close> compares.  Every method of the manager is one function on the
  manager's state; the release closure that \<open>BeginSession\<close> returns is \<open>release_session i\<close>,
  where \<open>i\<close> is the closure's position in \<open>mgReleased\<close>, the list of the closures'
  \<open>released\<close> variables.
\<close>

section \<open>State\<close>

datatype export_state =
    Disconnected | Preparing | Validating | Exporting | Connected | Active
  | Disconnecting | RecoveryRequired | ErrorState

record 'b profile =
  pfId :: nat
  pfPlatform :: string
  pfBackend :: "'b option"
  pfReadOnly :: bool
  pfValidate :: "go_err option"
  pfClose :: "go_err option"

record 'b basic_profile =
  bpName :: string
  bpBlockBackend :: "'b option"
  bpImmutable :: bool
  bpValidateProfile :: "go_err option option"
  bpCloseProfile :: "go_err option option"

definition basic_validate :: "'b basic_profile \<Rightarrow> go_err option" where
  "basic_validate p =
     (if bpName p \<noteq> ''wii'' \<and> bpName p \<noteq> ''gamecube''
      then Some (Msg ''unsupported export platform'')
      else if bpBlockBackend p = None then Some (Msg ''export backend is missing'')
      else case bpValidateProfile p of Some answer \<Rightarrow> answer | None \<Rightarrow> None)"

definition basic_close :: "'b basic_profile \<Rightarrow> go_err option" where
  "basic_close p = (case bpCloseProfile p of Some answer \<Rightarrow> answer | None \<Rightarrow> None)"

definition basic_as_profile :: "nat \<Rightarrow> 'b basic_profile \<Rightarrow> 'b profile" where
  "basic_as_profile i p =
     \<lparr>pfId = i, pfPlatform = bpName p, pfBackend = bpBlockBackend p,
      pfReadOnly = bpImmutable p, pfValidate = basic_validate p, pfClose = basic_close p\<rparr>"

record 'b export_manager =
  mgState :: export_state
  mgCurrent :: "'b profile option"
  mgSessions :: int
  mgReleased :: "bool list"

section \<open>Operations\<close>

definition new_manager :: "'b profile option \<Rightarrow> go_err + 'b export_manager" where
  "new_manager defaultProfile =
     (case defaultProfile of
        None \<Rightarrow> Inl (Msg ''default profile must be immutable Wii mode'')
      | Some p \<Rightarrow>
          if pfPlatform p \<noteq> ''wii'' \<or> \<not> pfReadOnly p
          then Inl (Msg ''default profile must be immutable Wii mode'')
          else case pfValidate p of
                 Some err \<Rightarrow> Inl err
               | None \<Rightarrow> Inr \<lparr>mgState = Exporting, mgCurrent = Some p, mgSessions = 0, mgReleased = []\<rparr>)"

definition manager_platform :: "'b export_manager \<Rightarrow> string" where
  "manager_platform m = (case mgCurrent m of None \<Rightarrow> '''' | Some p \<Rightarrow> pfPlatform p)"

definition begin_session ::
  "'b export_manager \<Rightarrow> 'b export_manager \<times> (go_err + 'b option \<times> nat)" where
  "begin_session m =
     (if mgState m \<notin> {Exporting, Connected, Active}
      then (m, Inl (Msg ''cannot begin I/O session''))
      else case mgCurrent m of
             None \<Rightarrow> (m, Inl (Msg ''no active export profile''))
           | Some p \<Rightarrow>
               (m\<lparr>mgSessions := mgSessions m + 1, mgState := Active,
                  mgReleased := mgReleased m @ [False]\<rparr>,
                Inr (pfBackend p, length (mgReleased m))))"

definition release_session :: "nat \<Rightarrow> 'b export_manager \<Rightarrow> 'b export_manager" where
  "release_session i m =
     (if mgReleased m ! i then m
      else let m' = m\<lparr>mgReleased := (mgReleased m)[i := True], mgSessions := mgSessions m - 1\<rparr>
           in if mgSessions m' = 0 \<and> mgState m' = Active then m'\<lparr>mgState := Connected\<rparr> else m')"

definition mark_connected :: "'b export_manager \<Rightarrow> 'b export_manager \<times> go_err option" where
  "mark_connected m =
     (if mgState m \<noteq> Exporting then (m, Some (Msg ''cannot mark connected''))
      else (m\<lparr>mgState := Connected\<rparr>, None))"

definition disconnect :: "'b export_manager \<Rightarrow> 'b export_manager \<times> go_err option" where
  "disconnect m =
     (if mgSessions m \<noteq> 0
      then (m, Some (Msg ''cannot disconnect while I/O sessions are active''))
      else case mgState m of
             Exporting \<Rightarrow> (m\<lparr>mgState := Disconnected\<rparr>, None)
           | Connected \<Rightarrow> (m\<lparr>mgState := Disconnected\<rparr>, None)
           | Disconnected \<Rightarrow> (m, None)
           | _ \<Rightarrow> (m, Some (Msg ''cannot disconnect'')))"

definition select_profile ::
  "'b profile option \<Rightarrow> 'b export_manager \<Rightarrow> 'b export_manager \<times> go_err option" where
  "select_profile nextp m =
     (if mgState m \<noteq> Disconnected \<or> mgSessions m \<noteq> 0
      then (m, Some (Msg ''profile selection requires DISCONNECTED with no active I/O''))
      else case nextp of
             None \<Rightarrow> (m, Some (Msg ''next profile is nil''))
           | Some p \<Rightarrow>
               (case pfValidate p of
                  Some err \<Rightarrow> (m\<lparr>mgState := ErrorState\<rparr>, Some err)
                | None \<Rightarrow>
                    let m' = m\<lparr>mgCurrent := Some p, mgState := Exporting\<rparr>
                    in case mgCurrent m of
                         None \<Rightarrow> (m', None)
                       | Some previous \<Rightarrow>
                           if pfId previous = pfId p then (m', None)
                           else case pfClose previous of
                                  Some err \<Rightarrow> (m'\<lparr>mgState := RecoveryRequired\<rparr>,
                                               Some (Wrap ''previous profile cleanup'' err))
                                | None \<Rightarrow> (m', None)))"

definition recover :: "'b export_manager \<Rightarrow> 'b export_manager \<times> go_err option" where
  "recover m =
     (if mgState m \<noteq> ErrorState \<and> mgState m \<noteq> RecoveryRequired
      then (m, Some (Msg ''recovery is invalid''))
      else if mgSessions m \<noteq> 0 then (m, Some (Msg ''cannot recover with active sessions''))
      else (m\<lparr>mgState := Disconnected\<rparr>, None))"

section \<open>The manager as a state machine\<close>

text \<open>
  The manager's mutex makes every method atomic, so any interleaving of the sessions, the
  dashboard and the Pi is a sequence of these steps.  A release step names a closure that
  \<open>BeginSession\<close> handed out.
\<close>

datatype 'b manager_call =
    CallBegin | CallRelease nat | CallMarkConnected | CallDisconnect
  | CallSelect "'b profile option" | CallRecover

inductive manager_step ::
  "'b export_manager \<Rightarrow> 'b manager_call \<Rightarrow> 'b export_manager \<Rightarrow> bool" where
  step_begin: "manager_step m CallBegin (fst (begin_session m))"
| step_release: "i < length (mgReleased m) \<Longrightarrow> manager_step m (CallRelease i) (release_session i m)"
| step_connected: "manager_step m CallMarkConnected (fst (mark_connected m))"
| step_disconnect: "manager_step m CallDisconnect (fst (disconnect m))"
| step_select: "manager_step m (CallSelect p) (fst (select_profile p m))"
| step_recover: "manager_step m CallRecover (fst (recover m))"

inductive_simps manager_step_simps:
  "manager_step m CallBegin m'"
  "manager_step m (CallRelease i) m'"
  "manager_step m CallMarkConnected m'"
  "manager_step m CallDisconnect m'"
  "manager_step m (CallSelect p) m'"
  "manager_step m CallRecover m'"

inductive manager_reach :: "'b export_manager \<Rightarrow> bool" where
  reach_new: "new_manager p = Inr m \<Longrightarrow> manager_reach m"
| reach_step: "manager_reach m \<Longrightarrow> manager_step m c m' \<Longrightarrow> manager_reach m'"

lemmas manager_ops = begin_session_def release_session_def mark_connected_def disconnect_def
  select_profile_def recover_def

definition open_sessions :: "'b export_manager \<Rightarrow> nat" where
  "open_sessions m = count_list (mgReleased m) False"

definition manager_inv :: "'b export_manager \<Rightarrow> bool" where
  "manager_inv m \<longleftrightarrow>
     mgSessions m = int (open_sessions m) \<and>
     (mgState m = Active \<longleftrightarrow> 0 < open_sessions m) \<and>
     mgState m \<notin> {Preparing, Validating, Disconnecting} \<and>
     mgCurrent m \<noteq> None"

lemma manager_inv_new: "new_manager p = Inr m \<Longrightarrow> manager_inv m"
  by (auto simp: new_manager_def manager_inv_def open_sessions_def split: option.splits if_splits)

lemma count_list_update:
  "i < length xs \<Longrightarrow> \<not> xs ! i \<Longrightarrow> Suc (count_list (xs[i := True]) False) = count_list xs False"
proof (induction xs arbitrary: i)
  case Nil
  then show ?case by simp
next
  case (Cons x xs)
  then show ?case by (cases i) auto
qed

lemma manager_inv_begin: "manager_inv m \<Longrightarrow> manager_inv (fst (begin_session m))"
  by (auto simp: begin_session_def manager_inv_def open_sessions_def split: option.splits)

lemma manager_inv_release:
  assumes "manager_inv m" "i < length (mgReleased m)"
  shows "manager_inv (release_session i m)"
proof (cases "mgReleased m ! i")
  case True
  with assms show ?thesis by (simp add: release_session_def)
next
  case False
  from count_list_update [OF assms(2) False] assms(1) False show ?thesis
    by (auto simp: release_session_def Let_def manager_inv_def open_sessions_def)
qed

lemma manager_inv_other:
  assumes "manager_inv m"
  shows "manager_inv (fst (mark_connected m))" "manager_inv (fst (disconnect m))"
    "manager_inv (fst (select_profile p m))" "manager_inv (fst (recover m))"
  using assms
  by (auto simp: manager_ops manager_inv_def open_sessions_def Let_def
      split: export_state.splits option.splits)

lemma manager_step_inv: "manager_step m c m' \<Longrightarrow> manager_inv m \<Longrightarrow> manager_inv m'"
  by (induction rule: manager_step.induct)
    (auto intro: manager_inv_begin manager_inv_release manager_inv_other)

lemma manager_reach_inv: "manager_reach m \<Longrightarrow> manager_inv m"
  by (induction rule: manager_reach.induct) (auto intro: manager_inv_new manager_step_inv)

section \<open>Properties\<close>

text \<open>
  C19.  In every reachable state of the export manager the session counter is the number of
  release closures not yet called, the state is ACTIVE exactly when that number is positive,
  the transient states are never observable between calls, and a profile is always loaded.
\<close>

theorem manager_session_accounting:
  assumes "manager_reach m"
  shows "mgSessions m = int (open_sessions m) \<and> (mgState m = Active \<longleftrightarrow> 0 < open_sessions m) \<and>
    mgState m \<notin> {Preparing, Validating, Disconnecting} \<and> mgCurrent m \<noteq> None"
  using manager_reach_inv [OF assms] by (simp add: manager_inv_def)

definition demo_wii :: "nat profile" where
  "demo_wii = \<lparr>pfId = 1, pfPlatform = ''wii'', pfBackend = Some 7, pfReadOnly = True,
     pfValidate = None, pfClose = None\<rparr>"

definition demo_manager :: "nat export_manager" where
  "demo_manager = \<lparr>mgState = Exporting, mgCurrent = Some demo_wii, mgSessions = 0, mgReleased = []\<rparr>"

lemma demo_reach: "manager_reach demo_manager"
  by (rule manager_reach.reach_new [of "Some demo_wii"])
    (simp add: new_manager_def demo_wii_def demo_manager_def)

lemma demo_reach_begin: "manager_reach (fst (begin_session demo_manager))"
  by (rule manager_reach.reach_step [OF demo_reach step_begin])

theorem manager_session_accounting_witness:
  "mgState (fst (begin_session demo_manager)) = Active \<and>
   0 < open_sessions (fst (begin_session demo_manager))"
  using manager_session_accounting [OF demo_reach_begin]
  by (simp add: begin_session_def demo_manager_def)

text \<open>
  C20.  While any session is open, no call of the manager changes the loaded profile: a
  backend handed to a session stays the exported one until the session is released.
\<close>

theorem manager_pins_profile:
  assumes "manager_reach m" and "0 < open_sessions m" and "manager_step m c m'"
  shows "mgCurrent m' = mgCurrent m"
proof -
  from manager_reach_inv [OF assms(1)] assms(2) have "mgState m = Active" "0 < mgSessions m"
    by (simp_all add: manager_inv_def)
  with assms(3) show ?thesis
    by (induction rule: manager_step.induct) (auto simp: manager_ops Let_def split: option.splits)
qed

theorem manager_pins_profile_witness:
  "mgCurrent (fst (select_profile (Some (demo_wii\<lparr>pfId := 2\<rparr>)) (fst (begin_session demo_manager))))
     = Some demo_wii"
proof -
  have "0 < open_sessions (fst (begin_session demo_manager))"
    by (simp add: begin_session_def demo_manager_def open_sessions_def)
  from manager_pins_profile [OF demo_reach_begin this step_select] show ?thesis
    by (simp add: begin_session_def demo_manager_def)
qed

text \<open>
  A release closure is idempotent: calling it again changes nothing, so a session that
  is torn down twice cannot drive the counter below the sessions that are open.
\<close>

lemma release_idempotent:
  assumes "i < length (mgReleased m)"
  shows "release_session i (release_session i m) = release_session i m"
  using assms by (auto simp: release_session_def Let_def)

end
