(* ===== verification/Vdisk_Geometry.thy ===== *)
theory Vdisk_Geometry
  imports Prelude
begin

text \<open>
  The FAT32 geometry of the Wii disk: \<open>clustersForBytes\<close> and \<open>selectDiskGeometry\<close> of
  \<open>server/host-daemon/vdisk/vdisk.go\<close>.  An \<open>int64\<close> is an \<open>int\<close>: no sum here leaves the
  range, because the code stops adding before a total can pass \<open>maxFAT32DataClusters\<close> or the
  32 GiB threshold.
\<close>

abbreviation (input) sector_size :: int where "sector_size \<equiv> 512"
abbreviation (input) partition_start :: int where "partition_start \<equiv> 2048"
abbreviation (input) reserved_sectors :: int where "reserved_sectors \<equiv> 32"
abbreviation (input) num_fats :: int where "num_fats \<equiv> 2"
abbreviation (input) max_segment :: int where "max_segment \<equiv> 4294934528"
abbreviation (input) max_fat32_data_clusters :: int where "max_fat32_data_clusters \<equiv> 0x0fffffee"
abbreviation (input) max_mbr_partition_sectors :: int where "max_mbr_partition_sectors \<equiv> 4294967295"
abbreviation (input) max_lba32_disk_sectors :: int where "max_lba32_disk_sectors \<equiv> 4294967296"
abbreviation (input) large_wii_volume_threshold :: int where "large_wii_volume_threshold \<equiv> 34359738368"
abbreviation (input) min_free_clusters :: int where "min_free_clusters \<equiv> 1"

definition wii_sectors_per_cluster :: "int list" where
  "wii_sectors_per_cluster = [8, 16, 32, 64]"

record disk_geometry =
  dgSectorsPerCluster :: int
  dgClusterSize :: int
  dgWbfsDirClusters :: int
  dgAllocatedClusters :: int
  dgFreeClusters :: int
  dgTotalClusters :: int
  dgFatSectors :: int
  dgFirstData :: int
  dgPartSectors :: int
  dgDiskSectors :: int

definition clusters_for_bytes :: "int \<Rightarrow> int \<Rightarrow> int" where
  "clusters_for_bytes sz clusterSize = (if sz \<le> 0 then 0 else 1 + (sz - 1) div clusterSize)"

fun geometry_candidates :: "int list \<Rightarrow> int \<Rightarrow> go_err + int list" where
  "geometry_candidates [] logicalBytes = Inr wii_sectors_per_cluster"
| "geometry_candidates (len # rest) logicalBytes =
     (if len < 0 then Inl (Msg ''Wii library contains a negative file size'')
      else if len \<ge> large_wii_volume_threshold - logicalBytes
      then Inr (drop (length wii_sectors_per_cluster - 1) wii_sectors_per_cluster)
      else geometry_candidates rest (logicalBytes + len))"

fun data_clusters :: "int \<Rightarrow> int list \<Rightarrow> int \<Rightarrow> int" where
  "data_clusters clusterSize [] acc = acc"
| "data_clusters clusterSize (len # rest) acc =
     (if acc > max_fat32_data_clusters - clusters_for_bytes len clusterSize
      then max_fat32_data_clusters + 1
      else data_clusters clusterSize rest (acc + clusters_for_bytes len clusterSize))"

definition candidate_geometry :: "int list \<Rightarrow> int \<Rightarrow> int \<Rightarrow> disk_geometry option" where
  "candidate_geometry fileLengths wbfsEntries spc =
     (let clusterSize = sector_size * spc;
          dataClusters = data_clusters clusterSize fileLengths 0;
          dirClusters = max 1 (clusters_for_bytes (wbfsEntries * 32) clusterSize);
          allocated = 1 + dirClusters + dataClusters;
          total = max 65525 (allocated + min_free_clusters)
      in if total > max_fat32_data_clusters then None
         else let fatSectors = ((total + 2) * 4 + sector_size - 1) div sector_size;
                  firstData = reserved_sectors + num_fats * fatSectors;
                  partSectors = firstData + total * spc;
                  diskSectors = partition_start + partSectors
              in if partSectors > max_mbr_partition_sectors \<or> diskSectors > max_lba32_disk_sectors
                 then None
                 else Some \<lparr>dgSectorsPerCluster = spc, dgClusterSize = clusterSize,
                        dgWbfsDirClusters = dirClusters, dgAllocatedClusters = allocated,
                        dgFreeClusters = total - allocated, dgTotalClusters = total,
                        dgFatSectors = fatSectors, dgFirstData = firstData,
                        dgPartSectors = partSectors, dgDiskSectors = diskSectors\<rparr>)"

fun first_geometry :: "int list \<Rightarrow> int \<Rightarrow> int list \<Rightarrow> go_err + disk_geometry" where
  "first_geometry fileLengths wbfsEntries [] = Inl (Msg ''Wii library exceeds FAT32/MBR capacity'')"
| "first_geometry fileLengths wbfsEntries (spc # rest) =
     (case candidate_geometry fileLengths wbfsEntries spc of
        Some g \<Rightarrow> Inr g
      | None \<Rightarrow> first_geometry fileLengths wbfsEntries rest)"

definition select_disk_geometry :: "int list \<Rightarrow> int \<Rightarrow> go_err + disk_geometry" where
  "select_disk_geometry fileLengths wbfsEntries =
     (case geometry_candidates fileLengths 0 of
        Inl err \<Rightarrow> Inl err
      | Inr candidates \<Rightarrow> first_geometry fileLengths wbfsEntries candidates)"

section \<open>Lemmas\<close>

definition clusters_total :: "int \<Rightarrow> int list \<Rightarrow> int" where
  "clusters_total clusterSize lens = sum_list (map (\<lambda>l. clusters_for_bytes l clusterSize) lens)"

lemma clusters_for_bytes_nonneg: "0 < cs \<Longrightarrow> 0 \<le> clusters_for_bytes sz cs"
  by (simp add: clusters_for_bytes_def pos_imp_zdiv_nonneg_iff)

lemma clusters_for_bytes_covers:
  assumes "0 < cs"
  shows "sz \<le> clusters_for_bytes sz cs * cs"
    and "0 < sz \<Longrightarrow> (clusters_for_bytes sz cs - 1) * cs < sz"
proof -
  have "(sz - 1) mod cs < cs" "0 \<le> (sz - 1) mod cs" using assms by simp_all
  moreover have "(sz - 1) div cs * cs = sz - 1 - (sz - 1) mod cs"
    by (simp add: minus_mod_eq_div_mult)
  ultimately show "sz \<le> clusters_for_bytes sz cs * cs"
    "0 < sz \<Longrightarrow> (clusters_for_bytes sz cs - 1) * cs < sz"
    by (auto simp: clusters_for_bytes_def distrib_right)
qed

lemma clusters_for_bytes_ceil:
  assumes "0 < cs" "0 \<le> sz"
  shows "(sz + cs - 1) div cs = clusters_for_bytes sz cs"
proof (cases "sz = 0")
  case True
  with assms show ?thesis by (simp add: clusters_for_bytes_def)
next
  case False
  have "(sz - 1 + cs) div cs = (sz - 1) div cs + 1"
    using assms by (simp only: div_add_self2)
  moreover have "sz - 1 + cs = sz + cs - 1" by simp
  ultimately show ?thesis using False assms by (simp add: clusters_for_bytes_def)
qed

lemma clusters_total_nonneg: "0 < cs \<Longrightarrow> 0 \<le> clusters_total cs lens"
  by (induction lens) (auto simp: clusters_total_def clusters_for_bytes_nonneg)

lemma data_clusters_eq:
  "0 < cs \<Longrightarrow> acc \<le> max_fat32_data_clusters \<Longrightarrow>
   data_clusters cs lens acc =
     (if acc + clusters_total cs lens \<le> max_fat32_data_clusters then acc + clusters_total cs lens
      else max_fat32_data_clusters + 1)"
proof (induction lens arbitrary: acc)
  case Nil
  then show ?case by (simp add: clusters_total_def)
next
  case (Cons l ls)
  note nn = clusters_total_nonneg [OF Cons.prems(1), of ls] clusters_for_bytes_nonneg [OF Cons.prems(1), of l]
  show ?case
  proof (cases "acc > max_fat32_data_clusters - clusters_for_bytes l cs")
    case True
    with nn show ?thesis by (simp add: clusters_total_def)
  next
    case False
    with Cons.IH [of "acc + clusters_for_bytes l cs"] Cons.prems nn show ?thesis
      by (simp add: clusters_total_def add.assoc)
  qed
qed

text \<open>What a geometry promises the builder and the FAT32 drivers.\<close>

definition geometry_ok :: "int list \<Rightarrow> int \<Rightarrow> disk_geometry \<Rightarrow> bool" where
  "geometry_ok lens entries g \<longleftrightarrow>
     dgSectorsPerCluster g \<in> {8, 16, 32, 64} \<and>
     dgClusterSize g = 512 * dgSectorsPerCluster g \<and>
     1 \<le> dgWbfsDirClusters g \<and> entries * 32 \<le> dgWbfsDirClusters g * dgClusterSize g \<and>
     dgAllocatedClusters g = 1 + dgWbfsDirClusters g + clusters_total (dgClusterSize g) lens \<and>
     dgTotalClusters g = dgAllocatedClusters g + dgFreeClusters g \<and> 1 \<le> dgFreeClusters g \<and>
     65525 \<le> dgTotalClusters g \<and> dgTotalClusters g \<le> 0x0fffffee \<and>
     dgTotalClusters g + 2 \<le> dgFatSectors g * 128 \<and>
     (dgFatSectors g - 1) * 128 < dgTotalClusters g + 2 \<and>
     dgFirstData g = 32 + 2 * dgFatSectors g \<and>
     dgPartSectors g = dgFirstData g + dgTotalClusters g * dgSectorsPerCluster g \<and>
     dgPartSectors g < 2 ^ 32 \<and>
     dgDiskSectors g = 2048 + dgPartSectors g \<and> dgDiskSectors g \<le> 2 ^ 32"

lemma fat_sectors_tight:
  fixes t :: int
  shows "t + 2 \<le> ((t + 2) * 4 + 512 - 1) div 512 * 128"
    and "(((t + 2) * 4 + 512 - 1) div 512 - 1) * 128 < t + 2"
proof -
  have aux: "t + 2 \<le> q * 128 \<and> (q - 1) * 128 < t + 2"
    if "q * 512 = n - r" "0 \<le> r" "r < 512" "n = 4 * t + 519" for n q r :: int
    using that by auto
  have "(t + 2) * 4 + 512 - 1 = 4 * t + 519" by simp
  from aux [OF _ _ _ this, of "((t + 2) * 4 + 512 - 1) div 512" "((t + 2) * 4 + 512 - 1) mod 512"]
  show "t + 2 \<le> ((t + 2) * 4 + 512 - 1) div 512 * 128"
    and "(((t + 2) * 4 + 512 - 1) div 512 - 1) * 128 < t + 2"
    by (simp_all only: minus_mod_eq_div_mult pos_mod_sign pos_mod_bound zero_less_numeral simp_thms)
qed

lemma candidate_geometry_ok:
  assumes "candidate_geometry lens entries spc = Some g" "spc \<in> {8, 16, 32, 64}"
  shows "geometry_ok lens entries g"
proof -
  define cs where "cs = sector_size * spc"
  define dir where "dir = max 1 (clusters_for_bytes (entries * 32) cs)"
  define allocated where "allocated = 1 + dir + data_clusters cs lens 0"
  define total where "total = max 65525 (allocated + 1)"
  from assms(2) have cs: "0 < cs" by (auto simp: cs_def)
  define fat where "fat = ((total + 2) * 4 + sector_size - 1) div sector_size"
  define part where "part = reserved_sectors + num_fats * fat + total * spc"
  have eq: "candidate_geometry lens entries spc =
     (if total > max_fat32_data_clusters then None
      else if part > max_mbr_partition_sectors \<or> partition_start + part > max_lba32_disk_sectors
      then None
      else Some \<lparr>dgSectorsPerCluster = spc, dgClusterSize = cs, dgWbfsDirClusters = dir,
        dgAllocatedClusters = allocated, dgFreeClusters = total - allocated, dgTotalClusters = total,
        dgFatSectors = fat, dgFirstData = reserved_sectors + num_fats * fat,
        dgPartSectors = part, dgDiskSectors = partition_start + part\<rparr>)"
    by (simp only: candidate_geometry_def Let_def cs_def dir_def allocated_def total_def fat_def part_def)
  with assms(1) have le: "total \<le> max_fat32_data_clusters"
    and part: "part \<le> max_mbr_partition_sectors" "partition_start + part \<le> max_lba32_disk_sectors"
    by (metis not_less option.distinct(1))+
  from assms(1) eq le part have g_eq: "g = \<lparr>dgSectorsPerCluster = spc, dgClusterSize = cs,
      dgWbfsDirClusters = dir, dgAllocatedClusters = allocated, dgFreeClusters = total - allocated,
      dgTotalClusters = total, dgFatSectors = fat,
      dgFirstData = reserved_sectors + num_fats * fat,
      dgPartSectors = part, dgDiskSectors = partition_start + part\<rparr>"
    by simp
  have "data_clusters cs lens 0 = clusters_total cs lens"
    using le data_clusters_eq [OF cs, of 0 lens] by (auto simp: total_def allocated_def dir_def split: if_splits)
  moreover have "entries * 32 \<le> dir * cs"
  proof -
    have "clusters_for_bytes (entries * 32) cs * cs \<le> dir * cs"
      using cs by (intro mult_right_mono) (auto simp: dir_def)
    with clusters_for_bytes_covers(1) [OF cs, of "entries * 32"] show ?thesis by simp
  qed
  moreover have "1 \<le> dir" by (simp add: dir_def)
  moreover have g: "total + 2 \<le> dgFatSectors g * 128" "(dgFatSectors g - 1) * 128 < total + 2"
    "dgSectorsPerCluster g = spc" "dgClusterSize g = cs" "dgWbfsDirClusters g = dir"
    "dgAllocatedClusters g = allocated" "dgFreeClusters g = total - allocated"
    "dgTotalClusters g = total" "dgFirstData g = 32 + 2 * dgFatSectors g"
    "dgPartSectors g = dgFirstData g + total * spc" "dgPartSectors g < 2 ^ 32"
    "dgDiskSectors g = 2048 + dgPartSectors g" "dgDiskSectors g \<le> 2 ^ 32"
    unfolding g_eq using part fat_sectors_tight [of total] by (simp_all add: fat_def part_def)
  moreover have "allocated + 1 \<le> total" "65525 \<le> total" by (simp_all add: total_def)
  ultimately show ?thesis
    using assms(2) le unfolding geometry_ok_def g by (simp add: cs_def allocated_def)
qed

lemma geometry_candidates_range:
  "geometry_candidates lens b = Inr cands \<Longrightarrow> set cands \<subseteq> {8, 16, 32, 64}"
  by (induction lens b rule: geometry_candidates.induct)
    (auto simp: wii_sectors_per_cluster_def split: if_splits)

lemma first_geometry_ok:
  "first_geometry lens entries cands = Inr g \<Longrightarrow> set cands \<subseteq> {8, 16, 32, 64} \<Longrightarrow>
   geometry_ok lens entries g"
  by (induction cands) (auto dest: candidate_geometry_ok split: option.splits)

lemma select_disk_geometry_ok:
  "select_disk_geometry lens entries = Inr g \<Longrightarrow> geometry_ok lens entries g"
  by (auto simp: select_disk_geometry_def dest: first_geometry_ok geometry_candidates_range
      split: sum.splits)

section \<open>Properties\<close>

text \<open>
  C23.  The geometry that \<open>selectDiskGeometry\<close> chooses is a valid FAT32 volume behind a classic
  MBR: 65,525 to \<open>0x0fffffee\<close> clusters, exactly the FAT sectors that hold their entries, room
  for the directory and every file with at least one free cluster, and sector counts that fit
  the 32-bit MBR and LBA fields.
\<close>

theorem geometry_within_limits:
  assumes "select_disk_geometry fileLengths wbfsEntries = Inr g"
  shows "geometry_ok fileLengths wbfsEntries g"
  using assms by (rule select_disk_geometry_ok)

theorem geometry_within_limits_witness:
  "geometry_ok [10000] 4 \<lparr>dgSectorsPerCluster = 8, dgClusterSize = 4096, dgWbfsDirClusters = 1,
     dgAllocatedClusters = 5, dgFreeClusters = 65520, dgTotalClusters = 65525, dgFatSectors = 512,
     dgFirstData = 1056, dgPartSectors = 525256, dgDiskSectors = 527304\<rparr>"
  by (rule geometry_within_limits)
    (simp add: select_disk_geometry_def wii_sectors_per_cluster_def candidate_geometry_def
      clusters_for_bytes_def Let_def)

end
