(* ===== verification/Extents.thy ===== *)
theory Extents
  imports Prelude
begin

text \<open>
  Tables of byte extents in virtual-offset order, as both virtual disks keep them, and the
  interface of the lookups that search them.  An extent may be empty.  A lookup is Go's \<open>sort.Search\<close> for the first
  extent that ends after the position, accepted when it starts at or before the position.
  The locale \<open>extent_table\<close> states that as a law and proves what its clients need; each
  table of the code interprets it.
\<close>

definition ordered_extents :: "('e \<Rightarrow> int) \<Rightarrow> ('e \<Rightarrow> int) \<Rightarrow> 'e list \<Rightarrow> bool" where
  "ordered_extents lo hi items \<longleftrightarrow>
     (\<forall>e \<in> set items. lo e \<le> hi e) \<and> sorted_wrt (\<lambda>a b. hi a \<le> lo b) items"

lemma ordered_extents_Cons [simp]:
  "ordered_extents lo hi (e # es) \<longleftrightarrow>
     lo e \<le> hi e \<and> (\<forall>x \<in> set es. hi e \<le> lo x) \<and> ordered_extents lo hi es"
  by (auto simp: ordered_extents_def)

lemma ordered_extents_Nil [simp]: "ordered_extents lo hi []"
  by (simp add: ordered_extents_def)

lemma ordered_extents_append:
  "ordered_extents lo hi (xs @ ys) \<longleftrightarrow>
     ordered_extents lo hi xs \<and> ordered_extents lo hi ys \<and>
     (\<forall>x \<in> set xs. \<forall>y \<in> set ys. hi x \<le> lo y)"
  by (auto simp: ordered_extents_def sorted_wrt_append)

lemma ordered_extents_nth:
  assumes "ordered_extents lo hi items" "i < length items" "j < length items"
  shows "i < j \<Longrightarrow> hi (items ! i) \<le> lo (items ! j)"
    and "lo (items ! i) \<le> hi (items ! i)"
  using assms by (auto simp: ordered_extents_def sorted_wrt_iff_nth_less)

lemma ordered_extents_hi_mono:
  assumes "ordered_extents lo hi items" "i \<le> j" "j < length items"
  shows "hi (items ! i) \<le> hi (items ! j)" "lo (items ! i) \<le> lo (items ! j)"
  using assms ordered_extents_nth(1) [OF assms(1), of i j] ordered_extents_nth(2) [OF assms(1), of i i]
    ordered_extents_nth(2) [OF assms(1), of j j]
  by (cases "i = j"; force)+

text \<open>Two extents of an ordered table that hold a common position are the same extent.\<close>

lemma ordered_extents_unique:
  assumes "ordered_extents lo hi items" "i < length items" "j < length items"
    and "lo (items ! i) \<le> p" "p < hi (items ! i)" "lo (items ! j) \<le> p" "p < hi (items ! j)"
  shows "i = j"
proof (rule ccontr)
  assume "i \<noteq> j"
  then consider "i < j" | "j < i" by linarith
  then show False
    by cases (use ordered_extents_nth(1) [OF assms(1,2,3)] ordered_extents_nth(1) [OF assms(1,3,2)]
        assms(4-7) in auto)
qed

text \<open>Two tables with no common position.\<close>

definition apart :: "('a \<Rightarrow> int \<times> int) \<Rightarrow> ('b \<Rightarrow> int \<times> int) \<Rightarrow> 'a list \<Rightarrow> 'b list \<Rightarrow> bool" where
  "apart f g xs ys \<longleftrightarrow>
     list_all (\<lambda>x. list_all (\<lambda>y. snd (f x) \<le> fst (g y) \<or> snd (g y) \<le> fst (f x)) ys) xs"

lemma apartD:
  "apart f g xs ys \<Longrightarrow> x \<in> set xs \<Longrightarrow> y \<in> set ys \<Longrightarrow> fst (f x) \<le> p \<Longrightarrow> p < snd (f x) \<Longrightarrow>
   \<not> (fst (g y) \<le> p \<and> p < snd (g y))"
  by (fastforce simp: apart_def list_all_iff)

locale extent_table =
  fixes lo :: "'e \<Rightarrow> int" and hi :: "'e \<Rightarrow> int" and lookup :: "'e list \<Rightarrow> int \<Rightarrow> 'e option"
  assumes lookup_law: "lookup items p =
    (let i = sort_search (length items) (\<lambda>i. p < hi (items ! i))
     in if i < length items \<and> lo (items ! i) \<le> p then Some (items ! i) else None)"
begin

lemma lookup_sound:
  assumes "lookup items p = Some e"
  shows "e \<in> set items" "lo e \<le> p" "p < hi e"
proof -
  define i where "i = sort_search (length items) (\<lambda>i. p < hi (items ! i))"
  from assms have i: "i < length items" "lo (items ! i) \<le> p" "e = items ! i"
    by (auto simp: lookup_law i_def Let_def split: if_splits)
  have "p < hi (items ! i)"
    using sort_search_hit [of "length items" "\<lambda>i. p < hi (items ! i)"] i(1) by (simp add: i_def)
  with i show "e \<in> set items" "lo e \<le> p" "p < hi e" by auto
qed

lemma lookup_complete:
  assumes ord: "ordered_extents lo hi items"
    and e: "e \<in> set items" "lo e \<le> p" "p < hi e"
  shows "lookup items p = Some e"
proof -
  from e(1) obtain k where k: "k < length items" "e = items ! k" by (metis in_set_conv_nth)
  have "sort_search (length items) (\<lambda>i. p < hi (items ! i)) = k"
  proof (rule sort_search_eqI)
    show "p < hi (items ! b)" if "a \<le> b" "b < length items" "p < hi (items ! a)" for a b
      using ordered_extents_hi_mono(1) [OF ord that(1,2)] that(3) by simp
    show "k \<le> length items" "k < length items \<Longrightarrow> p < hi (items ! k)" using k e by auto
    show "\<not> p < hi (items ! j)" if "j < k" for j
      using ordered_extents_nth(1) [OF ord _ k(1), of j] that k e by force
  qed
  with k e show ?thesis by (simp add: lookup_law)
qed

lemma lookup_iff:
  assumes "ordered_extents lo hi items"
  shows "lookup items p = Some e \<longleftrightarrow> e \<in> set items \<and> lo e \<le> p \<and> p < hi e"
  using lookup_sound lookup_complete [OF assms] by blast

lemma lookup_None_iff:
  assumes "ordered_extents lo hi items"
  shows "lookup items p = None \<longleftrightarrow> (\<forall>e \<in> set items. \<not> (lo e \<le> p \<and> p < hi e))"
proof (cases "lookup items p")
  case None
  then show ?thesis using lookup_complete [OF assms] by force
next
  case (Some e)
  then show ?thesis using lookup_sound [OF Some] by auto
qed

lemma lookup_is_find:
  assumes "ordered_extents lo hi items"
  shows "lookup items p = find (\<lambda>e. lo e \<le> p \<and> p < hi e) items"
proof (cases "find (\<lambda>e. lo e \<le> p \<and> p < hi e) items")
  case None
  then have "lookup items p = None"
    using lookup_None_iff [OF assms, of p] by (auto simp: find_None_iff)
  with None show ?thesis by simp
next
  case (Some e)
  then have "e \<in> set items" "lo e \<le> p" "p < hi e" by (auto simp: find_Some_iff)
  with lookup_complete [OF assms] Some show ?thesis by simp
qed

lemma lookup_apart:
  assumes "ordered_extents lo hi items" "apart f (\<lambda>y. (lo y, hi y)) xs items"
    and "x \<in> set xs" "fst (f x) \<le> p" "p < snd (f x)"
  shows "lookup items p = None"
  using apartD [OF assms(2,3) _ assms(4,5)] by (auto simp: lookup_None_iff [OF assms(1)])

text \<open>One lookup serves every position of the extent it found.\<close>

lemma lookup_whole_extent:
  assumes "ordered_extents lo hi items" "lookup items p = Some e" "lo e \<le> q" "q < hi e"
  shows "lookup items q = Some e"
  using lookup_sound [OF assms(2)] lookup_complete [OF assms(1) _ assms(3,4)] by blast

end

text \<open>
  The start of the next extent after a position, the bound of a gap that both the FAT32
  backend's three tables contribute to.
\<close>

definition next_start :: "('e \<Rightarrow> int) \<Rightarrow> 'e list \<Rightarrow> int \<Rightarrow> int \<Rightarrow> int" where
  "next_start lo items p limit =
     (let i = sort_search (length items) (\<lambda>i. p < lo (items ! i))
      in if i < length items \<and> lo (items ! i) < limit then lo (items ! i) else limit)"

lemma next_start_bounds:
  assumes "p < limit"
  shows "p < next_start lo items p limit" "next_start lo items p limit \<le> limit"
  using assms sort_search_hit [of "length items" "\<lambda>i. p < lo (items ! i)"]
  by (auto simp: next_start_def Let_def)

lemma next_start_skips:
  assumes ord: "ordered_extents lo hi items" and e: "e \<in> set items" "p < lo e"
  shows "next_start lo items p limit \<le> lo e"
proof -
  define i where "i = sort_search (length items) (\<lambda>i. p < lo (items ! i))"
  obtain k where k: "k < length items" "e = items ! k" using e(1) by (metis in_set_conv_nth)
  have mono: "p < lo (items ! b)" if "a \<le> b" "b < length items" "p < lo (items ! a)" for a b
    using ordered_extents_hi_mono(2) [OF ord that(1,2)] that(3) by simp
  have "i \<le> k"
  proof (rule ccontr)
    assume "\<not> i \<le> k"
    then have "k < i" by simp
    then have "\<not> p < lo (items ! k)"
      unfolding i_def by (rule sort_search_miss [rotated]) (rule mono)
    with k e show False by simp
  qed
  with ordered_extents_hi_mono(2) [OF ord _ k(1)] k have "lo (items ! i) \<le> lo e" by simp
  with \<open>i \<le> k\<close> k show ?thesis by (auto simp: next_start_def Let_def i_def [symmetric])
qed

end
