(* ===== verification/Vdisk_Fat.thy ===== *)
theory Vdisk_Fat
  imports Extents
begin

text \<open>
  The FAT of the Wii disk, \<open>server/host-daemon/vdisk/vdisk.go\<close>.  The disk never stores a
  FAT: it keeps the cluster chains and computes one entry (\<open>fatValue\<close>) or one sector
  (\<open>fillFATSector\<close>) on demand.  Cluster numbers are \<open>uint32\<close>, here naturals with \<open>u32\<close> on
  every addition; a sector buffer is the list of its bytes.
\<close>

section \<open>Entries and sectors\<close>

record cluster_chain =
  ccFirst :: nat
  ccCount :: nat

definition chain_end :: "cluster_chain \<Rightarrow> nat" where
  "chain_end c = u32 (ccFirst c + ccCount c)"

definition fat_value :: "cluster_chain list \<Rightarrow> nat \<Rightarrow> nat" where
  "fat_value chs cluster =
     (if cluster = 0 then 0x0ffffff8 else if cluster = 1 then 0xffffffff
      else let index = sort_search (length chs) (\<lambda>i. chain_end (chs ! i) > cluster)
           in if index = length chs then 0
              else let chain = chs ! index
                   in if cluster < ccFirst chain then 0
                      else if u32 (cluster + 1) = chain_end chain then 0x0fffffff
                      else u32 (cluster + 1))"

function fill_entries :: "nat \<Rightarrow> nat \<Rightarrow> nat \<Rightarrow> nat \<Rightarrow> byte list \<Rightarrow> byte list" where
  "fill_entries firstCluster endc cluster stop target =
     (if cluster < stop
      then fill_entries firstCluster endc (cluster + 1) stop
             (put_le target ((cluster - firstCluster) * 4) 4
                (if u32 (cluster + 1) = endc then 0x0fffffff else u32 (cluster + 1)))
      else target)"
  by pat_completeness auto
termination
  by (relation "measure (\<lambda>(f, e, c, s, t). s - c)") auto

declare fill_entries.simps [simp del]

fun fill_chains :: "nat \<Rightarrow> nat \<Rightarrow> cluster_chain list \<Rightarrow> byte list \<Rightarrow> byte list" where
  "fill_chains firstCluster lastCluster [] target = target"
| "fill_chains firstCluster lastCluster (chain # rest) target =
     (if lastCluster \<le> ccFirst chain then target
      else fill_chains firstCluster lastCluster rest
             (fill_entries firstCluster (chain_end chain)
                (max firstCluster (max (ccFirst chain) 2)) (min lastCluster (chain_end chain)) target))"

definition fill_fat_sector :: "cluster_chain list \<Rightarrow> nat \<Rightarrow> int \<Rightarrow> byte list" where
  "fill_fat_sector chs sz fatSector =
     (let firstCluster = u32_of (fatSector * 128);
          lastCluster = u32 (firstCluster + sz div 4);
          target = (if firstCluster = 0
                    then put_le (put_le (zeros sz) 0 4 0x0ffffff8) 4 4 0xffffffff
                    else zeros sz);
          index = sort_search (length chs) (\<lambda>i. chain_end (chs ! i) > firstCluster)
      in fill_chains firstCluster lastCluster (drop index chs) target)"

section \<open>Well-formed chains\<close>

text \<open>
  What \<open>Build\<close> allocates: ascending disjoint non-empty runs of data clusters, numbered
  below the reserved FAT32 values.
\<close>

definition chains_ok :: "cluster_chain list \<Rightarrow> bool" where
  "chains_ok chs \<longleftrightarrow>
     ordered_extents (\<lambda>c. int (ccFirst c)) (\<lambda>c. int (chain_end c)) chs \<and>
     (\<forall>c \<in> set chs. 0 < ccCount c \<and> 2 \<le> ccFirst c \<and> ccFirst c + ccCount c \<le> 0x0ffffff0)"

definition find_chain :: "cluster_chain list \<Rightarrow> int \<Rightarrow> cluster_chain option" where
  "find_chain chs p =
     (let i = sort_search (length chs) (\<lambda>i. p < int (chain_end (chs ! i)))
      in if i < length chs \<and> int (ccFirst (chs ! i)) \<le> p then Some (chs ! i) else None)"

interpretation fat_chains: extent_table "\<lambda>c. int (ccFirst c)" "\<lambda>c. int (chain_end c)" find_chain
  by unfold_locales (simp add: find_chain_def)

lemma chains_okD:
  assumes "chains_ok chs" "c \<in> set chs"
  shows "chain_end c = ccFirst c + ccCount c" "2 \<le> ccFirst c" "chain_end c \<le> 0x0ffffff0"
    "ccFirst c < chain_end c"
  using assms by (auto simp: chains_ok_def chain_end_def u32_def ordered_extents_def)

definition chain_entry :: "cluster_chain \<Rightarrow> nat \<Rightarrow> nat" where
  "chain_entry c cluster = (if cluster + 1 = chain_end c then 0x0fffffff else cluster + 1)"

lemma fat_value_find:
  assumes "chains_ok chs" "2 \<le> cluster"
  shows "fat_value chs cluster =
    (case find_chain chs (int cluster) of None \<Rightarrow> 0 | Some c \<Rightarrow> chain_entry c cluster)"
proof -
  define i where "i = sort_search (length chs) (\<lambda>i. chain_end (chs ! i) > cluster)"
  have le: "i \<le> length chs" unfolding i_def by (rule sort_search_le)
  show ?thesis
  proof (cases "i < length chs")
    case True
    then have end_i: "cluster < chain_end (chs ! i)"
      using sort_search_hit [of "length chs" "\<lambda>i. chain_end (chs ! i) > cluster"]
      by (simp add: i_def)
    with chains_okD(3) [OF assms(1), of "chs ! i"] True
    have "u32 (cluster + 1) = cluster + 1" by (simp add: u32_def)
    with True assms(2) show ?thesis
      by (simp add: fat_value_def find_chain_def Let_def i_def [symmetric] chain_entry_def not_le)
  next
    case False
    with le assms(2) show ?thesis
      by (simp add: fat_value_def find_chain_def Let_def i_def [symmetric])
  qed
qed

lemma fat_value_in_chain:
  assumes "chains_ok chs" "c \<in> set chs" "ccFirst c \<le> cluster" "cluster < chain_end c"
  shows "fat_value chs cluster = chain_entry c cluster"
proof -
  from assms(1) have "find_chain chs (int cluster) = Some c"
    by (intro fat_chains.lookup_complete) (use assms in \<open>auto simp: chains_ok_def\<close>)
  with fat_value_find [OF assms(1)] chains_okD(2) [OF assms(1,2)] assms(3) show ?thesis by simp
qed

lemma fat_value_free:
  assumes "chains_ok chs" "2 \<le> cluster"
    "\<forall>c \<in> set chs. \<not> (ccFirst c \<le> cluster \<and> cluster < chain_end c)"
  shows "fat_value chs cluster = 0"
proof -
  have "find_chain chs (int cluster) = None"
    using fat_chains.lookup_None_iff assms(1,3) unfolding chains_ok_def by simp
  with fat_value_find [OF assms(1,2)] show ?thesis by simp
qed

section \<open>A generated sector holds the entries of its clusters\<close>

lemma length_fill_entries [go_len, simp]:
  "firstCluster \<le> cluster \<Longrightarrow> (stop - firstCluster) * 4 \<le> length target \<Longrightarrow>
   length (fill_entries firstCluster endc cluster stop target) = length target"
proof (induction firstCluster endc cluster stop target rule: fill_entries.induct)
  case (1 f e c s t)
  show ?case
  proof (cases "c < s")
    case True
    have "(c - f) * 4 + 4 \<le> length t" using 1(2,3) True by simp
    with True 1 show ?thesis by (subst fill_entries.simps) simp
  next
    case False
    then show ?thesis by (subst fill_entries.simps) simp
  qed
qed

lemma get_fill_entries:
  assumes "firstCluster \<le> cluster" "(stop - firstCluster) * 4 \<le> length target"
    and "4 * j + 4 \<le> length target" "stop \<le> 0x0ffffff0"
  shows "get_le (fill_entries firstCluster endc cluster stop target) (4 * j) 4 =
    (if cluster \<le> firstCluster + j \<and> firstCluster + j < stop
     then (if firstCluster + j + 1 = endc then 0x0fffffff else firstCluster + j + 1)
     else get_le target (4 * j) 4)"
  using assms
proof (induction firstCluster endc cluster stop target rule: fill_entries.induct)
  case (1 f e c s t)
  show ?case
  proof (cases "c < s")
    case True
    define v where "v = (if u32 (c + 1) = e then 0x0fffffff else u32 (c + 1))"
    define t' where "t' = put_le t ((c - f) * 4) 4 v"
    have room: "(c - f) * 4 + 4 \<le> length t" using 1(2,3) True by simp
    then have len: "length t' = length t" by (simp add: t'_def)
    have u: "u32 (c + 1) = c + 1" using True 1(5) by (simp add: u32_def)
    have step: "fill_entries f e c s t = fill_entries f e (c + 1) s t'"
      using True by (subst fill_entries.simps) (simp add: t'_def v_def)
    have IH: "get_le (fill_entries f e (c + 1) s t') (4 * j) 4 =
        (if c + 1 \<le> f + j \<and> f + j < s then (if f + j + 1 = e then 0x0fffffff else f + j + 1)
         else get_le t' (4 * j) 4)"
      using "1.IH" [OF True] 1(2-5) len by (simp add: t'_def v_def)
    show ?thesis
    proof (cases "c = f + j")
      case here: True
      then have "4 * j = (c - f) * 4" by simp
      with get_le_put_le [OF room, of v] have "get_le t' (4 * j) 4 = v mod 256 ^ 4"
        by (simp only: t'_def)
      moreover have "v < 256 ^ 4" using u True 1(5) by (simp add: v_def)
      ultimately show ?thesis using step IH here True u by (simp add: v_def)
    next
      case False
      have "4 * j + 4 \<le> (c - f) * 4 \<or> (c - f) * 4 + 4 \<le> 4 * j" using False 1(2) by arith
      with room 1(4) have "get_le t' (4 * j) 4 = get_le t (4 * j) 4"
        by (simp add: t'_def get_le_put_le_other)
      with step IH False show ?thesis by auto
    qed
  next
    case False
    then show ?thesis by (subst fill_entries.simps) simp
  qed
qed

lemma length_fill_chains [go_len, simp]:
  "(lastCluster - firstCluster) * 4 \<le> length target \<Longrightarrow>
   length (fill_chains firstCluster lastCluster chs target) = length target"
proof (induction chs arbitrary: target)
  case Nil
  then show ?case by simp
next
  case (Cons c cs)
  have "(min lastCluster (chain_end c) - firstCluster) * 4 \<le> length target" using Cons.prems by arith
  with Cons show ?case by simp
qed

lemma get_fill_chains:
  assumes "\<forall>c \<in> set chs. 2 \<le> ccFirst c \<and> chain_end c \<le> 0x0ffffff0"
    and "ordered_extents (\<lambda>c. int (ccFirst c)) (\<lambda>c. int (chain_end c)) chs"
    and "(lastCluster - firstCluster) * 4 \<le> length target"
    and "4 * j + 4 \<le> length target" "firstCluster + j < lastCluster"
  shows "get_le (fill_chains firstCluster lastCluster chs target) (4 * j) 4 =
    (case find (\<lambda>c. ccFirst c \<le> firstCluster + j \<and> firstCluster + j < chain_end c) chs of
       None \<Rightarrow> get_le target (4 * j) 4
     | Some c \<Rightarrow> chain_entry c (firstCluster + j))"
  using assms
proof (induction chs arbitrary: target)
  case Nil
  then show ?case by simp
next
  case (Cons c cs)
  let ?x = "firstCluster + j"
  let ?in = "\<lambda>c. ccFirst c \<le> ?x \<and> ?x < chain_end c"
  define t' where "t' = fill_entries firstCluster (chain_end c)
    (max firstCluster (max (ccFirst c) 2)) (min lastCluster (chain_end c)) target"
  have ord: "ccFirst c \<le> chain_end c" "\<forall>x \<in> set cs. chain_end c \<le> ccFirst x"
    using Cons.prems(2) by auto
  show ?case
  proof (cases "lastCluster \<le> ccFirst c")
    case True
    have "find ?in (c # cs) = None"
      using True ord Cons.prems(5) by (auto simp: find_None_iff)
    with True show ?thesis by simp
  next
    case False
    have len: "length t' = length target"
      unfolding t'_def by (rule length_fill_entries) (use Cons.prems(3) in auto)
    have t': "get_le t' (4 * j) 4 = (if ?in c then chain_entry c ?x else get_le target (4 * j) 4)"
      unfolding t'_def
      by (subst get_fill_entries) (use Cons.prems in \<open>auto simp: chain_entry_def\<close>)
    have IH: "get_le (fill_chains firstCluster lastCluster cs t') (4 * j) 4 =
        (case find ?in cs of None \<Rightarrow> get_le t' (4 * j) 4 | Some c \<Rightarrow> chain_entry c ?x)"
      by (rule Cons.IH) (use Cons.prems len in auto)
    have "?in c \<Longrightarrow> find ?in cs = None" using ord by (auto simp: find_None_iff)
    with IH t' False show ?thesis
      by (cases "?in c") (auto simp: t'_def [symmetric] split: option.splits)
  qed
qed

lemma find_drop:
  "\<forall>k < i. \<not> P (xs ! k) \<Longrightarrow> i \<le> length xs \<Longrightarrow> find P (drop i xs) = find P xs"
proof (induction i arbitrary: xs)
  case 0
  then show ?case by simp
next
  case (Suc i)
  then obtain y ys where xs: "xs = y # ys" by (cases xs) auto
  have "\<forall>k < i. \<not> P (ys ! k)" using Suc.prems(1) xs by (metis Suc_mono nth_Cons_Suc)
  moreover have "\<not> P y" using Suc.prems(1) xs by (metis nth_Cons_0 zero_less_Suc)
  ultimately show ?case using Suc xs by simp
qed

lemma fill_fat_sector_entry:
  assumes ok: "chains_ok chs" and s: "0 \<le> s" "(s + 1) * 128 < 2 ^ 32" and j: "j < 128"
  shows "get_le (fill_fat_sector chs 512 s) (4 * j) 4 = fat_value chs (nat s * 128 + j)"
    and "length (fill_fat_sector chs 512 s) = 512"
proof -
  define f where "f = nat s * 128"
  have f: "u32_of (s * 128) = f" using s by (simp add: u32_of_def f_def nat_mult_distrib)
  have l: "u32 (f + 128) = f + 128"
    using s by (simp add: u32_def f_def)
  define i where "i = sort_search (length chs) (\<lambda>i. chain_end (chs ! i) > f)"
  define t where "t = (if f = 0 then put_le (put_le (zeros 512) 0 4 0x0ffffff8) 4 4 0xffffffff
    else zeros 512)"
  have i: "i \<le> length chs" unfolding i_def by (rule sort_search_le)
  have t_len: "length t = 512" by (simp add: t_def)
  have eq: "fill_fat_sector chs 512 s = fill_chains f (f + 128) (drop i chs) t"
    by (simp add: fill_fat_sector_def f l i_def t_def Let_def)
  show "length (fill_fat_sector chs 512 s) = 512" by (simp add: eq t_len)
  let ?in = "\<lambda>c. ccFirst c \<le> f + j \<and> f + j < chain_end c"
  have ord: "ordered_extents (\<lambda>c. int (ccFirst c)) (\<lambda>c. int (chain_end c)) chs"
    using ok by (simp add: chains_ok_def)
  have before: "\<forall>k < i. \<not> ?in (chs ! k)"
  proof (intro allI impI)
    fix k assume "k < i"
    then have "\<not> chain_end (chs ! k) > f"
      unfolding i_def
    proof (rule sort_search_miss [rotated])
      show "chain_end (chs ! b) > f" if "a \<le> b" "b < length chs" "chain_end (chs ! a) > f" for a b
        using ordered_extents_hi_mono(1) [OF ord that(1,2)] that(3) by simp
    qed
    then show "\<not> ?in (chs ! k)" by simp
  qed
  have drop_ord: "ordered_extents (\<lambda>c. int (ccFirst c)) (\<lambda>c. int (chain_end c)) (drop i chs)"
    using ord by (metis append_take_drop_id ordered_extents_append)
  have drop_ok: "\<forall>c \<in> set (drop i chs). 2 \<le> ccFirst c \<and> chain_end c \<le> 0x0ffffff0"
    using chains_okD [OF ok] by (meson in_set_dropD)
  have got: "get_le (fill_fat_sector chs 512 s) (4 * j) 4 =
      (case find ?in chs of None \<Rightarrow> get_le t (4 * j) 4 | Some c \<Rightarrow> chain_entry c (f + j))"
    unfolding eq find_drop [OF before i, symmetric]
    by (rule get_fill_chains [OF drop_ok drop_ord]) (use t_len j in simp_all)
  show "get_le (fill_fat_sector chs 512 s) (4 * j) 4 = fat_value chs (nat s * 128 + j)"
  proof (cases "f + j < 2")
    case True
    then have "find ?in chs = None" using chains_okD(2) [OF ok] by (force simp: find_None_iff)
    moreover from True have "f = 0" by (simp add: f_def)
    moreover from True have "j = 0 \<or> j = 1" by auto
    ultimately show ?thesis using got
      by (auto simp: f_def [symmetric] fat_value_def t_def get_le_put_le get_le_put_le_other)
  next
    case False
    have "get_le t (4 * j) 4 = 0"
    proof (cases "f = 0")
      case True
      with False have "2 \<le> j" by simp
      with True j show ?thesis by (simp add: t_def get_le_put_le_other get_le_zeros)
    next
      case False
      with j show ?thesis by (simp add: t_def get_le_zeros)
    qed
    moreover have "find_chain chs (int (f + j)) = find ?in chs"
      using fat_chains.lookup_is_find [OF ord, of "int (f + j)"] by (simp flip: of_nat_add)
    ultimately show ?thesis
      using got False fat_value_find [OF ok, of "f + j"]
      by (simp add: f_def [symmetric] split: option.splits)
  qed
qed

section \<open>Reading the FAT as a driver does\<close>

text \<open>
  A driver follows the entries from a file's first cluster until an end-of-chain mark
  (\<open>0x0ffffff8\<close> and above); \<open>fat_follow\<close> gives up, \<open>None\<close>, when the fuel runs out.
\<close>

fun fat_follow :: "(nat \<Rightarrow> nat) \<Rightarrow> nat \<Rightarrow> nat \<Rightarrow> nat list option" where
  "fat_follow entry 0 cluster = None"
| "fat_follow entry (Suc fuel) cluster =
     (if entry cluster \<ge> 0x0ffffff8 then Some [cluster]
      else map_option ((#) cluster) (fat_follow entry fuel (entry cluster)))"

lemma fat_follow_run:
  assumes "\<And>k. a \<le> k \<Longrightarrow> k < b \<Longrightarrow> entry k = (if k + 1 = b then 0x0fffffff else k + 1)"
    and "a < b" "b \<le> 0x0ffffff0"
  shows "fat_follow entry (b - a) a = Some [a..<b]"
  using assms
proof (induction "b - a" arbitrary: a)
  case 0
  then show ?case by simp
next
  case (Suc n)
  show ?case
  proof (cases "a + 1 = b")
    case True
    with Suc.prems(1) [of a] show ?thesis by (auto simp: upt_rec)
  next
    case False
    with Suc.hyps(2) Suc.prems(2) have n: "n = b - (a + 1)" "a + 1 < b" by auto
    from n(2) Suc.prems have "fat_follow entry (b - (a + 1)) (a + 1) = Some [a + 1..<b]"
      by (intro Suc.hyps(1) [OF n(1)]) auto
    with n have "fat_follow entry n (a + 1) = Some [a + 1..<b]" by simp
    with Suc.prems(1) [of a] Suc.prems(2,3) Suc.hyps(2) [symmetric] False n(2) show ?thesis
      by (simp add: upt_rec)
  qed
qed

lemma fat_follow_chain:
  assumes "chains_ok chs" "c \<in> set chs"
  shows "fat_follow (fat_value chs) (ccCount c) (ccFirst c) = Some [ccFirst c..<ccFirst c + ccCount c]"
proof -
  note ok = chains_okD [OF assms]
  have "fat_follow (fat_value chs) (chain_end c - ccFirst c) (ccFirst c) =
      Some [ccFirst c..<chain_end c]"
    by (rule fat_follow_run)
      (use fat_value_in_chain [OF assms] ok(3,4) in \<open>auto simp: chain_entry_def\<close>)
  with ok(1) show ?thesis by simp
qed

section \<open>Properties\<close>

text \<open>
  C21.  A FAT sector filled by walking the intersecting chains equals the sector built entry by
  entry with \<open>fatValue\<close>: all 128 little-endian entries agree, for every sector of the FAT.
\<close>

theorem fill_fat_sector_is_fat_value:
  assumes "chains_ok chs" "0 \<le> s" "(s + 1) * 128 < 2 ^ 32"
  shows "map (\<lambda>j. get_le (fill_fat_sector chs 512 s) (4 * j) 4) [0..<128] =
    map (\<lambda>j. fat_value chs (nat s * 128 + j)) [0..<128]"
  using fill_fat_sector_entry(1) [OF assms] by simp

definition demo_chains :: "cluster_chain list" where
  "demo_chains = [\<lparr>ccFirst = 2, ccCount = 1\<rparr>, \<lparr>ccFirst = 3, ccCount = 1\<rparr>, \<lparr>ccFirst = 4, ccCount = 300\<rparr>]"

lemma demo_chains_ok: "chains_ok demo_chains"
  by (simp add: chains_ok_def demo_chains_def chain_end_def u32_def)

theorem fill_fat_sector_is_fat_value_witness:
  "get_le (fill_fat_sector demo_chains 512 1) (4 * 5) 4 = fat_value demo_chains 133"
proof -
  have "map (\<lambda>j. get_le (fill_fat_sector demo_chains 512 1) (4 * j) 4) [0..<128] ! 5 =
    map (\<lambda>j. fat_value demo_chains (nat 1 * 128 + j)) [0..<128] ! 5"
    by (subst fill_fat_sector_is_fat_value [OF demo_chains_ok]) simp_all
  then show ?thesis by simp
qed

text \<open>
  C22.  A driver that follows the FAT from a chain's first cluster visits exactly the chain's
  clusters, in order, and then meets the end-of-chain mark; a cluster of no chain reads as free.
\<close>

theorem fat_chain_walk:
  assumes "chains_ok chs"
  shows "(\<forall>c \<in> set chs. fat_follow (fat_value chs) (ccCount c) (ccFirst c) =
      Some [ccFirst c..<ccFirst c + ccCount c]) \<and>
    (\<forall>k \<ge> 2. (\<forall>c \<in> set chs. \<not> (ccFirst c \<le> k \<and> k < ccFirst c + ccCount c)) \<longrightarrow>
      fat_value chs k = 0)"
  using fat_follow_chain [OF assms] fat_value_free [OF assms] chains_okD(1) [OF assms] by simp

theorem fat_chain_walk_witness:
  "fat_follow (fat_value demo_chains) 300 4 = Some [4..<304] \<and> fat_value demo_chains 304 = 0"
  using fat_chain_walk [OF demo_chains_ok] by (simp add: demo_chains_def)

end
