(* ===== verification/Go_Std.thy ===== *)
theory Go_Std
  imports Prelude "HOL-Library.List_Lexorder" "HOL-Library.Char_ord"
begin

text \<open>
  The standard library as far as the packages use it: strings as byte sequences with the
  ASCII case mapping, \<open>fmt\<close>'s decimal, hexadecimal and padded forms, the decoding of UTF-8
  into runes and of runes into UTF-16, and \<open>crypto/sha256\<close>.  \<open>strings.ToUpper\<close> and
  \<open>ToLower\<close> are given on ASCII; other bytes are left as they are.
\<close>

section \<open>Strings\<close>

definition bytes_of :: "string \<Rightarrow> byte list" where
  "bytes_of s = map of_char s"

lemma length_bytes_of [go_len, simp]: "length (bytes_of s) = length s"
  by (simp add: bytes_of_def)

definition code_of :: "char \<Rightarrow> nat" where
  "code_of c = of_char c"

definition upper_char :: "char \<Rightarrow> char" where
  "upper_char c = (if 97 \<le> code_of c \<and> code_of c \<le> 122 then char_of (code_of c - 32) else c)"

definition lower_char :: "char \<Rightarrow> char" where
  "lower_char c = (if 65 \<le> code_of c \<and> code_of c \<le> 90 then char_of (code_of c + 32) else c)"

definition to_upper :: "string \<Rightarrow> string" where
  "to_upper s = map upper_char s"

definition to_lower :: "string \<Rightarrow> string" where
  "to_lower s = map lower_char s"

lemma length_to_upper [go_len, simp]: "length (to_upper s) = length s"
  by (simp add: to_upper_def)

definition pad_right :: "nat \<Rightarrow> string \<Rightarrow> string" where
  "pad_right w s = s @ replicate (w - length s) (CHR '' '')"

definition digit_char :: "nat \<Rightarrow> char" where
  "digit_char d = ''0123456789ABCDEF'' ! d"

fun show_base :: "nat \<Rightarrow> nat \<Rightarrow> string" where
  "show_base b n = (if n < b \<or> b < 2 then [digit_char (n mod 16)]
                    else show_base b (n div b) @ [digit_char (n mod b)])"

declare show_base.simps [simp del]

definition show_nat :: "nat \<Rightarrow> string" where
  "show_nat n = show_base 10 n"

definition show_int :: "int \<Rightarrow> string" where
  "show_int i = (if i < 0 then CHR ''-'' # show_nat (nat (- i)) else show_nat (nat i))"

text \<open>\<open>%X\<close> of a byte slice: two digits a byte.\<close>

definition hex_upper :: "byte list \<Rightarrow> string" where
  "hex_upper bs = concat (map (\<lambda>b. [digit_char (unat b div 16), digit_char (unat b mod 16)]) bs)"

lemma length_hex_upper [go_len, simp]: "length (hex_upper bs) = 2 * length bs"
  by (induction bs) (auto simp: hex_upper_def)

definition hex_lower :: "byte list \<Rightarrow> string" where
  "hex_lower bs = to_lower (hex_upper bs)"

text \<open>\<open>strings.Split\<close> at one character.\<close>

fun split_on :: "char \<Rightarrow> string \<Rightarrow> string list" where
  "split_on c [] = [[]]"
| "split_on c (x # xs) =
     (if x = c then [] # split_on c xs
      else case split_on c xs of [] \<Rightarrow> [[x]] | p # ps \<Rightarrow> (x # p) # ps)"

section \<open>Runes\<close>

definition cont_byte :: "nat \<Rightarrow> bool" where
  "cont_byte b \<longleftrightarrow> 0x80 \<le> b \<and> b < 0xc0"

text \<open>
  One rune and the bytes it takes: the well-formed UTF-8 sequences of two to four bytes
  (no overlong form, no surrogate, nothing above \<open>0x10ffff\<close>), and the replacement rune
  for one byte otherwise.
\<close>

fun decode_rune :: "nat list \<Rightarrow> nat \<times> nat" where
  "decode_rune [] = (0xfffd, 0)"
| "decode_rune (a # bs) =
     (if a < 0x80 then (a, 1)
      else case bs of
        b # bs2 \<Rightarrow>
          (if 0xc2 \<le> a \<and> a \<le> 0xdf \<and> cont_byte b then ((a - 0xc0) * 64 + (b - 0x80), 2)
           else case bs2 of
             c # bs3 \<Rightarrow>
               (if 0xe0 \<le> a \<and> a \<le> 0xef \<and> cont_byte b \<and> cont_byte c \<and>
                   (a = 0xe0 \<longrightarrow> 0xa0 \<le> b) \<and> (a = 0xed \<longrightarrow> b < 0xa0)
                then ((a - 0xe0) * 4096 + (b - 0x80) * 64 + (c - 0x80), 3)
                else case bs3 of
                  d # _ \<Rightarrow>
                    (if 0xf0 \<le> a \<and> a \<le> 0xf4 \<and> cont_byte b \<and> cont_byte c \<and> cont_byte d \<and>
                        (a = 0xf0 \<longrightarrow> 0x90 \<le> b) \<and> (a = 0xf4 \<longrightarrow> b < 0x90)
                     then ((a - 0xf0) * 262144 + (b - 0x80) * 4096 + (c - 0x80) * 64 + (d - 0x80), 4)
                     else (0xfffd, 1))
                | [] \<Rightarrow> (0xfffd, 1))
           | [] \<Rightarrow> (0xfffd, 1))
      | [] \<Rightarrow> (0xfffd, 1))"

lemma decode_rune_width: "bs \<noteq> [] \<Longrightarrow> 0 < snd (decode_rune bs)"
  by (cases bs) (auto split: list.splits)

function runes_from :: "nat list \<Rightarrow> nat list" where
  "runes_from bs = (if bs = [] then []
     else fst (decode_rune bs) # runes_from (drop (snd (decode_rune bs)) bs))"
  by pat_completeness auto
termination
  by (relation "measure length") (auto simp: decode_rune_width)

declare runes_from.simps [simp del]

definition runes :: "string \<Rightarrow> nat list" where
  "runes s = runes_from (map code_of s)"

lemma runes_from_ascii: "\<forall>b \<in> set bs. b < 0x80 \<Longrightarrow> runes_from bs = bs"
  by (induction bs) (auto simp: runes_from.simps)

lemma runes_ascii: "\<forall>c \<in> set s. code_of c < 0x80 \<Longrightarrow> runes s = map code_of s"
  by (simp add: runes_def runes_from_ascii)

definition utf16_encode :: "nat list \<Rightarrow> nat list" where
  "utf16_encode rs = concat (map (\<lambda>r.
     if 0x10000 \<le> r \<and> r \<le> 0x10ffff
     then [0xd800 + (r - 0x10000) div 1024, 0xdc00 + (r - 0x10000) mod 1024]
     else if r < 0x10000 \<and> \<not> (0xd800 \<le> r \<and> r < 0xe000) then [r] else [0xfffd]) rs)"

section \<open>SHA-256\<close>

type_synonym w32 = "32 word"

text \<open>The round constants, in decimal.\<close>

definition sha_k :: "w32 list" where
  "sha_k =
    [1116352408, 1899447441, 3049323471, 3921009573, 961987163, 1508970993, 2453635748, 2870763221,
     3624381080, 310598401, 607225278, 1426881987, 1925078388, 2162078206, 2614888103, 3248222580,
     3835390401, 4022224774, 264347078, 604807628, 770255983, 1249150122, 1555081692, 1996064986,
     2554220882, 2821834349, 2952996808, 3210313671, 3336571891, 3584528711, 113926993, 338241895,
     666307205, 773529912, 1294757372, 1396182291, 1695183700, 1986661051, 2177026350, 2456956037,
     2730485921, 2820302411, 3259730800, 3345764771, 3516065817, 3600352804, 4094571909, 275423344,
     430227734, 506948616, 659060556, 883997877, 958139571, 1322822218, 1537002063, 1747873779,
     1955562222, 2024104815, 2227730452, 2361852424, 2428436474, 2756734187, 3204031479, 3329325298]"

definition sha_init :: "w32 list" where
  "sha_init =
    [1779033703, 3144134277, 1013904242, 2773480762,
     1359893119, 2600822924, 528734635, 1541459225]"

definition sha_sched_word :: "w32 list \<Rightarrow> w32" where
  "sha_sched_word ws =
     (let t = length ws; x = ws ! (t - 15); y = ws ! (t - 2);
          s0 = xor (xor (word_rotr 7 x) (word_rotr 18 x)) (drop_bit 3 x);
          s1 = xor (xor (word_rotr 17 y) (word_rotr 19 y)) (drop_bit 10 y)
      in ws ! (t - 16) + s0 + ws ! (t - 7) + s1)"

definition sha_schedule :: "w32 list \<Rightarrow> w32 list" where
  "sha_schedule block = ((\<lambda>ws. ws @ [sha_sched_word ws]) ^^ 48) block"

fun sha_round :: "w32 list \<Rightarrow> w32 \<times> w32 \<Rightarrow> w32 list" where
  "sha_round [a, b, c, d, e, f, g, h] (k, w) =
     (let S1 = xor (xor (word_rotr 6 e) (word_rotr 11 e)) (word_rotr 25 e);
          ch = xor (and e f) (and (not e) g);
          t1 = h + S1 + ch + k + w;
          S0 = xor (xor (word_rotr 2 a) (word_rotr 13 a)) (word_rotr 22 a);
          mj = xor (xor (and a b) (and a c)) (and b c)
      in [t1 + (S0 + mj), a, b, c, d + t1, e, f, g])"
| "sha_round st kw = st"

definition sha_compress :: "w32 list \<Rightarrow> w32 list \<Rightarrow> w32 list" where
  "sha_compress st block =
     map2 (+) st (foldl sha_round st (zip sha_k (sha_schedule block)))"

definition sha_pad :: "byte list \<Rightarrow> byte list" where
  "sha_pad msg = msg @ [0x80] @ zeros ((119 - length msg mod 64) mod 64) @ be_bytes 8 (8 * length msg)"

function chunks :: "nat \<Rightarrow> 'a list \<Rightarrow> 'a list list" where
  "chunks n xs = (if n = 0 \<or> xs = [] then [] else take n xs # chunks n (drop n xs))"
  by pat_completeness auto
termination
  by (relation "measure (\<lambda>(n, xs). length xs)") auto

declare chunks.simps [simp del]

definition sha256 :: "byte list \<Rightarrow> byte list" where
  "sha256 msg =
     concat (map (\<lambda>w. be_bytes 4 (unat w))
       (foldl sha_compress sha_init
          (map (\<lambda>blk. map (\<lambda>bs. word_of_nat (be_val bs)) (chunks 4 blk)) (chunks 64 (sha_pad msg)))))"

lemma length_sha_round: "length (sha_round st kw) = length st"
  by (induction st kw rule: sha_round.induct) (auto simp: Let_def)

lemma length_foldl_sha_round: "length (foldl sha_round st kws) = length st"
  by (induction kws arbitrary: st) (auto simp: length_sha_round)

lemma length_sha_compress: "length st = 8 \<Longrightarrow> length (sha_compress st block) = 8"
  by (simp add: sha_compress_def length_foldl_sha_round)

lemma length_sha256 [go_len, simp]: "length (sha256 msg) = 32"
proof -
  have "length st = 8 \<Longrightarrow> length (foldl sha_compress st blks) = 8" for st blks
    by (induction blks arbitrary: st) (auto simp: length_sha_compress)
  from this [of sha_init] show ?thesis
    by (simp add: sha256_def length_concat sha_init_def comp_def sum_list_triv)
qed

end
