(* ===== verification/Host_OS.thy ===== *)
theory Host_OS
  imports Prelude
begin

text \<open>
  The catalog's data (\<open>shared/model/model.go\<close>), the identity of a source file
  (\<open>shared/sourceidentity/filesystem.go\<close>, \<open>VerifySource\<close> of
  \<open>server/host-daemon/scanner/scanner.go\<close>) and the positional read loop that the virtual
  disks share.  The kernel is a record of its calls, each of which may change a world of
  an arbitrary type: two calls need not agree, so a file may change between a check and a
  read.  What a correct kernel promises of a read is \<open>honest_pread\<close>.
\<close>

section \<open>The catalog's data\<close>

record source =
  srcPath :: string
  srcOffset :: int
  srcLength :: int
  srcSize :: int
  srcModUnix :: int
  srcFilesystemID :: string
  srcDevice :: nat
  srcInode :: nat

record game =
  gmID :: string
  gmTitle :: string
  gmSources :: "source list"
  gmSize :: int
  gmAvailability :: string

record virtual_file =
  vfPath :: string
  vfGameID :: string
  vfLogicalStart :: int
  vfLength :: int

section \<open>The kernel's interface\<close>

text \<open>
  \<open>fiModNano\<close> is \<open>ModTime().UnixNano()\<close>; so is \<open>srcModUnix\<close>, the field \<open>ModUnix\<close> of a source
  (\<open>mod_unix_ns\<close> in JSON).
\<close>

record file_info =
  fiRegular :: bool
  fiIsDir :: bool
  fiSymlink :: bool
  fiSize :: int
  fiModNano :: int
  fiSys :: "(nat \<times> nat) option"

record 'w os =
  os_stat :: "string \<Rightarrow> 'w \<Rightarrow> (go_err + file_info) \<times> 'w"
  os_lstat :: "string \<Rightarrow> 'w \<Rightarrow> (go_err + file_info) \<times> 'w"
  os_statfs :: "string \<Rightarrow> 'w \<Rightarrow> (go_err + (nat \<times> nat \<times> nat)) \<times> 'w"
  os_open :: "string \<Rightarrow> 'w \<Rightarrow> (go_err + nat) \<times> 'w"
  os_pread :: "nat \<Rightarrow> nat \<Rightarrow> int \<Rightarrow> 'w \<Rightarrow> (byte list \<times> go_err option) \<times> 'w"
  os_close :: "nat \<Rightarrow> 'w \<Rightarrow> go_err option \<times> 'w"

section \<open>Filesystem identity\<close>

definition hex_digit :: "nat \<Rightarrow> char" where
  "hex_digit d = (''0123456789abcdef'' ! d)"

primrec hex_fixed :: "nat \<Rightarrow> nat \<Rightarrow> string" where
  "hex_fixed 0 n = []"
| "hex_fixed (Suc k) n = hex_fixed k (n div 16) @ [hex_digit (n mod 16)]"

text \<open>The two 32-bit words of \<open>f_fsid\<close> are the second and third component.\<close>

definition filesystem_id :: "nat \<times> nat \<times> nat \<Rightarrow> string" where
  "filesystem_id st = (case st of (ty, v0, v1) \<Rightarrow>
     if ty \<noteq> 0x2fc12fc1 \<and> ty \<noteq> 0xef53 then ''''
     else if v0 = 0 \<and> v1 = 0 then ''''
     else (if ty = 0x2fc12fc1 then ''zfs'' else ''ext4'') @ '':'' @ hex_fixed 8 v0 @ hex_fixed 8 v1)"

definition get_filesystem_id :: "'w os \<Rightarrow> string \<Rightarrow> 'w \<Rightarrow> (go_err + string) \<times> 'w" where
  "get_filesystem_id os path w = (case os_statfs os path w of
     (Inl err, w') \<Rightarrow> (Inl err, w')
   | (Inr st, w') \<Rightarrow> (Inr (filesystem_id st), w'))"

definition same_filesystem :: "string \<Rightarrow> nat \<Rightarrow> string \<Rightarrow> nat \<Rightarrow> bool" where
  "same_filesystem expectedID expectedDevice actualID actualDevice =
     (if expectedID \<noteq> '''' then actualID = expectedID else expectedDevice = actualDevice)"

definition verify_source :: "'w os \<Rightarrow> source \<Rightarrow> 'w \<Rightarrow> go_err option \<times> 'w" where
  "verify_source os s w = (case os_stat os (srcPath s) w of
     (Inl err, w1) \<Rightarrow> (Some err, w1)
   | (Inr info, w1) \<Rightarrow>
       (case (if srcFilesystemID s \<noteq> '''' then get_filesystem_id os (srcPath s) w1
              else (Inr '''', w1)) of
          (Inl err, w2) \<Rightarrow> (Some err, w2)
        | (Inr fsid, w2) \<Rightarrow>
            (case fiSys info of
               None \<Rightarrow> (Some (Msg ''source identity changed''), w2)
             | Some (dev, ino) \<Rightarrow>
                 if fiSize info \<noteq> srcSize s \<or> fiModNano info \<noteq> srcModUnix s \<or>
                    \<not> same_filesystem (srcFilesystemID s) (srcDevice s) fsid dev \<or>
                    ino \<noteq> srcInode s
                 then (Some (Msg ''source identity changed''), w2)
                 else (None, w2))))"

section \<open>Positional reads\<close>

text \<open>\<open>readAtFull\<close> and \<open>readFullAt\<close>: the same loop under two names.\<close>

function read_at_full ::
  "'w os \<Rightarrow> nat \<Rightarrow> nat \<Rightarrow> int \<Rightarrow> byte list \<Rightarrow> 'w \<Rightarrow> (byte list \<times> go_err option) \<times> 'w" where
  "read_at_full os h len off acc w =
     (if length acc < len
      then case os_pread os h (len - length acc) (off + int (length acc)) w of
             ((bs, e), w') \<Rightarrow>
               if length (acc @ bs) = len then ((acc @ bs, None), w')
               else case e of
                      Some err \<Rightarrow> ((acc @ bs, Some err), w')
                    | None \<Rightarrow> if bs = [] then ((acc @ bs, Some ErrNoProgress), w')
                              else read_at_full os h len off (acc @ bs) w'
      else ((acc, None), w))"
  by pat_completeness auto
termination
  by (relation "measure (\<lambda>(os, h, len, off, acc, w). len - length acc)") (auto intro: diff_less_mono2)

declare read_at_full.simps [simp del]

text \<open>
  The promise of \<open>pread\<close> on a regular file with contents \<open>c\<close>: the bytes it returns are
  those at the offset, never more than asked; a complete reader also returns them all when
  the range lies within the file.
\<close>

definition honest_pread :: "'w os \<Rightarrow> nat \<Rightarrow> byte list \<Rightarrow> bool" where
  "honest_pread os h c \<longleftrightarrow>
     (\<forall>n off w bs e w'. 0 \<le> off \<longrightarrow> os_pread os h n off w = ((bs, e), w') \<longrightarrow>
        length bs \<le> n \<and> bs = slice c (nat off) (length bs))"

definition honest_os :: "'w os \<Rightarrow> (string \<Rightarrow> byte list) \<Rightarrow> bool" where
  "honest_os os content \<longleftrightarrow>
     (\<forall>path w h w'. os_open os path w = (Inr h, w') \<longrightarrow> honest_pread os h (content path))"

definition complete_pread :: "'w os \<Rightarrow> nat \<Rightarrow> byte list \<Rightarrow> bool" where
  "complete_pread os h c \<longleftrightarrow>
     (\<forall>n off w. 0 \<le> off \<longrightarrow> nat off + n \<le> length c \<longrightarrow>
        (\<exists>w'. os_pread os h n off w = ((slice c (nat off) n, None), w')))"

lemma slice_snoc_slice:
  "bs = slice c (a + length acc) (length bs) \<Longrightarrow> acc = slice c a (length acc) \<Longrightarrow>
   acc @ bs = slice c a (length (acc @ bs))"
  by (metis length_append slice_append_split)

lemma read_at_full_honest:
  assumes "honest_pread os h c" "0 \<le> off"
  shows "read_at_full os h len off acc w = ((bs, e), w') \<Longrightarrow> length acc \<le> len \<Longrightarrow>
    acc = slice c (nat off) (length acc) \<Longrightarrow>
    length bs \<le> len \<and> bs = slice c (nat off) (length bs) \<and> (e = None \<longleftrightarrow> length bs = len)"
  using assms
proof (induction os h len off acc w rule: read_at_full.induct)
  case (1 os h len off acc w)
  show ?case
  proof (cases "length acc < len")
    case False
    with 1 show ?thesis by (simp add: read_at_full.simps)
  next
    case True
    obtain x e1 w1 where p: "os_pread os h (len - length acc) (off + int (length acc)) w = ((x, e1), w1)"
      by (metis prod.exhaust)
    have x: "length x \<le> len - length acc" "x = slice c (nat off + length acc) (length x)"
      using "1.prems" p unfolding honest_pread_def
      by (metis (no_types, lifting) add_nonneg_nonneg of_nat_0_le_iff nat_add_distrib nat_int)+
    from slice_snoc_slice [OF x(2) "1.prems"(3)]
    have ax: "acc @ x = slice c (nat off) (length (acc @ x))" .
    show ?thesis
    proof (cases "length (acc @ x) \<noteq> len \<and> e1 = None \<and> x \<noteq> []")
      case rec: True
      with "1.prems"(1) True p have "read_at_full os h len off (acc @ x) w1 = ((bs, e), w')"
        by (simp add: read_at_full.simps [of os h len off acc w])
      then show ?thesis
        using "1.IH" [OF True p [symmetric] refl] rec x(1) True ax "1.prems"(4,5) by simp
    next
      case False
      with "1.prems"(1) True p have "bs = acc @ x" "e = None \<longleftrightarrow> length (acc @ x) = len"
        by (auto simp: read_at_full.simps [of os h len off acc w] split: if_splits option.splits)
      with ax x(1) True show ?thesis by (metis (no_types, lifting) add_leD2 le_diff_conv2
          length_append less_or_eq_imp_le add.commute)
    qed
  qed
qed

lemma read_at_full_complete:
  assumes "complete_pread os h c" "0 \<le> off" "nat off + len \<le> length c" "0 < len"
  shows "\<exists>w'. read_at_full os h len off [] w = ((slice c (nat off) len, None), w')"
proof -
  from assms obtain w' where "os_pread os h len off w = ((slice c (nat off) len, None), w')"
    unfolding complete_pread_def by blast
  with assms(3,4) show ?thesis by (simp add: read_at_full.simps)
qed

section \<open>A kernel over an in-memory file tree\<close>

text \<open>An instance of the kernel's interface: handles are positions in the file table.\<close>

definition mem_os :: "(string \<times> file_info \<times> byte list) list \<Rightarrow> unit os" where
  "mem_os files =
     (let stat = (\<lambda>p w. (case find (\<lambda>f. fst f = p) files of
            None \<Rightarrow> Inl ErrNotExist | Some (_, info, _) \<Rightarrow> Inr info, w))
      in \<lparr>os_stat = stat, os_lstat = stat, os_statfs = (\<lambda>p w. (Inr (0, 0, 0), w)),
          os_open = (\<lambda>p w. let i = length (takeWhile (\<lambda>f. fst f \<noteq> p) files)
                           in (if i < length files then Inr i else Inl ErrNotExist, w)),
          os_pread = (\<lambda>h n off w.
            let bs = slice (snd (snd (files ! h))) (nat off) n
            in ((bs, if length bs = n then None else Some EOF), w)),
          os_close = (\<lambda>h w. (None, w))\<rparr>)"

definition mem_content :: "(string \<times> file_info \<times> byte list) list \<Rightarrow> string \<Rightarrow> byte list" where
  "mem_content files p =
     (case find (\<lambda>f. fst f = p) files of None \<Rightarrow> [] | Some f \<Rightarrow> snd (snd f))"

lemma mem_open_index:
  "i = length (takeWhile (\<lambda>f. fst f \<noteq> p) files) \<Longrightarrow> i < length files \<Longrightarrow>
   snd (snd (files ! i)) = mem_content files p"
  by (induction files arbitrary: i) (auto simp: mem_content_def)

lemma mem_os_honest: "honest_os (mem_os files) (mem_content files)"
proof -
  have idem: "take n (drop k c) = take (min (length c - k) n) (drop k c)" for n k and c :: "byte list"
    by (metis length_drop min.commute take_all_iff take_take nle_le min_def)
  show ?thesis
    using mem_open_index [of _ _ files] idem
    by (auto simp: honest_os_def honest_pread_def mem_os_def Let_def slice_def split: if_splits)
qed

end
