(* ===== verification/Vdisk_Build.thy ===== *)
theory Vdisk_Build
  imports Vdisk_Geometry Vdisk_Fat Go_Std Host_OS
begin

text \<open>
  \<open>Build\<close> of \<open>server/host-daemon/vdisk/vdisk.go\<close> and the writers of its metadata: the MBR,
  the boot sector, FSInfo, the directory entries, the cluster chains and the extents that
  map data clusters to source ranges.  \<open>d.metadata\<close> is a map from sectors to their bytes,
  an association list because \<open>metadataIdentity\<close> and \<open>forEachMetadataSector\<close> iterate it
  (sorted).  The snapshot is modelled but for its \<open>SnapshotID\<close> (a hash over a JSON text),
  its time and the application's version string.
\<close>

section \<open>State\<close>

record disk_extent =
  exStart :: int
  exLength :: int
  exSource :: source
  exSourceOffset :: int
  exZero :: bool

record snapshot =
  snCatalogID :: string
  snVirtualDiskSize :: int
  snMetadataHash :: string
  snGames :: "game list"
  snVirtualFiles :: "virtual_file list"

record disk =
  dkSize :: int
  dkSectorsPerCluster :: int
  dkMetadata :: "(int \<times> byte list) list"
  dkFatStart :: int
  dkFatSectors :: int
  dkFatChains :: "cluster_chain list"
  dkExtents :: "disk_extent list"
  dkSnapshot :: snapshot

record wii_file =
  wfName :: string
  wfShort :: string
  wfGame :: game
  wfOff :: int
  wfLength :: int
  wfFirst :: nat

definition empty_snapshot :: snapshot where
  "empty_snapshot = \<lparr>snCatalogID = [], snVirtualDiskSize = 0, snMetadataHash = [], snGames = [],
     snVirtualFiles = []\<rparr>"

section \<open>Metadata writers\<close>

definition mbr :: "int \<Rightarrow> int \<Rightarrow> nat \<Rightarrow> byte list" where
  "mbr start sectors signature =
     (let b0 = put_le (zeros 512) 440 4 signature;
          b1 = b0[446 := 0x00, 450 := 0x0c];
          b2 = b1[447 := 0x20, 448 := 0x21, 449 := 0x00];
          b3 = b2[451 := 0xfe, 452 := 0xff, 453 := 0xff];
          b4 = put_le b3 454 4 (u32_of start);
          b5 = put_le b4 458 4 (u32_of sectors)
      in b5[510 := 0x55, 511 := 0xaa])"

definition boot_sector :: "int \<Rightarrow> int \<Rightarrow> int \<Rightarrow> nat \<Rightarrow> nat \<Rightarrow> byte list" where
  "boot_sector sectors fatSectors spc root volumeID =
     (let b0 = put_at (zeros 512) 0 [0xeb, 0x58, 0x90];
          b1 = put_at b0 3 (bytes_of ''WIIBRDG '');
          b2 = put_le b1 11 2 512;
          b3 = b2[13 := word_of_int spc];
          b4 = put_le b3 14 2 (nat reserved_sectors);
          b5 = b4[16 := word_of_int num_fats, 21 := 0xf8];
          b6 = put_le b5 24 2 63;
          b7 = put_le b6 26 2 255;
          b8 = put_le b7 28 4 (u32_of partition_start);
          b9 = put_le b8 32 4 (u32_of sectors);
          b10 = put_le b9 36 4 (u32_of fatSectors);
          b11 = put_le b10 44 4 root;
          b12 = put_le b11 48 2 1;
          b13 = put_le b12 50 2 6;
          b14 = b13[64 := 0x80, 66 := 0x29];
          b15 = put_le b14 67 4 volumeID;
          b16 = put_at b15 71 (bytes_of ''WIIBRIDGE  '');
          b17 = put_at b16 82 (bytes_of ''FAT32   '')
      in b17[510 := 0x55, 511 := 0xaa])"

definition fs_info :: "nat \<Rightarrow> nat \<Rightarrow> byte list" where
  "fs_info freeClusters nextFreeCluster =
     (let b0 = put_at (zeros 512) 0 (bytes_of ''RRaA'');
          b1 = put_at b0 484 (bytes_of ''rrAa'');
          b2 = put_le b1 488 4 freeClusters;
          b3 = put_le b2 492 4 nextFreeCluster
      in b3[510 := 0x55, 511 := 0xaa])"

definition write83 :: "string \<Rightarrow> nat \<Rightarrow> nat \<Rightarrow> byte \<Rightarrow> byte list" where
  "write83 name cluster sz attr =
     (let d0 = replicate 11 0x20 @ zeros 21;
          d1 = (if name = ''.'' \<or> name = ''..'' then put_at d0 0 (bytes_of name)
                else put_at d0 0 (take 11 (bytes_of (to_upper name))));
          d2 = d1[11 := attr];
          d3 = put_le d2 20 2 (cluster div 65536 mod 65536);
          d4 = put_le d3 26 2 (cluster mod 65536)
      in put_le d4 28 4 sz)"

definition lfn_checksum :: "byte list \<Rightarrow> byte" where
  "lfn_checksum short = foldl (\<lambda>s c. push_bit 7 (and s 1) + drop_bit 1 s + c) 0 (take 11 short)"

definition lfn_positions :: "nat list" where
  "lfn_positions = [1, 3, 5, 7, 9, 14, 16, 18, 20, 22, 24, 28, 30]"

definition write_lfn :: "string \<Rightarrow> byte \<Rightarrow> byte list" where
  "write_lfn name checksum =
     (let d0 = (replicate 32 0xff)[0 := 0x41, 11 := 0x0f, 12 := 0, 13 := checksum, 26 := 0, 27 := 0];
          rs = runes name
      in foldl (\<lambda>d (i, pos).
           put_le d pos 2 (if i < length rs then rs ! i mod 65536
                           else if i = length rs then 0 else 0xffff))
         d0 (enumerate 0 lfn_positions))"

section \<open>Files, chains and extents\<close>

function split_game :: "game \<Rightarrow> int \<Rightarrow> nat \<Rightarrow> wii_file list" where
  "split_game g off seg =
     (if off < gmSize g
      then let n = min (gmSize g - off) max_segment;
               ext = (if seg > 0 then ''WBF'' @ show_nat seg else ''WBFS'');
               longName = gmID g @ ''.'' @ to_lower ext;
               sum = sha256 (bytes_of longName);
               short = pad_right 8 (take 2 (gmID g) @ hex_upper (take 3 sum)) @ pad_right 3 ''WBF''
           in \<lparr>wfName = longName, wfShort = short, wfGame = g, wfOff = off, wfLength = n, wfFirst = 0\<rparr>
              # split_game g (off + n) (seg + 1)
      else [])"
  by pat_completeness auto
termination
  by (relation "measure (\<lambda>(g, off, seg). nat (gmSize g - off))") auto

declare split_game.simps [simp del]

text \<open>The closure \<open>chain\<close> on its captured \<open>nextCluster\<close> and \<open>d.fatChains\<close>.\<close>

definition alloc_chain :: "int \<Rightarrow> nat \<times> cluster_chain list \<Rightarrow> nat \<times> (nat \<times> cluster_chain list)" where
  "alloc_chain count st =
     (case st of (nextCluster, chs) \<Rightarrow>
        (nextCluster,
         (u32 (nextCluster + u32_of count),
          if count > 0 then chs @ [\<lparr>ccFirst = nextCluster, ccCount = u32_of count\<rparr>] else chs)))"

fun alloc_files ::
  "int \<Rightarrow> wii_file list \<Rightarrow> nat \<times> cluster_chain list \<Rightarrow> wii_file list \<times> (nat \<times> cluster_chain list)" where
  "alloc_files clusterSize [] st = ([], st)"
| "alloc_files clusterSize (f # fs) st =
     (case alloc_chain ((wfLength f + clusterSize - 1) div clusterSize) st of
        (first, st1) \<Rightarrow>
          (case alloc_files clusterSize fs st1 of
             (fs', st2) \<Rightarrow> (f\<lparr>wfFirst := first\<rparr> # fs', st2)))"

fun locate :: "source list \<Rightarrow> int \<Rightarrow> go_err + source \<times> int" where
  "locate [] logical = Inl (Msg ''source extent gap'')"
| "locate (s # ss) logical =
     (if logical \<ge> srcOffset s \<and> logical < i64 (srcOffset s + srcLength s)
      then Inr (s, i64 (logical - srcOffset s)) else locate ss logical)"

lemma locate_sound:
  "locate ss logical = Inr (s, so) \<Longrightarrow>
   s \<in> set ss \<and> srcOffset s \<le> logical \<and> logical < i64 (srcOffset s + srcLength s) \<and>
   so = i64 (logical - srcOffset s)"
  by (induction ss) (auto split: if_splits)

text \<open>
  Whatever the source's fields are, what \<open>locate\<close> leaves to read of a source is the distance to
  its (wrapped) end, so the loop of \<open>Build\<close> advances.
\<close>

lemma locate_available:
  assumes "0 \<le> logical" "logical < i64 (off + len)"
  shows "i64 (len - i64 (logical - off)) = i64 (off + len) - logical"
proof -
  have "i64 (len - i64 (logical - off)) = i64 (i64 (off + len) - logical)"
    by (simp add: i64_diff algebra_simps)
  with assms i64_in_range [of "off + len"] show ?thesis
    by (simp add: i64_id in_i64_def)
qed

text \<open>
  The loop over \<open>remaining\<close>.  \<open>Build\<close> starts it at the file's offset in the game, which is
  never negative, and only adds to it: the guard \<open>0 \<le> gameOffset\<close> is always true there and
  makes the function total.
\<close>

function file_extents ::
  "source list \<Rightarrow> int \<Rightarrow> int \<Rightarrow> int \<Rightarrow> int \<Rightarrow> go_err + disk_extent list" where
  "file_extents srcs fileStart vfOff gameOffset remaining =
     (if remaining > 0 \<and> 0 \<le> gameOffset
      then case locate srcs gameOffset of
             Inl err \<Rightarrow> Inl err
           | Inr (s, sourceOff) \<Rightarrow>
               let n = min remaining (i64 (srcLength s - sourceOff))
               in case file_extents srcs fileStart vfOff (gameOffset + n) (remaining - n) of
                    Inl err \<Rightarrow> Inl err
                  | Inr es \<Rightarrow>
                      Inr (\<lparr>exStart = fileStart + gameOffset - vfOff, exLength = n, exSource = s,
                            exSourceOffset = sourceOff, exZero = False\<rparr> # es)
      else Inr [])"
  by pat_completeness auto
termination
proof (relation "measure (\<lambda>(srcs, fs, vo, go, r). nat r)", goal_cases)
  case 1
  then show ?case by simp
next
  case (2 srcs fileStart vfOff gameOffset remaining p s so n)
  then have "locate srcs gameOffset = Inr (s, so)" by simp
  from locate_sound [OF this] 2 show ?case by (simp add: locate_available)
qed

declare file_extents.simps [simp del]

definition no_source :: source where
  "no_source = \<lparr>srcPath = '''', srcOffset = 0, srcLength = 0, srcSize = 0, srcModUnix = 0,
     srcFilesystemID = '''', srcDevice = 0, srcInode = 0\<rparr>"

fun layout_extents :: "int \<Rightarrow> int \<Rightarrow> int \<Rightarrow> wii_file list \<Rightarrow> go_err + disk_extent list" where
  "layout_extents clusterSize spc cursor [] = Inr []"
| "layout_extents clusterSize spc cursor (f # fs) =
     (let fileStart = cursor * sector_size;
          clusters = (wfLength f + clusterSize - 1) div clusterSize;
          padding = clusters * clusterSize - wfLength f
      in case file_extents (gmSources (wfGame f)) fileStart (wfOff f) (wfOff f) (wfLength f) of
           Inl err \<Rightarrow> Inl err
         | Inr es \<Rightarrow>
             (case layout_extents clusterSize spc (cursor + clusters * spc) fs of
                Inl err \<Rightarrow> Inl err
              | Inr rest \<Rightarrow>
                  Inr (es @ (if padding > 0
                             then [\<lparr>exStart = fileStart + wfLength f, exLength = padding,
                                    exSource = no_source, exSourceOffset = 0, exZero = True\<rparr>]
                             else []) @ rest)))"

section \<open>Build\<close>

definition put_sectors :: "int \<Rightarrow> nat \<Rightarrow> byte list \<Rightarrow> (int \<times> byte list) list \<Rightarrow> (int \<times> byte list) list" where
  "put_sectors start count bs meta =
     foldl (\<lambda>m i. AList.update (start + int i) (slice bs (i * 512) 512) m) meta [0..<count]"

definition root_dir :: "nat \<Rightarrow> nat \<Rightarrow> byte list" where
  "root_dir clusterSize wbfsCluster =
     put_at (put_at (zeros clusterSize) 0 (write83 ''WIIBRIDGE'' 0 0 0x08)) 32
       (write83 ''WBFS       '' wbfsCluster 0 0x10)"

definition wbfs_dir :: "nat \<Rightarrow> nat \<Rightarrow> wii_file list \<Rightarrow> byte list" where
  "wbfs_dir sz wbfsCluster files =
     foldl (\<lambda>dir (i, f).
        let base = (2 + i * 2) * 32;
            dir1 = put_at dir base (write_lfn (wfName f) (lfn_checksum (bytes_of (wfShort f))))
        in put_at dir1 (base + 32) (write83 (wfShort f) (wfFirst f) (u32_of (wfLength f)) 0x20))
       (put_at (put_at (zeros sz) 0 (write83 ''.'' wbfsCluster 0 0x10)) 32 (write83 ''..'' 0 0 0x10))
       (enumerate 0 files)"

definition disk_signature :: "string \<Rightarrow> wii_file list \<Rightarrow> nat" where
  "disk_signature catalog files =
     (let sig = get_le (sha256 (bytes_of catalog @ concat (map (\<lambda>f.
            [0] @ bytes_of (wfName f) @ [0] @ bytes_of (show_int (wfOff f)) @
            [0] @ bytes_of (show_int (wfLength f))) files))) 0 4
      in if sig = 0 then 0x57424d53 else sig)"

definition system_sectors :: "disk_geometry \<Rightarrow> nat \<Rightarrow> (int \<times> byte list) list" where
  "system_sectors geo signature =
     (let boot = boot_sector (dgPartSectors geo) (dgFatSectors geo) (dgSectorsPerCluster geo) 2 signature;
          info = fs_info (u32_of (dgFreeClusters geo)) (u32_of (2 + dgAllocatedClusters geo));
          m0 = AList.update 0 (mbr partition_start (dgPartSectors geo) signature) [];
          m1 = AList.update partition_start boot m0;
          m2 = AList.update (partition_start + 6) boot m1;
          m3 = AList.update (partition_start + 1) info m2
      in AList.update (partition_start + 7) info m3)"

definition metadata_identity :: "disk \<Rightarrow> string" where
  "metadata_identity d =
     (let w64 = (\<lambda>v. le_bytes 8 (u64_of v)); w32 = (\<lambda>v. le_bytes 4 v);
          sectors = sort_slice fst (dkMetadata d)
      in hex_lower (sha256 (
           bytes_of ''wiibridge-vdisk-compact-metadata-v1'' @ [0] @
           w64 (dkSize d) @ w64 sector_size @ w64 (dkSectorsPerCluster d) @
           w64 (dkFatStart d) @ w64 (dkFatSectors d) @ w64 num_fats @
           w64 (int (length sectors)) @
           concat (map (\<lambda>(sector, bs). w64 sector @ w64 (int (length bs)) @ bs) sectors) @
           w64 (int (length (dkFatChains d))) @
           concat (map (\<lambda>c. w32 (ccFirst c) @ w32 (ccCount c)) (dkFatChains d)))))"

definition wii_files :: "game list \<Rightarrow> wii_file list" where
  "wii_files games = concat (map (\<lambda>g. split_game g 0 0) games)"

definition wii_build :: "string \<Rightarrow> game list \<Rightarrow> go_err + disk" where
  "wii_build catalog games0 =
     (if catalog = '''' then Inl (Msg ''catalog ID required'')
      else
        let games = sort_slice gmID games0;
            files = wii_files games;
            wbfsEntries = int (2 + 2 * length files)
        in case select_disk_geometry (map wfLength files) wbfsEntries of
             Inl err \<Rightarrow> Inl err
           | Inr geo \<Rightarrow>
               let spc = dgSectorsPerCluster geo;
                   cs = dgClusterSize geo;
                   meta0 = system_sectors geo (disk_signature catalog files);
                   firstFreeCluster = u32_of (2 + dgAllocatedClusters geo);
                   (rootCluster, st1) = alloc_chain 1 (2, []);
                   (wbfsCluster, st2) = alloc_chain (dgWbfsDirClusters geo) st1;
                   (files', (nextCluster, chs)) = alloc_files cs files st2
               in if nextCluster \<noteq> firstFreeCluster
                  then Inl (Msg ''internal Wii FAT32 allocation mismatch'')
                  else
                    let dataStart = partition_start + dgFirstData geo;
                        dirSize = nat (dgWbfsDirClusters geo * cs);
                        meta1 = put_sectors dataStart (nat spc) (root_dir (nat cs) wbfsCluster) meta0;
                        wbfsStart = dataStart + spc;
                        meta2 = put_sectors wbfsStart (nat (dgWbfsDirClusters geo * spc))
                                  (wbfs_dir dirSize wbfsCluster files') meta1;
                        cursor = wbfsStart + dgWbfsDirClusters geo * spc
                    in case layout_extents cs spc cursor files' of
                         Inl err \<Rightarrow> Inl err
                       | Inr es \<Rightarrow>
                           let d = \<lparr>dkSize = dgDiskSectors geo * sector_size, dkSectorsPerCluster = spc,
                                  dkMetadata = meta2, dkFatStart = partition_start + reserved_sectors,
                                  dkFatSectors = dgFatSectors geo, dkFatChains = chs, dkExtents = es,
                                  dkSnapshot = empty_snapshot\<rparr>;
                               vfs = map (\<lambda>f. \<lparr>vfPath = ''/wbfs/'' @ wfName f,
                                       vfGameID = gmID (wfGame f), vfLogicalStart = wfOff f,
                                       vfLength = wfLength f\<rparr>) files'
                           in Inr (d\<lparr>dkSnapshot := \<lparr>snCatalogID = catalog,
                                 snVirtualDiskSize = dkSize d,
                                 snMetadataHash = metadata_identity d, snGames = games,
                                 snVirtualFiles = vfs\<rparr>\<rparr>))"

end
