(* ===== verification/Vdisk_Layout.thy ===== *)
theory Vdisk_Layout
  imports Vdisk_Build
begin

text \<open>
  What \<open>Build\<close> lays out: the data extents tile the data area without a gap or an overlap,
  the FAT chains are ascending and disjoint, no metadata sector lies in the data area, and
  the clusters of a file's chain hold the file's bytes.
\<close>

section \<open>Tiling\<close>

definition ex_end :: "disk_extent \<Rightarrow> int" where
  "ex_end e = exStart e + exLength e"

fun contig :: "int \<Rightarrow> disk_extent list \<Rightarrow> int \<Rightarrow> bool" where
  "contig a [] b \<longleftrightarrow> a = b"
| "contig a (e # es) b \<longleftrightarrow> exStart e = a \<and> 0 < exLength e \<and> contig (a + exLength e) es b"

lemma contig_append: "contig a xs b \<Longrightarrow> contig b ys c \<Longrightarrow> contig a (xs @ ys) c"
  by (induction xs arbitrary: a) auto

lemma contig_bounds:
  "contig a es b \<Longrightarrow> a \<le> b \<and> (\<forall>e \<in> set es. a \<le> exStart e \<and> exStart e < ex_end e \<and> ex_end e \<le> b)"
  by (induction es arbitrary: a) (force simp: ex_end_def)+

lemma contig_ordered: "contig a es b \<Longrightarrow> ordered_extents exStart ex_end es"
proof (induction es arbitrary: a)
  case Nil
  then show ?case by simp
next
  case (Cons e es)
  with contig_bounds [of "a + exLength e" es b] show ?case by (auto simp: ex_end_def)
qed

lemma contig_covers:
  "contig a es b \<Longrightarrow> a \<le> p \<Longrightarrow> p < b \<Longrightarrow> \<exists>e \<in> set es. exStart e \<le> p \<and> p < ex_end e"
proof (induction es arbitrary: a)
  case Nil
  then show ?case by simp
next
  case (Cons e es)
  show ?case
  proof (cases "p < a + exLength e")
    case True
    with Cons.prems show ?thesis by (auto simp: ex_end_def)
  next
    case False
    with Cons.IH [of "a + exLength e"] Cons.prems show ?thesis by auto
  qed
qed

section \<open>Extents of a file\<close>

text \<open>
  What the scanner records of a source: an \<open>int64\<close> offset and the file's size, which is not
  negative.  Then a source whose end exceeds \<open>int64\<close> is never found, and no other sum wraps.
\<close>

definition source_ok :: "source \<Rightarrow> bool" where
  "source_ok s \<longleftrightarrow> in_i64 (srcOffset s) \<and> 0 \<le> srcLength s \<and> srcLength s < 2 ^ 63"

definition sources_ok :: "game list \<Rightarrow> bool" where
  "sources_ok games \<longleftrightarrow> (\<forall>g \<in> set games. \<forall>s \<in> set (gmSources g). source_ok s)"

lemma source_ok_end:
  assumes "source_ok s" "srcOffset s \<le> x" "x < i64 (srcOffset s + srcLength s)"
  shows "i64 (srcOffset s + srcLength s) = srcOffset s + srcLength s"
    and "x < srcOffset s + srcLength s" and "i64 (x - srcOffset s) = x - srcOffset s"
proof -
  have "srcOffset s + srcLength s < 2 ^ 63"
  proof (rule ccontr)
    assume "\<not> srcOffset s + srcLength s < 2 ^ 63"
    then have "(srcOffset s + srcLength s + 2 ^ 63) mod 2 ^ 64 = srcOffset s + srcLength s + 2 ^ 63 - 2 ^ 64"
      using assms(1) by (subst mod_pos_geq) (simp_all add: source_ok_def in_i64_def)
    with assms show False by (simp add: i64_def source_ok_def in_i64_def)
  qed
  with assms(1) have "in_i64 (srcOffset s + srcLength s)" by (simp add: source_ok_def in_i64_def)
  then show e: "i64 (srcOffset s + srcLength s) = srcOffset s + srcLength s" by (rule i64_id)
  with assms show "x < srcOffset s + srcLength s" by simp
  with assms show "i64 (x - srcOffset s) = x - srcOffset s"
    by (intro i64_id) (simp add: source_ok_def in_i64_def)
qed

text \<open>
  \<open>extent_maps srcs base e\<close>: the bytes of \<open>e\<close> are those of one of the sources, the logical
  offset of the disk byte at \<open>base\<close> being 0.
\<close>

definition extent_maps :: "source list \<Rightarrow> int \<Rightarrow> disk_extent \<Rightarrow> bool" where
  "extent_maps srcs base e \<longleftrightarrow>
     \<not> exZero e \<and> exSource e \<in> set srcs \<and> 0 \<le> exSourceOffset e \<and>
     exSourceOffset e + exLength e \<le> srcLength (exSource e) \<and>
     srcOffset (exSource e) + exSourceOffset e = exStart e - base"

lemma file_extents_sound:
  "file_extents srcs fileStart vfOff gameOffset remaining = Inr es \<Longrightarrow> 0 \<le> remaining \<Longrightarrow>
   0 \<le> gameOffset \<Longrightarrow> \<forall>s \<in> set srcs. source_ok s \<Longrightarrow>
   contig (fileStart + gameOffset - vfOff) es (fileStart + gameOffset - vfOff + remaining) \<and>
   (\<forall>e \<in> set es. extent_maps srcs (fileStart - vfOff) e)"
proof (induction srcs fileStart vfOff gameOffset remaining arbitrary: es rule: file_extents.induct)
  case (1 srcs fileStart vfOff gameOffset remaining)
  show ?case
  proof (cases "remaining > 0")
    case False
    with 1 show ?thesis by (simp add: file_extents.simps)
  next
    case True
    with "1.prems" have go: "remaining > 0 \<and> 0 \<le> gameOffset" by simp
    with "1.prems"(1) obtain s so where loc: "locate srcs gameOffset = Inr (s, so)"
      by (subst (asm) file_extents.simps) (auto split: sum.splits)
    note lw = locate_sound [OF loc]
    with "1.prems"(4) have "source_ok s" by blast
    note ls = lw source_ok_end [OF this, of gameOffset]
    define n where "n = min remaining (i64 (srcLength s - so))"
    have "i64 (srcLength s - so) = i64 (srcOffset s + srcLength s) - gameOffset"
      using locate_available [of gameOffset "srcOffset s" "srcLength s"] go lw by simp
    also have "i64 (srcOffset s + srcLength s) = srcOffset s + srcLength s" using ls by blast
    finally have "i64 (srcLength s - so) = srcOffset s + srcLength s - gameOffset" .
    with go ls have n: "0 < n" "n \<le> remaining" "n \<le> srcOffset s + srcLength s - gameOffset"
      by (auto simp: n_def)
    from "1.prems"(1) go loc obtain rest where
      rest: "file_extents srcs fileStart vfOff (gameOffset + n) (remaining - n) = Inr rest" and
      es: "es = \<lparr>exStart = fileStart + gameOffset - vfOff, exLength = n, exSource = s,
                  exSourceOffset = so, exZero = False\<rparr> # rest"
      by (subst (asm) file_extents.simps) (auto simp: Let_def n_def split: sum.splits)
    from "1.IH" [OF go loc refl n_def rest] n "1.prems"(3,4)
    have "contig (fileStart + gameOffset - vfOff + n) rest
        (fileStart + gameOffset - vfOff + remaining)"
      "\<forall>e \<in> set rest. extent_maps srcs (fileStart - vfOff) e"
      by (simp_all add: algebra_simps)
    with es n ls show ?thesis by (auto simp: extent_maps_def)
  qed
qed

definition file_ok :: "wii_file \<Rightarrow> bool" where
  "file_ok f \<longleftrightarrow> 0 < wfLength f \<and> 0 \<le> wfOff f \<and> (\<forall>s \<in> set (gmSources (wfGame f)). source_ok s)"

lemma file_ok_same:
  assumes "map wfLength fs' = map wfLength fs" "map wfGame fs' = map wfGame fs"
    and "map wfOff fs' = map wfOff fs" "\<forall>f \<in> set fs. file_ok f"
  shows "\<forall>f \<in> set fs'. file_ok f"
proof
  fix f assume "f \<in> set fs'"
  then obtain i where i: "i < length fs'" "f = fs' ! i" by (metis in_set_conv_nth)
  have len: "length fs' = length fs" using assms(1) by (metis length_map)
  with i assms(1-3) have "wfLength f = wfLength (fs ! i)" "wfGame f = wfGame (fs ! i)"
    "wfOff f = wfOff (fs ! i)" by (metis nth_map)+
  moreover have "file_ok (fs ! i)" using assms(4) i len by simp
  ultimately show "file_ok f" by (simp add: file_ok_def)
qed

lemma file_ok_extents:
  assumes "file_extents (gmSources (wfGame f)) fileStart (wfOff f) (wfOff f) (wfLength f) = Inr es"
    and "file_ok f"
  shows "contig fileStart es (fileStart + wfLength f)"
    and "\<forall>e \<in> set es. extent_maps (gmSources (wfGame f)) (fileStart - wfOff f) e"
  using file_extents_sound [OF assms(1)] assms(2) by (auto simp: file_ok_def)

lemma layout_extents_contig:
  assumes "cs = 512 * spc" "0 < spc"
  shows "layout_extents cs spc cursor fs = Inr es \<Longrightarrow> \<forall>f \<in> set fs. file_ok f \<Longrightarrow>
    contig (cursor * 512) es ((cursor + spc * clusters_total cs (map wfLength fs)) * 512)"
proof (induction fs arbitrary: cursor es)
  case Nil
  then show ?case by (simp add: clusters_total_def)
next
  case (Cons f fs)
  define k where "k = clusters_for_bytes (wfLength f) cs"
  have cs: "0 < cs" using assms by simp
  have ceil: "(wfLength f + cs - 1) div cs = k"
    unfolding k_def by (rule clusters_for_bytes_ceil) (use cs Cons.prems in \<open>auto simp: file_ok_def\<close>)
  define pad where "pad = k * cs - wfLength f"
  have pad: "0 \<le> pad"
    using clusters_for_bytes_covers(1) [OF cs, of "wfLength f"] by (simp add: pad_def k_def)
  from Cons.prems(1) obtain es1 rest where
    es1: "file_extents (gmSources (wfGame f)) (cursor * 512) (wfOff f) (wfOff f) (wfLength f) = Inr es1" and
    rest: "layout_extents cs spc (cursor + k * spc) fs = Inr rest" and
    es: "es = es1 @ (if pad > 0 then [\<lparr>exStart = cursor * 512 + wfLength f, exLength = pad,
      exSource = no_source, exSourceOffset = 0, exZero = True\<rparr>] else []) @ rest"
    by (auto simp: Let_def ceil pad_def split: sum.splits)
  from file_ok_extents(1) [OF es1] Cons.prems(2)
  have c1: "contig (cursor * 512) es1 (cursor * 512 + wfLength f)" by simp
  have c2: "contig (cursor * 512 + wfLength f) (if pad > 0 then [\<lparr>exStart = cursor * 512 + wfLength f,
      exLength = pad, exSource = no_source, exSourceOffset = 0, exZero = True\<rparr>] else [])
      (cursor * 512 + wfLength f + pad)"
    using pad by simp
  have c3: "contig ((cursor + k * spc) * 512) rest
      ((cursor + k * spc + spc * clusters_total cs (map wfLength fs)) * 512)"
    using Cons.IH [OF rest] Cons.prems(2) by simp
  have eq: "cursor * 512 + wfLength f + pad = (cursor + k * spc) * 512"
    using assms(1) by (simp add: pad_def algebra_simps)
  have tot: "spc * clusters_total cs (map wfLength (f # fs)) =
      k * spc + spc * clusters_total cs (map wfLength fs)"
    by (simp add: clusters_total_def k_def algebra_simps)
  from contig_append [OF c1 contig_append [OF c2 c3 [folded eq]]] show ?case
    unfolding es tot by (simp only: add.assoc)
qed

section \<open>Allocation\<close>

definition alloc_inv :: "nat \<times> cluster_chain list \<Rightarrow> bool" where
  "alloc_inv st \<longleftrightarrow> chains_ok (snd st) \<and> 2 \<le> fst st \<and> fst st \<le> 0x0ffffff0 \<and>
     (\<forall>c \<in> set (snd st). chain_end c \<le> fst st)"

lemma alloc_chain_inv:
  assumes "alloc_inv (next, chs)" "0 \<le> count" "int next + count \<le> 0x0ffffff0"
    and "alloc_chain count (next, chs) = (first, next', chs')"
  shows "first = next" "next' = next + nat count" "alloc_inv (next', chs')"
    "0 < count \<Longrightarrow> \<lparr>ccFirst = next, ccCount = nat count\<rparr> \<in> set chs'" "set chs \<subseteq> set chs'"
proof -
  have cnt: "u32_of count = nat count" using assms by (intro u32_of_id) auto
  have nx: "next + nat count \<le> 0x0ffffff0" using assms(2,3) by linarith
  then have sum: "u32 (next + nat count) = next + nat count" by (simp add: u32_def)
  show "first = next" "next' = next + nat count" "set chs \<subseteq> set chs'"
    "0 < count \<Longrightarrow> \<lparr>ccFirst = next, ccCount = nat count\<rparr> \<in> set chs'"
    using assms(4) cnt sum by (auto simp: alloc_chain_def split: if_splits)
  show "alloc_inv (next', chs')"
  proof (cases "0 < count")
    case True
    define c where "c = \<lparr>ccFirst = next, ccCount = nat count\<rparr>"
    have c: "chain_end c = next + nat count" by (simp add: c_def chain_end_def sum)
    have "ordered_extents (\<lambda>c. int (ccFirst c)) (\<lambda>c. int (chain_end c)) (chs @ [c])"
      using assms(1) True c by (auto simp: ordered_extents_append alloc_inv_def chains_ok_def c_def)
    moreover have "chs' = chs @ [c]" "next' = next + nat count"
      using assms(4) True cnt sum by (auto simp: alloc_chain_def c_def)
    moreover have "0 < ccCount c" "2 \<le> ccFirst c" "ccFirst c + ccCount c \<le> 0x0ffffff0"
      using assms(1) nx True by (auto simp: c_def alloc_inv_def)
    moreover have "\<forall>x \<in> set chs. chain_end x \<le> next + nat count"
      using assms(1) by (auto simp: alloc_inv_def intro: trans_le_add1)
    ultimately show ?thesis
      using assms(1) c nx by (simp add: alloc_inv_def chains_ok_def)
  next
    case False
    with assms cnt sum show ?thesis by (auto simp: alloc_chain_def)
  qed
qed

definition file_chain :: "int \<Rightarrow> wii_file \<Rightarrow> cluster_chain" where
  "file_chain cs f = \<lparr>ccFirst = wfFirst f, ccCount = nat (clusters_for_bytes (wfLength f) cs)\<rparr>"

lemma alloc_files_inv:
  assumes "0 < cs"
  shows "alloc_files cs fs (next, chs) = (fs', next', chs') \<Longrightarrow> alloc_inv (next, chs) \<Longrightarrow>
    \<forall>f \<in> set fs. 0 < wfLength f \<Longrightarrow>
    int next + clusters_total cs (map wfLength fs) \<le> 0x0ffffff0 \<Longrightarrow>
    alloc_inv (next', chs') \<and> int next' = int next + clusters_total cs (map wfLength fs) \<and>
    map wfLength fs' = map wfLength fs \<and> map wfGame fs' = map wfGame fs \<and>
    map wfOff fs' = map wfOff fs \<and> map wfName fs' = map wfName fs \<and>
    set chs \<subseteq> set chs' \<and> (\<forall>f \<in> set fs'. file_chain cs f \<in> set chs')"
proof (induction fs arbitrary: "next" chs fs' next' chs')
  case Nil
  then show ?case by (auto simp: clusters_total_def)
next
  case (Cons f fs)
  define k where "k = clusters_for_bytes (wfLength f) cs"
  have ceil: "(wfLength f + cs - 1) div cs = k"
    unfolding k_def by (rule clusters_for_bytes_ceil) (use assms Cons.prems(3) in auto)
  have k: "0 < k" using Cons.prems(3) assms
    by (auto simp: k_def clusters_for_bytes_def pos_imp_zdiv_nonneg_iff add_pos_nonneg)
  have tot: "clusters_total cs (map wfLength (f # fs)) = k + clusters_total cs (map wfLength fs)"
    by (simp add: clusters_total_def k_def)
  note nn = clusters_total_nonneg [OF assms, of "map wfLength fs"]
  obtain first next1 chs1 where a1: "alloc_chain k (next, chs) = (first, next1, chs1)"
    by (metis prod.exhaust)
  obtain fs1 next2 chs2 where a2: "alloc_files cs fs (next1, chs1) = (fs1, next2, chs2)"
    by (metis prod.exhaust)
  from Cons.prems(1) a1 a2 have out: "fs' = f\<lparr>wfFirst := first\<rparr> # fs1" "next' = next2" "chs' = chs2"
    by (simp_all add: ceil)
  have le: "int next + k \<le> 0x0ffffff0" using Cons.prems(4) tot nn by linarith
  note s = alloc_chain_inv [OF Cons.prems(2) less_imp_le [OF k] le a1]
  have IH: "alloc_inv (next2, chs2) \<and> int next2 = int next1 + clusters_total cs (map wfLength fs) \<and>
    map wfLength fs1 = map wfLength fs \<and> map wfGame fs1 = map wfGame fs \<and>
    map wfOff fs1 = map wfOff fs \<and> map wfName fs1 = map wfName fs \<and>
    set chs1 \<subseteq> set chs2 \<and> (\<forall>f \<in> set fs1. file_chain cs f \<in> set chs2)"
    by (rule Cons.IH [OF a2]) (use s Cons.prems tot k in auto)
  have "file_chain cs (f\<lparr>wfFirst := first\<rparr>) \<in> set chs2"
    using s(1,4) k IH by (auto simp: file_chain_def k_def)
  with IH s out tot k show ?case by auto
qed

text \<open>The disk offset of a cluster, the data area starting at sector \<open>ds\<close>.\<close>

definition cluster_offset :: "int \<Rightarrow> int \<Rightarrow> nat \<Rightarrow> int" where
  "cluster_offset ds spc c = (ds + spc * (int c - 2)) * 512"

lemma layout_extents_data:
  assumes "0 < spc" "cs = 512 * spc"
  shows "alloc_files cs fs (next, chs) = (fs', next', chs') \<Longrightarrow> alloc_inv (next, chs) \<Longrightarrow>
    \<forall>f \<in> set fs. file_ok f \<Longrightarrow>
    int next + clusters_total cs (map wfLength fs) \<le> 0x0ffffff0 \<Longrightarrow>
    layout_extents cs spc (ds + spc * (int next - 2)) fs' = Inr es \<Longrightarrow>
    f \<in> set fs' \<Longrightarrow> 0 \<le> k \<Longrightarrow> k < wfLength f \<Longrightarrow>
    \<exists>e \<in> set es. exStart e \<le> cluster_offset ds spc (wfFirst f) + k \<and>
      cluster_offset ds spc (wfFirst f) + k < ex_end e \<and>
      extent_maps (gmSources (wfGame f)) (cluster_offset ds spc (wfFirst f) - wfOff f) e"
proof (induction fs arbitrary: "next" chs fs' next' chs' es)
  case Nil
  then show ?case by simp
next
  case (Cons g fs)
  have cs: "0 < cs" using assms by simp
  define c where "c = clusters_for_bytes (wfLength g) cs"
  have len: "0 < wfLength g" "file_ok g" using Cons.prems(3) by (simp_all add: file_ok_def)
  have ceil: "(wfLength g + cs - 1) div cs = c"
    unfolding c_def by (rule clusters_for_bytes_ceil) (use cs len in auto)
  have c: "0 < c" using len cs
    by (auto simp: c_def clusters_for_bytes_def pos_imp_zdiv_nonneg_iff add_pos_nonneg)
  have tot: "clusters_total cs (map wfLength (g # fs)) = c + clusters_total cs (map wfLength fs)"
    by (simp add: clusters_total_def c_def)
  note nn = clusters_total_nonneg [OF cs, of "map wfLength fs"]
  obtain first next1 chs1 where a1: "alloc_chain c (next, chs) = (first, next1, chs1)"
    by (metis prod.exhaust)
  obtain fs1 next2 chs2 where a2: "alloc_files cs fs (next1, chs1) = (fs1, next2, chs2)"
    by (metis prod.exhaust)
  from Cons.prems(1) a1 a2 have out: "fs' = g\<lparr>wfFirst := first\<rparr> # fs1" "next' = next2" "chs' = chs2"
    by (simp_all add: ceil)
  have le: "int next + c \<le> 0x0ffffff0" using Cons.prems(4) tot nn by linarith
  note s = alloc_chain_inv [OF Cons.prems(2) less_imp_le [OF c] le a1]
  let ?cur = "ds + spc * (int next - 2)"
  from Cons.prems(5) out obtain es1 pad rest where
    es1: "file_extents (gmSources (wfGame g)) (?cur * 512) (wfOff g) (wfOff g) (wfLength g) = Inr es1" and
    rest: "layout_extents cs spc (?cur + c * spc) fs1 = Inr rest" and es: "es = es1 @ pad @ rest"
    by (auto simp: Let_def ceil split: sum.splits)
  have cur1: "?cur + c * spc = ds + spc * (int next1 - 2)"
    using s(2) c by (simp add: algebra_simps)
  show ?case
  proof (cases "f \<in> set fs1")
    case True
    have "\<exists>e \<in> set rest. exStart e \<le> cluster_offset ds spc (wfFirst f) + k \<and>
      cluster_offset ds spc (wfFirst f) + k < ex_end e \<and>
      extent_maps (gmSources (wfGame f)) (cluster_offset ds spc (wfFirst f) - wfOff f) e"
      by (rule Cons.IH [OF a2 s(3) _ _ rest [unfolded cur1] True])
        (use Cons.prems tot s(2) c in auto)
    with es show ?thesis by auto
  next
    case False
    with Cons.prems(6) out have f: "f = g\<lparr>wfFirst := first\<rparr>" by simp
    with s(1) have off: "cluster_offset ds spc (wfFirst f) = ?cur * 512"
      by (simp add: cluster_offset_def)
    from file_ok_extents [OF es1 len(2)]
    have contig: "contig (?cur * 512) es1 (?cur * 512 + wfLength g)"
      and maps: "\<forall>e \<in> set es1. extent_maps (gmSources (wfGame g)) (?cur * 512 - wfOff g) e" by simp_all
    from contig_covers [OF contig, of "?cur * 512 + k"] Cons.prems(7,8) f
    obtain e where "e \<in> set es1" "exStart e \<le> ?cur * 512 + k" "?cur * 512 + k < ex_end e" by auto
    with maps es off f show ?thesis by auto
  qed
qed

section \<open>The layout of a built disk\<close>

lemma split_game_lengths:
  "f \<in> set (split_game g off seg) \<Longrightarrow> 0 \<le> off \<Longrightarrow>
   0 < wfLength f \<and> wfLength f \<le> max_segment \<and> wfGame f = g \<and> 0 \<le> wfOff f \<and>
   wfOff f + wfLength f \<le> gmSize g"
proof (induction g off seg rule: split_game.induct)
  case (1 g off seg)
  show ?case
  proof (cases "off < gmSize g")
    case False
    with 1 show ?thesis by (simp add: split_game.simps)
  next
    case True
    let ?n = "min (gmSize g - off) max_segment"
    from "1.prems"(1) True consider "f \<in> set (split_game g (off + ?n) (seg + 1))"
      | "wfLength f = ?n" "wfGame f = g" "wfOff f = off"
      by (subst (asm) split_game.simps) (auto simp: Let_def)
    then show ?thesis
    proof cases
      case 1
      then show ?thesis using "1.IH" [OF True refl refl refl refl refl] "1.prems"(2) True
        by (simp add: 1)
    next
      case 2
      with True "1.prems"(2) show ?thesis by auto
    qed
  qed
qed

text \<open>The bytes of a game are in exactly one of its files.\<close>

lemma split_game_covers:
  "off \<le> x \<Longrightarrow> x < gmSize g \<Longrightarrow>
   \<exists>f \<in> set (split_game g off seg). wfOff f \<le> x \<and> x < wfOff f + wfLength f"
proof (induction g off seg rule: split_game.induct)
  case (1 g off seg)
  then have less: "off < gmSize g" by simp
  let ?n = "min (gmSize g - off) max_segment"
  show ?case
  proof (cases "x < off + ?n")
    case True
    with less "1.prems" show ?thesis by (subst split_game.simps) (auto simp: Let_def)
  next
    case False
    then have "off + ?n \<le> x" by simp
    from "1.IH" [OF less refl refl refl refl refl this "1.prems"(2)]
    obtain f where "f \<in> set (split_game g (off + ?n) (seg + 1))"
      "wfOff f \<le> x" "x < wfOff f + wfLength f" by blast
    with less show ?thesis by (subst split_game.simps) (auto simp: Let_def)
  qed
qed

lemma length_mbr [go_len, simp]: "length (mbr start sectors sig) = 512"
  unfolding mbr_def Let_def by (intro len_intros) simp_all

lemma length_boot_sector [go_len, simp]: "length (boot_sector s f spc root vol) = 512"
  unfolding boot_sector_def Let_def by (intro len_intros) simp_all

lemma length_fs_info [go_len, simp]: "length (fs_info free next) = 512"
  unfolding fs_info_def Let_def by (intro len_intros) simp_all

lemma length_write83 [go_len, simp]: "length (write83 name cluster sz attr) = 32"
proof -
  define d1 where "d1 = (if name = ''.'' \<or> name = ''..''
    then put_at (replicate 11 0x20 @ zeros 21) 0 (bytes_of name)
    else put_at (replicate 11 0x20 @ zeros 21) 0 (take 11 (bytes_of (to_upper name))))"
  have "length d1 = 32" by (auto simp: d1_def)
  then show ?thesis by (simp add: write83_def Let_def d1_def)
qed

lemma length_write_lfn [go_len, simp]: "length (write_lfn name checksum) = 32"
proof -
  have "length (foldl (\<lambda>d (i, pos). put_le d pos 2 (g i)) d xs) = length d"
    if "\<forall>(i, pos) \<in> set xs. pos + 2 \<le> length d" for g :: "nat \<Rightarrow> nat" and d xs
    using that by (induction xs arbitrary: d) auto
  then show ?thesis by (simp add: write_lfn_def Let_def lfn_positions_def)
qed

lemma length_root_dir: "64 \<le> cs \<Longrightarrow> length (root_dir cs wb) = cs"
  by (simp add: root_dir_def)

lemma length_wbfs_dir:
  assumes "(2 + 2 * length files) * 32 \<le> sz"
  shows "length (wbfs_dir sz wb files) = sz"
proof -
  define step where "step = (\<lambda>dir (i, f :: wii_file).
        let base = (2 + i * 2) * 32;
            dir1 = put_at dir base (write_lfn (wfName f) (lfn_checksum (bytes_of (wfShort f))))
        in put_at dir1 (base + 32) (write83 (wfShort f) (wfFirst f) (u32_of (wfLength f)) 0x20))"
  have run: "length dir = sz \<Longrightarrow> (2 + 2 * (n + length fs)) * 32 \<le> sz \<Longrightarrow>
      length (foldl step dir (enumerate n fs)) = sz" for dir n fs
  proof (induction fs arbitrary: n dir)
    case Nil
    then show ?case by simp
  next
    case (Cons f fs)
    have "length (step dir (n, f)) = sz" using Cons.prems by (simp add: step_def Let_def)
    with Cons show ?case by simp
  qed
  show ?thesis
    unfolding wbfs_dir_def step_def [symmetric] by (rule run) (use assms in auto)
qed

lemma map_of_put_sectors:
  "map_of (put_sectors start count bs meta) k =
    (if start \<le> k \<and> k < start + int count then Some (slice bs (nat (k - start) * 512) 512)
     else map_of meta k)"
  by (induction count) (auto simp: put_sectors_def update_conv')

lemma map_of_system_sectors:
  "map_of (system_sectors geo sig) k = Some b \<Longrightarrow>
   k \<in> {0, 2048, 2049, 2054, 2055} \<and> length b = 512"
  by (auto simp: system_sectors_def Let_def update_conv' split: if_splits)

lemma wii_buildD:
  assumes "wii_build catalog games = Inr d"
  obtains geo fs' nx chs chs2 where
    "geometry_ok (map wfLength (wii_files (sort_slice gmID games)))
       (int (2 + 2 * length (wii_files (sort_slice gmID games)))) geo"
    and "alloc_inv (3 + nat (dgWbfsDirClusters geo), chs2)"
    and "alloc_files (dgClusterSize geo) (wii_files (sort_slice gmID games))
       (3 + nat (dgWbfsDirClusters geo), chs2) = (fs', nx, chs)"
    and "dkFatChains d = chs"
    and "layout_extents (dgClusterSize geo) (dgSectorsPerCluster geo)
       (2048 + dgFirstData geo + dgSectorsPerCluster geo +
          dgWbfsDirClusters geo * dgSectorsPerCluster geo) fs' = Inr (dkExtents d)"
    and "dkMetadata d = put_sectors (2048 + dgFirstData geo + dgSectorsPerCluster geo)
        (nat (dgWbfsDirClusters geo * dgSectorsPerCluster geo))
        (wbfs_dir (nat (dgWbfsDirClusters geo * dgClusterSize geo)) 3 fs')
        (put_sectors (2048 + dgFirstData geo) (nat (dgSectorsPerCluster geo))
          (root_dir (nat (dgClusterSize geo)) 3)
          (system_sectors geo (disk_signature catalog (wii_files (sort_slice gmID games)))))"
    and "dkSize d = dgDiskSectors geo * 512" "dkSectorsPerCluster d = dgSectorsPerCluster geo"
    and "dkFatStart d = 2080" "dkFatSectors d = dgFatSectors geo"
    and "\<lparr>ccFirst = 2, ccCount = 1\<rparr> \<in> set chs2"
    and "\<lparr>ccFirst = 3, ccCount = nat (dgWbfsDirClusters geo)\<rparr> \<in> set chs2"
proof -
  define files where "files = wii_files (sort_slice gmID games)"
  from assms obtain geo where
    sel: "select_disk_geometry (map wfLength files) (int (2 + 2 * length files)) = Inr geo"
    by (auto simp: wii_build_def Let_def files_def split: if_splits sum.splits)
  note ok = select_disk_geometry_ok [OF sel]
  have dir: "1 \<le> dgWbfsDirClusters geo" and small: "dgWbfsDirClusters geo \<le> 0x0fffffec"
    using ok clusters_total_nonneg [of "dgClusterSize geo" "map wfLength files"]
    by (auto simp: geometry_ok_def)
  obtain r n1 c1 where a1: "alloc_chain 1 (2, []) = (r, n1, c1)" by (metis prod.exhaust)
  have inv0: "alloc_inv (2, [])" by (simp add: alloc_inv_def chains_ok_def)
  note s1 = alloc_chain_inv [OF inv0 _ _ a1, simplified]
  obtain w n2 c2 where a2: "alloc_chain (dgWbfsDirClusters geo) (n1, c1) = (w, n2, c2)"
    by (metis prod.exhaust)
  note s2 = alloc_chain_inv [OF s1(3) _ _ a2, unfolded s1(2)]
  have s2': "w = 3" "n2 = 3 + nat (dgWbfsDirClusters geo)" "alloc_inv (n2, c2)"
    "\<lparr>ccFirst = 3, ccCount = nat (dgWbfsDirClusters geo)\<rparr> \<in> set c2" "set c1 \<subseteq> set c2"
    using s2 dir small by auto
  obtain fs' nx chs where a3: "alloc_files (dgClusterSize geo) files (n2, c2) = (fs', nx, chs)"
    by (metis prod.exhaust)
  have "geometry_ok (map wfLength files) (int (2 + 2 * length files)) geo" by (rule ok)
  moreover have "\<lparr>ccFirst = 2, ccCount = 1\<rparr> \<in> set c2" using s1(4) s2'(5) by auto
  ultimately show thesis
    using assms sel a1 a2 a3 s2'
    by (intro that [of geo c2 fs' nx chs])
      (auto simp: wii_build_def Let_def files_def [symmetric] split: if_splits sum.splits)
qed

lemma layout_extents_sources:
  "layout_extents cs spc cursor fs = Inr es \<Longrightarrow> \<forall>f \<in> set fs. file_ok f \<Longrightarrow>
   \<forall>e \<in> set es. \<not> exZero e \<longrightarrow>
     0 \<le> exSourceOffset e \<and> exSourceOffset e + exLength e \<le> srcLength (exSource e)"
proof (induction fs arbitrary: cursor es)
  case Nil
  then show ?case by simp
next
  case (Cons f fs)
  from Cons.prems(1) obtain es1 pad rest c where
    es1: "file_extents (gmSources (wfGame f)) (cursor * 512) (wfOff f) (wfOff f) (wfLength f) = Inr es1" and
    rest: "layout_extents cs spc (cursor + c) fs = Inr rest" and
    es: "es = es1 @ pad @ rest" and pad: "\<forall>e \<in> set pad. exZero e"
    by (auto simp: Let_def split: sum.splits if_splits)
  have "file_ok f" using Cons.prems(2) by simp
  with file_ok_extents(2) [OF es1] Cons.IH [OF rest] Cons.prems(2) es pad show ?case
    by (auto simp: extent_maps_def)
qed

text \<open>
  The invariant of a disk that the read path relies on.  \<open>base\<close> is the start of the data
  area: metadata sectors and both FAT copies are below it, the extents tile it from there.
\<close>

definition fat_sector_index :: "disk \<Rightarrow> int \<Rightarrow> int option" where
  "fat_sector_index d sector =
     (let relative = sector - dkFatStart d
      in if relative \<ge> 0 \<and> relative < dkFatSectors d then Some relative
         else let relative2 = relative - dkFatSectors d
              in if relative2 \<ge> 0 \<and> relative2 < dkFatSectors d then Some relative2 else None)"

definition disk_wf :: "disk \<Rightarrow> bool" where
  "disk_wf d \<longleftrightarrow>
     chains_ok (dkFatChains d) \<and> dkFatSectors d * 128 < 2 ^ 32 \<and>
     (\<forall>s b. map_of (dkMetadata d) s = Some b \<longrightarrow>
        0 \<le> s \<and> length b = 512 \<and> fat_sector_index d s = None) \<and>
     (\<exists>base fin. contig base (dkExtents d) fin \<and> base mod 512 = 0 \<and> fin \<le> dkSize d \<and>
        0 \<le> dkFatStart d \<and> 0 \<le> dkFatSectors d \<and>
        (dkFatStart d + 2 * dkFatSectors d) * 512 \<le> base \<and>
        (\<forall>s \<in> dom (map_of (dkMetadata d)). s * 512 < base)) \<and>
     (\<forall>e \<in> set (dkExtents d). \<not> exZero e \<longrightarrow>
        0 \<le> exSourceOffset e \<and> exSourceOffset e + exLength e \<le> srcLength (exSource e))"

lemma wii_files_ok:
  "sources_ok games \<Longrightarrow> \<forall>f \<in> set (wii_files (sort_slice gmID games)). file_ok f"
  using split_game_lengths by (fastforce simp: wii_files_def sources_ok_def file_ok_def)

lemma wii_build_wf:
  assumes "wii_build catalog games = Inr d" "sources_ok games"
  shows "disk_wf d"
proof -
  define files where "files = wii_files (sort_slice gmID games)"
  obtain geo fs' nx chs chs2 where
    geo: "geometry_ok (map wfLength files) (int (2 + 2 * length files)) geo" and
    inv2: "alloc_inv (3 + nat (dgWbfsDirClusters geo), chs2)" and
    files': "alloc_files (dgClusterSize geo) files (3 + nat (dgWbfsDirClusters geo), chs2) = (fs', nx, chs)" and
    ch: "dkFatChains d = chs" and
    ext: "layout_extents (dgClusterSize geo) (dgSectorsPerCluster geo)
       (2048 + dgFirstData geo + dgSectorsPerCluster geo +
          dgWbfsDirClusters geo * dgSectorsPerCluster geo) fs' = Inr (dkExtents d)" and
    meta: "dkMetadata d = put_sectors (2048 + dgFirstData geo + dgSectorsPerCluster geo)
        (nat (dgWbfsDirClusters geo * dgSectorsPerCluster geo))
        (wbfs_dir (nat (dgWbfsDirClusters geo * dgClusterSize geo)) 3 fs')
        (put_sectors (2048 + dgFirstData geo) (nat (dgSectorsPerCluster geo))
          (root_dir (nat (dgClusterSize geo)) 3)
          (system_sectors geo (disk_signature catalog files)))" and
    sz: "dkSize d = dgDiskSectors geo * 512" and
    fat: "dkFatStart d = 2080" "dkFatSectors d = dgFatSectors geo"
    using wii_buildD [OF assms(1), folded files_def] by metis
  define spc where "spc = dgSectorsPerCluster geo"
  define dir where "dir = dgWbfsDirClusters geo"
  define cs where "cs = dgClusterSize geo"
  have spc: "0 < spc" and cs: "cs = 512 * spc" "0 < cs" and dir: "1 \<le> dir" and
    first: "dgFirstData geo = 32 + 2 * dgFatSectors geo" and
    fatb: "(dgFatSectors geo - 1) * 128 < dgTotalClusters geo + 2" "dgTotalClusters geo \<le> 0x0fffffee"
      "dgTotalClusters geo + 2 \<le> dgFatSectors geo * 128" "65525 \<le> dgTotalClusters geo" and
    alloc: "1 + dir + clusters_total cs (map wfLength files) < dgTotalClusters geo" and
    entries: "int (2 + 2 * length files) * 32 \<le> dir * cs" and
    disk: "dgDiskSectors geo = 2048 + dgFirstData geo + dgTotalClusters geo * spc"
    using geo by (auto simp: geometry_ok_def spc_def dir_def cs_def)
  have pos: "\<forall>f \<in> set files. 0 < wfLength f"
    using split_game_lengths by (fastforce simp: files_def wii_files_def)
  have room: "int (3 + nat dir) + clusters_total cs (map wfLength files) \<le> 0x0ffffff0"
    using alloc fatb(2) dir by simp
  note af = alloc_files_inv [OF cs(2) files' [folded cs_def dir_def] inv2 [folded dir_def] pos room]
  have len: "map wfLength fs' = map wfLength files" using af by simp
  have nonneg: "\<forall>f \<in> set fs'. file_ok f"
    by (rule file_ok_same) (use af wii_files_ok [OF assms(2)] in \<open>auto simp: files_def\<close>)
  define cursor where "cursor = 2048 + dgFirstData geo + spc + dir * spc"
  define fin where "fin = (cursor + spc * clusters_total cs (map wfLength files)) * 512"
  have cont: "contig (cursor * 512) (dkExtents d) fin"
    using layout_extents_contig [OF cs(1) spc ext [folded spc_def dir_def cs_def] nonneg]
    by (simp add: cursor_def fin_def len add.assoc)
  have fin: "fin \<le> dkSize d"
  proof -
    have "spc * (1 + dir + clusters_total cs (map wfLength files)) \<le> spc * dgTotalClusters geo"
      using alloc spc by (intro mult_left_mono) auto
    then show ?thesis by (simp add: fin_def cursor_def sz disk algebra_simps)
  qed
  have metaD: "0 \<le> s \<and> length b = 512 \<and> s * 512 < cursor * 512 \<and> fat_sector_index d s = None"
    if "map_of (dkMetadata d) s = Some b" for s b
  proof -
    have dirlen: "length (wbfs_dir (nat (dir * cs)) 3 fs') = nat (dir * cs)"
    proof (rule length_wbfs_dir)
      have "length fs' = length files" using len by (metis length_map)
      with entries have "int ((2 + 2 * length fs') * 32) \<le> dir * cs" by simp
      from nat_mono [OF this] show "(2 + 2 * length fs') * 32 \<le> nat (dir * cs)" by simp
    qed
    have rootlen: "length (root_dir (nat cs) 3) = nat cs"
      by (rule length_root_dir) (use cs spc in linarith)
    have fits: "i * 512 + 512 \<le> nat (dir * cs)" if "int i < dir * spc" for i
    proof -
      have "(int i + 1) * 512 \<le> (dir * spc) * 512" using that by (intro mult_right_mono) auto
      then show ?thesis using cs(1) by (simp add: algebra_simps)
    qed
    have fits1: "i * 512 + 512 \<le> nat cs" if "int i < spc" for i using that cs(1) by linarith
    have dspc: "0 < dir * spc" using dir spc by simp
    from that consider
        (dir) "2048 + dgFirstData geo + spc \<le> s" "s - (2048 + dgFirstData geo + spc) < dir * spc"
          "b = slice (wbfs_dir (nat (dir * cs)) 3 fs') (nat (s - (2048 + dgFirstData geo + spc)) * 512) 512"
      | (root) "2048 + dgFirstData geo \<le> s" "s - (2048 + dgFirstData geo) < spc"
          "b = slice (root_dir (nat cs) 3) (nat (s - (2048 + dgFirstData geo)) * 512) 512"
      | (sys) "s \<in> {0, 2048, 2049, 2054, 2055}" "length b = 512"
      unfolding meta map_of_put_sectors spc_def [symmetric] dir_def [symmetric] cs_def [symmetric]
      using dspc spc
      by (auto dest: map_of_system_sectors split: if_splits)
    then show ?thesis
    proof cases
      case dir
      have "int (nat (s - (2048 + dgFirstData geo + spc))) < dir * spc" using dir by simp
      from fits [OF this] dir dirlen spc first fatb show ?thesis
        by (auto simp: cursor_def fat_sector_index_def fat Let_def)
    next
      case root
      have "int (nat (s - (2048 + dgFirstData geo))) < spc" using root by simp
      from fits1 [OF this] root rootlen spc dspc first fatb show ?thesis
        by (auto simp: cursor_def fat_sector_index_def fat Let_def)
    next
      case sys
      with spc dspc first fatb show ?thesis
        by (auto simp: cursor_def fat_sector_index_def fat Let_def)
    qed
  qed
  have srcs: "\<forall>e \<in> set (dkExtents d). \<not> exZero e \<longrightarrow>
      0 \<le> exSourceOffset e \<and> exSourceOffset e + exLength e \<le> srcLength (exSource e)"
    using layout_extents_sources [OF ext nonneg] by blast
  have "dkFatSectors d * 128 < 2 ^ 32" using fatb by (simp add: fat)
  moreover have "chains_ok (dkFatChains d)" using af ch by (simp add: alloc_inv_def)
  moreover have "(dkFatStart d + 2 * dkFatSectors d) * 512 \<le> cursor * 512"
    using spc dir by (simp add: fat cursor_def first)
  moreover have "0 \<le> dkFatStart d" "0 \<le> dkFatSectors d" using fatb by (simp_all add: fat)
  ultimately show ?thesis
    unfolding disk_wf_def
    using metaD srcs cont fin
    by (intro conjI exI [of _ "cursor * 512"] exI [of _ fin]) (auto dest: metaD)
qed

section \<open>Game bytes\<close>

text \<open>
  \<open>game_byte_at d g x\<close>: a chain of the FAT starts at some cluster whose disk offset, plus the
  distance of \<open>x\<close> from the start of the file in the game, lies in an extent that maps to
  byte \<open>x\<close> of the game in one of the game's sources.
\<close>

definition game_byte_at :: "disk \<Rightarrow> game \<Rightarrow> int \<Rightarrow> bool" where
  "game_byte_at d g x \<longleftrightarrow>
     (\<exists>c \<in> set (dkFatChains d). \<exists>off e p.
        0 \<le> off \<and> off \<le> x \<and>
        x - off < int (ccCount c) * (512 * dkSectorsPerCluster d) \<and>
        p = (dkFatStart d + 2 * dkFatSectors d + dkSectorsPerCluster d * (int (ccFirst c) - 2)) * 512
              + (x - off) \<and>
        e \<in> set (dkExtents d) \<and> exStart e \<le> p \<and> p < exStart e + exLength e \<and>
        \<not> exZero e \<and> exSource e \<in> set (gmSources g) \<and>
        srcOffset (exSource e) + (exSourceOffset e + (p - exStart e)) = x)"

lemma wii_build_game_bytes:
  assumes "wii_build catalog games = Inr d" "g \<in> set games" "0 \<le> x" "x < gmSize g"
    and "sources_ok games"
  shows "game_byte_at d g x"
proof -
  define files where "files = wii_files (sort_slice gmID games)"
  obtain geo fs' nx chs chs2 where
    geo: "geometry_ok (map wfLength files) (int (2 + 2 * length files)) geo" and
    inv2: "alloc_inv (3 + nat (dgWbfsDirClusters geo), chs2)" and
    files': "alloc_files (dgClusterSize geo) files (3 + nat (dgWbfsDirClusters geo), chs2) = (fs', nx, chs)" and
    ch: "dkFatChains d = chs" and
    ext: "layout_extents (dgClusterSize geo) (dgSectorsPerCluster geo)
       (2048 + dgFirstData geo + dgSectorsPerCluster geo +
          dgWbfsDirClusters geo * dgSectorsPerCluster geo) fs' = Inr (dkExtents d)" and
    sz: "dkSectorsPerCluster d = dgSectorsPerCluster geo" and
    fat: "dkFatStart d = 2080" "dkFatSectors d = dgFatSectors geo"
    using wii_buildD [OF assms(1), folded files_def] by metis
  define spc where "spc = dgSectorsPerCluster geo"
  define dir where "dir = dgWbfsDirClusters geo"
  define cs where "cs = dgClusterSize geo"
  have spc: "0 < spc" and cs: "cs = 512 * spc" "0 < cs" and dir: "1 \<le> dir" and
    first: "dgFirstData geo = 32 + 2 * dgFatSectors geo" and
    fatb: "dgTotalClusters geo \<le> 0x0fffffee" and
    alloc: "1 + dir + clusters_total cs (map wfLength files) < dgTotalClusters geo"
    using geo by (auto simp: geometry_ok_def spc_def dir_def cs_def)
  have pos: "\<forall>f \<in> set files. 0 < wfLength f"
    using split_game_lengths by (fastforce simp: files_def wii_files_def)
  have room: "int (3 + nat dir) + clusters_total cs (map wfLength files) \<le> 0x0ffffff0"
    using alloc fatb dir by simp
  note af = alloc_files_inv [OF cs(2) files' [folded cs_def dir_def] inv2 [folded dir_def] pos room]
  obtain f0 where f0: "f0 \<in> set files" "wfOff f0 \<le> x" "x < wfOff f0 + wfLength f0" "wfGame f0 = g"
    "0 \<le> wfOff f0"
    using split_game_covers [OF assms(3,4), of 0] assms(2) split_game_lengths [of _ g 0 0]
    by (fastforce simp: files_def wii_files_def)
  then obtain i where i: "i < length files" "f0 = files ! i" by (metis in_set_conv_nth)
  have len: "length fs' = length files" using af by (metis length_map)
  define f where "f = fs' ! i"
  have f: "f \<in> set fs'" "wfLength f = wfLength f0" "wfOff f = wfOff f0" "wfGame f = g"
    using i len af f0(4) unfolding f_def by (metis nth_map nth_mem)+
  define ds where "ds = 2048 + dgFirstData geo"
  have cur: "ds + spc * (int (3 + nat dir) - 2) = 2048 + dgFirstData geo + spc + dir * spc"
    using dir by (simp add: ds_def algebra_simps)
  obtain e where e: "e \<in> set (dkExtents d)"
    "exStart e \<le> cluster_offset ds spc (wfFirst f) + (x - wfOff f)"
    "cluster_offset ds spc (wfFirst f) + (x - wfOff f) < ex_end e"
    "extent_maps (gmSources g) (cluster_offset ds spc (wfFirst f) - wfOff f) e"
    using layout_extents_data [OF spc cs(1) files' [folded cs_def dir_def] inv2 [folded dir_def]
        wii_files_ok [OF assms(5), folded files_def] room ext [folded spc_def dir_def cs_def, folded cur] f(1), of "x - wfOff f"] f f0 by auto
  have c: "file_chain cs f \<in> set (dkFatChains d)" using af f(1) ch by blast
  have "x - wfOff f < int (ccCount (file_chain cs f)) * (512 * dkSectorsPerCluster d)"
    using clusters_for_bytes_covers(1) [OF cs(2), of "wfLength f"] clusters_for_bytes_nonneg [OF cs(2)] f f0
    by (simp add: file_chain_def sz spc_def [symmetric] cs(1) [symmetric])
  moreover have "cluster_offset ds spc (wfFirst f) =
      (dkFatStart d + 2 * dkFatSectors d + dkSectorsPerCluster d * (int (ccFirst (file_chain cs f)) - 2)) * 512"
    by (simp add: cluster_offset_def ds_def first fat sz spc_def [symmetric] file_chain_def)
  ultimately show ?thesis
    unfolding game_byte_at_def
    using e f f0
    by (rule_tac bexI [OF _ c], rule_tac exI [of _ "wfOff f"], rule_tac exI [of _ e],
        rule_tac exI [of _ "cluster_offset ds spc (wfFirst f) + (x - wfOff f)"])
      (simp add: extent_maps_def ex_end_def)
qed

section \<open>When Build succeeds\<close>

text \<open>
  Every byte of the game lies in a source whose end \<open>Offset + Length\<close> is an \<open>int64\<close>: where the
  sum wraps, \<open>locate\<close> reports a gap.
\<close>

definition source_covers :: "source \<Rightarrow> int \<Rightarrow> bool" where
  "source_covers s x \<longleftrightarrow>
     srcOffset s \<le> x \<and> x < srcOffset s + srcLength s \<and> srcOffset s + srcLength s < 2 ^ 63"

definition game_covered :: "game \<Rightarrow> bool" where
  "game_covered g \<longleftrightarrow> (\<forall>x. 0 \<le> x \<longrightarrow> x < gmSize g \<longrightarrow> (\<exists>s \<in> set (gmSources g). source_covers s x))"

lemma locate_complete:
  "\<exists>s \<in> set ss. source_covers s x \<Longrightarrow> 0 \<le> x \<Longrightarrow> \<exists>r. locate ss x = Inr r"
  by (induction ss) (auto simp: source_covers_def i64_id in_i64_def)

lemma file_extents_total:
  "\<forall>x. gameOffset \<le> x \<longrightarrow> x < gameOffset + remaining \<longrightarrow> (\<exists>s \<in> set srcs. source_covers s x) \<Longrightarrow>
   0 \<le> gameOffset \<Longrightarrow> \<exists>es. file_extents srcs fileStart vfOff gameOffset remaining = Inr es"
proof (induction srcs fileStart vfOff gameOffset remaining rule: file_extents.induct)
  case (1 srcs fileStart vfOff gameOffset remaining)
  show ?case
  proof (cases "remaining > 0 \<and> 0 \<le> gameOffset")
    case False
    then show ?thesis by (auto simp: file_extents.simps [of srcs fileStart vfOff gameOffset remaining])
  next
    case True
    with "1.prems" locate_complete [of srcs gameOffset] obtain s so where
      loc: "locate srcs gameOffset = Inr (s, so)" by fastforce
    note ls = locate_sound [OF loc]
    define n where "n = min remaining (i64 (srcLength s - so))"
    have n: "0 < n" "n \<le> remaining" using ls True by (auto simp: n_def locate_available)
    have "\<exists>es. file_extents srcs fileStart vfOff (gameOffset + n) (remaining - n) = Inr es"
      by (rule "1.IH" [OF True loc refl n_def]) (use "1.prems" n in auto)
    with True loc show ?thesis
      by (subst file_extents.simps) (auto simp: Let_def n_def)
  qed
qed

lemma layout_extents_total:
  "\<forall>f \<in> set fs. game_covered (wfGame f) \<and> 0 \<le> wfOff f \<and> wfOff f + wfLength f \<le> gmSize (wfGame f) \<Longrightarrow>
   \<exists>es. layout_extents cs spc cursor fs = Inr es"
proof (induction fs arbitrary: cursor)
  case Nil
  then show ?case by simp
next
  case (Cons f fs)
  have "\<exists>es. file_extents (gmSources (wfGame f)) (cursor * 512) (wfOff f) (wfOff f) (wfLength f) = Inr es"
    by (rule file_extents_total) (use Cons.prems in \<open>auto simp: game_covered_def\<close>)
  moreover obtain rest where
    "layout_extents cs spc (cursor + (wfLength f + cs - 1) div cs * spc) fs = Inr rest"
    using Cons.IH Cons.prems by (meson list.set_intros(2))
  ultimately show ?case by (auto simp: Let_def)
qed

lemma wii_build_total:
  assumes "catalog \<noteq> ''''" "\<forall>g \<in> set games. game_covered g"
    and "select_disk_geometry (map wfLength (wii_files (sort_slice gmID games)))
      (int (2 + 2 * length (wii_files (sort_slice gmID games)))) = Inr geo"
  shows "\<exists>d. wii_build catalog games = Inr d"
proof -
  define files where "files = wii_files (sort_slice gmID games)"
  note ok = select_disk_geometry_ok [OF assms(3), folded files_def]
  define spc where "spc = dgSectorsPerCluster geo"
  define dir where "dir = dgWbfsDirClusters geo"
  define cs where "cs = dgClusterSize geo"
  have cs: "0 < cs" and dir: "1 \<le> dir" and
    alloc: "dgAllocatedClusters geo = 1 + dir + clusters_total cs (map wfLength files)" and
    fatb: "dgAllocatedClusters geo < 0x0fffffee"
    using ok by (auto simp: geometry_ok_def dir_def cs_def)
  note nn = clusters_total_nonneg [OF cs, of "map wfLength files"]
  obtain r n1 c1 where a1: "alloc_chain 1 (2, []) = (r, n1, c1)" by (metis prod.exhaust)
  have inv0: "alloc_inv (2, [])" by (simp add: alloc_inv_def chains_ok_def)
  note s1 = alloc_chain_inv [OF inv0 _ _ a1, simplified]
  obtain w n2 c2 where a2: "alloc_chain dir (n1, c1) = (w, n2, c2)" by (metis prod.exhaust)
  note s2 = alloc_chain_inv [OF s1(3) _ _ a2, unfolded s1(2)]
  have s2': "n2 = 3 + nat dir" "alloc_inv (n2, c2)" using s2 dir alloc fatb nn by auto
  obtain fs' nx chs where a3: "alloc_files cs files (n2, c2) = (fs', nx, chs)"
    by (metis prod.exhaust)
  have pos: "\<forall>f \<in> set files. 0 < wfLength f"
    using split_game_lengths by (fastforce simp: files_def wii_files_def)
  have "int n2 + clusters_total cs (map wfLength files) \<le> 0x0ffffff0"
    using s2'(1) alloc fatb dir by simp
  note af = alloc_files_inv [OF cs a3 s2'(2) pos this]
  have nx: "u32_of (2 + dgAllocatedClusters geo) = nx"
    using af s2'(1) alloc fatb dir nn by (subst u32_of_id) auto
  have "\<exists>es. layout_extents cs spc (2048 + dgFirstData geo + spc + dir * spc) fs' = Inr es"
  proof (rule layout_extents_total, rule ballI)
    fix f assume "f \<in> set fs'"
    then obtain i where i: "i < length fs'" "f = fs' ! i" by (metis in_set_conv_nth)
    have len: "length fs' = length files" using af by (metis length_map)
    have "files ! i \<in> set files" using i len by simp
    then have "wfGame (files ! i) \<in> set games \<and> 0 \<le> wfOff (files ! i) \<and>
        wfOff (files ! i) + wfLength (files ! i) \<le> gmSize (wfGame (files ! i))"
      using split_game_lengths by (fastforce simp: files_def wii_files_def)
    moreover have "wfGame f = wfGame (files ! i)" "wfOff f = wfOff (files ! i)"
      "wfLength f = wfLength (files ! i)"
      using af i len by (metis nth_map)+
    ultimately show "game_covered (wfGame f) \<and> 0 \<le> wfOff f \<and> wfOff f + wfLength f \<le> gmSize (wfGame f)"
      using assms(2) by simp
  qed
  then obtain es where es: "layout_extents cs spc (2048 + dgFirstData geo + spc + dir * spc) fs' = Inr es" ..
  show ?thesis
    using assms(1) a1 a2 a3 nx es assms(3)
    by (simp add: wii_build_def files_def [symmetric] Let_def spc_def dir_def cs_def)
qed

section \<open>Directory entries\<close>

lemma write83_decode:
  assumes "c < 2 ^ 32" "n < 2 ^ 32"
  shows "get_le (write83 name c n attr) 26 2 + 65536 * get_le (write83 name c n attr) 20 2 = c"
    and "get_le (write83 name c n attr) 28 4 = n"
    and "write83 name c n attr ! 11 = attr"
proof -
  define d1 where "d1 = (if name = ''.'' \<or> name = ''..''
    then put_at (replicate 11 0x20 @ zeros 21) 0 (bytes_of name)
    else put_at (replicate 11 0x20 @ zeros 21) 0 (take 11 (bytes_of (to_upper name))))"
  define d2 where "d2 = d1[11 := attr]"
  have len: "length d2 = 32" by (auto simp: d1_def d2_def)
  have w: "write83 name c n attr =
    put_le (put_le (put_le d2 20 2 (c div 65536 mod 65536)) 26 2 (c mod 65536)) 28 4 n"
    by (simp add: write83_def Let_def d1_def d2_def)
  show "get_le (write83 name c n attr) 26 2 + 65536 * get_le (write83 name c n attr) 20 2 = c"
    "get_le (write83 name c n attr) 28 4 = n"
    using assms len by (simp_all add: w get_le_put_le get_le_put_le_other)
  have "11 < a \<Longrightarrow> a + k \<le> 32 \<Longrightarrow> length d = 32 \<Longrightarrow> put_le d a k v ! 11 = d ! 11" for d a k v
    by (simp add: put_le_def nth_put_at)
  with len show "write83 name c n attr ! 11 = attr" by (simp add: w d2_def)
qed

lemma wbfs_dir_entry:
  assumes "i < length files" "(2 + 2 * length files) * 32 \<le> sz"
  shows "slice (wbfs_dir sz wb files) ((2 + i * 2) * 32) 32 =
      write_lfn (wfName (files ! i)) (lfn_checksum (bytes_of (wfShort (files ! i))))"
    and "slice (wbfs_dir sz wb files) ((3 + i * 2) * 32) 32 =
      write83 (wfShort (files ! i)) (wfFirst (files ! i)) (u32_of (wfLength (files ! i))) 0x20"
proof -
  let ?lfn = "\<lambda>f. write_lfn (wfName f) (lfn_checksum (bytes_of (wfShort f)))"
  let ?ent = "\<lambda>f. write83 (wfShort f) (wfFirst f) (u32_of (wfLength f)) 0x20"
  have "i < length files \<Longrightarrow> (2 + 2 * length files) * 32 \<le> sz \<Longrightarrow>
      slice (wbfs_dir sz wb files) ((2 + i * 2) * 32) 32 = ?lfn (files ! i) \<and>
      slice (wbfs_dir sz wb files) ((3 + i * 2) * 32) 32 = ?ent (files ! i)"
  proof (induction files rule: rev_induct)
    case Nil
    then show ?case by simp
  next
    case (snoc f fs)
    let ?d = "wbfs_dir sz wb fs"
    let ?b = "(2 + length fs * 2) * 32"
    have len: "length ?d = sz" using length_wbfs_dir snoc.prems(2) by simp
    have step: "wbfs_dir sz wb (fs @ [f]) = put_at (put_at ?d ?b (?lfn f)) (?b + 32) (?ent f)"
      by (simp add: wbfs_dir_def enumerate_append_eq Let_def)
    have room: "?b + 64 \<le> sz" using snoc.prems(2) by simp
    show ?case
    proof (cases "i = length fs")
      case True
      have "slice (wbfs_dir sz wb (fs @ [f])) ?b 32 = ?lfn f"
        unfolding step by (subst slice_put_at_other) (use room len in \<open>auto simp: slice_put_at_same\<close>)
      moreover have "slice (wbfs_dir sz wb (fs @ [f])) (?b + 32) 32 = ?ent f"
        unfolding step by (rule slice_put_at_same) (use room len in auto)
      ultimately show ?thesis using True by (simp add: algebra_simps)
    next
      case False
      with snoc.prems have i: "i < length fs" "(2 + 2 * length fs) * 32 \<le> sz" by simp_all
      have keep: "slice (wbfs_dir sz wb (fs @ [f])) (k * 32) 32 = slice ?d (k * 32) 32"
        if "k < 2 + length fs * 2" for k
        unfolding step using that room len by (simp add: slice_put_at_other)
      with i have "slice (wbfs_dir sz wb (fs @ [f])) ((2 + i * 2) * 32) 32 = slice ?d ((2 + i * 2) * 32) 32"
        "slice (wbfs_dir sz wb (fs @ [f])) ((3 + i * 2) * 32) 32 = slice ?d ((3 + i * 2) * 32) 32"
        by - (rule keep, use i(1) in simp)+
      with snoc.IH [OF i] i show ?thesis by (simp add: nth_append)
    qed
  qed
  with assms show "slice (wbfs_dir sz wb files) ((2 + i * 2) * 32) 32 = ?lfn (files ! i)"
    "slice (wbfs_dir sz wb files) ((3 + i * 2) * 32) 32 = ?ent (files ! i)" by simp_all
qed

section \<open>Properties\<close>

definition demo_source :: source where
  "demo_source = \<lparr>srcPath = ''/games/a.wbfs'', srcOffset = 0, srcLength = 10000, srcSize = 10000,
     srcModUnix = 1700000000123456789, srcFilesystemID = '''', srcDevice = 1, srcInode = 2\<rparr>"

definition demo_game :: game where
  "demo_game = \<lparr>gmID = ''RMCE01'', gmTitle = ''Demo'', gmSources = [demo_source], gmSize = 10000,
     gmAvailability = ''''\<rparr>"

lemma demo_files: "map wfLength (wii_files (sort_slice gmID [demo_game])) = [10000]"
  "length (wii_files (sort_slice gmID [demo_game])) = 1"
  by (simp_all add: sort_slice_def wii_files_def demo_game_def split_game.simps Let_def)

lemma demo_geometry: "\<exists>geo. select_disk_geometry [10000] 4 = Inr geo"
  by (simp add: select_disk_geometry_def wii_sectors_per_cluster_def candidate_geometry_def
      clusters_for_bytes_def Let_def)

lemma demo_covered: "game_covered demo_game"
  by (simp add: game_covered_def demo_game_def demo_source_def source_covers_def)

lemma demo_sources_ok: "sources_ok [demo_game]"
  by (simp add: sources_ok_def source_ok_def in_i64_def demo_game_def demo_source_def)

text \<open>
  C14.  A successful \<open>Build\<close> yields a well-formed disk: the extents tile the data area without
  gaps or overlap, both FAT copies and every stored metadata sector lie below it and apart,
  the FAT chains are ascending, disjoint and below the reserved cluster numbers, and every
  source range lies within its source.  The sources are as the scanner records them: an
  \<open>int64\<close> offset and a length that is not negative.
\<close>

theorem wii_build_well_formed:
  assumes "wii_build catalog games = Inr d" "sources_ok games"
  shows "disk_wf d"
  using assms by (rule wii_build_wf)

theorem wii_build_well_formed_witness:
  "\<exists>d. wii_build ''catalog'' [demo_game] = Inr d \<and> disk_wf d"
proof -
  obtain geo where "select_disk_geometry [10000] 4 = Inr geo" using demo_geometry ..
  then obtain d where "wii_build ''catalog'' [demo_game] = Inr d"
    using wii_build_total [of "''catalog''" "[demo_game]" geo] demo_files demo_covered by auto
  with wii_build_well_formed [OF this demo_sources_ok] show ?thesis by blast
qed

text \<open>
  C13.  Every byte of every game is on the disk: it lies in a cluster of a chain of the FAT, and
  the extent at that cluster's disk offset maps it to the same byte of one of the game's
  sources, also when the game is split at the 4 GiB boundary into several files.  The sources
  are as the scanner records them.
\<close>

theorem wii_build_exposes_games:
  assumes "wii_build catalog games = Inr d" "sources_ok games"
  shows "\<forall>g \<in> set games. \<forall>x. 0 \<le> x \<and> x < gmSize g \<longrightarrow> game_byte_at d g x"
  using wii_build_game_bytes [OF assms(1)] assms(2) by blast

theorem wii_build_exposes_games_witness:
  "\<exists>d. wii_build ''catalog'' [demo_game] = Inr d \<and> game_byte_at d demo_game 9999"
proof -
  obtain geo where "select_disk_geometry [10000] 4 = Inr geo" using demo_geometry ..
  then obtain d where "wii_build ''catalog'' [demo_game] = Inr d"
    using wii_build_total [of "''catalog''" "[demo_game]" geo] demo_files demo_covered by auto
  with wii_build_exposes_games [OF this demo_sources_ok] show ?thesis by (auto simp: demo_game_def)
qed

text \<open>
  C25.  \<open>Build\<close> fails only for a missing catalog, a gap in a game's sources (where a source whose
  end exceeds \<open>int64\<close> counts as a gap) or a library beyond the FAT32 and MBR limits: the
  internal allocation check never fires.
\<close>

theorem wii_build_succeeds:
  assumes "catalog \<noteq> ''''" "\<forall>g \<in> set games. game_covered g"
    and "select_disk_geometry (map wfLength (wii_files (sort_slice gmID games)))
      (int (2 + 2 * length (wii_files (sort_slice gmID games)))) = Inr geo"
  shows "\<exists>d. wii_build catalog games = Inr d"
  by (rule wii_build_total [OF assms])

theorem wii_build_succeeds_witness: "\<exists>d. wii_build ''catalog'' [demo_game] = Inr d"
proof -
  obtain geo where "select_disk_geometry [10000] 4 = Inr geo" using demo_geometry ..
  then show ?thesis
    using wii_build_succeeds [of "''catalog''" "[demo_game]" geo] demo_files demo_covered by auto
qed

text \<open>
  C26.  The directory that \<open>Build\<close> writes gives each file two entries: the long-name entry with
  the checksum of the alias, and the 8.3 entry, which decodes to the file's first cluster and
  its length, with the archive attribute and never the read-only one.
\<close>

theorem wbfs_dir_decodes:
  assumes "i < length files" "(2 + 2 * length files) * 32 \<le> sz"
    and "wfFirst (files ! i) < 2 ^ 32" "0 \<le> wfLength (files ! i)" "wfLength (files ! i) \<le> max_segment"
  shows "let entry = slice (wbfs_dir sz wb files) ((3 + i * 2) * 32) 32
    in get_le entry 26 2 + 65536 * get_le entry 20 2 = wfFirst (files ! i) \<and>
       int (get_le entry 28 4) = wfLength (files ! i) \<and> entry ! 11 = 0x20 \<and>
       slice (wbfs_dir sz wb files) ((2 + i * 2) * 32) 32 =
         write_lfn (wfName (files ! i)) (lfn_checksum (bytes_of (wfShort (files ! i))))"
proof -
  have u: "u32_of (wfLength (files ! i)) = nat (wfLength (files ! i))"
    using assms(4,5) by (intro u32_of_id) auto
  have "nat (wfLength (files ! i)) < 2 ^ 32" using assms(5) by simp
  from write83_decode [OF assms(3) this] assms(4) wbfs_dir_entry [OF assms(1,2)] show ?thesis
    by (simp add: Let_def u)
qed

definition demo_file :: wii_file where
  "demo_file = \<lparr>wfName = ''RMCE01.wbfs'', wfShort = ''RM0A1B2CWBF'', wfGame = demo_game, wfOff = 0,
     wfLength = 10000, wfFirst = 70000\<rparr>"

theorem wbfs_dir_decodes_witness:
  "get_le (slice (wbfs_dir 4096 3 [demo_file]) 96 32) 26 2 +
   65536 * get_le (slice (wbfs_dir 4096 3 [demo_file]) 96 32) 20 2 = 70000"
  using wbfs_dir_decodes [of 0 "[demo_file]" 4096 3] by (simp add: demo_file_def Let_def)

end
