(* ===== verification/Fat_Names.thy ===== *)
theory Fat_Names
  imports Go_Std
begin

text \<open>
  Names of \<open>server/host-daemon/fat32virtual/layout.go\<close>: the cleaning of virtual paths, the tree of
  directories (\<open>makeTree\<close>, \<open>collectNodes\<close>) and the 8.3 aliases (\<open>assignShortNames\<close>).  A node
  is identified by what is unique in the code's tree: a directory by its full path, a file
  by its position in the file list.  The map from lower-case paths to directories that
  \<open>makeTree\<close> keeps is the search among the children of the directory it descends into.
\<close>

section \<open>Go's package path\<close>

fun clean_parts :: "bool \<Rightarrow> string list \<Rightarrow> string list \<Rightarrow> string list" where
  "clean_parts rooted [] acc = rev acc"
| "clean_parts rooted (p # ps) acc =
     (if p = '''' \<or> p = ''.'' then clean_parts rooted ps acc
      else if p = ''..'' then
        (case acc of
           [] \<Rightarrow> clean_parts rooted ps (if rooted then [] else [''..''])
         | a # as \<Rightarrow> clean_parts rooted ps (if a = ''..'' then ''..'' # acc else as))
      else clean_parts rooted ps (p # acc))"

fun join_slash :: "string list \<Rightarrow> string" where
  "join_slash [] = ''''"
| "join_slash [p] = p"
| "join_slash (p # q # ps) = p @ CHR ''/'' # join_slash (q # ps)"

definition path_clean :: "string \<Rightarrow> string" where
  "path_clean p =
     (let rooted = (take 1 p = ''/''); parts = clean_parts rooted (split_on (CHR ''/'') p) []
      in if rooted then CHR ''/'' # join_slash parts
         else if parts = [] then ''.'' else join_slash parts)"

text \<open>The suffix that begins at the last dot, and the name without it.\<close>

definition path_ext :: "string \<Rightarrow> string" where
  "path_ext name =
     (let after = takeWhile (\<lambda>c. c \<noteq> CHR ''.'' \<and> c \<noteq> CHR ''/'') (rev name);
          rest = drop (length after) (rev name)
      in if take 1 rest = ''.'' then CHR ''.'' # rev after else [])"

definition trim_suffix :: "string \<Rightarrow> string \<Rightarrow> string" where
  "trim_suffix s t = (if drop (length s - length t) s = t then take (length s - length t) s else s)"

definition trim_dot :: "string \<Rightarrow> string" where
  "trim_dot s = (if take 1 s = ''.'' then drop 1 s else s)"

section \<open>Files\<close>

record fat_identity =
  idFilesystemID :: string
  idSize :: int
  idModTime :: int
  idDevice :: nat
  idInode :: nat
  idSHA256 :: string

record fat_file =
  ffVirtualPath :: string
  ffVirtualOffset :: int
  ffLogicalSize :: int
  ffAllocatedSize :: int
  ffSourcePath :: string
  ffSourceOffset :: int
  ffSourceSize :: int
  ffIdentity :: fat_identity
  ffGameID :: string
  ffRevision :: nat
  ffDiscNumber :: nat
  ffFormat :: string
  ffFSTRoot :: string
  ffFSTTreeSHA256 :: string
  ffWritable :: bool
  ffSaveObjectID :: string
  ffCardOffset :: int
  ffCardSize :: int
  ffGenerationID :: string

section \<open>The tree\<close>

datatype fat_node =
    FatDir (fnName: string) (fnFull: string) (fnShort: string) (fnKids: "fat_node list")
  | FatFile (fnName: string) (fnFull: string) (fnShort: string) (fnIndex: nat)

definition is_dir :: "fat_node \<Rightarrow> bool" where
  "is_dir n = (case n of FatDir _ _ _ _ \<Rightarrow> True | _ \<Rightarrow> False)"

text \<open>Apply \<open>f\<close> to the first element that satisfies \<open>P\<close>, or append \<open>f new\<close>.\<close>

fun update_first :: "('a \<Rightarrow> bool) \<Rightarrow> ('a \<Rightarrow> 'a) \<Rightarrow> 'a \<Rightarrow> 'a list \<Rightarrow> 'a list" where
  "update_first P f new [] = [f new]"
| "update_first P f new (x # xs) = (if P x then f x # xs else x # update_first P f new xs)"

fun insert_path :: "string list \<Rightarrow> string \<Rightarrow> nat \<Rightarrow> fat_node \<Rightarrow> fat_node" where
  "insert_path [] current i n = n"
| "insert_path [part] current i (FatDir nm fl sh kids) =
     FatDir nm fl sh (kids @ [FatFile part (current @ CHR ''/'' # part) [] i])"
| "insert_path (part # p # ps) current i (FatDir nm fl sh kids) =
     FatDir nm fl sh
       (update_first (\<lambda>k. is_dir k \<and> to_lower (fnName k) = to_lower part)
          (insert_path (p # ps) (current @ CHR ''/'' # part) i)
          (FatDir part (current @ CHR ''/'' # part) [] []) kids)"
| "insert_path (part # ps) current i (FatFile nm fl sh k) = FatFile nm fl sh k"

definition unsafe_part :: "string \<Rightarrow> bool" where
  "unsafe_part p \<longleftrightarrow> p = '''' \<or> p = ''.'' \<or> p = ''..'' \<or> CHR 0x00 \<in> set p"

fun make_tree_loop :: "fat_file list \<Rightarrow> nat \<Rightarrow> string list \<Rightarrow> fat_node \<Rightarrow> go_err + fat_node" where
  "make_tree_loop [] i seen root = Inr root"
| "make_tree_loop (f # fs) i seen root =
     (let clean = path_clean (ffVirtualPath f); key = to_lower clean;
          parts = split_on (CHR ''/'') (drop 1 clean)
      in if clean = ''.'' \<or> clean = ''/'' \<or> take 1 clean \<noteq> ''/'' \<or> CHR 0x5C \<in> set clean
         then Inl (Msg ''unsafe virtual path'')
         else if key \<in> set seen then Inl (Msg ''duplicate case-insensitive FAT path'')
         else if list_ex unsafe_part parts then Inl (Msg ''unsafe virtual path component'')
         else make_tree_loop fs (Suc i) (key # seen) (insert_path parts [] i root))"

fun sort_tree :: "fat_node \<Rightarrow> fat_node" where
  "sort_tree (FatDir nm fl sh kids) =
     FatDir nm fl sh (sort_slice (\<lambda>k. to_lower (fnName k)) (map sort_tree kids))"
| "sort_tree (FatFile nm fl sh i) = FatFile nm fl sh i"

definition make_tree :: "fat_file list \<Rightarrow> go_err + fat_node" where
  "make_tree files =
     (case make_tree_loop files 0 [] (FatDir [] ''/'' [] []) of
        Inl err \<Rightarrow> Inl err
      | Inr root \<Rightarrow> Inr (sort_tree root))"

text \<open>Directories and files, each in the order of the walk.\<close>

fun collect_dirs :: "fat_node \<Rightarrow> fat_node list" where
  "collect_dirs (FatDir nm fl sh kids) = FatDir nm fl sh kids # concat (map collect_dirs kids)"
| "collect_dirs (FatFile nm fl sh i) = []"

fun collect_files :: "fat_node \<Rightarrow> fat_node list" where
  "collect_files (FatDir nm fl sh kids) = concat (map collect_files kids)"
| "collect_files (FatFile nm fl sh i) = [FatFile nm fl sh i]"

section \<open>Short names\<close>

definition short_char :: "char \<Rightarrow> bool" where
  "short_char c \<longleftrightarrow> 65 \<le> code_of c \<and> code_of c \<le> 90 \<or> 48 \<le> code_of c \<and> code_of c \<le> 57 \<or>
     c \<in> set ''$%-_@~`!(){}^#&'' \<or> code_of c = 39"

definition short_chars :: "string \<Rightarrow> string" where
  "short_chars s = filter short_char (to_upper s)"

definition is_plain83 :: "string \<Rightarrow> bool \<Rightarrow> bool" where
  "is_plain83 name directory =
     (if name \<noteq> to_upper name \<or> list_ex (\<lambda>c. c \<in> set '' +,;=[]'') name then False
      else if directory then 0 < length name \<and> length name \<le> 8 \<and> CHR ''.'' \<notin> set name
      else let base = trim_suffix name (path_ext name)
           in 0 < length base \<and> length base \<le> 8 \<and> length (trim_dot (path_ext name)) \<le> 3)"

definition truncate_to :: "string \<Rightarrow> nat \<Rightarrow> string" where
  "truncate_to s n = (if length s > n then take n s else s)"

definition numbered_alias :: "string \<Rightarrow> string \<Rightarrow> nat \<Rightarrow> string" where
  "numbered_alias prefix extension sequence =
     (let suffix = CHR ''~'' # show_nat sequence
      in pad_right 8 (take (8 - length suffix) prefix @ suffix) @ pad_right 3 (truncate_to extension 3))"

text \<open>
  The loop over sequence numbers; a run of \<open>length used + 1\<close> distinct candidates cannot be
  used up, see \<open>alias_loop_fresh\<close>.
\<close>

fun alias_loop :: "nat \<Rightarrow> string \<Rightarrow> string \<Rightarrow> string list \<Rightarrow> nat \<Rightarrow> string" where
  "alias_loop 0 prefix extension used sequence = numbered_alias prefix extension sequence"
| "alias_loop (Suc fuel) prefix extension used sequence =
     (let candidate = numbered_alias prefix extension sequence
      in if candidate \<notin> set used then candidate
         else alias_loop fuel prefix extension used (sequence + 1))"

definition short_name :: "string \<Rightarrow> bool \<Rightarrow> string list \<Rightarrow> string" where
  "short_name name directory used =
     (let extension = (if directory then '''' else short_chars (trim_dot (path_ext name)));
          base = short_chars (if directory then name else trim_suffix name (path_ext name))
      in if 0 < length base \<and> length base \<le> 8 \<and> length extension \<le> 3 \<and> is_plain83 name directory
         then pad_right 8 base @ pad_right 3 extension
         else let prefix = take 6 (if base = '''' then ''FILE'' else base)
              in alias_loop (length used) prefix extension used 1)"

fun short_names :: "(string \<times> bool) list \<Rightarrow> string list \<Rightarrow> string list" where
  "short_names [] used = []"
| "short_names ((name, directory) # ks) used =
     (let s = short_name name directory used in s # short_names ks (s # used))"

fun with_short :: "fat_node \<Rightarrow> string \<Rightarrow> fat_node" where
  "with_short (FatDir nm fl sh kids) s = FatDir nm fl s kids"
| "with_short (FatFile nm fl sh i) s = FatFile nm fl s i"

fun assign_short_names :: "fat_node \<Rightarrow> fat_node" where
  "assign_short_names (FatFile nm fl sh i) = FatFile nm fl sh i"
| "assign_short_names (FatDir nm fl sh kids) =
     FatDir nm fl sh (map2 with_short (map assign_short_names kids)
       (short_names (map (\<lambda>k. (fnName k, is_dir k)) kids) []))"

end
