(* ===== verification/Fat_Alias.thy ===== *)
theory Fat_Alias
  imports Fat_Names
begin

text \<open>
  The 8.3 aliases of \<open>assignShortNames\<close> in \<open>fat32virtual/layout.go\<close>.  A numbered alias is
  never one that is in use: distinct numbers give distinct aliases, so the loop meets a free
  one before it has tried them all.  A plain name takes its own form with no look at the
  aliases in use, which two names of one directory can then share.
\<close>

section \<open>Numbered aliases\<close>

lemma digit_char_digit: "d < 10 \<Longrightarrow> digit_char d \<in> set ''0123456789''"
  by (auto simp: digit_char_def less_Suc_eq numeral_eq_Suc)

lemma digit_char_inj: "d < 10 \<Longrightarrow> e < 10 \<Longrightarrow> digit_char d = digit_char e \<Longrightarrow> d = e"
  by (auto simp: digit_char_def less_Suc_eq numeral_eq_Suc)

lemma show_base_small: "n < 10 \<Longrightarrow> show_base 10 n = [digit_char n]"
  by (subst show_base.simps) simp

lemma show_base_large: "\<not> n < 10 \<Longrightarrow> show_base 10 n = show_base 10 (n div 10) @ [digit_char (n mod 10)]"
  by (subst show_base.simps) simp

lemma show_base_induct [case_names small large]:
  assumes "\<And>n. n < (10 :: nat) \<Longrightarrow> P n" "\<And>n. \<not> n < 10 \<Longrightarrow> P (n div 10) \<Longrightarrow> P n"
  shows "P n"
proof (induction n rule: less_induct)
  case (less n)
  then show ?case using assms by (cases "n < 10") auto
qed

lemma show_nat_digits: "set (show_nat n) \<subseteq> set ''0123456789''"
  unfolding show_nat_def
proof (induction n rule: show_base_induct)
  case (small n)
  with digit_char_digit [of n] show ?case by (simp add: show_base_small)
next
  case (large n)
  with digit_char_digit [of "n mod 10"] show ?case by (simp add: show_base_large)
qed

lemma show_base_nonempty: "show_base 10 n \<noteq> []"
  by (cases "n < 10") (simp_all add: show_base_small show_base_large)

lemma length_show_base_1: "length (show_base 10 n) = 1 \<longleftrightarrow> n < 10"
  by (cases "n < 10") (simp_all add: show_base_small show_base_large show_base_nonempty)

lemma show_nat_inj: "show_nat m = show_nat n \<Longrightarrow> m = n"
  unfolding show_nat_def
proof (induction m arbitrary: n rule: show_base_induct)
  case (small m)
  then have "n < 10" using length_show_base_1 by metis
  with small show ?case by (simp add: show_base_small digit_char_inj)
next
  case (large m)
  then have n: "\<not> n < 10" using length_show_base_1 by metis
  have "show_base 10 (m div 10) = show_base 10 (n div 10)" "digit_char (m mod 10) = digit_char (n mod 10)"
    using large(3) by (simp_all add: show_base_large large(1) n)
  then have "m div 10 = n div 10" "m mod 10 = n mod 10"
    using large(2) digit_char_inj [of "m mod 10" "n mod 10"] by simp_all
  then show ?case by (metis div_mult_mod_eq)
qed

lemma show_nat_length: "n < 10 ^ k \<Longrightarrow> 0 < k \<Longrightarrow> length (show_nat n) \<le> k"
  unfolding show_nat_def
proof (induction n arbitrary: k rule: show_base_induct)
  case (small n)
  then show ?case by (simp add: show_base_small)
next
  case (large n)
  then obtain j where j: "k = Suc j" "j \<noteq> 0" by (cases k; cases "k - 1") auto
  have "n div 10 < 10 ^ j" using large(3) j by (simp add: less_mult_imp_div_less mult.commute)
  with large(2) [of j] j show ?case by (simp add: show_base_large large(1))
qed

text \<open>The number of an alias is what stands between its last tilde and the padding.\<close>

definition alias_number :: "string \<Rightarrow> string" where
  "alias_number s = rev (takeWhile (\<lambda>c. c \<noteq> CHR ''~'') (dropWhile (\<lambda>c. c = CHR '' '') (rev (take 8 s))))"

lemma dropWhile_spaces: "dropWhile (\<lambda>c. c = x) (replicate k x @ xs) = dropWhile (\<lambda>c. c = x) xs"
  by (induction k) auto

lemma alias_number_numbered:
  assumes "n < 10 ^ 7"
  shows "alias_number (numbered_alias prefix extension n) = show_nat n"
proof -
  let ?d = "show_nat n"
  have len: "length ?d \<le> 7" by (rule show_nat_length [OF assms]) simp
  have digits: "c \<noteq> CHR ''~''" "c \<noteq> CHR '' ''" if "c \<in> set ?d" for c
    using show_nat_digits [of n] that by auto
  define base where "base = take (8 - Suc (length ?d)) prefix"
  have lb: "length (base @ CHR ''~'' # ?d) \<le> 8" using len by (simp add: base_def)
  have ne: "?d \<noteq> []" unfolding show_nat_def by (rule show_base_nonempty)
  define pad where "pad = (base @ CHR ''~'' # ?d) @ replicate (8 - length (base @ CHR ''~'' # ?d)) (CHR '' '')"
  have lp: "length pad = 8" using lb unfolding pad_def length_append length_replicate by arith
  have n: "numbered_alias prefix extension n = pad @ pad_right 3 (truncate_to extension 3)"
    by (simp only: numbered_alias_def pad_def pad_right_def base_def Let_def length_Cons append_Cons append_assoc)
  have t: "take 8 (numbered_alias prefix extension n) = pad" unfolding n by (simp add: lp)
  have d: "dropWhile (\<lambda>c. c = CHR '' '') (rev ?d @ CHR ''~'' # rev base) = rev ?d @ CHR ''~'' # rev base"
    using digits ne by (cases "rev ?d") (auto simp: rev_swap)
  have k: "takeWhile (\<lambda>c. c \<noteq> CHR ''~'') (rev ?d @ CHR ''~'' # rev base) = rev ?d"
    using digits by (subst takeWhile_append2) auto
  show ?thesis
    unfolding alias_number_def t pad_def by (simp add: dropWhile_spaces d k)
qed

lemma numbered_alias_inj:
  "m < 10 ^ 7 \<Longrightarrow> n < 10 ^ 7 \<Longrightarrow> numbered_alias p e m = numbered_alias p e n \<Longrightarrow> m = n"
  by (metis alias_number_numbered show_nat_inj)

section \<open>The loop finds a free alias\<close>

lemma alias_loop_used:
  "alias_loop fuel p e used n \<in> set used \<Longrightarrow> i \<le> fuel \<Longrightarrow> numbered_alias p e (n + i) \<in> set used"
proof (induction fuel p e used n arbitrary: i rule: alias_loop.induct)
  case (2 fuel p e used n)
  from 2(2) have used: "numbered_alias p e n \<in> set used" by (auto simp: Let_def split: if_splits)
  show ?case
  proof (cases i)
    case (Suc j)
    with 2 used show ?thesis by (auto simp: Let_def)
  qed (use used in simp)
qed simp

lemma alias_loop_fresh:
  assumes "length used < 10 ^ 6"
  shows "alias_loop (length used) p e used 1 \<notin> set used"
proof
  assume used: "alias_loop (length used) p e used 1 \<in> set used"
  have "numbered_alias p e ` {1..length used + 1} \<subseteq> set used"
  proof (rule image_subsetI)
    fix n assume "n \<in> {1..length used + 1}"
    then show "numbered_alias p e n \<in> set used" using alias_loop_used [OF used, of "n - 1"] by auto
  qed
  moreover have "inj_on (numbered_alias p e) {1..length used + 1}"
    using assms by (intro inj_onI numbered_alias_inj [of _ _ p e]) auto
  ultimately have "card {1..length used + 1} \<le> card (set used)" by (metis card_inj_on_le finite_set)
  then show False using card_length [of used] by simp
qed

section \<open>Properties\<close>

text \<open>The first branch of \<open>assignShortNames\<close>.\<close>

definition takes_plain_form :: "string \<Rightarrow> bool \<Rightarrow> bool" where
  "takes_plain_form name directory =
     (let extension = (if directory then '''' else short_chars (trim_dot (path_ext name)));
          base = short_chars (if directory then name else trim_suffix name (path_ext name))
      in 0 < length base \<and> length base \<le> 8 \<and> length extension \<le> 3 \<and> is_plain83 name directory)"

text \<open>
  C29.  A name that is not a plain 8.3 name gets an alias that no earlier name of its directory
  has.
\<close>

theorem short_name_fresh:
  assumes "\<not> takes_plain_form name directory" "length used < 10 ^ 6"
  shows "short_name name directory used \<notin> set used"
  unfolding short_name_def Let_def if_not_P [OF assms(1) [unfolded takes_plain_form_def Let_def]]
  by (rule alias_loop_fresh [OF assms(2)])

theorem short_name_fresh_witness:
  "short_name ''A long name'' True [''ALONGN~1   ''] \<notin> set [''ALONGN~1   '']"
  by (rule short_name_fresh) (code_simp, simp)

text \<open>The plain branch has no such check: two names of one directory can get one alias.\<close>

lemma plain_alias_shared:
  "short_names [(''GAMEFILE X'', True), (''GAMEFI~1'', True)] [] = [''GAMEFI~1   '', ''GAMEFI~1   '']"
  by code_simp

end
