(* ===== verification/Fat_Dir.thy ===== *)
theory Fat_Dir
  imports Fat_Names
begin

text \<open>
  Directory entries and system sectors of \<open>server/host-daemon/fat32virtual/layout.go\<close>: long-name
  slots (\<open>lfnSlots\<close>, \<open>makeLFN\<close>), 8.3 entries (\<open>writeEntry\<close>), whole directories
  (\<open>buildDirectory\<close>), and the MBR, boot and FSInfo sectors.
\<close>

abbreviation (input) vsector :: int where "vsector \<equiv> 512"
abbreviation (input) vpartition_start :: int where "vpartition_start \<equiv> 2048"
abbreviation (input) vreserved :: int where "vreserved \<equiv> 32"
abbreviation (input) vfats :: int where "vfats \<equiv> 2"
abbreviation (input) vspc :: int where "vspc \<equiv> 64"
abbreviation (input) vcluster :: int where "vcluster \<equiv> 32768"
abbreviation (input) vminimum_clusters :: int where "vminimum_clusters \<equiv> 65525"

section \<open>Entries\<close>

definition lfn_slots :: "string \<Rightarrow> nat" where
  "lfn_slots name = (length (utf16_encode (runes name)) + 12) div 13"

definition lfn_offsets :: "nat list" where
  "lfn_offsets = [1, 3, 5, 7, 9, 14, 16, 18, 20, 22, 24, 28, 30]"

definition lfn_unit :: "nat list \<Rightarrow> nat \<Rightarrow> nat" where
  "lfn_unit code i = (if i < length code then code ! i else if i = length code then 0 else 0xffff)"

definition lfn_entry :: "nat list \<Rightarrow> nat \<Rightarrow> byte \<Rightarrow> nat \<Rightarrow> byte list" where
  "lfn_entry code slots checksum diskIndex =
     (let e0 = replicate 32 0xff;
          e1 = e0[0 := word_of_nat (if diskIndex = slots then or (diskIndex mod 256) 0x40 else diskIndex),
                  11 := 0x0f, 12 := 0, 13 := checksum, 26 := 0, 27 := 0]
      in foldl (\<lambda>e (index, pos). put_le e pos 2 (lfn_unit code ((diskIndex - 1) * 13 + index)))
           e1 (enumerate 0 lfn_offsets))"

definition make_lfn :: "string \<Rightarrow> byte \<Rightarrow> byte list list" where
  "make_lfn name checksum =
     (let code = utf16_encode (runes name); slots = (length code + 12) div 13
      in map (lfn_entry code slots checksum) (rev [1..<Suc slots]))"

definition alias_checksum :: "byte list \<Rightarrow> byte" where
  "alias_checksum short =
     foldl (\<lambda>sum v. push_bit 7 (and sum 1) + drop_bit 1 sum + v) 0 (take 11 short)"

definition write_entry :: "string \<Rightarrow> nat \<Rightarrow> nat \<Rightarrow> byte \<Rightarrow> byte list" where
  "write_entry name cluster sz attribute =
     (let t0 = put_at (zeros 32) 0 (take 11 (bytes_of name));
          t1 = t0[11 := attribute];
          t2 = put_le t1 20 2 (cluster div 65536);
          t3 = put_le t2 26 2 cluster
      in put_le t3 28 4 sz)"

section \<open>Directories\<close>

text \<open>
  First clusters: \<open>dirFirst\<close> by the full path of a directory, \<open>fileFirst\<close> by the position of
  a file.
\<close>

definition child_entries ::
  "(string \<Rightarrow> nat) \<Rightarrow> (nat \<Rightarrow> nat) \<Rightarrow> fat_file list \<Rightarrow> fat_node \<Rightarrow> byte list list \<times> byte list" where
  "child_entries dirFirst fileFirst files k =
     (make_lfn (fnName k) (alias_checksum (bytes_of (fnShort k))),
      (case k of
         FatDir _ full short _ \<Rightarrow> write_entry short (dirFirst full) 0 0x10
       | FatFile _ _ short i \<Rightarrow>
           write_entry short (fileFirst i) (u32_of (ffLogicalSize (files ! i))) 0x20))"

text \<open>
  The writes of the loop over the children.  The check of \<open>offset + 32\<close> guards only the
  long-name slots; an 8.3 entry past the end is a slice out of bounds, which panics.
\<close>

fun put_slots :: "byte list list \<Rightarrow> nat \<Rightarrow> byte list \<Rightarrow> go_err + nat \<times> byte list" where
  "put_slots [] offset bs = Inr (offset, bs)"
| "put_slots (e # es) offset bs =
     (if offset + 32 > length bs then Inl (Msg ''FAT32 directory allocation overflow'')
      else put_slots es (offset + 32) (put_at bs offset e))"

fun put_children :: "(byte list list \<times> byte list) list \<Rightarrow> nat \<Rightarrow> byte list \<Rightarrow> go_err + byte list" where
  "put_children [] offset bs = Inr bs"
| "put_children ((slots, entry) # ks) offset bs =
     (case put_slots slots offset bs of
        Inl err \<Rightarrow> Inl err
      | Inr (offset1, bs1) \<Rightarrow>
          if offset1 + 32 > length bs1 then Inl (Msg ''panic: slice bounds out of range'')
          else put_children ks (offset1 + 32) (put_at bs1 offset1 entry))"

definition volume_label :: "string \<Rightarrow> string" where
  "volume_label label = pad_right 11 (truncate_to (short_chars label) 11)"

text \<open>\<open>parentFirst\<close> is the first cluster of the parent, 0 for a child of the root.\<close>

definition build_directory ::
  "(string \<Rightarrow> nat) \<Rightarrow> (nat \<Rightarrow> nat) \<Rightarrow> fat_file list \<Rightarrow> string \<Rightarrow> nat \<Rightarrow> nat option \<Rightarrow> fat_node \<Rightarrow>
   go_err + byte list" where
  "build_directory dirFirst fileFirst files label clusters parentFirst d =
     (let data0 = zeros (clusters * 32768);
          ks = map (child_entries dirFirst fileFirst files) (fnKids d)
      in case parentFirst of
           None \<Rightarrow> put_children ks 32 (put_at data0 0 (write_entry (volume_label label) 0 0 0x08))
         | Some p \<Rightarrow>
             put_children ks 64
               (put_at (put_at data0 0 (write_entry (pad_right 11 ''.'') (dirFirst (fnFull d)) 0 0x10)) 32
                  (write_entry (pad_right 11 ''..'') p 0 0x10)))"

definition directory_entries :: "bool \<Rightarrow> fat_node \<Rightarrow> nat" where
  "directory_entries isRoot d =
     (if isRoot then 1 else 2) + sum_list (map (\<lambda>k. lfn_slots (fnName k) + 1) (fnKids d))"

definition directory_clusters :: "bool \<Rightarrow> fat_node \<Rightarrow> nat" where
  "directory_clusters isRoot d = max 1 ((directory_entries isRoot d * 32 + 32767) div 32768)"

section \<open>System sectors\<close>

definition fat_make_mbr :: "int \<Rightarrow> int \<Rightarrow> nat \<Rightarrow> byte list" where
  "fat_make_mbr start sectors signature =
     (let d0 = put_le (zeros 512) 440 4 signature;
          d1 = d0[446 := 0, 450 := 0x0c, 447 := 0x20, 448 := 0x21, 449 := 0,
                  451 := 0xfe, 452 := 0xff, 453 := 0xff];
          d2 = put_le d1 454 4 (u32_of start);
          d3 = put_le d2 458 4 (u32_of sectors)
      in d3[510 := 0x55, 511 := 0xaa])"

definition fat_make_boot :: "int \<Rightarrow> int \<Rightarrow> nat \<Rightarrow> nat \<Rightarrow> string \<Rightarrow> byte list" where
  "fat_make_boot sectors fatSectors root volumeID label =
     (let d0 = put_at (put_at (zeros 512) 0 [0xeb, 0x58, 0x90]) 3 (bytes_of ''WIIBRDG '');
          d1 = (put_le d0 11 2 512)[13 := 64];
          d2 = (put_le d1 14 2 32)[16 := 2, 21 := 0xf8];
          d3 = put_le (put_le d2 24 2 63) 26 2 255;
          d4 = put_le (put_le (put_le d3 28 4 2048) 32 4 (u32_of sectors)) 36 4 (u32_of fatSectors);
          d5 = put_le (put_le (put_le d4 44 4 root) 48 2 1) 50 2 6;
          d6 = put_le (d5[64 := 0x80, 66 := 0x29]) 67 4 volumeID;
          d7 = put_at (put_at d6 71 (bytes_of (volume_label label))) 82 (bytes_of ''FAT32   '')
      in d7[510 := 0x55, 511 := 0xaa])"

definition fat_make_fsinfo :: "nat \<Rightarrow> nat \<Rightarrow> byte list" where
  "fat_make_fsinfo freeClusters nextFree =
     (let d0 = put_at (put_at (zeros 512) 0 (bytes_of ''RRaA'')) 484 (bytes_of ''rrAa'');
          d1 = put_le (put_le d0 488 4 freeClusters) 492 4 nextFree
      in d1[510 := 0x55, 511 := 0xaa])"

end
