(* ===== verification/Fat_Layout.thy ===== *)
theory Fat_Layout
  imports Fat_Dir "HOL-Library.AList"
begin

text \<open>
  \<open>Build\<close> of \<open>server/host-daemon/fat32virtual/layout.go\<close>: geometry, the FAT with one chain for
  every directory and file, the metadata with its storage offsets, the source and save
  extents, the final range check and the checksums.
\<close>

section \<open>The layout\<close>

record fat_extent =
  feVirtualOffset :: int
  feLength :: int
  feSourcePath :: string
  feSourceOffset :: int
  feSourceSize :: int
  feIdentity :: fat_identity
  feReadOnly :: bool

record metadata_extent =
  mxVirtualOffset :: int
  mxLength :: int
  mxStorageOffset :: int

record save_extent =
  sxVirtualOffset :: int
  sxLength :: int
  sxSaveObjectID :: string
  sxCardOffset :: int
  sxCardSize :: int
  sxGenerationID :: string
  sxLayoutChecksum :: string

record fat_geometry =
  fgPartitionSectors :: int
  fgFATSectors :: int
  fgFirstDataSector :: int
  fgVolumeID :: nat

record fat_layout =
  flSchema :: int
  flVirtualSize :: int
  flGeometry :: fat_geometry
  flMetadataExtents :: "metadata_extent list"
  flSourceExtents :: "fat_extent list"
  flSaveExtents :: "save_extent list"
  flFiles :: "fat_file list"
  flMetadataHash :: string
  flExtentMapHash :: string
  flSaveExtentHash :: string
  flLayoutChecksum :: string

section \<open>Range check\<close>

text \<open>Go's division truncates toward zero.\<close>

definition go_quot :: "int \<Rightarrow> int \<Rightarrow> int" where
  "go_quot a b = (if 0 \<le> a then a div b else - (- a div b))"

definition metadata_range_ok :: "int \<Rightarrow> metadata_extent \<Rightarrow> bool" where
  "metadata_range_ok sz m \<longleftrightarrow>
     \<not> (mxVirtualOffset m < 0 \<or> mxLength m \<le> 0 \<or> mxVirtualOffset m > sz - mxLength m)"

definition source_range_ok :: "int \<Rightarrow> fat_extent \<Rightarrow> bool" where
  "source_range_ok sz e \<longleftrightarrow>
     \<not> (feVirtualOffset e < 0 \<or> feLength e < 0 \<or> feSourceOffset e < 0 \<or>
        feSourceOffset e > feSourceSize e - feLength e \<or> feVirtualOffset e > sz - feLength e)"

definition save_range_ok :: "int \<Rightarrow> save_extent \<Rightarrow> bool" where
  "save_range_ok sz s \<longleftrightarrow>
     \<not> (sxVirtualOffset s < 0 \<or> sxLength s \<le> 0 \<or> sxSaveObjectID s = '''' \<or> sxCardOffset s < 0 \<or>
        sxCardSize s \<le> 0 \<or> sxCardOffset s > sxCardSize s - sxLength s \<or> sxVirtualOffset s > sz - sxLength s)"

fun check_saves :: "int \<Rightarrow> save_extent list \<Rightarrow> string list \<Rightarrow> go_err option" where
  "check_saves sz [] seen = None"
| "check_saves sz (s # ss) seen =
     (if \<not> save_range_ok sz s then Some (Msg ''save extent exceeds card or virtual disk'')
      else if sxSaveObjectID s \<in> set seen then Some (Msg ''duplicate writable save object extent'')
      else check_saves sz ss (sxSaveObjectID s # seen))"

fun spans_disjoint :: "(int \<times> int) list \<Rightarrow> bool" where
  "spans_disjoint (a # b # ss) \<longleftrightarrow> snd a \<le> fst b \<and> spans_disjoint (b # ss)"
| "spans_disjoint ss \<longleftrightarrow> True"

definition spans_of ::
  "metadata_extent list \<Rightarrow> fat_extent list \<Rightarrow> save_extent list \<Rightarrow> (int \<times> int) list" where
  "spans_of metas sources saves =
     map (\<lambda>m. (mxVirtualOffset m, mxVirtualOffset m + mxLength m)) metas @
     map (\<lambda>e. (feVirtualOffset e, feVirtualOffset e + feLength e)) sources @
     map (\<lambda>s. (sxVirtualOffset s, sxVirtualOffset s + sxLength s)) saves"

definition validate_ranges ::
  "int \<Rightarrow> metadata_extent list \<Rightarrow> fat_extent list \<Rightarrow> save_extent list \<Rightarrow> go_err option" where
  "validate_ranges sz metas sources saves =
     (if \<not> list_all (metadata_range_ok sz) metas then Some (Msg ''metadata extent exceeds virtual disk'')
      else if \<not> list_all (source_range_ok sz) sources
      then Some (Msg ''source extent exceeds source or virtual disk'')
      else case check_saves sz saves [] of
             Some err \<Rightarrow> Some err
           | None \<Rightarrow>
               if \<not> spans_disjoint (sort_slice fst (spans_of metas sources saves))
               then Some (Msg ''virtual FAT32 extents overlap'') else None)"

section \<open>Checksums\<close>

definition hash_extents :: "fat_extent list \<Rightarrow> string" where
  "hash_extents es =
     (let sep = [0]; nl = [10]; num = (\<lambda>i. bytes_of (show_int i))
      in hex_lower (sha256 (concat (map (\<lambda>e.
           num (feVirtualOffset e) @ sep @ num (feLength e) @ sep @ bytes_of (feSourcePath e) @ sep @
           num (feSourceOffset e) @ sep @ num (feSourceSize e) @ sep @
           bytes_of (idSHA256 (feIdentity e)) @ nl @
           (if idFilesystemID (feIdentity e) \<noteq> ''''
            then bytes_of ''filesystem-id'' @ sep @ bytes_of (idFilesystemID (feIdentity e)) @ nl else [])) es))))"

definition hash_save_extents :: "save_extent list \<Rightarrow> bool \<Rightarrow> string" where
  "hash_save_extents es includeLayout =
     (let sep = [0]; nl = [10]; num = (\<lambda>i. bytes_of (show_int i))
      in hex_lower (sha256 (concat (map (\<lambda>e.
           num (sxVirtualOffset e) @ sep @ num (sxLength e) @ sep @ bytes_of (sxSaveObjectID e) @ sep @
           num (sxCardOffset e) @ sep @ num (sxCardSize e) @ sep @ bytes_of (sxGenerationID e) @ sep @
           bytes_of (if includeLayout then sxLayoutChecksum e else '''') @ nl) es))))"

section \<open>Allocation\<close>

definition file_clusters :: "int \<Rightarrow> int" where
  "file_clusters sz = (if (sz + vcluster - 1) div vcluster = 0 then 1 else (sz + vcluster - 1) div vcluster)"

text \<open>Capacity: available clusters, FAT sectors and first data sector, after the second pass.\<close>

definition fat_fit :: "int \<Rightarrow> int \<Rightarrow> go_err + int \<times> int \<times> int" where
  "fat_fit virtualSize allocated =
     (let total0 = max allocated vminimum_clusters;
          fatSectors0 = ((total0 + 2) * 4 + vsector - 1) div vsector;
          firstData0 = vreserved + vfats * fatSectors0;
          partitionSectors = virtualSize div vsector - vpartition_start;
          available0 = go_quot (partitionSectors - firstData0) vspc
      in if available0 < allocated \<or> available0 > 4294967295 - 2
         then Inl (Msg ''virtual FAT32 capacity is insufficient'')
         else let fatSectors = ((available0 + 2) * 4 + vsector - 1) div vsector;
                  firstData = vreserved + vfats * fatSectors;
                  available = go_quot (partitionSectors - firstData) vspc
              in if available < allocated
                 then Inl (Msg ''virtual FAT32 geometry did not converge'')
                 else Inr (available, fatSectors, firstData))"

fun fat_chain :: "nat \<Rightarrow> nat \<times> byte list \<Rightarrow> nat \<times> byte list" where
  "fat_chain 0 st = st"
| "fat_chain (Suc k) (next, fat) =
     fat_chain k (next + 1, put_le fat (next * 4) 4 (if k > 0 then u32 (next + 1) else 0x0fffffff))"

text \<open>The first clusters of a list of chains, and the state after them.\<close>

fun fat_chains_from :: "nat list \<Rightarrow> nat \<times> byte list \<Rightarrow> nat list \<times> nat \<times> byte list" where
  "fat_chains_from [] st = ([], st)"
| "fat_chains_from (c # cs) st =
     (case fat_chains_from cs (fat_chain c st) of (firsts, st') \<Rightarrow> (fst st # firsts, st'))"

fun dir_parents :: "string \<Rightarrow> fat_node \<Rightarrow> (fat_node \<times> string) list" where
  "dir_parents p (FatDir nm fl sh kids) = (FatDir nm fl sh kids, p) # concat (map (dir_parents fl) kids)"
| "dir_parents p (FatFile nm fl sh i) = []"

text \<open>The offset of a cluster on the disk.\<close>

definition cluster_offset :: "int \<Rightarrow> nat \<Rightarrow> int" where
  "cluster_offset dataStart first = dataStart + (int first - 2) * vcluster"

section \<open>Metadata\<close>

text \<open>\<open>addMetadata\<close>: the bytes stored so far and the extents that refer to them.\<close>

type_synonym metadata_store = "byte list \<times> metadata_extent list"

definition add_metadata :: "int \<Rightarrow> byte list \<Rightarrow> metadata_store \<Rightarrow> metadata_store" where
  "add_metadata virtualOffset bs st =
     (fst st @ bs, snd st @ [\<lparr>mxVirtualOffset = virtualOffset, mxLength = int (length bs),
        mxStorageOffset = int (length (fst st))\<rparr>])"

definition system_metadata ::
  "int \<Rightarrow> int \<Rightarrow> nat \<Rightarrow> nat \<Rightarrow> string \<Rightarrow> nat \<Rightarrow> nat \<Rightarrow> byte list \<Rightarrow> metadata_store" where
  "system_metadata partitionSectors fatSectors rootFirst volumeID label freeClusters next fat =
     (let boot = fat_make_boot partitionSectors fatSectors rootFirst volumeID label;
          info = fat_make_fsinfo freeClusters (if freeClusters = 0 then 0xffffffff else next);
          m1 = add_metadata 0 (fat_make_mbr vpartition_start partitionSectors volumeID) ([], []);
          m2 = add_metadata (vpartition_start * vsector) boot m1;
          m3 = add_metadata ((vpartition_start + 6) * vsector) boot m2;
          m4 = add_metadata ((vpartition_start + 1) * vsector) info m3;
          m5 = add_metadata ((vpartition_start + 7) * vsector) info m4;
          fatStorage = int (length (fst m5));
          fatOffset = (\<lambda>copy. (vpartition_start + vreserved + copy * fatSectors) * vsector);
          m6 = add_metadata (fatOffset 0) fat m5
      in (fst m6, snd m6 @ [\<lparr>mxVirtualOffset = fatOffset 1, mxLength = int (length fat),
            mxStorageOffset = fatStorage\<rparr>]))"

fun directory_metadata ::
  "(fat_node \<Rightarrow> go_err + byte list) \<Rightarrow> int \<Rightarrow> (fat_node \<times> nat) list \<Rightarrow> metadata_store \<Rightarrow> go_err + metadata_store" where
  "directory_metadata build dataStart [] st = Inr st"
| "directory_metadata build dataStart ((d, first) # ds) st =
     (case build d of
        Inl err \<Rightarrow> Inl err
      | Inr bs \<Rightarrow> directory_metadata build dataStart ds
                    (add_metadata (cluster_offset dataStart first) bs st))"

section \<open>Extents\<close>

definition place_file :: "int \<Rightarrow> fat_file \<Rightarrow> fat_file" where
  "place_file virtualOffset f = f\<lparr>ffVirtualOffset := virtualOffset,
     ffAllocatedSize := file_clusters (ffLogicalSize f) * vcluster\<rparr>"

fun file_extents_of ::
  "int \<Rightarrow> (nat \<times> nat) list \<Rightarrow> fat_file list \<Rightarrow> fat_extent list \<Rightarrow> save_extent list \<Rightarrow>
   go_err + fat_file list \<times> fat_extent list \<times> save_extent list" where
  "file_extents_of dataStart [] files sources saves = Inr (files, sources, saves)"
| "file_extents_of dataStart ((i, first) # fs) files sources saves =
     (let virtualOffset = cluster_offset dataStart first;
          f = place_file virtualOffset (files ! i);
          files' = files[i := f]
      in if ffWritable f
         then if ffSaveObjectID f = '''' \<or> ffCardSize f \<le> 0 \<or> ffLogicalSize f \<noteq> ffCardSize f \<or>
                 ffCardOffset f < 0 \<or> ffCardOffset f > ffCardSize f - ffLogicalSize f \<or>
                 ffSourcePath f \<noteq> ''''
              then Inl (Msg ''invalid writable save file'')
              else file_extents_of dataStart fs files' sources
                     (saves @ [\<lparr>sxVirtualOffset = virtualOffset, sxLength = ffLogicalSize f,
                        sxSaveObjectID = ffSaveObjectID f, sxCardOffset = ffCardOffset f,
                        sxCardSize = ffCardSize f, sxGenerationID = ffGenerationID f,
                        sxLayoutChecksum = ''''\<rparr>])
         else if ffSourcePath f = '''' then Inl (Msg ''immutable virtual file has no source'')
         else file_extents_of dataStart fs files'
                (sources @ [\<lparr>feVirtualOffset = virtualOffset, feLength = ffLogicalSize f,
                   feSourcePath = ffSourcePath f, feSourceOffset = ffSourceOffset f,
                   feSourceSize = ffSourceSize f, feIdentity = ffIdentity f, feReadOnly = True\<rparr>]) saves)"

section \<open>Build\<close>

definition lookup_or :: "'v \<Rightarrow> ('k \<times> 'v) list \<Rightarrow> 'k \<Rightarrow> 'v" where
  "lookup_or d al k = (case map_of al k of None \<Rightarrow> d | Some v \<Rightarrow> v)"

definition dir_counts :: "fat_node \<Rightarrow> nat list" where
  "dir_counts root = map (\<lambda>d. directory_clusters (fnFull d = fnFull root) d) (collect_dirs root)"

definition file_indices :: "fat_node \<Rightarrow> nat list" where
  "file_indices root = map fnIndex (collect_files root)"

definition file_counts :: "fat_file list \<Rightarrow> fat_node \<Rightarrow> nat list" where
  "file_counts files root = map (\<lambda>i. nat (file_clusters (ffLogicalSize (files ! i)))) (file_indices root)"

definition empty_fat :: "int \<Rightarrow> byte list" where
  "empty_fat fatSectors =
     put_le (put_le (zeros (nat (fatSectors * vsector))) 0 4 0x0ffffff8) 4 4 0xffffffff"

definition fat_volume_id :: "string \<Rightarrow> nat" where
  "fat_volume_id identity =
     (let v = get_le (sha256 (bytes_of identity)) 0 4 in if v = 0 then 0x57424743 else v)"

definition dir_firsts :: "fat_node \<Rightarrow> nat list \<Rightarrow> (string \<times> nat) list" where
  "dir_firsts root firsts = zip (map fnFull (collect_dirs root)) firsts"

definition file_firsts :: "fat_node \<Rightarrow> nat list \<Rightarrow> (nat \<times> nat) list" where
  "file_firsts root firsts = zip (file_indices root) (drop (length (collect_dirs root)) firsts)"

text \<open>The bytes of a directory, once every node has its first cluster.\<close>

definition directory_bytes :: "fat_file list \<Rightarrow> string \<Rightarrow> fat_node \<Rightarrow> nat list \<Rightarrow> fat_node \<Rightarrow> go_err + byte list" where
  "directory_bytes files label root firsts d =
     (let dirFirst = lookup_or 0 (dir_firsts root firsts);
          parent = lookup_or [] (dir_parents [] root) d
      in build_directory dirFirst (lookup_or 0 (file_firsts root firsts)) files label
           (directory_clusters (fnFull d = fnFull root) d)
           (if fnFull d = fnFull root then None
            else Some (if parent = fnFull root then 0 else dirFirst parent)) d)"

text \<open>The checks, sorting and checksums at the end.\<close>

definition finish_layout ::
  "int \<Rightarrow> fat_geometry \<Rightarrow> metadata_store \<Rightarrow> fat_file list \<times> fat_extent list \<times> save_extent list \<Rightarrow>
   go_err + fat_layout \<times> byte list" where
  "finish_layout virtualSize geometry store parts =
     (case (store, parts) of
        ((metadata, metaExtents), (files, sources, saves)) \<Rightarrow>
          (let metas = sort_slice mxVirtualOffset metaExtents;
               srcs = sort_slice feVirtualOffset sources;
               svs = sort_slice sxVirtualOffset saves
           in case validate_ranges virtualSize metas srcs svs of
                Some err \<Rightarrow> Inl err
              | None \<Rightarrow>
                  let metadataHash = hex_lower (sha256 metadata);
                      extentHash = hash_extents srcs;
                      saveBase = hash_save_extents svs False;
                      checksum = hex_lower (sha256 (bytes_of metadataHash @ [0] @
                        bytes_of extentHash @ [0] @ bytes_of saveBase));
                      svs' = map (\<lambda>s. s\<lparr>sxLayoutChecksum := checksum\<rparr>) svs
                  in Inr (\<lparr>flSchema = 2, flVirtualSize = virtualSize, flGeometry = geometry,
                       flMetadataExtents = metas, flSourceExtents = srcs, flSaveExtents = svs',
                       flFiles = files, flMetadataHash = metadataHash, flExtentMapHash = extentHash,
                       flSaveExtentHash = hash_save_extents svs' True,
                       flLayoutChecksum = checksum\<rparr>, metadata)))"

text \<open>From the tree with its short names to the layout.\<close>

definition fat_build_tree ::
  "int \<Rightarrow> string \<Rightarrow> string \<Rightarrow> fat_file list \<Rightarrow> fat_node \<Rightarrow> go_err + fat_layout \<times> byte list" where
  "fat_build_tree virtualSize label identity files root =
     (if list_ex (\<lambda>i. ffLogicalSize (files ! i) < 0 \<or> ffLogicalSize (files ! i) > 4294967295) (file_indices root)
      then Inl (Msg ''exceeds FAT32 file limit'')
      else
        let counts = dir_counts root @ file_counts files root
        in case fat_fit virtualSize (int (sum_list counts)) of
             Inl err \<Rightarrow> Inl err
           | Inr (available, fatSectors, firstData) \<Rightarrow>
               let partitionSectors = virtualSize div vsector - vpartition_start;
                   volumeID = fat_volume_id identity;
                   (firsts, next, fat) = fat_chains_from counts (2, empty_fat fatSectors);
                   dataStart = (vpartition_start + firstData) * vsector;
                   store = system_metadata partitionSectors fatSectors (hd firsts) volumeID label
                             (u32_of (available - (int next - 2))) next fat
               in case directory_metadata (directory_bytes files label root firsts) dataStart
                         (zip (collect_dirs root) firsts) store of
                    Inl err \<Rightarrow> Inl err
                  | Inr store' \<Rightarrow>
                      (case file_extents_of dataStart (file_firsts root firsts) files [] [] of
                         Inl err \<Rightarrow> Inl err
                       | Inr parts \<Rightarrow>
                           finish_layout virtualSize
                             \<lparr>fgPartitionSectors = partitionSectors, fgFATSectors = fatSectors,
                              fgFirstDataSector = firstData, fgVolumeID = volumeID\<rparr> store' parts))"

definition fat_build ::
  "int \<Rightarrow> string \<Rightarrow> string \<Rightarrow> fat_file list \<Rightarrow> go_err + fat_layout \<times> byte list" where
  "fat_build virtualSize label identity files0 =
     (if virtualSize \<le> (vpartition_start + vreserved) * vsector \<or> virtualSize mod vsector \<noteq> 0 \<or>
         virtualSize div vsector > 4294967295
      then Inl (Msg ''invalid virtual FAT32 disk size'')
      else if files0 = [] then Inl (Msg ''virtual FAT32 requires at least one file'')
      else let files = sort_slice (\<lambda>f. to_lower (ffVirtualPath f)) files0
           in case make_tree files of
                Inl err \<Rightarrow> Inl err
              | Inr root \<Rightarrow> fat_build_tree virtualSize label identity files (assign_short_names root))"

end
