(* ===== verification/Fat_Chain.thy ===== *)
theory Fat_Chain
  imports Fat_Layout
begin

text \<open>
  The FAT that \<open>Build\<close> of \<open>fat32virtual/layout.go\<close> writes: every cluster of a chain links to the
  next and nothing else, chains are laid out one after the other from cluster 2, and the
  two-pass geometry leaves room for all of them, in the FAT and on the disk.
\<close>

section \<open>The FAT\<close>

lemma fat_chain_spec:
  "4 * (n + k) \<le> length fat \<Longrightarrow> n + k < 2 ^ 32 \<Longrightarrow>
   fst (fat_chain k (n, fat)) = n + k \<and> length (snd (fat_chain k (n, fat))) = length fat \<and>
   (\<forall>x. 4 * x + 4 \<le> length fat \<longrightarrow> get_le (snd (fat_chain k (n, fat))) (4 * x) 4 =
      (if n \<le> x \<and> x < n + k then if x + 1 < n + k then x + 1 else 0x0fffffff else get_le fat (4 * x) 4))"
proof (induction k arbitrary: n fat)
  case 0
  then show ?case by simp
next
  case (Suc k)
  define v where "v = (if k > 0 then u32 (n + 1) else 0x0fffffff)"
  define fat1 where "fat1 = put_le fat (4 * n) 4 v"
  have fits: "4 * n + 4 \<le> length fat" using Suc.prems(1) by simp
  have len: "length fat1 = length fat" using fits by (simp add: fat1_def)
  have step: "fat_chain (Suc k) (n, fat) = fat_chain k (n + 1, fat1)"
    by (simp add: fat1_def v_def mult.commute)
  have v: "v = (if 0 < k then n + 1 else 0x0fffffff)" using Suc.prems(2) by (simp add: v_def u32_id)
  have IH: "fst (fat_chain k (n + 1, fat1)) = n + 1 + k \<and> length (snd (fat_chain k (n + 1, fat1))) = length fat1 \<and>
     (\<forall>x. 4 * x + 4 \<le> length fat1 \<longrightarrow> get_le (snd (fat_chain k (n + 1, fat1))) (4 * x) 4 =
        (if n + 1 \<le> x \<and> x < n + 1 + k then if x + 1 < n + 1 + k then x + 1 else 0x0fffffff else get_le fat1 (4 * x) 4))"
    using Suc.IH [of "n + 1" fat1] Suc.prems len by simp
  have at: "get_le fat1 (4 * n) 4 = v"
    using get_le_put_le [OF fits, of v] Suc.prems(2) by (simp add: fat1_def v)
  have other: "get_le fat1 (4 * x) 4 = get_le fat (4 * x) 4" if "x \<noteq> n" "4 * x + 4 \<le> length fat" for x
    unfolding fat1_def by (rule get_le_put_le_other) (use that fits in auto)
  show ?case
    unfolding step
  proof (intro conjI allI impI)
    fix x assume x: "4 * x + 4 \<le> length fat"
    consider "x = n" | "x \<noteq> n" by blast
    then show "get_le (snd (fat_chain k (n + 1, fat1))) (4 * x) 4 =
        (if n \<le> x \<and> x < n + Suc k then if x + 1 < n + Suc k then x + 1 else 0x0fffffff else get_le fat (4 * x) 4)"
    proof cases
      case 1
      with IH x len at v show ?thesis by auto
    next
      case 2
      with IH x len other [OF 2 x] show ?thesis by auto
    qed
  qed (use IH len in auto)
qed

text \<open>The chain that holds a cluster, if any, for chains laid out from cluster \<open>n\<close>.\<close>

fun chain_start :: "nat list \<Rightarrow> nat \<Rightarrow> nat list" where
  "chain_start [] n = []"
| "chain_start (c # cs) n = n # chain_start cs (n + c)"

fun chain_link :: "nat list \<Rightarrow> nat \<Rightarrow> nat \<Rightarrow> nat option" where
  "chain_link [] n x = None"
| "chain_link (c # cs) n x =
     (if n \<le> x \<and> x < n + c then Some (if x + 1 < n + c then x + 1 else 0x0fffffff)
      else chain_link cs (n + c) x)"

lemma chain_link_below: "x < n \<Longrightarrow> chain_link cs n x = None"
  by (induction cs n x rule: chain_link.induct) auto

lemma length_chain_start [simp]: "length (chain_start cs n) = length cs"
  by (induction cs n rule: chain_start.induct) auto

lemma nth_chain_start: "k < length cs \<Longrightarrow> chain_start cs n ! k = n + sum_list (take k cs)"
  by (induction cs n arbitrary: k rule: chain_start.induct) (auto simp: nth_Cons' take_Cons' add.assoc)

lemma chain_link_nth:
  "k < length cs \<Longrightarrow> j < cs ! k \<Longrightarrow>
   chain_link cs n (n + sum_list (take k cs) + j) =
     Some (if j + 1 < cs ! k then n + sum_list (take k cs) + j + 1 else 0x0fffffff)"
proof (induction cs arbitrary: n k)
  case (Cons c cs)
  show ?case
  proof (cases k)
    case (Suc k')
    with Cons.IH [of k' "n + c"] Cons.prems show ?thesis by (simp add: add.assoc)
  qed (use Cons.prems in simp)
qed simp

lemma chain_link_above: "n + sum_list cs \<le> x \<Longrightarrow> chain_link cs n x = None"
  by (induction cs n x rule: chain_link.induct) auto

lemma fat_chains_from_spec:
  "4 * (n + sum_list cs) \<le> length fat \<Longrightarrow> n + sum_list cs < 2 ^ 32 \<Longrightarrow>
   fst (fat_chains_from cs (n, fat)) = chain_start cs n \<and>
   fst (snd (fat_chains_from cs (n, fat))) = n + sum_list cs \<and>
   length (snd (snd (fat_chains_from cs (n, fat)))) = length fat \<and>
   (\<forall>x. 4 * x + 4 \<le> length fat \<longrightarrow> get_le (snd (snd (fat_chains_from cs (n, fat)))) (4 * x) 4 =
      (case chain_link cs n x of Some v \<Rightarrow> v | None \<Rightarrow> get_le fat (4 * x) 4))"
proof (induction cs arbitrary: n fat)
  case Nil
  then show ?case by simp
next
  case (Cons c cs)
  obtain n1 fat1 where one: "fat_chain c (n, fat) = (n1, fat1)" by (metis prod.exhaust)
  have spec: "n1 = n + c" "length fat1 = length fat"
    "\<And>x. 4 * x + 4 \<le> length fat \<Longrightarrow> get_le fat1 (4 * x) 4 =
      (if n \<le> x \<and> x < n + c then if x + 1 < n + c then x + 1 else 0x0fffffff else get_le fat (4 * x) 4)"
    using fat_chain_spec [of n c fat] Cons.prems by (simp_all add: one)
  have IH: "fst (fat_chains_from cs (n1, fat1)) = chain_start cs n1 \<and>
     fst (snd (fat_chains_from cs (n1, fat1))) = n1 + sum_list cs \<and>
     length (snd (snd (fat_chains_from cs (n1, fat1)))) = length fat1 \<and>
     (\<forall>x. 4 * x + 4 \<le> length fat1 \<longrightarrow> get_le (snd (snd (fat_chains_from cs (n1, fat1)))) (4 * x) 4 =
        (case chain_link cs n1 x of Some v \<Rightarrow> v | None \<Rightarrow> get_le fat1 (4 * x) 4))"
    using Cons.IH [of n1 fat1] Cons.prems spec(1,2) by simp
  show ?case
    using IH spec chain_link_below [of _ "n + c" cs]
    by (auto simp: one split: prod.splits option.splits)
qed

text \<open>The geometry leaves room for every chain in the FAT and for every cluster on the disk.\<close>

lemma go_quot_pos: "1 \<le> go_quot x 64 \<Longrightarrow> go_quot x 64 * 64 \<le> x"
  by (cases "0 \<le> x") (auto simp: go_quot_def)

lemma ceil_div_covers: "0 < m \<Longrightarrow> a \<le> (a + m - 1) div m * m" for a m :: int
proof -
  assume "0 < m"
  then have "(a + m - 1) mod m < m" by simp
  moreover have "(a + m - 1) div m * m = (a + m - 1) - (a + m - 1) mod m" by (rule minus_mod_eq_div_mult [symmetric])
  ultimately show ?thesis by linarith
qed

lemma fat_fit_ok:
  assumes "fat_fit virtualSize allocated = Inr (available, fatSectors, firstData)" "1 \<le> allocated"
  shows "allocated \<le> available \<and> allocated \<le> 4294967293 \<and> (allocated + 2) * 4 \<le> fatSectors * 512 \<and>
    firstData = 32 + 2 * fatSectors \<and> 1 \<le> fatSectors \<and>
    (2048 + firstData) * 512 + available * 32768 \<le> virtualSize"
proof -
  define ps where "ps = virtualSize div vsector - vpartition_start"
  define av0 where "av0 = go_quot (ps - (vreserved + vfats *
    (((max allocated vminimum_clusters + 2) * 4 + vsector - 1) div vsector))) vspc"
  define fs1 where "fs1 = ((av0 + 2) * 4 + vsector - 1) div vsector"
  define fd1 where "fd1 = vreserved + vfats * fs1"
  define av1 where "av1 = go_quot (ps - fd1) vspc"
  let ?B1 = "av0 < allocated \<or> av0 > 4294967295 - 2" and ?B2 = "av1 < allocated"
  have unf: "fat_fit virtualSize allocated =
      (if ?B1 then Inl (Msg ''virtual FAT32 capacity is insufficient'')
       else if ?B2 then Inl (Msg ''virtual FAT32 geometry did not converge'') else Inr (av1, fs1, fd1))"
    by (simp only: fat_fit_def Let_def ps_def av0_def fs1_def fd1_def av1_def)
  have n1: "\<not> ?B1"
  proof
    assume ?B1
    then have "fat_fit virtualSize allocated = Inl (Msg ''virtual FAT32 capacity is insufficient'')"
      by (simp only: unf if_True)
    with assms(1) show False by simp
  qed
  have n2: "\<not> ?B2"
  proof
    assume ?B2
    with n1 have "fat_fit virtualSize allocated = Inl (Msg ''virtual FAT32 geometry did not converge'')"
      by (simp only: unf if_True if_False)
    with assms(1) show False by simp
  qed
  have "fat_fit virtualSize allocated = Inr (av1, fs1, fd1)" by (simp only: unf n1 n2 if_False)
  with assms(1) have "available = av1" "fatSectors = fs1" "firstData = fd1" by simp_all
  with n1 n2 have eq: "available = go_quot (ps - firstData) vspc" "fatSectors = ((av0 + 2) * 4 + vsector - 1) div vsector"
    "firstData = 32 + 2 * fatSectors" "allocated \<le> av0" "av0 \<le> 4294967293" "allocated \<le> available"
    by (simp_all only: av1_def fs1_def fd1_def not_le de_Morgan_disj) simp_all
  have fs: "(av0 + 2) * 4 \<le> fatSectors * 512" unfolding eq(2) by (rule ceil_div_covers) simp
  have "available * 64 \<le> ps - firstData" using go_quot_pos [of "ps - firstData"] eq(1,6) assms(2) by simp
  then have "(2048 + firstData + available * 64) * 512 \<le> (ps + 2048) * 512" by simp
  also have "\<dots> \<le> virtualSize"
    using minus_mod_eq_div_mult [of virtualSize 512] pos_mod_sign [of 512 virtualSize] by (simp add: ps_def)
  finally have room: "(2048 + firstData) * 512 + available * 32768 \<le> virtualSize" by simp
  have "(allocated + 2) * 4 \<le> fatSectors * 512" using fs eq(4) by simp
  moreover have "1 \<le> fatSectors" using calculation assms(2) by simp
  ultimately show ?thesis using eq(3-6) room by simp
qed

end
