(* ===== verification/Fat_Entries.thy ===== *)
theory Fat_Entries
  imports Fat_Layout
begin

text \<open>
  The directories \<open>buildDirectory\<close> of \<open>fat32virtual/layout.go\<close> writes: the clusters counted for a
  directory hold its entries, so that neither the overflow check nor a slice out of bounds
  fires, and reading the entries back gives the nodes of the tree.
\<close>

section \<open>Directories\<close>

lemma length_lfn_entry [go_len, simp]: "length (lfn_entry code slots checksum i) = 32"
proof -
  have "list_all (\<lambda>(j, pos). pos + 2 \<le> 32) xs \<Longrightarrow> length e = 32 \<Longrightarrow>
      length (foldl (\<lambda>e (index, pos). put_le e pos 2 (f index)) e xs) = 32"
    for f :: "nat \<Rightarrow> nat" and xs :: "(nat \<times> nat) list" and e
    by (induction xs arbitrary: e) auto
  then show ?thesis by (simp add: lfn_entry_def Let_def lfn_offsets_def)
qed

lemma length_make_lfn [simp]: "length (make_lfn name checksum) = lfn_slots name"
  by (simp add: make_lfn_def lfn_slots_def Let_def)

lemma make_lfn_32: "e \<in> set (make_lfn name checksum) \<Longrightarrow> length e = 32"
  by (auto simp: make_lfn_def Let_def)

lemma length_write_entry [go_len, simp]: "length (write_entry name c n attr) = 32"
  unfolding write_entry_def Let_def by (intro len_intros) simp_all

lemma put_slots_spec:
  "\<forall>e \<in> set es. length e = 32 \<Longrightarrow> offset + 32 * length es \<le> length bs \<Longrightarrow>
   put_slots es offset bs =
     Inr (offset + 32 * length es, take offset bs @ concat es @ drop (offset + 32 * length es) bs)"
proof (induction es arbitrary: offset bs)
  case (Cons e es)
  have len: "length e = 32" using Cons.prems by simp
  have "put_slots (e # es) offset bs = put_slots es (offset + 32) (put_at bs offset e)"
    using Cons.prems by simp
  also have "\<dots> = Inr (offset + 32 + 32 * length es, take (offset + 32) (put_at bs offset e) @ concat es @
      drop (offset + 32 + 32 * length es) (put_at bs offset e))"
    using Cons.prems len by (intro Cons.IH) simp_all
  also have "\<dots> = Inr (offset + 32 * length (e # es),
      take offset bs @ concat (e # es) @ drop (offset + 32 * length (e # es)) bs)"
    using Cons.prems len by (simp add: put_at_def ac_simps)
  finally show ?case .
qed simp

definition group_bytes :: "byte list list \<times> byte list \<Rightarrow> byte list" where
  "group_bytes g = concat (fst g) @ snd g"

definition group_ok :: "byte list list \<times> byte list \<Rightarrow> bool" where
  "group_ok g \<longleftrightarrow> (\<forall>e \<in> set (fst g). length e = 32) \<and> length (snd g) = 32"

lemma length_concat_32: "\<forall>e \<in> set es. length e = 32 \<Longrightarrow> length (concat es) = 32 * length es"
  by (induction es) auto

lemma length_group [simp]: "group_ok g \<Longrightarrow> length (group_bytes g) = 32 * (length (fst g) + 1)"
  by (simp add: group_ok_def group_bytes_def length_concat_32)

lemma length_groups: "\<forall>g \<in> set gs. group_ok g \<Longrightarrow>
  length (concat (map group_bytes gs)) = 32 * sum_list (map (\<lambda>g. length (fst g) + 1) gs)"
  by (induction gs) auto

lemma put_children_spec:
  "\<forall>g \<in> set gs. group_ok g \<Longrightarrow>
   offset + 32 * sum_list (map (\<lambda>g. length (fst g) + 1) gs) \<le> length bs \<Longrightarrow>
   put_children gs offset bs = Inr (take offset bs @ concat (map group_bytes gs) @
     drop (offset + 32 * sum_list (map (\<lambda>g. length (fst g) + 1) gs)) bs)"
proof (induction gs arbitrary: offset bs)
  case (Cons g gs)
  obtain es entry where g: "g = (es, entry)" by (cases g)
  have ok: "\<forall>e \<in> set es. length e = 32" "length entry = 32" using Cons.prems(1) g by (auto simp: group_ok_def)
  define total where "total = sum_list (map (\<lambda>g. length (fst g) + 1) gs)"
  have room: "offset + 32 * (length es + 1 + total) \<le> length bs" using Cons.prems(2) by (simp add: g total_def)
  define bs1 where "bs1 = take offset bs @ concat es @ drop (offset + 32 * length es) bs"
  have ps: "put_slots es offset bs = Inr (offset + 32 * length es, bs1)"
    unfolding bs1_def using ok room by (intro put_slots_spec) simp_all
  have len1: "length bs1 = length bs" using ok room by (simp add: bs1_def length_concat_32)
  define bs2 where "bs2 = put_at bs1 (offset + 32 * length es) entry"
  have bs2: "bs2 = take offset bs @ group_bytes g @ drop (offset + 32 * (length es + 1)) bs"
    using ok room by (simp add: bs2_def bs1_def put_at_def group_bytes_def g length_concat_32 add.commute add.left_commute)
  have "put_children (g # gs) offset bs = put_children gs (offset + 32 * (length es + 1)) bs2"
    using ps room len1 by (simp add: g bs2_def ac_simps)
  also have "\<dots> = Inr (take (offset + 32 * (length es + 1)) bs2 @ concat (map group_bytes gs) @
      drop (offset + 32 * (length es + 1) + 32 * total) bs2)"
    unfolding total_def using Cons.prems(1) room ok len1
    by (intro Cons.IH) (simp_all add: total_def bs2_def)
  also have "take (offset + 32 * (length es + 1)) bs2 = take offset bs @ group_bytes g"
    using room Cons.prems(1) by (simp add: bs2 g)
  also have "drop (offset + 32 * (length es + 1) + 32 * total) bs2 =
      drop (offset + 32 * (length es + 1 + total)) bs"
    using room Cons.prems(1) by (simp add: bs2 g add.commute add.left_commute)
  finally show ?case by (simp add: g total_def)
qed simp

definition group_slots :: "fat_node list \<Rightarrow> nat" where
  "group_slots ks = sum_list (map (\<lambda>k. lfn_slots (fnName k) + 1) ks)"

lemma child_entries_ok: "group_ok (child_entries dirFirst fileFirst files k)"
  by (auto simp: group_ok_def child_entries_def make_lfn_32 split: fat_node.splits)

lemma child_entries_slots [simp]:
  "length (fst (child_entries dirFirst fileFirst files k)) = lfn_slots (fnName k)"
  by (simp add: child_entries_def)

lemma write_entry_decode:
  assumes "c < 2 ^ 32" "n < 2 ^ 32"
  shows "get_le (write_entry name c n attr) 26 2 + 65536 * get_le (write_entry name c n attr) 20 2 = c"
    and "get_le (write_entry name c n attr) 28 4 = n"
    and "write_entry name c n attr ! 11 = attr"
    and "length name = 11 \<Longrightarrow> take 11 (write_entry name c n attr) = bytes_of name"
proof -
  define d1 where "d1 = put_at (zeros 32) 0 (take 11 (bytes_of name))"
  define d2 where "d2 = d1[11 := attr]"
  have len: "length d2 = 32" by (simp add: d1_def d2_def)
  have w: "write_entry name c n attr = put_le (put_le (put_le d2 20 2 (c div 65536)) 26 2 c) 28 4 n"
    by (simp add: write_entry_def Let_def d1_def d2_def)
  have c: "(c div 65536) mod 65536 = c div 65536" using assms(1) by (simp add: mod_less div_less_iff_less_mult)
  show "get_le (write_entry name c n attr) 26 2 + 65536 * get_le (write_entry name c n attr) 20 2 = c"
    "get_le (write_entry name c n attr) 28 4 = n"
    using assms len c by (simp_all add: w get_le_put_le get_le_put_le_other)
  have head: "i < a \<Longrightarrow> a + k \<le> 32 \<Longrightarrow> length d = 32 \<Longrightarrow> put_le d a k v ! i = d ! i" for d a k v i
    by (simp add: put_le_def nth_put_at)
  with len show "write_entry name c n attr ! 11 = attr" by (simp add: w d2_def d1_def)
  have pre: "i < 11 \<Longrightarrow> write_entry name c n attr ! i = d1 ! i" for i
    using head len by (simp add: w d2_def)
  show "take 11 (write_entry name c n attr) = bytes_of name" if "length name = 11"
    using that pre by (intro nth_equalityI) (simp_all add: d1_def nth_put_at)
qed

text \<open>Where the slots and the 8.3 entry of child \<open>k\<close> begin.\<close>

definition slot_offset :: "bool \<Rightarrow> fat_node \<Rightarrow> nat \<Rightarrow> nat" where
  "slot_offset isRoot d k = 32 * ((if isRoot then 1 else 2) + group_slots (take k (fnKids d)))"

definition entry_offset :: "bool \<Rightarrow> fat_node \<Rightarrow> nat \<Rightarrow> nat" where
  "entry_offset isRoot d k = slot_offset isRoot d k + 32 * lfn_slots (fnName (fnKids d ! k))"

lemma directory_fits:
  "32 * ((if isRoot then 1 else 2) + group_slots (fnKids d)) \<le> directory_clusters isRoot d * 32768"
proof -
  have aux: "n \<le> (n + 32767) div 32768 * 32768" for n :: nat
  proof -
    have "(n + 32767) mod 32768 < 32768" by simp
    with div_mult_mod_eq [of "n + 32767" 32768] show ?thesis by linarith
  qed
  have "32 * ((if isRoot then 1 else 2) + group_slots (fnKids d)) = directory_entries isRoot d * 32"
    by (simp add: directory_entries_def group_slots_def)
  also have "\<dots> \<le> (directory_entries isRoot d * 32 + 32767) div 32768 * 32768" by (rule aux)
  also have "\<dots> \<le> directory_clusters isRoot d * 32768"
    unfolding directory_clusters_def by (intro mult_right_mono) auto
  finally show ?thesis .
qed

lemma groups_nth:
  assumes "k < length gs"
  shows "concat (map group_bytes gs) =
    concat (map group_bytes (take k gs)) @ group_bytes (gs ! k) @ concat (map group_bytes (drop (Suc k) gs))"
  using id_take_nth_drop [OF assms] by (metis concat.simps(2) concat_append list.simps(9) map_append)

lemma build_directory_spec:
  assumes "parentFirst = None \<longleftrightarrow> isRoot"
  shows "\<exists>head. length head = 32 * (if isRoot then 1 else 2) \<and>
    build_directory dirFirst fileFirst files label (directory_clusters isRoot d) parentFirst d =
      Inr (head @ concat (map (group_bytes \<circ> child_entries dirFirst fileFirst files) (fnKids d)) @
        zeros (directory_clusters isRoot d * 32768 - 32 * ((if isRoot then 1 else 2) + group_slots (fnKids d))))"
proof -
  let ?n = "directory_clusters isRoot d * 32768"
  let ?ks = "map (child_entries dirFirst fileFirst files) (fnKids d)"
  let ?at = "if isRoot then 32 else 64 :: nat"
  have total: "sum_list (map (\<lambda>g. length (fst g) + 1) ?ks) = group_slots (fnKids d)"
    by (simp add: group_slots_def comp_def)
  have fits: "?at + 32 * group_slots (fnKids d) \<le> ?n"
    using directory_fits [of isRoot d] by (simp split: if_splits)
  define data where "data = (case parentFirst of
      None \<Rightarrow> put_at (zeros ?n) 0 (write_entry (volume_label label) 0 0 0x08)
    | Some p \<Rightarrow> put_at (put_at (zeros ?n) 0 (write_entry (pad_right 11 ''.'') (dirFirst (fnFull d)) 0 0x10)) 32
        (write_entry (pad_right 11 ''..'') p 0 0x10))"
  have len: "length data = ?n" using fits assms by (auto simp: data_def split: option.splits if_splits)
  have tail: "drop (?at + m) data = zeros (?n - (?at + m))" for m
    using fits assms by (auto simp: data_def put_at_def split: option.splits if_splits)
  have b: "build_directory dirFirst fileFirst files label (directory_clusters isRoot d) parentFirst d =
      put_children ?ks ?at data"
    using assms by (auto simp: build_directory_def data_def Let_def split: option.splits)
  also have "\<dots> = Inr (take ?at data @ concat (map group_bytes ?ks) @
      drop (?at + 32 * sum_list (map (\<lambda>g. length (fst g) + 1) ?ks)) data)"
  proof (rule put_children_spec)
    show "\<forall>g \<in> set ?ks. group_ok g" by (simp add: child_entries_ok)
    show "?at + 32 * sum_list (map (\<lambda>g. length (fst g) + 1) ?ks) \<le> length data"
      unfolding total len by (rule fits)
  qed
  also have "drop (?at + 32 * sum_list (map (\<lambda>g. length (fst g) + 1) ?ks)) data =
      zeros (?n - (?at + 32 * group_slots (fnKids d)))"
    unfolding total by (rule tail)
  finally show ?thesis
    using len fits by (intro exI [of _ "take ?at data"]) auto
qed

lemma slice_middle: "length xs = a \<Longrightarrow> length ys = n \<Longrightarrow> slice (xs @ ys @ zs) a n = ys"
  by (simp add: slice_def)

lemma padded_length: "32 * (a + b) \<le> n \<Longrightarrow> l = 32 * a + (32 * b + (n - 32 * (a + b))) \<Longrightarrow> l = n" for a b n l :: nat
  by simp

lemma group_list_length:
  "length (concat (map group_bytes (map (child_entries dirFirst fileFirst files) ks))) = 32 * group_slots ks"
proof -
  let ?gs = "map (child_entries dirFirst fileFirst files) ks"
  have "length (concat (map group_bytes ?gs)) = 32 * sum_list (map (\<lambda>g. length (fst g) + 1) ?gs)"
    by (rule length_groups) (simp add: child_entries_ok)
  then show ?thesis by (simp add: group_slots_def comp_def)
qed

lemma build_directory_length:
  assumes "parentFirst = None \<longleftrightarrow> isRoot"
    and "build_directory dirFirst fileFirst files label (directory_clusters isRoot d) parentFirst d = Inr bs"
  shows "length bs = directory_clusters isRoot d * 32768"
proof -
  let ?m = "if isRoot then 1 else 2 :: nat"
  obtain head where head: "length head = 32 * ?m" "bs = head @
      concat (map group_bytes (map (child_entries dirFirst fileFirst files) (fnKids d))) @
      zeros (directory_clusters isRoot d * 32768 - 32 * (?m + group_slots (fnKids d)))"
    using build_directory_spec [OF assms(1), of dirFirst fileFirst files label d] assms(2) by auto
  have len: "length bs = 32 * ?m + (32 * group_slots (fnKids d) +
      (directory_clusters isRoot d * 32768 - 32 * (?m + group_slots (fnKids d))))"
    by (simp only: head group_list_length length_append length_replicate)
  show ?thesis by (rule padded_length [OF directory_fits len])
qed

lemma build_directory_entry:
  assumes "parentFirst = None \<longleftrightarrow> isRoot" "k < length (fnKids d)"
    and "build_directory dirFirst fileFirst files label (directory_clusters isRoot d) parentFirst d = Inr bs"
  shows "slice bs (slot_offset isRoot d k) (32 * lfn_slots (fnName (fnKids d ! k))) =
      concat (make_lfn (fnName (fnKids d ! k)) (alias_checksum (bytes_of (fnShort (fnKids d ! k)))))"
    and "slice bs (entry_offset isRoot d k) 32 = snd (child_entries dirFirst fileFirst files (fnKids d ! k))"
proof -
  let ?ce = "child_entries dirFirst fileFirst files" and ?m = "if isRoot then 1 else 2 :: nat"
  let ?gs = "map ?ce (fnKids d)" and ?g = "?ce (fnKids d ! k)"
  obtain head where head: "length head = 32 * ?m" "bs = head @ concat (map group_bytes ?gs) @
      zeros (directory_clusters isRoot d * 32768 - 32 * (?m + group_slots (fnKids d)))"
    using build_directory_spec [OF assms(1), of dirFirst fileFirst files label d] assms(3) by auto
  define pre where "pre = head @ concat (map group_bytes (take k ?gs))"
  have "length (concat (map group_bytes (take k ?gs))) = 32 * group_slots (take k (fnKids d))"
    by (simp only: take_map group_list_length)
  then have pre: "length pre = slot_offset isRoot d k" using head(1) by (simp add: pre_def slot_offset_def)
  obtain post where bs: "bs = pre @ (concat (fst ?g) @ snd ?g) @ post"
    using head(2) groups_nth [of k ?gs] assms(2) by (simp add: pre_def group_bytes_def)
  have gl: "length (concat (fst ?g)) = 32 * lfn_slots (fnName (fnKids d ! k))" "length (snd ?g) = 32"
    using child_entries_ok [of dirFirst fileFirst files "fnKids d ! k"]
    by (simp_all add: group_ok_def length_concat_32)
  show "slice bs (slot_offset isRoot d k) (32 * lfn_slots (fnName (fnKids d ! k))) =
      concat (make_lfn (fnName (fnKids d ! k)) (alias_checksum (bytes_of (fnShort (fnKids d ! k)))))"
    using slice_middle [OF pre gl(1), of "snd ?g @ post"] by (simp add: bs child_entries_def)
  have "length (pre @ concat (fst ?g)) = entry_offset isRoot d k"
    using pre gl(1) by (simp add: entry_offset_def)
  from slice_middle [OF this gl(2), of post]
  show "slice bs (entry_offset isRoot d k) 32 = snd ?g" by (simp add: bs)
qed

end
