(* ===== verification/Block_Device.thy ===== *)
theory Block_Device
  imports Prelude
begin

text \<open>
  The interface that the NBD server calls (\<open>nbd.Backend\<close>, with the write and sync methods of
  a writable export) and that both virtual disks provide.  A device is a record of
  operations on a state of type \<open>'s\<close>, where \<open>None\<close> stands for an interface the value does not
  implement (\<open>modeBackend\<close>, \<open>writeBackend\<close>); a read returns the bytes written into the buffer
  (their number is Go's count) and the error.  The locale states what a reader may rely on.
\<close>

record 's device =
  dvSize :: "'s \<Rightarrow> int"
  dvReadOnly :: "('s \<Rightarrow> bool) option"
  dvReadAt :: "nat \<Rightarrow> int \<Rightarrow> 's \<Rightarrow> (byte list \<times> go_err option) \<times> 's"
  dvWriteSync :: "((byte list \<Rightarrow> int \<Rightarrow> 's \<Rightarrow> (nat \<times> go_err option) \<times> 's) \<times> ('s \<Rightarrow> go_err option \<times> 's)) option"

text \<open>The bytes of a range, when every position has one.\<close>

definition byte_range :: "(int \<Rightarrow> byte) \<Rightarrow> int \<Rightarrow> nat \<Rightarrow> byte list" where
  "byte_range c off n = map (\<lambda>i. c (off + int i)) [0..<n]"

lemma length_byte_range [go_len, simp]: "length (byte_range c off n) = n"
  by (simp add: byte_range_def)

lemma nth_byte_range [go_simps]: "i < n \<Longrightarrow> byte_range c off n ! i = c (off + int i)"
  by (simp add: byte_range_def)

lemma byte_range_append:
  "byte_range c off (m + n) = byte_range c off m @ byte_range c (off + int m) n"
  by (rule nth_equalityI) (auto simp: nth_append nth_byte_range)

lemma byte_range_0 [simp]: "byte_range c off 0 = []"
  by (simp add: byte_range_def)

lemma byte_range_eqI:
  "length xs = n \<Longrightarrow> (\<And>i. i < n \<Longrightarrow> xs ! i = c (off + int i)) \<Longrightarrow> xs = byte_range c off n"
  by (rule nth_equalityI) (auto simp: nth_byte_range)

lemma byte_range_cong:
  "(\<And>i. i < n \<Longrightarrow> c (off + int i) = c' (off + int i)) \<Longrightarrow> byte_range c off n = byte_range c' off n"
  by (simp add: byte_range_def)

text \<open>
  A reader of a device: in every state that satisfies \<open>inv\<close> a read returns a prefix of the
  range of the contents \<open>bytes\<close> (all of it exactly when there is no error), refuses a range
  outside the device with \<open>io.EOF\<close>, and keeps the invariant and the contents.
\<close>

locale readable_device =
  fixes sizeOf :: "'s \<Rightarrow> int"
    and readAt :: "nat \<Rightarrow> int \<Rightarrow> 's \<Rightarrow> (byte list \<times> go_err option) \<times> 's"
    and inv :: "'s \<Rightarrow> bool"
    and bytes :: "'s \<Rightarrow> int \<Rightarrow> byte"
  assumes read_outside: "off < 0 \<or> int n > sizeOf s - off \<Longrightarrow> readAt n off s = (([], Some EOF), s)"
    and read_inside: "inv s \<Longrightarrow> 0 \<le> off \<Longrightarrow> int n \<le> sizeOf s - off \<Longrightarrow>
      readAt n off s = ((bs, e), s') \<Longrightarrow>
      length bs \<le> n \<and> bs = byte_range (bytes s) off (length bs) \<and> (e = None \<longrightarrow> length bs = n) \<and>
      inv s' \<and> bytes s' = bytes s \<and> sizeOf s' = sizeOf s"
begin

lemma read_exact:
  assumes "inv s" "readAt n off s = ((bs, None), s')"
  shows "bs = byte_range (bytes s) off n \<and> 0 \<le> off \<and> off + int n \<le> sizeOf s"
proof -
  have "\<not> (off < 0 \<or> int n > sizeOf s - off)" using read_outside [of off s n] assms(2) by auto
  with read_inside [OF assms(1) _ _ assms(2)] show ?thesis by auto
qed

text \<open>Two reads of overlapping ranges agree on the overlap.\<close>

lemma read_agree:
  assumes "inv s" "readAt n off s = ((bs, None), s')" "readAt m off2 s' = ((cs, None), s'')"
    and "i < n" "j < m" "off + int i = off2 + int j"
  shows "bs ! i = cs ! j"
proof -
  from read_exact [OF assms(1,2)] have b: "bs = byte_range (bytes s) off n"
    and r: "0 \<le> off" "int n \<le> sizeOf s - off" by auto
  from read_inside [OF assms(1) r assms(2)] have i: "inv s'" "bytes s' = bytes s" by auto
  from read_exact [OF i(1) assms(3)] i(2) have "cs = byte_range (bytes s) off2 m" by simp
  with b assms(4-6) show ?thesis by (simp add: nth_byte_range)
qed

end

section \<open>Writable devices\<close>

definition patch :: "(int \<Rightarrow> byte) \<Rightarrow> int \<Rightarrow> byte list \<Rightarrow> int \<Rightarrow> byte" where
  "patch f off bs p = (if off \<le> p \<and> p < off + int (length bs) then bs ! nat (p - off) else f p)"

text \<open>
  A device that also takes writes: an acknowledged write changes exactly the bytes it names, a
  refused one and a sync change none.
\<close>

locale writable_device = readable_device sizeOf readAt inv bytes
  for sizeOf :: "'s \<Rightarrow> int"
    and readAt :: "nat \<Rightarrow> int \<Rightarrow> 's \<Rightarrow> (byte list \<times> go_err option) \<times> 's"
    and inv :: "'s \<Rightarrow> bool"
    and bytes :: "'s \<Rightarrow> int \<Rightarrow> byte" +
  fixes writeAt :: "byte list \<Rightarrow> int \<Rightarrow> 's \<Rightarrow> (nat \<times> go_err option) \<times> 's"
    and sync :: "'s \<Rightarrow> go_err option \<times> 's"
  assumes write_law: "inv s \<Longrightarrow> off + int (length bs) \<le> sizeOf s \<Longrightarrow> writeAt bs off s = ((n, e), s') \<Longrightarrow>
      inv s' \<and> sizeOf s' = sizeOf s \<and> (e = None \<longrightarrow> n = length bs) \<and>
      bytes s' = (if e = None then patch (bytes s) off bs else bytes s)"
    and sync_law: "inv s \<Longrightarrow> sync s = (e, s') \<Longrightarrow> inv s' \<and> sizeOf s' = sizeOf s \<and> bytes s' = bytes s"

section \<open>Card services\<close>

text \<open>
  What the writable part of a disk relies on (\<open>SaveStore\<close> of \<open>fat32virtual/backend.go\<close>): in a
  state that satisfies \<open>inv\<close>, a read inside a card returns a prefix of its bytes, all of them
  when there is no error, and a write without an error changes exactly the bytes it names.
\<close>

locale card_service =
  fixes cardRead :: "string \<Rightarrow> nat \<Rightarrow> int \<Rightarrow> 's \<Rightarrow> (byte list \<times> go_err option) \<times> 's"
    and cardWrite :: "string \<Rightarrow> byte list \<Rightarrow> int \<Rightarrow> 's \<Rightarrow> (nat \<times> go_err option) \<times> 's"
    and inv :: "'s \<Rightarrow> bool"
    and cardSize :: "'s \<Rightarrow> string \<Rightarrow> int option"
    and cardByte :: "'s \<Rightarrow> string \<Rightarrow> int \<Rightarrow> byte"
  assumes card_read_law: "inv s \<Longrightarrow> cardSize s i = Some sz \<Longrightarrow> 0 \<le> off \<Longrightarrow> off + int n \<le> sz \<Longrightarrow>
      cardRead i n off s = ((bs, e), s') \<Longrightarrow>
      length bs \<le> n \<and> bs = byte_range (cardByte s i) off (length bs) \<and> (e = None \<longrightarrow> length bs = n) \<and>
      inv s' \<and> cardSize s' = cardSize s \<and> cardByte s' = cardByte s"
    and card_write_law: "inv s \<Longrightarrow> cardSize s i = Some sz \<Longrightarrow> 0 \<le> off \<Longrightarrow> bs \<noteq> [] \<Longrightarrow>
      off + int (length bs) \<le> sz \<Longrightarrow> cardWrite i bs off s = ((n, None), s') \<Longrightarrow>
      n = length bs \<and> inv s' \<and> cardSize s' = cardSize s \<and>
      (\<forall>j z p. cardSize s j = Some z \<longrightarrow> 0 \<le> p \<longrightarrow> p < z \<longrightarrow>
         cardByte s' j p = (if j = i then patch (cardByte s i) off bs p else cardByte s j p))"

text \<open>A service whose failed writes and checkpoints lose nothing.\<close>

locale durable_cards = card_service cardRead cardWrite inv cardSize cardByte
  for cardRead :: "string \<Rightarrow> nat \<Rightarrow> int \<Rightarrow> 's \<Rightarrow> (byte list \<times> go_err option) \<times> 's"
    and cardWrite :: "string \<Rightarrow> byte list \<Rightarrow> int \<Rightarrow> 's \<Rightarrow> (nat \<times> go_err option) \<times> 's"
    and inv :: "'s \<Rightarrow> bool"
    and cardSize :: "'s \<Rightarrow> string \<Rightarrow> int option"
    and cardByte :: "'s \<Rightarrow> string \<Rightarrow> int \<Rightarrow> byte" +
  fixes cardSync :: "'s \<Rightarrow> go_err option \<times> 's"
  assumes card_write_fail: "inv s \<Longrightarrow> cardSize s i = Some sz \<Longrightarrow> 0 \<le> off \<Longrightarrow> bs \<noteq> [] \<Longrightarrow>
      off + int (length bs) \<le> sz \<Longrightarrow> cardWrite i bs off s = ((n, Some e), s') \<Longrightarrow> s' = s"
    and card_sync_law: "inv s \<Longrightarrow> cardSync s = (err, s') \<Longrightarrow> inv s' \<and> cardSize s' = cardSize s \<and>
      (\<forall>j z p. cardSize s j = Some z \<longrightarrow> 0 \<le> p \<longrightarrow> p < z \<longrightarrow> cardByte s' j p = cardByte s j p)"

end
