(* ===== verification/Fat_Backend.thy ===== *)
theory Fat_Backend
  imports Fat_Layout Host_OS Extents Block_Device
begin

text \<open>
  \<open>server/host-daemon/fat32virtual/backend.go\<close>: the device made of a layout, its metadata
  bytes, the source files and a save store.  The state of a call is the backend, the kernel's
  world and the save store's state.  Metrics are off; \<open>fbReports\<close> collects the codes given to
  \<open>reportSourceFailure\<close>, which a ten-second timer may drop.
\<close>

section \<open>State\<close>

record backend_stats =
  stSourceOpens :: nat
  stSourceReads :: nat
  stCacheHits :: nat
  stPeakOpenFiles :: nat
  stCachedFiles :: nat
  stCacheMisses :: nat
  stEvictions :: nat

text \<open>The save store's methods; \<open>fbStore\<close> is \<open>None\<close> for a nil store.\<close>

record 's save_store =
  ssRead :: "string \<Rightarrow> nat \<Rightarrow> int \<Rightarrow> 's \<Rightarrow> (byte list \<times> go_err option) \<times> 's"
  ssWrite :: "string \<Rightarrow> byte list \<Rightarrow> int \<Rightarrow> 's \<Rightarrow> (nat \<times> go_err option) \<times> 's"
  ssSync :: "'s \<Rightarrow> go_err option \<times> 's"
  ssClose :: "'s \<Rightarrow> go_err option \<times> 's"

text \<open>The handle cache, most recently used first: the list \<open>lru\<close> and the map \<open>cache\<close> in one.\<close>

record 's backend =
  fbSize :: int
  fbMetadata :: "byte list"
  fbMeta :: "metadata_extent list"
  fbExtents :: "fat_extent list"
  fbSaves :: "save_extent list"
  fbLimit :: int
  fbCache :: "(string \<times> nat) list"
  fbClosed :: bool
  fbStats :: backend_stats
  fbStore :: "'s save_store option"
  fbFilesystems :: "(string \<times> string) list"
  fbReports :: "string list"

type_synonym ('w, 's) bstate = "'s backend \<times> 'w \<times> 's"

section \<open>Validate and Open\<close>

definition meta_storage_ok :: "byte list \<Rightarrow> metadata_extent \<Rightarrow> bool" where
  "meta_storage_ok metadata m \<longleftrightarrow>
     \<not> (mxStorageOffset m < 0 \<or> mxLength m < 0 \<or> mxStorageOffset m > int (length metadata) - mxLength m)"

definition validate_layout :: "fat_layout \<Rightarrow> byte list \<Rightarrow> go_err option" where
  "validate_layout layout metadata =
     (if flSchema layout \<noteq> 2 \<or> flVirtualSize layout \<le> 0
      then Some (Msg ''invalid virtual FAT32 backend configuration'')
      else if \<not> list_all (meta_storage_ok metadata) (flMetadataExtents layout)
      then Some (Msg ''metadata extent exceeds metadata store'')
      else if hex_lower (sha256 metadata) \<noteq> flMetadataHash layout \<or>
              hash_extents (flSourceExtents layout) \<noteq> flExtentMapHash layout
      then Some (Msg ''virtual FAT32 metadata or extent-map hash mismatch'')
      else if flSaveExtents layout \<noteq> [] \<and>
              hash_save_extents (flSaveExtents layout) True \<noteq> flSaveExtentHash layout
      then Some (Msg ''virtual FAT32 save-extent hash mismatch'')
      else if flSaveExtents layout \<noteq> [] \<and>
              hex_lower (sha256 (bytes_of (flMetadataHash layout) @ [0] @ bytes_of (flExtentMapHash layout) @
                [0] @ bytes_of (hash_save_extents (flSaveExtents layout) False))) \<noteq> flLayoutChecksum layout
      then Some (Msg ''virtual FAT32 layout checksum mismatch'')
      else if \<not> list_all (\<lambda>s. sxLayoutChecksum s = flLayoutChecksum layout) (flSaveExtents layout)
      then Some (Msg ''writable extent layout checksum mismatch'')
      else validate_ranges (flVirtualSize layout) (flMetadataExtents layout)
             (flSourceExtents layout) (flSaveExtents layout))"

record 's open_options =
  ooSourceFilesystems :: "(string \<times> string) list"
  ooCacheLimit :: int
  ooSaveStore :: "'s save_store option"

definition open_with_options :: "fat_layout \<Rightarrow> byte list \<Rightarrow> 's open_options \<Rightarrow> go_err + 's backend" where
  "open_with_options layout metadata options =
     (if flSchema layout \<noteq> 2 \<or> flVirtualSize layout \<le> 0 \<or> ooCacheLimit options < 1
      then Inl (Msg ''invalid virtual FAT32 backend configuration'')
      else if flSaveExtents layout \<noteq> [] \<and> ooSaveStore options = None
      then Inl (Msg ''writable save extents require a save store'')
      else case validate_layout layout metadata of
             Some err \<Rightarrow> Inl err
           | None \<Rightarrow> Inr \<lparr>fbSize = flVirtualSize layout, fbMetadata = metadata,
               fbMeta = flMetadataExtents layout, fbExtents = flSourceExtents layout,
               fbSaves = flSaveExtents layout, fbLimit = ooCacheLimit options, fbCache = [],
               fbClosed = False, fbStats = \<lparr>stSourceOpens = 0, stSourceReads = 0, stCacheHits = 0,
                 stPeakOpenFiles = 0, stCachedFiles = 0, stCacheMisses = 0, stEvictions = 0\<rparr>,
               fbStore = ooSaveStore options, fbFilesystems = ooSourceFilesystems options, fbReports = []\<rparr>)"

definition backend_read_only :: "'s backend \<Rightarrow> bool" where
  "backend_read_only b \<longleftrightarrow> fbSaves b = [] \<or> fbStore b = None"

definition backend_get_stats :: "'s backend \<Rightarrow> backend_stats" where
  "backend_get_stats b = (fbStats b)\<lparr>stCachedFiles := length (fbCache b)\<rparr>"

section \<open>Lookups\<close>

definition mx_end :: "metadata_extent \<Rightarrow> int" where
  "mx_end m = mxVirtualOffset m + mxLength m"

definition fe_end :: "fat_extent \<Rightarrow> int" where
  "fe_end e = feVirtualOffset e + feLength e"

definition sx_end :: "save_extent \<Rightarrow> int" where
  "sx_end s = sxVirtualOffset s + sxLength s"

definition find_metadata :: "metadata_extent list \<Rightarrow> int \<Rightarrow> metadata_extent option" where
  "find_metadata items position =
     (let index = sort_search (length items) (\<lambda>i. mx_end (items ! i) > position)
      in if index < length items \<and> position \<ge> mxVirtualOffset (items ! index)
         then Some (items ! index) else None)"

definition find_source :: "fat_extent list \<Rightarrow> int \<Rightarrow> fat_extent option" where
  "find_source items position =
     (let index = sort_search (length items) (\<lambda>i. fe_end (items ! i) > position)
      in if index < length items \<and> position \<ge> feVirtualOffset (items ! index)
         then Some (items ! index) else None)"

definition find_save :: "save_extent list \<Rightarrow> int \<Rightarrow> save_extent option" where
  "find_save items position =
     (let index = sort_search (length items) (\<lambda>i. sx_end (items ! i) > position)
      in if index < length items \<and> position \<ge> sxVirtualOffset (items ! index)
         then Some (items ! index) else None)"

interpretation meta_table: extent_table mxVirtualOffset mx_end find_metadata
  by unfold_locales (simp add: find_metadata_def)

interpretation source_table: extent_table feVirtualOffset fe_end find_source
  by unfold_locales (simp add: find_source_def)

interpretation save_table: extent_table sxVirtualOffset sx_end find_save
  by unfold_locales (simp add: find_save_def)

section \<open>Source files\<close>

definition err_identity_changed :: go_err where
  "err_identity_changed = Msg ''GameCube source identity changed''"

definition source_failure_code :: "go_err \<Rightarrow> string" where
  "source_failure_code err =
     (if errors_Is err ErrPermission then ''SOURCE-PERMISSION-DENIED'' else ''SOURCE-READ-FAILED'')"

definition verify_identity :: "'w os \<Rightarrow> string \<Rightarrow> fat_identity \<Rightarrow> 'w \<Rightarrow> go_err option \<times> 'w" where
  "verify_identity os path expected w = (case os_lstat os path w of
     (Inl err, w1) \<Rightarrow> (Some err, w1)
   | (Inr info, w1) \<Rightarrow>
       if \<not> fiRegular info \<or> fiSymlink info \<or> fiSize info \<noteq> idSize expected \<or>
          fiModNano info \<noteq> idModTime expected
       then (Some err_identity_changed, w1)
       else (case (if idFilesystemID expected \<noteq> '''' then get_filesystem_id os path w1 else (Inr '''', w1)) of
               (Inl err, w2) \<Rightarrow> (Some err, w2)
             | (Inr fsid, w2) \<Rightarrow>
                 (case fiSys info of
                    None \<Rightarrow> (Some err_identity_changed, w2)
                  | Some (dev, ino) \<Rightarrow>
                      if \<not> same_filesystem (idFilesystemID expected) (idDevice expected) fsid dev \<or>
                         ino \<noteq> idInode expected
                      then (Some err_identity_changed, w2) else (None, w2))))"

text \<open>\<open>open\<close>: a hit moves to the front; a miss evicts the last handle when the cache is full.\<close>

definition count_miss :: "'s backend \<Rightarrow> 's backend" where
  "count_miss b = b\<lparr>fbStats := (fbStats b)\<lparr>stCacheMisses := stCacheMisses (fbStats b) + 1\<rparr>\<rparr>"

definition count_eviction :: "'s backend \<Rightarrow> 's backend" where
  "count_eviction b = b\<lparr>fbStats := (fbStats b)\<lparr>stEvictions := stEvictions (fbStats b) + 1\<rparr>\<rparr>"

definition evict_oldest :: "'w os \<Rightarrow> 's backend \<times> 'w \<Rightarrow> go_err option \<times> 's backend \<times> 'w" where
  "evict_oldest os st = (case st of (b, w) \<Rightarrow>
     if int (length (fbCache b)) \<ge> fbLimit b
     then if fbCache b = [] then (Some (Msg ''panic: nil element''), b, w)
          else (case os_close os (snd (last (fbCache b))) w of
                  (Some err, w1) \<Rightarrow> (Some err, b\<lparr>fbCache := butlast (fbCache b)\<rparr>, w1)
                | (None, w1) \<Rightarrow> (None, count_eviction (b\<lparr>fbCache := butlast (fbCache b)\<rparr>), w1))
     else (None, b, w))"

definition insert_handle :: "string \<Rightarrow> nat \<Rightarrow> 's backend \<Rightarrow> 's backend" where
  "insert_handle path h b =
     (let c = (path, h) # fbCache b; s = fbStats b
      in b\<lparr>fbCache := c, fbStats := s\<lparr>stSourceOpens := stSourceOpens s + 1,
             stPeakOpenFiles := max (stPeakOpenFiles s) (length c)\<rparr>\<rparr>)"

definition open_handle :: "'w os \<Rightarrow> string \<Rightarrow> 's backend \<times> 'w \<Rightarrow> (go_err + nat) \<times> 's backend \<times> 'w" where
  "open_handle os path st = (case map_of (fbCache (fst st)) path of
     Some h \<Rightarrow>
       (let b = fst st; s = fbStats b
        in (Inr h, b\<lparr>fbCache := (path, h) # filter (\<lambda>x. fst x \<noteq> path) (fbCache b),
                     fbStats := s\<lparr>stCacheHits := stCacheHits s + 1\<rparr>\<rparr>, snd st))
   | None \<Rightarrow>
       (case evict_oldest os st of
          (Some err, b1, w1) \<Rightarrow> (Inl err, b1, w1)
        | (None, b1, w1) \<Rightarrow>
            (case os_open os path w1 of
               (Inl err, w2) \<Rightarrow> (Inl err, count_miss b1, w2)
             | (Inr h, w2) \<Rightarrow> (Inr h, insert_handle path h (count_miss b1), w2))))"

definition drop_cached :: "'w os \<Rightarrow> string \<Rightarrow> 's backend \<times> 'w \<Rightarrow> 's backend \<times> 'w" where
  "drop_cached os path st = (case map_of (fbCache (fst st)) path of
     None \<Rightarrow> st
   | Some h \<Rightarrow>
       (case os_close os h (snd st) of
          (_, w1) \<Rightarrow> (count_eviction ((fst st)\<lparr>fbCache := filter (\<lambda>x. fst x \<noteq> path) (fbCache (fst st))\<rparr>), w1)))"

definition report_failure :: "string \<Rightarrow> 's backend \<times> 'w \<Rightarrow> 's backend \<times> 'w" where
  "report_failure code st = ((fst st)\<lparr>fbReports := fbReports (fst st) @ [code]\<rparr>, snd st)"

section \<open>ReadAt\<close>

text \<open>A result is the bytes put into the buffer, the error and the state.\<close>

type_synonym ('w, 's) bread = "(byte list \<times> go_err option) \<times> ('w, 's) bstate"

definition clip :: "nat \<Rightarrow> int \<Rightarrow> nat" where
  "clip remaining available = (if int remaining > available then nat available else remaining)"

definition read_save_part ::
  "save_extent \<Rightarrow> int \<Rightarrow> nat \<Rightarrow> ('w, 's) bstate \<Rightarrow> ('w, 's) bread" where
  "read_save_part item position remaining st = (case st of (b, w, s) \<Rightarrow>
     (case fbStore b of
        None \<Rightarrow> (([], Some (Msg ''panic: nil save store'')), st)
      | Some store \<Rightarrow>
          (case ssRead store (sxSaveObjectID item) (clip remaining (sx_end item - position))
                  (sxCardOffset item + position - sxVirtualOffset item) s of
             (r, s1) \<Rightarrow> (r, b, w, s1))))"

definition read_meta_part ::
  "metadata_extent \<Rightarrow> int \<Rightarrow> nat \<Rightarrow> ('w, 's) bstate \<Rightarrow> ('w, 's) bread" where
  "read_meta_part item position remaining st = (case st of (b, w, s) \<Rightarrow>
     (let count = clip remaining (mx_end item - position);
          source = mxStorageOffset item + position - mxVirtualOffset item
      in if source < 0 \<or> source + int count > int (length (fbMetadata b))
         then (([], Some (Msg ''panic: slice bounds out of range'')), st)
         else ((slice (fbMetadata b) (nat source) count, None), st)))"

definition read_source_part ::
  "'w os \<Rightarrow> fat_extent \<Rightarrow> int \<Rightarrow> nat \<Rightarrow> 's backend \<times> 'w \<Rightarrow> (byte list \<times> go_err option) \<times> 's backend \<times> 'w" where
  "read_source_part os item position remaining st =
     (let count = clip remaining (fe_end item - position);
          path = feSourcePath item; identity = feIdentity item;
          expected = (if idFilesystemID identity = ''''
                      then identity\<lparr>idFilesystemID := (case map_of (fbFilesystems (fst st)) path of
                             None \<Rightarrow> '''' | Some i \<Rightarrow> i)\<rparr>
                      else identity)
      in case verify_identity os path expected (snd st) of
           (Some err, w1) \<Rightarrow>
             (([], Some err),
              report_failure (if errors_Is err err_identity_changed then ''SOURCE-IDENTITY-CHANGED''
                              else source_failure_code err)
                (drop_cached os path (fst st, w1)))
         | (None, w1) \<Rightarrow>
             (case open_handle os path (fst st, w1) of
                (Inl err, st2) \<Rightarrow> (([], Some err), report_failure (source_failure_code err) st2)
              | (Inr h, b2, w2) \<Rightarrow>
                  (let b3 = b2\<lparr>fbStats := (fbStats b2)\<lparr>stSourceReads := stSourceReads (fbStats b2) + 1\<rparr>\<rparr>
                   in case read_at_full os h count (feSourceOffset item + position - feVirtualOffset item) [] w2 of
                        ((bs, None), w3) \<Rightarrow> ((bs, None), b3, w3)
                      | ((bs, Some err), w3) \<Rightarrow>
                          ((bs, Some err), report_failure (source_failure_code err)
                             (drop_cached os path (b3, w3))))))"

definition gap_end :: "'s backend \<Rightarrow> int \<Rightarrow> int \<Rightarrow> int" where
  "gap_end b position limit =
     next_start sxVirtualOffset (fbSaves b) position
       (next_start feVirtualOffset (fbExtents b) position
         (next_start mxVirtualOffset (fbMeta b) position limit))"

definition backend_step ::
  "'w os \<Rightarrow> int \<Rightarrow> nat \<Rightarrow> ('w, 's) bstate \<Rightarrow> ('w, 's) bread" where
  "backend_step os position remaining st =
     (let b = fst st
      in case find_save (fbSaves b) position of
           Some item \<Rightarrow> read_save_part item position remaining st
         | None \<Rightarrow>
             (case find_metadata (fbMeta b) position of
                Some item \<Rightarrow> read_meta_part item position remaining st
              | None \<Rightarrow>
                  (case find_source (fbExtents b) position of
                     Some item \<Rightarrow>
                       (case read_source_part os item position remaining (b, fst (snd st)) of
                          (r, b1, w1) \<Rightarrow> (r, b1, w1, snd (snd st)))
                   | None \<Rightarrow>
                       (let next = gap_end b position (position + int remaining)
                        in ((zeros (nat (max 1 (next - position))), None), st)))))"

text \<open>
  The loop runs forever when the store answers no bytes and no error: that it returns is
  proved from the laws of the store.
\<close>

partial_function (option) backend_loop ::
  "'w os \<Rightarrow> int \<Rightarrow> nat \<Rightarrow> byte list \<Rightarrow> ('w, 's) bstate \<Rightarrow> ('w, 's) bread option" where
  "backend_loop os offset len acc st =
     (if length acc < len
      then (case backend_step os (offset + int (length acc)) (len - length acc) st of
              ((bs, e), st1) \<Rightarrow>
                (if e = None then backend_loop os offset len (acc @ bs) st1
                 else Some ((acc @ bs, e), st1)))
      else Some ((acc, None), st))"

definition backend_read_at ::
  "'w os \<Rightarrow> nat \<Rightarrow> int \<Rightarrow> ('w, 's) bstate \<Rightarrow> ('w, 's) bread option" where
  "backend_read_at os len offset st =
     (if offset < 0 \<or> int len > fbSize (fst st) - offset then Some (([], Some EOF), st)
      else if fbClosed (fst st) then Some (([], Some ErrClosed), st)
      else backend_loop os offset len [] st)"

section \<open>WriteAt, Sync, Close\<close>

definition backend_write_at ::
  "byte list \<Rightarrow> int \<Rightarrow> ('w, 's) bstate \<Rightarrow> (nat \<times> go_err option) \<times> ('w, 's) bstate" where
  "backend_write_at buffer offset st = (case st of (b, w, s) \<Rightarrow>
     (let n = int (length buffer)
      in if fbClosed b then ((0, Some ErrClosed), st)
         else case fbStore b of
                None \<Rightarrow> ((0, Some ErrPermission), st)
              | Some store \<Rightarrow>
                  if fbSaves b = [] then ((0, Some ErrPermission), st)
                  else if offset < 0 \<or> n = 0 \<or> n > fbSize b - offset
                  then ((0, Some (Coded ''SAVE-WRITE-OUTSIDE-EXTENT'')), st)
                  else (case find_save (fbSaves b) offset of
                          None \<Rightarrow> ((0, Some (Coded ''SAVE-WRITE-OUTSIDE-EXTENT'')), st)
                        | Some item \<Rightarrow>
                            if n > sx_end item - offset
                            then ((0, Some (Coded ''SAVE-WRITE-CROSSES-BOUNDARY'')), st)
                            else (case ssWrite store (sxSaveObjectID item) buffer
                                         (sxCardOffset item + offset - sxVirtualOffset item) s of
                                    (r, s1) \<Rightarrow> (r, b, w, s1)))))"

definition backend_sync :: "('w, 's) bstate \<Rightarrow> go_err option \<times> ('w, 's) bstate" where
  "backend_sync st = (case st of (b, w, s) \<Rightarrow>
     if fbClosed b then (Some ErrClosed, st)
     else case fbStore b of
            None \<Rightarrow> (None, st)
          | Some store \<Rightarrow> (case ssSync store s of (e, s1) \<Rightarrow> (e, b, w, s1)))"

fun close_handles :: "'w os \<Rightarrow> (string \<times> nat) list \<Rightarrow> go_err option \<Rightarrow> 'w \<Rightarrow> go_err option \<times> 'w" where
  "close_handles os [] first w = (first, w)"
| "close_handles os ((p, h) # hs) first w =
     (case os_close os h w of (e, w1) \<Rightarrow> close_handles os hs (if first = None then e else first) w1)"

text \<open>Go ranges over the map in any order, which shows only in which error is the first.\<close>

definition backend_close :: "'w os \<Rightarrow> ('w, 's) bstate \<Rightarrow> go_err option \<times> ('w, 's) bstate" where
  "backend_close os st = (case st of (b, w, s) \<Rightarrow>
     if fbClosed b then (None, st)
     else case close_handles os (fbCache b) None w of
            (first, w1) \<Rightarrow>
              (let b1 = b\<lparr>fbClosed := True, fbCache := []\<rparr>
               in case fbStore b of
                    None \<Rightarrow> (first, b1, w1, s)
                  | Some store \<Rightarrow>
                      (case ssClose store s of
                         (e, s1) \<Rightarrow> (if first = None then e else first, b1, w1, s1))))"

end
