(* ===== verification/Fat_Build.thy ===== *)
theory Fat_Build
  imports Fat_Chain Fat_Entries Fat_Backend "HOL-Library.Multiset"
begin

text \<open>
  Why \<open>Build\<close> of \<open>fat32virtual/layout.go\<close> is right: every file of the input is once in the tree,
  all extents lie on the disk and never overlap, so the final check cannot fail, and the FAT
  and the directories describe the same clusters as the extents.
\<close>

section \<open>Extents\<close>

text \<open>\<open>before a b\<close>: span \<open>a\<close> starts earlier and ends where \<open>b\<close> starts or sooner.\<close>

definition before :: "int \<times> int \<Rightarrow> int \<times> int \<Rightarrow> bool" where
  "before a b \<longleftrightarrow> fst a < fst b \<and> snd a \<le> fst b"

lemma spans_disjointI:
  "sorted (map fst ys) \<Longrightarrow> distinct (map fst ys) \<Longrightarrow>
   \<forall>a \<in> set ys. \<forall>b \<in> set ys. fst a < fst b \<longrightarrow> snd a \<le> fst b \<Longrightarrow> spans_disjoint ys"
proof (induction ys rule: spans_disjoint.induct)
  case (1 a b ss)
  then have "fst a < fst b" by (auto simp: less_le)
  with 1 show ?case by auto
qed auto

lemma before_sorted_unique:
  assumes "sorted_wrt before L" "a \<in> set L" "b \<in> set L" "fst a < fst b"
  shows "snd a \<le> fst b"
  using assms
proof (induction L)
  case (Cons x L)
  then show ?case by (auto simp: before_def)
qed simp

lemma before_sorted_distinct: "sorted_wrt before L \<Longrightarrow> distinct (map fst L)"
  by (induction L) (auto simp: before_def)

lemma spans_disjoint_sort:
  assumes "mset xs = mset L" "sorted_wrt before L"
  shows "spans_disjoint (sort_slice fst xs)"
proof (rule spans_disjointI)
  have set: "set (sort_slice fst xs) = set L" using mset_eq_setD [OF assms(1)] by simp
  show "sorted (map fst (sort_slice fst xs))" by (rule sorted_sort_slice)
  have "mset (map fst (sort_slice fst xs)) = mset (map fst L)"
    using assms(1) by (simp add: sort_slice_def)
  then show "distinct (map fst (sort_slice fst xs))"
    using before_sorted_distinct [OF assms(2)] by (metis mset_eq_imp_distinct_iff)
  show "\<forall>a \<in> set (sort_slice fst xs). \<forall>b \<in> set (sort_slice fst xs). fst a < fst b \<longrightarrow> snd a \<le> fst b"
    unfolding set using before_sorted_unique [OF assms(2)] by blast
qed

text \<open>The spans of chains laid out from cluster \<open>n\<close>, where chain \<open>k\<close> uses \<open>lens ! k\<close> bytes.\<close>

fun chain_spans :: "int \<Rightarrow> nat list \<Rightarrow> int list \<Rightarrow> nat \<Rightarrow> (int \<times> int) list" where
  "chain_spans ds (c # cs) (l # ls) n =
     (cluster_offset ds n, cluster_offset ds n + l) # chain_spans ds cs ls (n + c)"
| "chain_spans ds _ _ n = []"

definition chains_fit :: "nat list \<Rightarrow> int list \<Rightarrow> bool" where
  "chains_fit cs ls \<longleftrightarrow> list_all2 (\<lambda>c l. 0 < c \<and> 0 \<le> l \<and> l \<le> int c * vcluster) cs ls"

lemma chain_spans_bounds:
  "chains_fit cs ls \<Longrightarrow> a \<in> set (chain_spans ds cs ls n) \<Longrightarrow>
   cluster_offset ds n \<le> fst a \<and> fst a \<le> snd a \<and> snd a \<le> cluster_offset ds (n + sum_list cs)"
proof (induction ds cs ls n rule: chain_spans.induct)
  case (1 ds c cs l ls n)
  have "0 < c" "0 \<le> l" "l \<le> int c * 32768" "chains_fit cs ls" using 1(2) by (auto simp: chains_fit_def)
  moreover have "0 \<le> int (sum_list cs)" by simp
  ultimately show ?case using 1(1,3) by (auto simp: cluster_offset_def algebra_simps)
qed auto

lemma chain_spans_sorted:
  "chains_fit cs ls \<Longrightarrow> sorted_wrt before (chain_spans ds cs ls n)"
proof (induction ds cs ls n rule: chain_spans.induct)
  case (1 ds c cs l ls n)
  have c: "0 < c" "0 \<le> l" "l \<le> int c * 32768" "chains_fit cs ls" using 1(2) by (auto simp: chains_fit_def)
  have "before (cluster_offset ds n, cluster_offset ds n + l) b"
    if "b \<in> set (chain_spans ds cs ls (n + c))" for b
    using chain_spans_bounds [OF c(4) that] c by (auto simp: before_def cluster_offset_def algebra_simps)
  with 1(1) c(4) show ?case by simp
qed auto

lemma chain_spans_append:
  "length cs = length ls \<Longrightarrow>
   chain_spans ds (cs @ cs') (ls @ ls') n = chain_spans ds cs ls n @ chain_spans ds cs' ls' (n + sum_list cs)"
  by (induction cs ls arbitrary: n rule: list_induct2) (auto simp: add.assoc)

lemma chain_spans_zip:
  "length cs = length ls \<Longrightarrow>
   chain_spans ds cs ls n = map (\<lambda>(f, l). (cluster_offset ds f, cluster_offset ds f + l))
     (zip (chain_start cs n) ls)"
  by (induction cs ls arbitrary: n rule: list_induct2) auto

section \<open>Sources and saves\<close>

definition source_span :: "fat_extent \<Rightarrow> int \<times> int" where
  "source_span e = (feVirtualOffset e, feVirtualOffset e + feLength e)"

definition save_span :: "save_extent \<Rightarrow> int \<times> int" where
  "save_span s = (sxVirtualOffset s, sxVirtualOffset s + sxLength s)"

text \<open>What \<open>Build\<close> requires of a file, besides its path.\<close>

definition file_ok :: "fat_file \<Rightarrow> bool" where
  "file_ok f \<longleftrightarrow> 0 \<le> ffLogicalSize f \<and> ffLogicalSize f \<le> 4294967295 \<and>
     (if ffWritable f
      then ffSaveObjectID f \<noteq> '''' \<and> 0 < ffCardSize f \<and> ffLogicalSize f = ffCardSize f \<and>
           ffCardOffset f = 0 \<and> ffSourcePath f = ''''
      else ffSourcePath f \<noteq> '''' \<and> 0 \<le> ffSourceOffset f \<and>
           ffSourceOffset f \<le> ffSourceSize f - ffLogicalSize f)"

definition source_of :: "int \<Rightarrow> nat \<Rightarrow> fat_file \<Rightarrow> fat_extent" where
  "source_of ds first f = \<lparr>feVirtualOffset = cluster_offset ds first, feLength = ffLogicalSize f,
     feSourcePath = ffSourcePath f, feSourceOffset = ffSourceOffset f, feSourceSize = ffSourceSize f,
     feIdentity = ffIdentity f, feReadOnly = True\<rparr>"

definition save_of :: "int \<Rightarrow> nat \<Rightarrow> fat_file \<Rightarrow> save_extent" where
  "save_of ds first f = \<lparr>sxVirtualOffset = cluster_offset ds first, sxLength = ffLogicalSize f,
     sxSaveObjectID = ffSaveObjectID f, sxCardOffset = ffCardOffset f, sxCardSize = ffCardSize f,
     sxGenerationID = ffGenerationID f, sxLayoutChecksum = ''''\<rparr>"

definition placed :: "fat_file \<Rightarrow> fat_file \<Rightarrow> bool" where
  "placed f g \<longleftrightarrow> g\<lparr>ffVirtualOffset := ffVirtualOffset f, ffAllocatedSize := ffAllocatedSize f\<rparr> = f"

lemma placed_same:
  assumes "placed f g"
  shows "source_of ds first g = source_of ds first f" "save_of ds first g = save_of ds first f"
    "file_ok g = file_ok f" "ffWritable g = ffWritable f"
proof -
  from assms obtain v a where f: "f = g\<lparr>ffVirtualOffset := v, ffAllocatedSize := a\<rparr>"
    unfolding placed_def by metis
  show "source_of ds first g = source_of ds first f" "save_of ds first g = save_of ds first f"
    "file_ok g = file_ok f" "ffWritable g = ffWritable f"
    by (simp_all add: f source_of_def save_of_def file_ok_def)
qed

lemma placed_refl: "placed f f"
  by (simp add: placed_def)

lemma placed_update: "placed f g \<Longrightarrow> placed f (g\<lparr>ffVirtualOffset := v, ffAllocatedSize := a\<rparr>)"
  by (simp add: placed_def)

lemma file_extents_spec:
  "list_all2 placed files files1 \<Longrightarrow> \<forall>(i, first) \<in> set fs. i < length files \<and> file_ok (files ! i) \<Longrightarrow>
   \<exists>files'. file_extents_of ds fs files1 srcs svs = Inr (files',
     srcs @ map (\<lambda>(i, first). source_of ds first (files ! i)) (filter (\<lambda>(i, _). \<not> ffWritable (files ! i)) fs),
     svs @ map (\<lambda>(i, first). save_of ds first (files ! i)) (filter (\<lambda>(i, _). ffWritable (files ! i)) fs)) \<and>
     list_all2 placed files files'"
proof (induction ds fs files1 srcs svs rule: file_extents_of.induct)
  case (1 ds files1 srcs svs)
  then show ?case by simp
next
  case (2 ds i first fs files1 srcs svs)
  define f where "f = place_file (cluster_offset ds first) (files1 ! i)"
  have i: "i < length files" "i < length files1" "file_ok (files ! i)"
    using "2.prems"(2) list_all2_lengthD [OF "2.prems"(1)] by auto
  have "placed (files ! i) (files1 ! i)" using "2.prems"(1) i by (simp add: list_all2_nthD)
  then have pf: "placed (files ! i) f" by (simp add: f_def place_file_def placed_update)
  note same = placed_same [OF pf]
  have okf: "file_ok f" using same(3) i(3) by blast
  have l2: "list_all2 placed files (files1[i := f])"
    using "2.prems"(1) pf by (metis list_all2_update_cong list_update_id)
  have ok: "\<forall>(i, first) \<in> set fs. i < length files \<and> file_ok (files ! i)" using "2.prems"(2) by auto
  show ?case
  proof (cases "ffWritable f")
    case True
    have "\<not> (ffSaveObjectID f = '''' \<or> ffCardSize f \<le> 0 \<or> ffLogicalSize f \<noteq> ffCardSize f \<or>
        ffCardOffset f < 0 \<or> ffCardOffset f > ffCardSize f - ffLogicalSize f \<or> ffSourcePath f \<noteq> '''')"
      using True okf by (simp add: file_ok_def)
    with True have eq: "file_extents_of ds ((i, first) # fs) files1 srcs svs =
        file_extents_of ds fs (files1[i := f]) srcs (svs @ [save_of ds first f])"
      by (simp add: Let_def f_def [symmetric] save_of_def)
    from "2.IH"(1) [OF refl f_def refl True \<open>\<not> (ffSaveObjectID f = [] \<or> _)\<close> l2 ok]
    have "\<exists>files'. file_extents_of ds fs (files1[i := f]) srcs (svs @ [save_of ds first f]) = Inr (files',
       srcs @ map (\<lambda>(i, first). source_of ds first (files ! i)) (filter (\<lambda>(i, _). \<not> ffWritable (files ! i)) fs),
       (svs @ [save_of ds first f]) @
         map (\<lambda>(i, first). save_of ds first (files ! i)) (filter (\<lambda>(i, _). ffWritable (files ! i)) fs)) \<and>
       list_all2 placed files files'" by (simp only: save_of_def)
    then show ?thesis using True same by (simp add: eq del: file_extents_of.simps)
  next
    case False
    have src: "ffSourcePath f \<noteq> ''''" using False okf by (simp add: file_ok_def)
    with False have eq: "file_extents_of ds ((i, first) # fs) files1 srcs svs =
        file_extents_of ds fs (files1[i := f]) (srcs @ [source_of ds first f]) svs"
      by (simp add: Let_def f_def [symmetric] source_of_def)
    from "2.IH"(2) [OF refl f_def refl False src l2 ok]
    have "\<exists>files'. file_extents_of ds fs (files1[i := f]) (srcs @ [source_of ds first f]) svs = Inr (files',
       (srcs @ [source_of ds first f]) @
         map (\<lambda>(i, first). source_of ds first (files ! i)) (filter (\<lambda>(i, _). \<not> ffWritable (files ! i)) fs),
       svs @ map (\<lambda>(i, first). save_of ds first (files ! i)) (filter (\<lambda>(i, _). ffWritable (files ! i)) fs)) \<and>
       list_all2 placed files files'" by (simp only: source_of_def)
    then show ?thesis using False same by (simp add: eq del: file_extents_of.simps)
  qed
qed

section \<open>Every file once\<close>

lemma mset_update_first:
  assumes "\<And>x. P x \<Longrightarrow> mset (g (f x)) = add_mset i (mset (g x))" "mset (g (f new)) = {#i#}"
  shows "mset (concat (map g (update_first P f new xs))) = add_mset i (mset (concat (map g xs)))"
  using assms by (induction xs) auto

lemma file_indices_simps [simp]:
  "file_indices (FatDir nm fl sh kids) = concat (map file_indices kids)"
  "file_indices (FatFile nm fl sh i) = [i]"
  by (simp_all add: file_indices_def [abs_def] map_concat comp_def)

lemma mset_concat_map: "mset (concat (map f xs)) = \<Sum>\<^sub># (image_mset (\<lambda>x. mset (f x)) (mset xs))"
  by (induction xs) auto

lemma insert_path_files:
  "is_dir n \<Longrightarrow> ps \<noteq> [] \<Longrightarrow> mset (file_indices (insert_path ps cur i n)) = add_mset i (mset (file_indices n))"
proof (induction ps cur i n rule: insert_path.induct)
  case (3 part p ps cur i nm fl sh kids)
  let ?new = "FatDir part (cur @ CHR ''/'' # part) [] []"
  have "mset (concat (map file_indices (update_first (\<lambda>k. is_dir k \<and> to_lower (fnName k) = to_lower part)
      (insert_path (p # ps) (cur @ CHR ''/'' # part) i) ?new kids))) = add_mset i (mset (concat (map file_indices kids)))"
    using 3 by (intro mset_update_first) (auto simp: is_dir_def)
  then show ?case by simp
qed (auto simp: is_dir_def)

lemma insert_path_dir [simp]: "is_dir (insert_path ps cur i n) = is_dir n"
  by (induction ps cur i n rule: insert_path.induct) (auto simp: is_dir_def)

lemma split_on_nonempty [simp]: "split_on c s \<noteq> []"
  by (induction c s rule: split_on.induct) (auto split: list.splits)

lemma make_tree_loop_files:
  "make_tree_loop fs i seen root = Inr root' \<Longrightarrow> is_dir root \<Longrightarrow>
   is_dir root' \<and> mset (file_indices root') = mset (file_indices root) + mset [i..<i + length fs]"
proof (induction fs i seen root rule: make_tree_loop.induct)
  case (2 f fs i seen root)
  let ?parts = "split_on (CHR ''/'') (drop 1 (path_clean (ffVirtualPath f)))"
  have "is_dir root' \<and> mset (file_indices root') =
      mset (file_indices (insert_path ?parts [] i root)) + mset [Suc i..<Suc i + length fs]"
    using 2(2) "2.IH" [OF refl refl refl] 2(3) by (auto simp: Let_def split: if_splits)
  moreover have "mset [i..<i + length (f # fs)] = add_mset i (mset [Suc i..<Suc i + length fs])"
    by (subst upt_conv_Cons) simp_all
  ultimately show ?case
    using insert_path_files [OF 2(3), of ?parts "[]" i] by (simp del: mset_upt upt_Suc)
qed simp

lemma sort_tree_files: "mset (file_indices (sort_tree n)) = mset (file_indices n)"
proof (induction n)
  case (FatDir nm fl sh kids)
  have "mset (concat (map file_indices (sort_slice (\<lambda>k. to_lower (fnName k)) (map sort_tree kids)))) =
      mset (concat (map file_indices (map sort_tree kids)))"
    unfolding mset_concat_map by (simp add: sort_slice_def)
  also have "\<dots> = mset (concat (map file_indices kids))"
    using FatDir by (induction kids) auto
  finally show ?case by simp
qed simp

lemma with_short_simps [simp]:
  "file_indices (with_short n s) = file_indices n" "fnName (with_short n s) = fnName n"
  "is_dir (with_short n s) = is_dir n"
  by (cases n; simp add: is_dir_def)+

lemma length_short_names [simp]: "length (short_names ks used) = length ks"
  by (induction ks used rule: short_names.induct) (auto simp: Let_def)

lemma map2_with_short:
  "length xs = length ss \<Longrightarrow> map file_indices (map2 with_short xs ss) = map file_indices xs"
  by (induction xs ss rule: list_induct2) auto

lemma assign_short_names_files: "file_indices (assign_short_names n) = file_indices n"
proof (induction n)
  case (FatDir nm fl sh kids)
  have "map file_indices (map assign_short_names kids) = map file_indices kids" using FatDir by simp
  moreover have "map file_indices (map2 with_short (map assign_short_names kids)
      (short_names (map (\<lambda>k. (fnName k, is_dir k)) kids) [])) = map file_indices (map assign_short_names kids)"
    by (rule map2_with_short) simp
  then have "concat (map file_indices (map2 with_short (map assign_short_names kids)
      (short_names (map (\<lambda>k. (fnName k, is_dir k)) kids) []))) = concat (map file_indices kids)"
    by (simp only: \<open>map file_indices (map assign_short_names kids) = map file_indices kids\<close>)
  then show ?case by (simp only: assign_short_names.simps file_indices_simps)
qed simp

lemma tree_files:
  assumes "make_tree files = Inr root"
  shows "mset (file_indices (assign_short_names root)) = mset [0..<length files]"
proof -
  obtain r where r: "make_tree_loop files 0 [] (FatDir [] ''/'' [] []) = Inr r" "root = sort_tree r"
    using assms by (auto simp: make_tree_def split: sum.splits)
  have "mset (file_indices r) = mset [0..<length files]"
    using make_tree_loop_files [OF r(1)] by (simp add: is_dir_def)
  with r(2) show ?thesis by (simp add: assign_short_names_files sort_tree_files)
qed

section \<open>Build succeeds\<close>

lemma length_volume_label [simp]: "length (volume_label s) = 11"
  by (simp add: volume_label_def pad_right_def truncate_to_def)

lemma length_system_sectors [go_len, simp]:
  "length (fat_make_mbr a b c) = 512" "length (fat_make_boot a b d e l) = 512" "length (fat_make_fsinfo d e) = 512"
  unfolding fat_make_mbr_def fat_make_boot_def fat_make_fsinfo_def Let_def
  by (intro len_intros, simp_all)+

definition meta_span :: "metadata_extent \<Rightarrow> int \<times> int" where
  "meta_span m = (mxVirtualOffset m, mxVirtualOffset m + mxLength m)"

lemma meta_span_simps [simp]:
  "meta_span \<lparr>mxVirtualOffset = v, mxLength = l, mxStorageOffset = s\<rparr> = (v, v + l)"
  by (simp add: meta_span_def)

lemma system_metadata_spans:
  "map meta_span (snd (system_metadata ps F rf vid label free next fat)) =
     [(0, 512), (1048576, 1049088), (1051648, 1052160), (1049088, 1049600), (1052160, 1052672),
      (1064960, 1064960 + int (length fat)),
      (1064960 + F * 512, 1064960 + F * 512 + int (length fat))]"
  by (simp add: system_metadata_def Let_def add_metadata_def)

lemma directory_metadata_spec:
  assumes "\<And>d first. (d, first) \<in> set ds \<Longrightarrow> \<exists>bs. build d = Inr bs \<and> length bs = cl d * 32768"
  shows "\<exists>md ex. directory_metadata build dataStart ds st = Inr (md, snd st @ ex) \<and>
    map meta_span ex = map (\<lambda>(d, first). (cluster_offset dataStart first,
      cluster_offset dataStart first + int (cl d) * vcluster)) ds"
  using assms
proof (induction ds arbitrary: st)
  case Nil
  then show ?case by (cases st) auto
next
  case (Cons x ds)
  obtain d first where x: "x = (d, first)" by (cases x)
  obtain bs where bs: "build d = Inr bs" "length bs = cl d * 32768" using Cons.prems [of d first] x by auto
  let ?st = "add_metadata (cluster_offset dataStart first) bs st"
  have p: "\<exists>bs. build d = Inr bs \<and> length bs = cl d * 32768" if "(d, first) \<in> set ds" for d first
    using Cons.prems [of d first] that by simp
  have "\<exists>md ex. directory_metadata build dataStart ds ?st = Inr (md, snd ?st @ ex) \<and>
    map meta_span ex = map (\<lambda>(d, first). (cluster_offset dataStart first,
      cluster_offset dataStart first + int (cl d) * vcluster)) ds"
    by (rule Cons.IH) (erule p)
  then show ?case
    by (simp add: x bs(1)) (auto simp: add_metadata_def bs(2))
qed

lemma check_saves_ok:
  "list_all (save_range_ok sz) ss \<Longrightarrow> distinct (map sxSaveObjectID ss) \<Longrightarrow>
   set (map sxSaveObjectID ss) \<inter> set seen = {} \<Longrightarrow> check_saves sz ss seen = None"
  by (induction sz ss seen rule: check_saves.induct) auto

lemma file_clusters_covers: "0 \<le> l \<Longrightarrow> 0 < file_clusters l \<and> l \<le> file_clusters l * vcluster"
  using ceil_div_covers [of vcluster l] pos_imp_zdiv_nonneg_iff [of vcluster "l + vcluster - 1"]
  by (auto simp: file_clusters_def)

definition build_ready :: "int \<Rightarrow> fat_file list \<Rightarrow> fat_node \<Rightarrow> bool" where
  "build_ready virtualSize files root \<longleftrightarrow>
     is_dir root \<and> mset (file_indices root) = mset [0..<length files] \<and> list_all file_ok files \<and>
     distinct (map ffSaveObjectID (filter ffWritable files)) \<and>
     \<not> isl (fat_fit virtualSize (int (sum_list (dir_counts root @ file_counts files root))))"

lemma collect_dirs_root: "is_dir root \<Longrightarrow> \<exists>ds. collect_dirs root = root # ds"
  by (cases root) (auto simp: is_dir_def)

lemma chains_fit_counts:
  assumes "list_all file_ok files" "\<forall>i \<in> set (file_indices root). i < length files"
  shows "chains_fit (dir_counts root @ file_counts files root)
    (map (\<lambda>c. int c * vcluster) (dir_counts root) @ map (\<lambda>i. ffLogicalSize (files ! i)) (file_indices root))"
proof -
  have "list_all2 (\<lambda>c l. 0 < c \<and> 0 \<le> l \<and> l \<le> int c * vcluster) (dir_counts root) (map (\<lambda>c. int c * vcluster) (dir_counts root))"
    by (auto simp: list_all2_conv_all_nth dir_counts_def directory_clusters_def)
  moreover have "list_all2 (\<lambda>c l. 0 < c \<and> 0 \<le> l \<and> l \<le> int c * vcluster)
      (file_counts files root) (map (\<lambda>i. ffLogicalSize (files ! i)) (file_indices root))"
  proof -
    have "0 \<le> ffLogicalSize (files ! i)" if "i \<in> set (file_indices root)" for i
      using assms that by (auto simp: list_all_length file_ok_def)
    then have "0 < nat (file_clusters (ffLogicalSize (files ! i))) \<and> 0 \<le> ffLogicalSize (files ! i) \<and>
        ffLogicalSize (files ! i) \<le> int (nat (file_clusters (ffLogicalSize (files ! i)))) * 32768"
      if "i \<in> set (file_indices root)" for i
      using file_clusters_covers [of "ffLogicalSize (files ! i)"] that by simp
    then show ?thesis unfolding file_counts_def by (simp add: list_all2_conv_all_nth)
  qed
  ultimately show ?thesis unfolding chains_fit_def by (rule list_all2_appendI)
qed

definition chain_lens :: "fat_file list \<Rightarrow> fat_node \<Rightarrow> int list" where
  "chain_lens files root = map (\<lambda>c. int c * vcluster) (dir_counts root) @
     map (\<lambda>i. ffLogicalSize (files ! i)) (file_indices root)"

lemma dir_span_zip:
  "map (\<lambda>(d, first). (cluster_offset ds first, cluster_offset ds first + int (cl d) * vcluster)) (zip xs firsts) =
   map (\<lambda>(f, l). (cluster_offset ds f, cluster_offset ds f + l)) (zip firsts (map (\<lambda>d. int (cl d) * vcluster) xs))"
  by (induction xs firsts rule: list_induct2') auto

lemma file_span_zip:
  "map (\<lambda>(i, first). (cluster_offset ds first, cluster_offset ds first + ffLogicalSize (files ! i))) (zip is firsts) =
   map (\<lambda>(f, l). (cluster_offset ds f, cluster_offset ds f + l)) (zip firsts (map (\<lambda>i. ffLogicalSize (files ! i)) is))"
  by (induction "is" firsts rule: list_induct2') auto

lemma chain_start_append:
  "chain_start (cs @ cs') n = chain_start cs n @ chain_start cs' (n + sum_list cs)"
  by (induction cs arbitrary: n) (auto simp: add.assoc)

text \<open>The spans of directories and files are those of the chains, in the order of allocation.\<close>

lemma chain_spans_parts:
  "chain_spans ds (dir_counts root @ file_counts files root) (chain_lens files root) 2 =
   map (\<lambda>(d, first). (cluster_offset ds first,
       cluster_offset ds first + int (directory_clusters (fnFull d = fnFull root) d) * vcluster))
     (zip (collect_dirs root) (chain_start (dir_counts root @ file_counts files root) 2)) @
   map (\<lambda>(i, first). (cluster_offset ds first, cluster_offset ds first + ffLogicalSize (files ! i)))
     (file_firsts root (chain_start (dir_counts root @ file_counts files root) 2))"
proof -
  have len: "length (dir_counts root) = length (collect_dirs root)" by (simp add: dir_counts_def)
  have lens: "length (file_counts files root) = length (file_indices root)" by (simp add: file_counts_def)
  have z: "zip (collect_dirs root) (chain_start (dir_counts root @ file_counts files root) 2) =
      zip (collect_dirs root) (chain_start (dir_counts root) 2)"
    by (simp add: chain_start_append zip_append2 len)
  have f: "file_firsts root (chain_start (dir_counts root @ file_counts files root) 2) =
      zip (file_indices root) (chain_start (file_counts files root) (2 + sum_list (dir_counts root)))"
    by (simp add: file_firsts_def chain_start_append len [symmetric])
  have d: "map (\<lambda>c. int c * vcluster) (dir_counts root) =
      map (\<lambda>d. int (directory_clusters (fnFull d = fnFull root) d) * vcluster) (collect_dirs root)"
    by (simp add: dir_counts_def)
  show ?thesis
    unfolding z f dir_span_zip file_span_zip chain_lens_def d [symmetric]
    by (subst chain_spans_append) (simp_all add: chain_spans_zip lens)
qed

lemma build_directory_total:
  "\<exists>bs. directory_bytes files label root firsts d = Inr bs \<and>
     length bs = directory_clusters (fnFull d = fnFull root) d * 32768"
proof -
  let ?r = "fnFull d = fnFull root"
  define pf where "pf = (if ?r then None else Some (if lookup_or [] (dir_parents [] root) d = fnFull root then 0
     else lookup_or 0 (dir_firsts root firsts) (lookup_or [] (dir_parents [] root) d)))"
  have iff: "pf = None \<longleftrightarrow> ?r" by (simp add: pf_def)
  obtain bs where bs: "build_directory (lookup_or 0 (dir_firsts root firsts)) (lookup_or 0 (file_firsts root firsts))
      files label (directory_clusters ?r d) pf d = Inr bs"
    using build_directory_spec [OF iff] by blast
  then have "directory_bytes files label root firsts d = Inr bs"
    by (simp add: directory_bytes_def Let_def pf_def)
  with build_directory_length [OF iff bs] show ?thesis by blast
qed

lemma length_empty_fat: "1 \<le> fatSectors \<Longrightarrow> length (empty_fat fatSectors) = nat (fatSectors * 512)"
  unfolding empty_fat_def by (intro len_intros) auto

lemma fat_room:
  assumes "(int n + 2) * 4 \<le> m" "int n \<le> 4294967293"
  shows "4 * (2 + n) \<le> nat m" "2 + n < 2 ^ 32"
proof -
  have "int (4 * (2 + n)) \<le> m" using assms(1) by simp
  then show "4 * (2 + n) \<le> nat m" by linarith
  show "2 + n < 2 ^ 32" using assms(2) by simp
qed

text \<open>The FAT in the stored metadata: it follows five sectors, and both copies refer to it.\<close>

definition fat_entry :: "byte list \<Rightarrow> nat \<Rightarrow> nat" where
  "fat_entry metadata c = get_le metadata (2560 + 4 * c) 4"

definition fat_holds :: "nat list \<Rightarrow> byte list \<Rightarrow> bool" where
  "fat_holds counts metadata \<longleftrightarrow>
     (\<forall>k < length counts. \<forall>j < counts ! k. fat_entry metadata (chain_start counts 2 ! k + j) =
        (if j + 1 < counts ! k then chain_start counts 2 ! k + j + 1 else 0x0fffffff))"

lemma get_le_append_right: "length a = n \<Longrightarrow> get_le (a @ b) (n + x) k = get_le b x k"
  by (simp add: get_le_def slice_def)

lemma get_le_append_left: "x + k \<le> length b \<Longrightarrow> get_le (b @ c) x k = get_le b x k"
  by (simp add: get_le_def slice_def)

lemma system_metadata_bytes:
  "\<exists>five. length five = 2560 \<and> fst (system_metadata ps F rf vid label free next fat) = five @ fat"
  by (simp add: system_metadata_def Let_def add_metadata_def)

lemma directory_metadata_prefix:
  "directory_metadata build ds dirs st = Inr (md, mx) \<Longrightarrow> \<exists>rest. md = fst st @ rest"
proof (induction dirs arbitrary: st)
  case (Cons x dirs)
  obtain d first where x: "x = (d, first)" by (cases x)
  from Cons.prems obtain bs where "build d = Inr bs"
    and "directory_metadata build ds dirs (add_metadata (cluster_offset ds first) bs st) = Inr (md, mx)"
    by (auto simp: x split: sum.splits)
  with Cons.IH [OF this(2)] show ?case by (auto simp: add_metadata_def)
qed auto

text \<open>Every metadata extent refers to bytes that are stored.\<close>

definition all_stored :: "metadata_store \<Rightarrow> bool" where
  "all_stored st \<longleftrightarrow> list_all (meta_storage_ok (fst st)) (snd st)"

lemma meta_storage_ok_append: "meta_storage_ok md m \<Longrightarrow> meta_storage_ok (md @ bs) m"
  by (auto simp: meta_storage_ok_def)

lemma add_metadata_stored: "all_stored st \<Longrightarrow> all_stored (add_metadata v bs st)"
  by (auto simp: all_stored_def add_metadata_def list_all_iff meta_storage_ok_append)
    (simp add: meta_storage_ok_def)

lemma system_metadata_stored: "all_stored (system_metadata ps F rf vid label free next fat)"
proof -
  have "all_stored ([], [])" by (simp add: all_stored_def)
  note m1 = add_metadata_stored [OF this] note m5 = add_metadata_stored [OF add_metadata_stored [OF
      add_metadata_stored [OF add_metadata_stored [OF m1]]]]
  have last: "all_stored (fst (add_metadata v fat st), snd (add_metadata v fat st) @
      [\<lparr>mxVirtualOffset = v2, mxLength = int (length fat), mxStorageOffset = int (length (fst st))\<rparr>])"
    if "all_stored st" for v v2 st
    using add_metadata_stored [OF that, of v fat]
    by (simp add: all_stored_def) (simp add: meta_storage_ok_def add_metadata_def)
  show ?thesis unfolding system_metadata_def Let_def by (rule last) (rule m5)
qed

lemma directory_metadata_stored:
  "directory_metadata build ds dirs st = Inr st' \<Longrightarrow> all_stored st \<Longrightarrow> all_stored st'"
  by (induction build ds dirs st rule: directory_metadata.induct)
    (auto simp: add_metadata_stored split: sum.splits)

lemma sum_take_nth: "k < length cs \<Longrightarrow> sum_list (take k cs) + cs ! k \<le> sum_list (cs :: nat list)"
  by (induction cs arbitrary: k) (auto simp: nth_Cons' take_Cons' split: if_splits)

lemma fat_holdsI:
  assumes "4 * (2 + sum_list counts) \<le> length fat0" "2 + sum_list counts < 2 ^ 32"
    and "fat = snd (snd (fat_chains_from counts (2, fat0)))" "metadata = five @ fat @ rest" "length five = 2560"
  shows "fat_holds counts metadata"
  unfolding fat_holds_def
proof (intro allI impI)
  fix k j assume k: "k < length counts" and j: "j < counts ! k"
  let ?c = "2 + sum_list (take k counts) + j"
  note spec = fat_chains_from_spec [OF assms(1,2), folded assms(3)]
  have in_fat: "4 * ?c + 4 \<le> length fat0" using sum_take_nth [OF k] j assms(1) by simp
  have "fat_entry metadata ?c = get_le fat (4 * ?c) 4"
    unfolding fat_entry_def assms(4) using in_fat spec
    by (simp only: get_le_append_right [OF assms(5)] get_le_append_left)
  also have "\<dots> = (if j + 1 < counts ! k then ?c + 1 else 0x0fffffff)"
  proof -
    have "get_le fat (4 * ?c) 4 = (case chain_link counts 2 ?c of Some v \<Rightarrow> v | None \<Rightarrow> get_le fat0 (4 * ?c) 4)"
      using spec in_fat by blast
    then show ?thesis unfolding chain_link_nth [OF k j, of 2] by (simp only: option.case)
  qed
  finally show "fat_entry metadata (chain_start counts 2 ! k + j) =
      (if j + 1 < counts ! k then chain_start counts 2 ! k + j + 1 else 0x0fffffff)"
    by (simp add: nth_chain_start k)
qed

text \<open>Everything before the final check of \<open>Build\<close> goes through, and leaves these parts.\<close>

definition data_start :: "int \<Rightarrow> int" where
  "data_start fatSectors = (2048 + (32 + 2 * fatSectors)) * 512"

definition all_parts ::
  "int \<Rightarrow> fat_file list \<Rightarrow> fat_node \<Rightarrow> int \<Rightarrow> metadata_store \<Rightarrow>
   fat_file list \<times> fat_extent list \<times> save_extent list \<Rightarrow> bool" where
  "all_parts virtualSize files root F store parts \<longleftrightarrow>
     (let ds = data_start F;
          firsts = chain_start (dir_counts root @ file_counts files root) 2;
          ffs = file_firsts root firsts
      in map meta_span (snd store) =
           [(0, 512), (1048576, 1049088), (1051648, 1052160), (1049088, 1049600), (1052160, 1052672),
            (1064960, 1064960 + F * 512), (1064960 + F * 512, 1064960 + F * 512 + F * 512)] @
           map (\<lambda>(d, first). (cluster_offset ds first,
               cluster_offset ds first + int (directory_clusters (fnFull d = fnFull root) d) * vcluster))
             (zip (collect_dirs root) firsts) \<and>
         snd parts = (map (\<lambda>(i, first). source_of ds first (files ! i)) (filter (\<lambda>(i, _). \<not> ffWritable (files ! i)) ffs),
           map (\<lambda>(i, first). save_of ds first (files ! i)) (filter (\<lambda>(i, _). ffWritable (files ! i)) ffs)) \<and>
         all_stored store \<and> 1 \<le> F \<and> cluster_offset ds (2 + sum_list (dir_counts root @ file_counts files root)) \<le> virtualSize)"

lemma fat_build_tree_parts:
  assumes "build_ready virtualSize files root"
  shows "\<exists>F geometry store parts. fat_build_tree virtualSize label identity files root =
      finish_layout virtualSize geometry store parts \<and> fgFATSectors geometry = F \<and>
      all_parts virtualSize files root F store parts \<and>
      fat_holds (dir_counts root @ file_counts files root) (fst store)"
proof -
  let ?counts = "dir_counts root @ file_counts files root"
  let ?total = "int (sum_list ?counts)"
  from assms have root: "is_dir root" and indices: "mset (file_indices root) = mset [0..<length files]"
    and ok: "list_all file_ok files" by (auto simp: build_ready_def)
  have ix: "i < length files" "file_ok (files ! i)" if "i \<in> set (file_indices root)" for i
    using that mset_eq_setD [OF indices] ok by (auto simp: list_all_length)
  then have sizes: "\<not> list_ex (\<lambda>i. ffLogicalSize (files ! i) < 0 \<or> ffLogicalSize (files ! i) > 4294967295) (file_indices root)"
    by (auto simp: list_ex_iff file_ok_def not_less)
  obtain ds0 where "collect_dirs root = root # ds0" using collect_dirs_root [OF root] by blast
  then have "1 \<le> sum_list ?counts" by (simp add: dir_counts_def directory_clusters_def)
  then have total: "1 \<le> ?total" by simp
  obtain av F fd where fit: "fat_fit virtualSize ?total = Inr (av, F, fd)"
    using assms unfolding build_ready_def by (metis sum.collapse(2) prod_cases3)
  note fo = fat_fit_ok [OF fit total]
  define ds where "ds = (2048 + fd) * 512"
  have ds: "data_start F = ds" using fo by (simp add: ds_def data_start_def)
  have flen: "length (empty_fat F) = nat (F * 512)" using fo by (intro length_empty_fat) simp
  have "(int (sum_list ?counts) + 2) * 4 \<le> F * 512" "int (sum_list ?counts) \<le> 4294967293" using fo by simp_all
  note room = fat_room [OF this]
  have "4 * (2 + sum_list ?counts) \<le> length (empty_fat F)" unfolding flen by (rule room(1))
  note long = this
  note spec = fat_chains_from_spec [OF long room(2)]
  obtain fat where chains: "fat_chains_from ?counts (2, empty_fat F) =
      (chain_start ?counts 2, 2 + sum_list ?counts, fat)" "length fat = nat (F * 512)"
    using spec flen by (metis prod.collapse)
  define store where "store = system_metadata (virtualSize div vsector - vpartition_start) F
    (hd (chain_start ?counts 2)) (fat_volume_id identity) label
    (u32_of (av - (int (2 + sum_list ?counts) - 2))) (2 + sum_list ?counts) fat"
  let ?firsts = "chain_start ?counts 2"
  have "\<exists>bs. directory_bytes files label root ?firsts d = Inr bs \<and>
      length bs = directory_clusters (fnFull d = fnFull root) d * 32768"
    if "(d, first) \<in> set (zip (collect_dirs root) ?firsts)" for d first
    by (rule build_directory_total)
  then have "\<exists>md ex. directory_metadata (directory_bytes files label root ?firsts) ds (zip (collect_dirs root) ?firsts) store =
      Inr (md, snd store @ ex) \<and>
    map meta_span ex = map (\<lambda>(d, first). (cluster_offset ds first,
      cluster_offset ds first + int (directory_clusters (fnFull d = fnFull root) d) * vcluster))
      (zip (collect_dirs root) ?firsts)"
    by (rule directory_metadata_spec)
  then obtain md ex where dm: "directory_metadata (directory_bytes files label root ?firsts) ds
      (zip (collect_dirs root) ?firsts) store = Inr (md, snd store @ ex)"
    and ex: "map meta_span ex = map (\<lambda>(d, first). (cluster_offset ds first,
      cluster_offset ds first + int (directory_clusters (fnFull d = fnFull root) d) * vcluster))
      (zip (collect_dirs root) ?firsts)" by blast
  let ?ffs = "file_firsts root ?firsts"
  have "\<forall>(i, first) \<in> set ?ffs. i < length files \<and> file_ok (files ! i)"
    using ix by (auto simp: file_firsts_def dest: set_zip_leftD)
  from file_extents_spec [OF list.rel_refl [of placed, OF placed_refl] this, of ds "[]" "[]"]
  obtain files' where fe: "file_extents_of ds ?ffs files [] [] = Inr (files',
     map (\<lambda>(i, first). source_of ds first (files ! i)) (filter (\<lambda>(i, _). \<not> ffWritable (files ! i)) ?ffs),
     map (\<lambda>(i, first). save_of ds first (files ! i)) (filter (\<lambda>(i, _). ffWritable (files ! i)) ?ffs))"
    by auto
  define parts where "parts = (files',
     map (\<lambda>(i, first). source_of ds first (files ! i)) (filter (\<lambda>(i, _). \<not> ffWritable (files ! i)) ?ffs),
     map (\<lambda>(i, first). save_of ds first (files ! i)) (filter (\<lambda>(i, _). ffWritable (files ! i)) ?ffs))"
  define geometry where "geometry = \<lparr>fgPartitionSectors = virtualSize div vsector - vpartition_start,
        fgFATSectors = F, fgFirstDataSector = fd, fgVolumeID = fat_volume_id identity\<rparr>"
  have "fgFATSectors geometry = F" by (simp add: geometry_def)
  moreover have "fat_build_tree virtualSize label identity files root =
      finish_layout virtualSize geometry (md, snd store @ ex) parts"
    unfolding fat_build_tree_def Let_def
    using sizes by (simp only: if_False fit sum.case prod.case chains(1) store_def [symmetric]
        geometry_def [symmetric] ds_def [symmetric] dm fe parts_def [symmetric])
  moreover have "all_parts virtualSize files root F (md, snd store @ ex) parts"
  proof -
    have "int (length fat) = F * 512" using chains(2) fo by simp
    then have "map meta_span (snd store) =
           [(0, 512), (1048576, 1049088), (1051648, 1052160), (1049088, 1049600), (1052160, 1052672),
            (1064960, 1064960 + F * 512), (1064960 + F * 512, 1064960 + F * 512 + F * 512)]"
      by (simp only: store_def system_metadata_spans)
    moreover have "cluster_offset ds (2 + sum_list ?counts) \<le> virtualSize"
    proof -
      have "int (sum_list ?counts) * 32768 \<le> av * 32768" using fo by simp
      then show ?thesis using fo unfolding cluster_offset_def ds_def by simp
    qed
    moreover have "all_stored (md, snd store @ ex)"
      by (rule directory_metadata_stored [OF dm]) (simp add: store_def system_metadata_stored)
    ultimately show ?thesis
      using fo ex by (simp only: all_parts_def Let_def ds parts_def snd_conv map_append append_assoc)
  qed
  moreover have "fat_holds ?counts (fst (md, snd store @ ex))"
  proof -
    obtain five where five: "length five = 2560" "fst store = five @ fat"
      using system_metadata_bytes unfolding store_def by blast
    obtain rest where "md = five @ fat @ rest" using directory_metadata_prefix [OF dm] five(2) by auto
    moreover have "fat = snd (snd (fat_chains_from ?counts (2, empty_fat F)))" by (simp add: chains(1))
    ultimately show ?thesis unfolding fst_conv by (intro fat_holdsI [OF long room(2) _ _ five(1)])
  qed
  ultimately show ?thesis by blast
qed

text \<open>The spans of every metadata, source and save extent, in the order of the disk.\<close>

definition system_spans :: "int \<Rightarrow> (int \<times> int) list" where
  "system_spans F =
     [(0, 512), (1048576, 1049088), (1049088, 1049600), (1051648, 1052160), (1052160, 1052672),
      (1064960, 1064960 + F * 512), (1064960 + F * 512, 1064960 + F * 512 + F * 512)]"

definition disk_spans :: "fat_file list \<Rightarrow> fat_node \<Rightarrow> int \<Rightarrow> (int \<times> int) list" where
  "disk_spans files root F = system_spans F @
     chain_spans (data_start F) (dir_counts root @ file_counts files root) (chain_lens files root) 2"

lemma system_spans_sorted:
  assumes "1 \<le> F"
  shows "sorted_wrt before (system_spans F)"
    and "a \<in> set (system_spans F) \<Longrightarrow> 0 \<le> fst a \<and> fst a < snd a \<and> snd a \<le> data_start F"
  using assms by (auto simp: system_spans_def before_def data_start_def)

lemma disk_spans_sorted:
  assumes "1 \<le> F" "build_ready virtualSize files root"
    and "cluster_offset (data_start F) (2 + sum_list (dir_counts root @ file_counts files root)) \<le> virtualSize"
  shows "sorted_wrt before (disk_spans files root F)"
    and "a \<in> set (disk_spans files root F) \<Longrightarrow> 0 \<le> fst a \<and> fst a \<le> snd a \<and> snd a \<le> virtualSize"
proof -
  let ?counts = "dir_counts root @ file_counts files root"
  let ?spans = "chain_spans (data_start F) ?counts (chain_lens files root) 2"
  have "set (file_indices root) = {0..<length files}"
    using assms(2) mset_eq_setD [of "file_indices root" "[0..<length files]"] by (auto simp: build_ready_def)
  then have fit: "chains_fit ?counts (chain_lens files root)"
    unfolding chain_lens_def using assms(2) by (intro chains_fit_counts) (auto simp: build_ready_def)
  have zero: "cluster_offset (data_start F) 2 = data_start F" by (simp add: cluster_offset_def)
  have b: "data_start F \<le> fst a \<and> fst a \<le> snd a \<and> snd a \<le> virtualSize" if "a \<in> set ?spans" for a
    using chain_spans_bounds [OF fit that] assms(3) by (simp add: zero)
  show "sorted_wrt before (disk_spans files root F)"
    unfolding disk_spans_def sorted_wrt_append
    using system_spans_sorted [OF assms(1)] chain_spans_sorted [OF fit] b by (fastforce simp: before_def)
  have "data_start F \<le> cluster_offset (data_start F) (2 + sum_list ?counts)" by (simp add: cluster_offset_def)
  then show "a \<in> set (disk_spans files root F) \<Longrightarrow> 0 \<le> fst a \<and> fst a \<le> snd a \<and> snd a \<le> virtualSize"
    unfolding disk_spans_def
    using system_spans_sorted(2) [OF assms(1), of a] b [of a] assms(1,3) by (auto simp: data_start_def)
qed

lemma spans_of_alt:
  "spans_of metas srcs svs = map meta_span metas @ map source_span srcs @ map save_span svs"
  by (simp add: spans_of_def meta_span_def [abs_def] source_span_def [abs_def] save_span_def [abs_def])

lemma file_spans_mset:
  "mset (map source_span (map (\<lambda>(i, first). source_of ds first (files ! i)) (filter (\<lambda>(i, _). \<not> ffWritable (files ! i)) fs))) +
   mset (map save_span (map (\<lambda>(i, first). save_of ds first (files ! i)) (filter (\<lambda>(i, _). ffWritable (files ! i)) fs))) =
   mset (map (\<lambda>(i, first). (cluster_offset ds first, cluster_offset ds first + ffLogicalSize (files ! i))) fs)"
  by (induction fs) (auto simp: source_span_def source_of_def save_span_def save_of_def)

lemma all_parts_spans:
  assumes "all_parts virtualSize files root F store (files', srcs, svs)"
  shows "mset (spans_of (snd store) srcs svs) = mset (disk_spans files root F)"
proof -
  let ?firsts = "chain_start (dir_counts root @ file_counts files root) 2"
  let ?ffs = "file_firsts root ?firsts" and ?ds = "data_start F"
  have metas: "mset (map meta_span (snd store)) = mset (system_spans F) +
      mset (map (\<lambda>(d, first). (cluster_offset ?ds first,
        cluster_offset ?ds first + int (directory_clusters (fnFull d = fnFull root) d) * vcluster))
        (zip (collect_dirs root) ?firsts))"
    using assms by (simp add: all_parts_def Let_def system_spans_def)
  have "mset (map source_span srcs) + mset (map save_span svs) =
      mset (map (\<lambda>(i, first). (cluster_offset ?ds first, cluster_offset ?ds first + ffLogicalSize (files ! i))) ?ffs)"
    using assms unfolding all_parts_def Let_def snd_conv prod.inject by (simp only: file_spans_mset)
  then show ?thesis
    unfolding spans_of_alt disk_spans_def chain_spans_parts by (simp only: mset_append metas add.assoc)
qed

lemma mset_spans_sort:
  "mset (spans_of (sort_slice mxVirtualOffset metas) (sort_slice feVirtualOffset srcs) (sort_slice sxVirtualOffset svs)) =
   mset (spans_of metas srcs svs)"
  unfolding spans_of_alt by (simp add: sort_slice_def)

definition span_inside :: "int \<Rightarrow> int \<times> int \<Rightarrow> bool" where
  "span_inside sz a \<longleftrightarrow> 0 \<le> fst a \<and> fst a \<le> snd a \<and> snd a \<le> sz"

lemma span_inside_source:
  "span_inside sz (source_span (source_of ds first f)) \<Longrightarrow> file_ok f \<Longrightarrow> \<not> ffWritable f \<Longrightarrow>
   source_range_ok sz (source_of ds first f)"
  by (auto simp: span_inside_def source_span_def source_of_def source_range_ok_def file_ok_def)

lemma span_inside_save:
  "span_inside sz (save_span (save_of ds first f)) \<Longrightarrow> file_ok f \<Longrightarrow> ffWritable f \<Longrightarrow>
   save_range_ok sz (save_of ds first f)"
  by (auto simp: span_inside_def save_span_def save_of_def save_range_ok_def file_ok_def)

lemma distinct_map_filter_index:
  assumes "distinct (map f (filter P xs))" "mset is = mset [0..<length xs]"
  shows "distinct (map (\<lambda>i. f (xs ! i)) (filter (\<lambda>i. P (xs ! i)) is))"
proof -
  have "map f (filter P xs) = map (\<lambda>i. f (xs ! i)) (filter (\<lambda>i. P (xs ! i)) [0..<length xs])"
    by (subst map_nth [of xs, symmetric], simp only: filter_map map_map comp_def)
  moreover have "mset (map (\<lambda>i. f (xs ! i)) (filter (\<lambda>i. P (xs ! i)) is)) =
      mset (map (\<lambda>i. f (xs ! i)) (filter (\<lambda>i. P (xs ! i)) [0..<length xs]))"
    by (simp only: mset_map mset_filter assms(2))
  ultimately show ?thesis using assms(1) by (metis mset_eq_imp_distinct_iff)
qed

lemma map_filter_zip_ids:
  "length is = length fs \<Longrightarrow>
   map sxSaveObjectID (map (\<lambda>(i, first). save_of ds first (xs ! i)) (filter (\<lambda>(i, _). ffWritable (xs ! i)) (zip is fs))) =
   map (\<lambda>i. ffSaveObjectID (xs ! i)) (filter (\<lambda>i. ffWritable (xs ! i)) is)"
  by (induction "is" fs rule: list_induct2) (auto simp: save_of_def)

lemma save_ids_distinct:
  assumes "build_ready virtualSize files root" "all_parts virtualSize files root F store (files', srcs, svs)"
  shows "distinct (map sxSaveObjectID svs)"
proof -
  let ?firsts = "chain_start (dir_counts root @ file_counts files root) 2"
  have "length (file_indices root) = length (drop (length (collect_dirs root)) ?firsts)"
    by (simp add: dir_counts_def file_counts_def)
  then have "map sxSaveObjectID svs = map (\<lambda>i. ffSaveObjectID (files ! i)) (filter (\<lambda>i. ffWritable (files ! i)) (file_indices root))"
    using assms(2) unfolding all_parts_def Let_def snd_conv prod.inject file_firsts_def
    by (simp only: map_filter_zip_ids)
  then show ?thesis
    using assms(1) by (simp add: build_ready_def distinct_map_filter_index)
qed

lemma directory_clusters_pos: "0 < directory_clusters r d"
  by (simp add: directory_clusters_def)

lemma meta_span_positive:
  assumes "all_parts virtualSize files root F store parts" "m \<in> set (snd store)"
  shows "fst (meta_span m) < snd (meta_span m)"
proof -
  define dirs where "dirs = map (\<lambda>(d, first). (cluster_offset (data_start F) first,
      cluster_offset (data_start F) first + int (directory_clusters (fnFull d = fnFull root) d) * vcluster))
      (zip (collect_dirs root) (chain_start (dir_counts root @ file_counts files root) 2))"
  have F: "1 \<le> F" using assms(1) by (simp add: all_parts_def Let_def)
  have "map meta_span (snd store) = [(0, 512), (1048576, 1049088), (1051648, 1052160), (1049088, 1049600),
      (1052160, 1052672), (1064960, 1064960 + F * 512), (1064960 + F * 512, 1064960 + F * 512 + F * 512)] @ dirs"
    using assms(1) unfolding all_parts_def Let_def dirs_def by (rule conjunct1)
  then have "set (map meta_span (snd store)) = set (system_spans F) \<union> set dirs"
    by (auto simp: system_spans_def)
  then have "meta_span m \<in> set (system_spans F) \<union> set dirs" using assms(2) by auto
  moreover have "fst a < snd a" if "a \<in> set dirs" for a
    using that by (auto simp: dirs_def directory_clusters_pos)
  ultimately show ?thesis using system_spans_sorted(2) [OF F] by blast
qed

text \<open>The final check of \<open>Build\<close> passes, and the extents it returns are the disk's spans.\<close>

lemma validate_ranges_parts:
  assumes "build_ready virtualSize files root" "all_parts virtualSize files root F store (files', srcs, svs)"
  shows "validate_ranges virtualSize (sort_slice mxVirtualOffset (snd store)) (sort_slice feVirtualOffset srcs)
    (sort_slice sxVirtualOffset svs) = None"
proof -
  let ?firsts = "chain_start (dir_counts root @ file_counts files root) 2"
  let ?ffs = "file_firsts root ?firsts" and ?ds = "data_start F"
  have F: "1 \<le> F" and room: "cluster_offset ?ds (2 + sum_list (dir_counts root @ file_counts files root)) \<le> virtualSize"
    using assms(2) by (simp_all add: all_parts_def Let_def)
  note all = all_parts_spans [OF assms(2)] and sorted = disk_spans_sorted [OF F assms(1) room]
  have inside: "span_inside virtualSize a" if "a \<in> set (spans_of (snd store) srcs svs)" for a
    using sorted(2) [of a] that mset_eq_setD [OF all] by (simp add: span_inside_def)
  have ix: "set (file_indices root) = {0..<length files}"
    using assms(1) mset_eq_setD [of "file_indices root" "[0..<length files]"] by (auto simp: build_ready_def)
  have ok: "file_ok (files ! i)" if "(i, first) \<in> set ?ffs" for i first
    using assms(1) ix that by (auto simp: build_ready_def list_all_length file_firsts_def dest: set_zip_leftD)
  have metas: "metadata_range_ok virtualSize m" if m: "m \<in> set (snd store)" for m
  proof -
    have "fst (meta_span m) < snd (meta_span m)" by (rule meta_span_positive [OF assms(2) m])
    moreover have "span_inside virtualSize (meta_span m)" using inside m by (auto simp: spans_of_alt)
    ultimately show ?thesis by (simp add: metadata_range_ok_def meta_span_def span_inside_def)
  qed
  have sources: "source_range_ok virtualSize e" if e: "e \<in> set srcs" for e
  proof -
    obtain i first where i: "(i, first) \<in> set ?ffs" "\<not> ffWritable (files ! i)" "e = source_of ?ds first (files ! i)"
      using assms(2) e by (auto simp: all_parts_def Let_def)
    have "span_inside virtualSize (source_span e)" using inside e by (auto simp: spans_of_alt)
    with span_inside_source ok [OF i(1)] i(2,3) show ?thesis by blast
  qed
  have saves: "save_range_ok virtualSize v" if v: "v \<in> set svs" for v
  proof -
    obtain i first where i: "(i, first) \<in> set ?ffs" "ffWritable (files ! i)" "v = save_of ?ds first (files ! i)"
      using assms(2) v by (auto simp: all_parts_def Let_def)
    have "span_inside virtualSize (save_span v)" using inside v by (auto simp: spans_of_alt)
    with span_inside_save ok [OF i(1)] i(2,3) show ?thesis by blast
  qed
  have "mset (map sxSaveObjectID (sort_slice sxVirtualOffset svs)) = mset (map sxSaveObjectID svs)"
    by (simp add: sort_slice_def)
  then have ids: "distinct (map sxSaveObjectID (sort_slice sxVirtualOffset svs))"
    using save_ids_distinct [OF assms] by (metis mset_eq_imp_distinct_iff)
  have cs: "check_saves virtualSize (sort_slice sxVirtualOffset svs) [] = None"
    using saves ids by (intro check_saves_ok) (auto simp: list_all_iff)
  have "spans_disjoint (sort_slice fst (spans_of (sort_slice mxVirtualOffset (snd store))
      (sort_slice feVirtualOffset srcs) (sort_slice sxVirtualOffset svs)))"
    using sorted(1) all by (intro spans_disjoint_sort [of _ "disk_spans files root F"]) (simp_all only: mset_spans_sort)
  then show ?thesis
    using metas sources cs by (simp add: validate_ranges_def list_all_iff)
qed

section \<open>The layout\<close>

definition layout_spans :: "fat_layout \<Rightarrow> (int \<times> int) list" where
  "layout_spans l = spans_of (flMetadataExtents l) (flSourceExtents l) (flSaveExtents l)"

definition layout_sorted :: "fat_layout \<Rightarrow> bool" where
  "layout_sorted l \<longleftrightarrow> sorted (map mxVirtualOffset (flMetadataExtents l)) \<and>
     sorted (map feVirtualOffset (flSourceExtents l)) \<and> sorted (map sxVirtualOffset (flSaveExtents l))"

text \<open>What the layout says of the file at position \<open>p\<close> of the walk.\<close>

definition file_mapped :: "fat_layout \<Rightarrow> byte list \<Rightarrow> fat_file list \<Rightarrow> fat_node \<Rightarrow> nat \<Rightarrow> bool" where
  "file_mapped l md files root p =
     (let f = files ! (file_indices root ! p);
          counts = dir_counts root @ file_counts files root;
          k = length (collect_dirs root) + p;
          c = chain_start counts 2 ! k;
          ds = data_start (fgFATSectors (flGeometry l))
      in int (counts ! k) = file_clusters (ffLogicalSize f) \<and>
         (\<forall>j < counts ! k. fat_entry md (c + j) = (if j + 1 < counts ! k then c + j + 1 else 0x0fffffff)) \<and>
         (if ffWritable f then \<exists>s \<in> set (flSaveExtents l). s = (save_of ds c f)\<lparr>sxLayoutChecksum := flLayoutChecksum l\<rparr>
          else source_of ds c f \<in> set (flSourceExtents l)))"

lemma spans_of_checksum:
  "spans_of metas srcs (map (\<lambda>s. s\<lparr>sxLayoutChecksum := c\<rparr>) svs) = spans_of metas srcs svs"
  by (simp add: spans_of_def comp_def)

lemma finish_layout_ok:
  assumes "build_ready virtualSize files root" "all_parts virtualSize files root F store (files', srcs, svs)"
  shows "\<exists>l. finish_layout virtualSize geometry store (files', srcs, svs) = Inr (l, fst store) \<and>
    flVirtualSize l = virtualSize \<and> layout_sorted l \<and>
    flGeometry l = geometry \<and> flSourceExtents l = sort_slice feVirtualOffset srcs \<and>
    flSaveExtents l = map (\<lambda>s. s\<lparr>sxLayoutChecksum := flLayoutChecksum l\<rparr>) (sort_slice sxVirtualOffset svs) \<and>
    mset (layout_spans l) = mset (disk_spans files root F)"
proof -
  obtain md mx where st: "store = (md, mx)" by (cases store)
  note ok = validate_ranges_parts [OF assms]
  have "mset (spans_of (sort_slice mxVirtualOffset mx) (sort_slice feVirtualOffset srcs) (sort_slice sxVirtualOffset svs)) =
      mset (disk_spans files root F)"
    unfolding mset_spans_sort using all_parts_spans [OF assms(2)] by (simp add: st)
  then show ?thesis
    using ok by (simp add: finish_layout_def Let_def st layout_spans_def spans_of_checksum layout_sorted_def
        sorted_sort_slice comp_def)
qed

lemma all_parts_file:
  assumes "all_parts virtualSize files root F store (files', srcs, svs)" "p < length (file_indices root)"
  defines "c \<equiv> chain_start (dir_counts root @ file_counts files root) 2 ! (length (collect_dirs root) + p)"
    and "f \<equiv> files ! (file_indices root ! p)"
  shows "ffWritable f \<Longrightarrow> save_of (data_start F) c f \<in> set svs"
    and "\<not> ffWritable f \<Longrightarrow> source_of (data_start F) c f \<in> set srcs"
proof -
  let ?firsts = "chain_start (dir_counts root @ file_counts files root) 2"
  have "length ?firsts = length (collect_dirs root) + length (file_indices root)"
    by (simp add: dir_counts_def file_counts_def)
  then have "file_firsts root ?firsts ! p = (file_indices root ! p, c)" "p < length (file_firsts root ?firsts)"
    using assms(2) by (simp_all add: file_firsts_def c_def)
  then have at: "(file_indices root ! p, c) \<in> set (file_firsts root ?firsts)" by (metis nth_mem)
  show "ffWritable f \<Longrightarrow> save_of (data_start F) c f \<in> set svs"
    using at assms(1) by (force simp: all_parts_def Let_def f_def)
  show "\<not> ffWritable f \<Longrightarrow> source_of (data_start F) c f \<in> set srcs"
    using at assms(1) by (force simp: all_parts_def Let_def f_def)
qed

text \<open>No two spans start at the same place or overlap, and all lie on the disk.\<close>

definition spans_on_disk :: "int \<Rightarrow> (int \<times> int) list \<Rightarrow> bool" where
  "spans_on_disk sz spans \<longleftrightarrow> distinct (map fst spans) \<and> list_all (span_inside sz) spans \<and>
     list_all (\<lambda>a. list_all (\<lambda>b. fst a < fst b \<longrightarrow> snd a \<le> fst b) spans) spans"

lemma spans_on_diskI:
  assumes "mset spans = mset L" "sorted_wrt before L" "\<And>a. a \<in> set L \<Longrightarrow> span_inside sz a"
  shows "spans_on_disk sz spans"
proof -
  have "distinct (map fst spans)"
    using before_sorted_distinct [OF assms(2)] assms(1) by (metis mset_eq_imp_distinct_iff mset_map)
  then show ?thesis
    using assms(3) mset_eq_setD [OF assms(1)] before_sorted_unique [OF assms(2)]
    by (simp add: spans_on_disk_def list_all_iff)
qed

lemma file_counts_nth:
  assumes "build_ready virtualSize files root" "p < length (file_indices root)"
  shows "int ((dir_counts root @ file_counts files root) ! (length (collect_dirs root) + p)) =
    file_clusters (ffLogicalSize (files ! (file_indices root ! p)))"
proof -
  have "file_indices root ! p \<in> set (file_indices root)" using assms(2) by simp
  then have "file_indices root ! p < length files"
    using assms(1) mset_eq_setD [of "file_indices root" "[0..<length files]"] by (auto simp: build_ready_def)
  then have "0 \<le> ffLogicalSize (files ! (file_indices root ! p))"
    using assms(1) by (simp add: build_ready_def list_all_length file_ok_def)
  from file_clusters_covers [OF this] show ?thesis
    using assms(2) by (simp add: file_counts_def dir_counts_def nth_append)
qed

section \<open>A built layout is valid\<close>

abbreviation with_checksum :: "string \<Rightarrow> save_extent list \<Rightarrow> save_extent list" where
  "with_checksum c svs \<equiv> map (\<lambda>s. s\<lparr>sxLayoutChecksum := c\<rparr>) svs"

lemma check_saves_checksum: "check_saves sz (with_checksum c svs) seen = check_saves sz svs seen"
  by (induction sz svs seen rule: check_saves.induct) (auto simp: save_range_ok_def)

lemma validate_ranges_checksum:
  "validate_ranges sz metas srcs (with_checksum c svs) = validate_ranges sz metas srcs svs"
  by (simp add: validate_ranges_def check_saves_checksum spans_of_checksum)

lemma hash_save_extents_checksum: "hash_save_extents (with_checksum c svs) False = hash_save_extents svs False"
  by (simp add: hash_save_extents_def comp_def cong: map_cong)

lemma meta_storage_ok_sorted: "list_all P (sort_slice key xs) = list_all P xs"
  by (simp add: list_all_iff)

lemma finish_layout_valid:
  assumes "finish_layout sz geometry store parts = Inr (l, md)" "all_stored store" "0 < sz"
  shows "validate_layout l md = None"
proof -
  obtain files srcs svs where parts: "parts = (files, srcs, svs)" by (cases parts)
  define c where "c = flLayoutChecksum l"
  have ok: "validate_ranges sz (sort_slice mxVirtualOffset (snd store)) (sort_slice feVirtualOffset srcs)
      (sort_slice sxVirtualOffset svs) = None"
    using assms(1) by (auto simp: finish_layout_def Let_def parts split: prod.splits option.splits)
  have l: "md = fst store" "flSchema l = 2" "flVirtualSize l = sz"
    "flMetadataExtents l = sort_slice mxVirtualOffset (snd store)"
    "flSourceExtents l = sort_slice feVirtualOffset srcs"
    "flSaveExtents l = with_checksum c (sort_slice sxVirtualOffset svs)"
    "flMetadataHash l = hex_lower (sha256 md)" "flExtentMapHash l = hash_extents (sort_slice feVirtualOffset srcs)"
    "flSaveExtentHash l = hash_save_extents (flSaveExtents l) True"
    "flLayoutChecksum l = hex_lower (sha256 (bytes_of (flMetadataHash l) @ [0] @ bytes_of (flExtentMapHash l) @ [0] @
       bytes_of (hash_save_extents (sort_slice sxVirtualOffset svs) False)))"
    using assms(1) ok by (auto simp: finish_layout_def Let_def parts c_def split: prod.splits)
  have "list_all (meta_storage_ok md) (flMetadataExtents l)"
    using assms(2) by (simp add: l(1,4) meta_storage_ok_sorted all_stored_def)
  moreover have "hash_save_extents (flSaveExtents l) False = hash_save_extents (sort_slice sxVirtualOffset svs) False"
    by (simp only: l(6) hash_save_extents_checksum)
  moreover have "list_all (\<lambda>s. sxLayoutChecksum s = flLayoutChecksum l) (flSaveExtents l)"
    by (simp add: l(6) list_all_iff c_def [symmetric])
  moreover have "validate_ranges (flVirtualSize l) (flMetadataExtents l) (flSourceExtents l) (flSaveExtents l) = None"
    by (simp only: l(3-6) validate_ranges_checksum ok)
  ultimately show ?thesis
    using assms(3) l(2,3,7,8,9,10) by (simp add: validate_layout_def l(5) [symmetric])
qed

text \<open>Every save extent is a whole card of a writable file.\<close>

definition saves_from :: "fat_file list \<Rightarrow> save_extent list \<Rightarrow> bool" where
  "saves_from files svs \<longleftrightarrow> list_all (\<lambda>s. list_ex (\<lambda>f. ffWritable f \<and> sxSaveObjectID s = ffSaveObjectID f \<and>
     sxCardOffset s = 0 \<and> sxLength s = ffCardSize f) files) svs"

lemma all_parts_saves_from:
  assumes "build_ready virtualSize files root" "all_parts virtualSize files root F store (files', srcs, svs)"
  shows "saves_from files (map (\<lambda>s. s\<lparr>sxLayoutChecksum := c\<rparr>) (sort_slice sxVirtualOffset svs))"
proof -
  have "\<exists>f \<in> set files. ffWritable f \<and> sxSaveObjectID s = ffSaveObjectID f \<and> sxCardOffset s = 0 \<and>
      sxLength s = ffCardSize f" if s: "s \<in> set svs" for s
  proof -
    obtain i first where i: "(i, first) \<in> set (file_firsts root (chain_start (dir_counts root @ file_counts files root) 2))"
      "ffWritable (files ! i)" "s = save_of (data_start F) first (files ! i)"
      using assms(2) s by (auto simp: all_parts_def Let_def)
    then have "i < length files"
      using assms(1) mset_eq_setD [of "file_indices root" "[0..<length files]"]
      by (auto simp: build_ready_def file_firsts_def dest!: set_zip_leftD)
    moreover from this have "file_ok (files ! i)" using assms(1) by (simp add: build_ready_def list_all_length)
    ultimately show ?thesis using i(2,3) by (intro bexI [of _ "files ! i"]) (auto simp: save_of_def file_ok_def)
  qed
  then show ?thesis by (simp add: saves_from_def list_all_iff list_ex_iff)
qed

lemma fat_build_tree_ok:
  assumes "build_ready virtualSize files root"
  shows "\<exists>l md. fat_build_tree virtualSize label identity files root = Inr (l, md) \<and>
    validate_layout l md = None \<and> layout_sorted l \<and> flVirtualSize l = virtualSize \<and>
    saves_from files (flSaveExtents l) \<and>
    spans_on_disk virtualSize (layout_spans l) \<and> (\<forall>p < length files. file_mapped l md files root p)"
proof -
  let ?counts = "dir_counts root @ file_counts files root"
  obtain F geometry store parts where t: "fat_build_tree virtualSize label identity files root =
      finish_layout virtualSize geometry store parts" "fgFATSectors geometry = F"
    "all_parts virtualSize files root F store parts" "fat_holds ?counts (fst store)"
    using fat_build_tree_parts [OF assms] by blast
  obtain files' srcs svs where parts: "parts = (files', srcs, svs)" by (cases parts)
  note all = t(3) [unfolded parts]
  obtain l where l: "finish_layout virtualSize geometry store parts = Inr (l, fst store)" "flGeometry l = geometry"
    "flSourceExtents l = sort_slice feVirtualOffset srcs"
    "flSaveExtents l = map (\<lambda>s. s\<lparr>sxLayoutChecksum := flLayoutChecksum l\<rparr>) (sort_slice sxVirtualOffset svs)"
    "mset (layout_spans l) = mset (disk_spans files root F)" "layout_sorted l" "flVirtualSize l = virtualSize"
    using finish_layout_ok [OF assms all] unfolding parts by blast
  have F: "1 \<le> F" and room: "cluster_offset (data_start F) (2 + sum_list ?counts) \<le> virtualSize"
    using t(3) by (simp_all add: all_parts_def Let_def)
  note sorted = disk_spans_sorted [OF F assms room]
  have on_disk: "spans_on_disk virtualSize (layout_spans l)"
    by (rule spans_on_diskI [OF l(5) sorted(1)]) (simp add: span_inside_def sorted(2))
  have len: "length (file_indices root) = length files"
    using assms mset_eq_length [of "file_indices root" "[0..<length files]"] by (simp add: build_ready_def)
  have "file_mapped l (fst store) files root p" if "p < length files" for p
  proof -
    have p: "p < length (file_indices root)" using that len by simp
    have k: "length (collect_dirs root) + p < length ?counts" using p by (simp add: dir_counts_def file_counts_def)
    show ?thesis
      unfolding file_mapped_def Let_def l(2-4) t(2)
      using file_counts_nth [OF assms p] all_parts_file [OF all p] t(4) k by (auto simp: fat_holds_def)
  qed
  moreover have "validate_layout l (fst store) = None"
  proof (rule finish_layout_valid [OF l(1)])
    show "all_stored store" using t(3) by (simp add: all_parts_def Let_def)
    show "0 < virtualSize" using F room by (simp add: cluster_offset_def data_start_def)
  qed
  moreover have "saves_from files (flSaveExtents l)"
    unfolding l(4) by (rule all_parts_saves_from [OF assms all])
  ultimately show ?thesis using t(1) l(1,6,7) on_disk by auto
qed

section \<open>Properties\<close>

lemma make_tree_dir: "make_tree files = Inr root \<Longrightarrow> is_dir root"
  by (auto simp: make_tree_def is_dir_def split: sum.splits fat_node.splits dest!: make_tree_loop_files)

lemma sort_slice_files:
  "list_all P (sort_slice key xs) = list_all P xs"
  "distinct (map g (filter Q (sort_slice key xs))) = distinct (map g (filter Q xs))"
proof -
  show "list_all P (sort_slice key xs) = list_all P xs" by (simp add: list_all_iff)
  have "mset (map g (filter Q (sort_slice key xs))) = mset (map g (filter Q xs))" by (simp add: sort_slice_def)
  then show "distinct (map g (filter Q (sort_slice key xs))) = distinct (map g (filter Q xs))"
    by (metis mset_eq_imp_distinct_iff)
qed

text \<open>
  The inputs \<open>Build\<close> accepts: a disk size in whole sectors that MBR fields can hold, files that
  are complete and have distinct save objects and acceptable paths, and a disk with room for
  the clusters they need.  \<open>files\<close> is the sorted list and \<open>root\<close> the tree with its aliases.
\<close>

definition build_input :: "int \<Rightarrow> fat_file list \<Rightarrow> fat_file list \<Rightarrow> fat_node \<Rightarrow> bool" where
  "build_input virtualSize files0 files root \<longleftrightarrow>
     1064960 < virtualSize \<and> virtualSize mod 512 = 0 \<and> virtualSize div 512 \<le> 4294967295 \<and>
     files0 \<noteq> [] \<and> list_all file_ok files0 \<and> distinct (map ffSaveObjectID (filter ffWritable files0)) \<and>
     files = sort_slice (\<lambda>f. to_lower (ffVirtualPath f)) files0 \<and>
     map_sum id assign_short_names (make_tree files) = Inr root \<and>
     \<not> isl (fat_fit virtualSize (int (sum_list (dir_counts root @ file_counts files root))))"

lemma build_input_ready:
  assumes "build_input virtualSize files0 files root"
  shows "build_ready virtualSize files root"
proof -
  from assms obtain tree where tree: "make_tree files = Inr tree" "root = assign_short_names tree"
    by (cases "make_tree files") (auto simp: build_input_def)
  have "is_dir root" using make_tree_dir [OF tree(1)] by (cases tree) (auto simp: tree(2) is_dir_def)
  then show ?thesis
    using tree_files [OF tree(1)] assms unfolding build_ready_def build_input_def tree(2)
    by (metis sort_slice_files)
qed

lemma build_input_files:
  "build_input virtualSize files0 files root \<Longrightarrow>
   mset (file_indices root) = mset [0..<length files] \<and> list_all file_ok files"
  using build_input_ready by (auto simp: build_ready_def)

lemma fat_build_ok:
  assumes "build_input virtualSize files0 files root"
  shows "\<exists>l md. fat_build virtualSize label identity files0 = Inr (l, md) \<and>
    validate_layout l md = None \<and> layout_sorted l \<and> flVirtualSize l = virtualSize \<and>
    saves_from files (flSaveExtents l) \<and>
    spans_on_disk virtualSize (layout_spans l) \<and> (\<forall>p < length files. file_mapped l md files root p)"
proof -
  from assms obtain tree where tree: "make_tree files = Inr tree" "root = assign_short_names tree"
    by (cases "make_tree files") (auto simp: build_input_def)
  from fat_build_tree_ok [OF build_input_ready [OF assms], of label identity]
  show ?thesis
    using assms tree by (auto simp: build_input_def fat_build_def Let_def)
qed

text \<open>
  C7.  For valid files that fit the disk, \<open>Build\<close> returns a layout: its own overflow, range
  and overlap checks never fail.  All metadata, source and save extents lie on the disk and
  no two overlap; for every file, the FAT holds a chain of exactly the clusters its size
  needs, ended by the end mark, and the extent of the file begins at the chain's first
  cluster.  \<open>Validate\<close> accepts the layout with its metadata.
\<close>

theorem fat_build_sound:
  assumes "build_input virtualSize files0 files root"
  shows "\<exists>l md. fat_build virtualSize label identity files0 = Inr (l, md) \<and> validate_layout l md = None \<and>
    spans_on_disk virtualSize (layout_spans l) \<and> (\<forall>p < length files. file_mapped l md files root p)"
  using fat_build_ok [OF assms, of label identity] by blast

definition sample_identity :: fat_identity where
  "sample_identity = \<lparr>idFilesystemID = ''fs'', idSize = 40000, idModTime = 1, idDevice = 1, idInode = 2,
     idSHA256 = ''ab''\<rparr>"

definition sample_game :: fat_file where
  "sample_game = \<lparr>ffVirtualPath = ''/games/demo.iso'', ffVirtualOffset = 0, ffLogicalSize = 40000,
     ffAllocatedSize = 0, ffSourcePath = ''/src/demo.iso'', ffSourceOffset = 0, ffSourceSize = 40000,
     ffIdentity = sample_identity, ffGameID = ''GDME01'', ffRevision = 0, ffDiscNumber = 0, ffFormat = ''ISO'',
     ffFSTRoot = '''', ffFSTTreeSHA256 = '''', ffWritable = False, ffSaveObjectID = '''', ffCardOffset = 0,
     ffCardSize = 0, ffGenerationID = ''''\<rparr>"

definition sample_card :: fat_file where
  "sample_card = sample_game\<lparr>ffVirtualPath := ''/ninmem.raw'', ffLogicalSize := 524288, ffSourcePath := '''',
     ffSourceSize := 0, ffWritable := True, ffSaveObjectID := ''individual:GALE01'', ffCardSize := 524288, ffGenerationID := ''g''\<rparr>"

definition sample_files :: "fat_file list" where
  "sample_files = sort_slice (\<lambda>f. to_lower (ffVirtualPath f)) [sample_game, sample_card]"

definition sample_root :: fat_node where
  "sample_root = FatDir [] ''/'' []
     [FatDir ''games'' ''/games'' ''GAMES~1    '' [FatFile ''demo.iso'' ''/games/demo.iso'' ''DEMO~1  ISO'' 0],
      FatFile ''ninmem.raw'' ''/ninmem.raw'' ''NINMEM~1RAW'' 1]"

lemma sample_input: "build_input 3145728 [sample_game, sample_card] sample_files sample_root"
proof -
  have t: "map_sum id assign_short_names (make_tree sample_files) = Inr sample_root" by code_simp
  have s: "sample_files = [sample_game, sample_card]" by code_simp
  have slots: "lfn_slots ''games'' = 1" "lfn_slots ''demo.iso'' = 1" "lfn_slots ''ninmem.raw'' = 1"
    by (simp_all add: lfn_slots_def runes_ascii code_of_def utf16_encode_def)
  have c: "sum_list (dir_counts sample_root @ file_counts sample_files sample_root) = 20"
    unfolding s by (simp add: sample_root_def dir_counts_def file_counts_def directory_clusters_def
      directory_entries_def slots file_clusters_def sample_card_def sample_game_def)
  have f: "\<not> isl (fat_fit 3145728 (int (sum_list (dir_counts sample_root @ file_counts sample_files sample_root))))"
    unfolding c by code_simp
  have o: "list_all file_ok [sample_game, sample_card]"
    "distinct (map ffSaveObjectID (filter ffWritable [sample_game, sample_card]))"
    by code_simp+
  show ?thesis unfolding build_input_def using t f o sample_files_def by simp
qed

theorem fat_build_sound_witness:
  "\<exists>l md. fat_build 3145728 ''WIIBRIDGE'' ''id'' [sample_game, sample_card] = Inr (l, md) \<and>
     validate_layout l md = None \<and> spans_on_disk 3145728 (layout_spans l)"
  using fat_build_sound [OF sample_input, of "''WIIBRIDGE''" "''id''"] by blast

text \<open>
  C28.  A directory reads back as the tree: the slots before the 8.3 entry of child \<open>k\<close> spell its
  long name and carry the checksum of its alias, and the entry holds the alias, the
  attribute, the first cluster and, for a file, the size.
\<close>

definition child_cluster :: "fat_node \<Rightarrow> nat list \<Rightarrow> fat_node \<Rightarrow> nat" where
  "child_cluster root firsts k = (case k of
     FatDir _ full _ _ \<Rightarrow> lookup_or 0 (dir_firsts root firsts) full
   | FatFile _ _ _ i \<Rightarrow> lookup_or 0 (file_firsts root firsts) i)"

definition child_size :: "fat_file list \<Rightarrow> fat_node \<Rightarrow> nat" where
  "child_size files k = (case k of FatDir _ _ _ _ \<Rightarrow> 0 | FatFile _ _ _ i \<Rightarrow> u32_of (ffLogicalSize (files ! i)))"

theorem directory_reads_back:
  assumes "directory_bytes files label root firsts d = Inr bs" "k < length (fnKids d)"
    and "kid = fnKids d ! k" "child_cluster root firsts kid < 2 ^ 32" "length (fnShort kid) = 11"
    and "entry = slice bs (entry_offset (fnFull d = fnFull root) d k) 32"
  shows "slice bs (slot_offset (fnFull d = fnFull root) d k) (32 * lfn_slots (fnName kid)) =
      concat (make_lfn (fnName kid) (alias_checksum (take 11 entry))) \<and>
    take 11 entry = bytes_of (fnShort kid) \<and>
    entry ! 11 = (if is_dir kid then 0x10 else 0x20) \<and>
    get_le entry 26 2 + 65536 * get_le entry 20 2 = child_cluster root firsts kid \<and>
    get_le entry 28 4 = child_size files kid"
proof -
  let ?r = "fnFull d = fnFull root"
  define pf where "pf = (if ?r then None else Some (if lookup_or [] (dir_parents [] root) d = fnFull root then 0
     else lookup_or 0 (dir_firsts root firsts) (lookup_or [] (dir_parents [] root) d)))"
  have iff: "pf = None \<longleftrightarrow> ?r" by (simp add: pf_def)
  have b: "build_directory (lookup_or 0 (dir_firsts root firsts)) (lookup_or 0 (file_firsts root firsts))
      files label (directory_clusters ?r d) pf d = Inr bs"
    using assms(1) by (simp add: directory_bytes_def Let_def pf_def)
  have sz: "child_size files kid < 2 ^ 32" by (auto simp: child_size_def u32_of_def split: fat_node.splits)
  have e: "entry = write_entry (fnShort kid) (child_cluster root firsts kid) (child_size files kid)
      (if is_dir kid then 0x10 else 0x20)"
    using build_directory_entry(2) [OF iff assms(2) b] unfolding assms(6) assms(3) [symmetric]
    by (simp add: child_entries_def child_cluster_def child_size_def is_dir_def split: fat_node.splits)
  have t: "take 11 entry = bytes_of (fnShort kid)"
    unfolding e by (rule write_entry_decode(4) [OF assms(4) sz assms(5)])
  show ?thesis
    using build_directory_entry(1) [OF iff assms(2) b] write_entry_decode(1-3) [OF assms(4) sz] t
    unfolding assms(3) [symmetric] by (simp add: e)
qed

theorem directory_reads_back_witness:
  "\<exists>bs. directory_bytes sample_files ''WIIBRIDGE'' sample_root [2, 3, 4, 6] sample_root = Inr bs \<and>
     take 11 (slice bs (entry_offset True sample_root 1) 32) = bytes_of ''NINMEM~1RAW'' \<and>
     get_le (slice bs (entry_offset True sample_root 1) 32) 28 4 = 524288"
proof -
  obtain bs where bs: "directory_bytes sample_files ''WIIBRIDGE'' sample_root [2, 3, 4, 6] sample_root = Inr bs"
    using build_directory_total by blast
  have kid: "fnKids sample_root ! 1 = FatFile ''ninmem.raw'' ''/ninmem.raw'' ''NINMEM~1RAW'' 1" "1 < length (fnKids sample_root)"
    by (simp_all add: sample_root_def)
  have cluster: "child_cluster sample_root [2, 3, 4, 6] (fnKids sample_root ! 1) < 2 ^ 32"
    unfolding kid child_cluster_def by (simp add: sample_root_def file_firsts_def lookup_or_def)
  have two: "sample_files = [sample_game, sample_card]" by code_simp
  have "child_size sample_files (fnKids sample_root ! 1) = 524288"
    unfolding kid child_size_def two by (simp add: u32_of_def sample_card_def)
  with directory_reads_back [OF bs kid(2) refl cluster _ refl] bs show ?thesis unfolding kid(1) by simp
qed

end
