(* ===== verification/Fat_Read.thy ===== *)
theory Fat_Read
  imports Fat_Backend
begin

text \<open>
  What \<open>fat32virtual/backend.go\<close> computes: a read returns the bytes of the reference
  \<open>backend_byte\<close> and comes to an end, for any kernel that reads files honestly and any save
  store that keeps the laws of \<open>card_service\<close>; the handle cache stays within its limit.
\<close>

section \<open>The reference\<close>

definition backend_byte ::
  "(string \<Rightarrow> byte list) \<Rightarrow> (string \<Rightarrow> int \<Rightarrow> byte) \<Rightarrow> 's backend \<Rightarrow> int \<Rightarrow> byte" where
  "backend_byte content cardByte b pos =
     (case find (\<lambda>s. sxVirtualOffset s \<le> pos \<and> pos < sx_end s) (fbSaves b) of
        Some s \<Rightarrow> cardByte (sxSaveObjectID s) (sxCardOffset s + (pos - sxVirtualOffset s))
      | None \<Rightarrow>
          (case find (\<lambda>m. mxVirtualOffset m \<le> pos \<and> pos < mx_end m) (fbMeta b) of
             Some m \<Rightarrow> fbMetadata b ! nat (mxStorageOffset m + (pos - mxVirtualOffset m))
           | None \<Rightarrow>
               (case find (\<lambda>e. feVirtualOffset e \<le> pos \<and> pos < fe_end e) (fbExtents b) of
                  Some e \<Rightarrow> content (feSourcePath e) ! nat (feSourceOffset e + (pos - feVirtualOffset e))
                | None \<Rightarrow> 0)))"

definition backend_wf :: "'s backend \<Rightarrow> bool" where
  "backend_wf b \<longleftrightarrow>
     ordered_extents sxVirtualOffset sx_end (fbSaves b) \<and>
     ordered_extents mxVirtualOffset mx_end (fbMeta b) \<and>
     ordered_extents feVirtualOffset fe_end (fbExtents b) \<and>
     apart (\<lambda>m. (mxVirtualOffset m, mx_end m)) (\<lambda>s. (sxVirtualOffset s, sx_end s)) (fbMeta b) (fbSaves b) \<and>
     apart (\<lambda>e. (feVirtualOffset e, fe_end e)) (\<lambda>s. (sxVirtualOffset s, sx_end s)) (fbExtents b) (fbSaves b) \<and>
     apart (\<lambda>e. (feVirtualOffset e, fe_end e)) (\<lambda>m. (mxVirtualOffset m, mx_end m)) (fbExtents b) (fbMeta b) \<and>
     list_all (meta_storage_ok (fbMetadata b)) (fbMeta b) \<and>
     list_all (\<lambda>e. 0 \<le> feSourceOffset e) (fbExtents b)"

lemma backend_wf_tables:
  assumes "backend_wf b"
  shows "find_save (fbSaves b) p = find (\<lambda>s. sxVirtualOffset s \<le> p \<and> p < sx_end s) (fbSaves b)"
    and "find_metadata (fbMeta b) p = find (\<lambda>m. mxVirtualOffset m \<le> p \<and> p < mx_end m) (fbMeta b)"
    and "find_source (fbExtents b) p = find (\<lambda>e. feVirtualOffset e \<le> p \<and> p < fe_end e) (fbExtents b)"
  using assms save_table.lookup_is_find meta_table.lookup_is_find source_table.lookup_is_find
  by (simp_all add: backend_wf_def)

lemma backend_byte_lookup:
  assumes "backend_wf b"
  shows "backend_byte content cardByte b p =
    (case find_save (fbSaves b) p of
        Some s \<Rightarrow> cardByte (sxSaveObjectID s) (sxCardOffset s + (p - sxVirtualOffset s))
      | None \<Rightarrow>
          (case find_metadata (fbMeta b) p of
             Some m \<Rightarrow> fbMetadata b ! nat (mxStorageOffset m + (p - mxVirtualOffset m))
           | None \<Rightarrow>
               (case find_source (fbExtents b) p of
                  Some e \<Rightarrow> content (feSourcePath e) ! nat (feSourceOffset e + (p - feVirtualOffset e))
                | None \<Rightarrow> 0)))"
  unfolding backend_byte_def backend_wf_tables [OF assms] ..

lemma backend_byte_save:
  assumes "backend_wf b" "s \<in> set (fbSaves b)" "sxVirtualOffset s \<le> p" "p < sx_end s"
  shows "backend_byte content cardByte b p = cardByte (sxSaveObjectID s) (sxCardOffset s + (p - sxVirtualOffset s))"
proof -
  have "find_save (fbSaves b) p = Some s"
    using assms by (intro save_table.lookup_complete) (simp_all add: backend_wf_def)
  then show ?thesis by (simp add: backend_byte_lookup [OF assms(1)])
qed

lemma backend_byte_meta:
  assumes "backend_wf b" "m \<in> set (fbMeta b)" "mxVirtualOffset m \<le> p" "p < mx_end m"
  shows "backend_byte content cardByte b p = fbMetadata b ! nat (mxStorageOffset m + (p - mxVirtualOffset m))"
proof -
  have "find_save (fbSaves b) p = None"
    using assms by (intro save_table.lookup_apart [of _ "\<lambda>m. (mxVirtualOffset m, mx_end m)" "fbMeta b" m]) (simp_all add: backend_wf_def)
  moreover have "find_metadata (fbMeta b) p = Some m"
    using assms by (intro meta_table.lookup_complete) (simp_all add: backend_wf_def)
  ultimately show ?thesis by (simp add: backend_byte_lookup [OF assms(1)])
qed

lemma backend_byte_source:
  assumes "backend_wf b" "e \<in> set (fbExtents b)" "feVirtualOffset e \<le> p" "p < fe_end e"
  shows "backend_byte content cardByte b p = content (feSourcePath e) ! nat (feSourceOffset e + (p - feVirtualOffset e))"
proof -
  have "find_save (fbSaves b) p = None"
    using assms by (intro save_table.lookup_apart [of _ "\<lambda>e. (feVirtualOffset e, fe_end e)" "fbExtents b" e]) (simp_all add: backend_wf_def)
  moreover have "find_metadata (fbMeta b) p = None"
    using assms by (intro meta_table.lookup_apart [of _ "\<lambda>e. (feVirtualOffset e, fe_end e)" "fbExtents b" e]) (simp_all add: backend_wf_def)
  moreover have "find_source (fbExtents b) p = Some e"
    using assms by (intro source_table.lookup_complete) (simp_all add: backend_wf_def)
  ultimately show ?thesis by (simp add: backend_byte_lookup [OF assms(1)])
qed

text \<open>Between two extents the disk is zero up to the next start.\<close>

lemma gap_end_bounds: "p < limit \<Longrightarrow> p < gap_end b p limit \<and> gap_end b p limit \<le> limit"
proof -
  assume p: "p < limit"
  note m = next_start_bounds [OF p, of mxVirtualOffset "fbMeta b"]
  note e = next_start_bounds [OF m(1), of feVirtualOffset "fbExtents b"]
  note s = next_start_bounds [OF e(1), of sxVirtualOffset "fbSaves b"]
  show ?thesis unfolding gap_end_def using m(2) e(2) s by linarith
qed

lemma gap_end_skips:
  assumes "backend_wf b" "p < limit"
  shows "s \<in> set (fbSaves b) \<Longrightarrow> p < sxVirtualOffset s \<Longrightarrow> gap_end b p limit \<le> sxVirtualOffset s"
    and "m \<in> set (fbMeta b) \<Longrightarrow> p < mxVirtualOffset m \<Longrightarrow> gap_end b p limit \<le> mxVirtualOffset m"
    and "e \<in> set (fbExtents b) \<Longrightarrow> p < feVirtualOffset e \<Longrightarrow> gap_end b p limit \<le> feVirtualOffset e"
proof -
  define l1 where "l1 = next_start mxVirtualOffset (fbMeta b) p limit"
  define l2 where "l2 = next_start feVirtualOffset (fbExtents b) p l1"
  have g: "gap_end b p limit = next_start sxVirtualOffset (fbSaves b) p l2" by (simp add: gap_end_def l1_def l2_def)
  have l1: "p < l1" unfolding l1_def by (rule next_start_bounds(1) [OF assms(2)])
  have l2: "p < l2" "l2 \<le> l1" unfolding l2_def using next_start_bounds [OF l1] by auto
  have le: "gap_end b p limit \<le> l2" unfolding g by (rule next_start_bounds(2) [OF l2(1)])
  show "s \<in> set (fbSaves b) \<Longrightarrow> p < sxVirtualOffset s \<Longrightarrow> gap_end b p limit \<le> sxVirtualOffset s"
    unfolding g using assms(1) by (intro next_start_skips [where hi = sx_end]) (simp_all add: backend_wf_def)
  have "m \<in> set (fbMeta b) \<Longrightarrow> p < mxVirtualOffset m \<Longrightarrow> l1 \<le> mxVirtualOffset m"
    unfolding l1_def using assms(1) by (intro next_start_skips [where hi = mx_end]) (simp_all add: backend_wf_def)
  with le l2(2) show "m \<in> set (fbMeta b) \<Longrightarrow> p < mxVirtualOffset m \<Longrightarrow> gap_end b p limit \<le> mxVirtualOffset m"
    by linarith
  have "e \<in> set (fbExtents b) \<Longrightarrow> p < feVirtualOffset e \<Longrightarrow> l2 \<le> feVirtualOffset e"
    unfolding l2_def using assms(1) by (intro next_start_skips [where hi = fe_end]) (simp_all add: backend_wf_def)
  with le show "e \<in> set (fbExtents b) \<Longrightarrow> p < feVirtualOffset e \<Longrightarrow> gap_end b p limit \<le> feVirtualOffset e"
    by linarith
qed

lemma backend_byte_gap:
  assumes wf: "backend_wf b" and none: "find_save (fbSaves b) p = None" "find_metadata (fbMeta b) p = None"
    "find_source (fbExtents b) p = None" and q: "p \<le> q" "q < gap_end b p limit" and l: "p < limit"
  shows "backend_byte content cardByte b q = 0"
proof -
  have "find_save (fbSaves b) q = None"
    using none(1) wf gap_end_skips(1) [OF wf l] q by (fastforce simp: backend_wf_def save_table.lookup_None_iff)
  moreover have "find_metadata (fbMeta b) q = None"
    using none(2) wf gap_end_skips(2) [OF wf l] q by (fastforce simp: backend_wf_def meta_table.lookup_None_iff)
  moreover have "find_source (fbExtents b) q = None"
    using none(3) wf gap_end_skips(3) [OF wf l] q by (fastforce simp: backend_wf_def source_table.lookup_None_iff)
  ultimately show ?thesis by (simp add: backend_byte_lookup [OF wf])
qed

section \<open>The parts of a backend that calls leave alone\<close>

text \<open>A call may change the handle cache, the counters and the reports, and nothing else.\<close>

definition same_disk :: "'s backend \<Rightarrow> 's backend \<Rightarrow> bool" where
  "same_disk b b' \<longleftrightarrow> b'\<lparr>fbCache := fbCache b, fbStats := fbStats b, fbReports := fbReports b\<rparr> = b"

lemma same_diskE:
  assumes "same_disk b b'"
  obtains c st r where "b' = b\<lparr>fbCache := c, fbStats := st, fbReports := r\<rparr>"
proof -
  have "b' = b\<lparr>fbCache := fbCache b', fbStats := fbStats b', fbReports := fbReports b'\<rparr>"
    using assms unfolding same_disk_def by (cases b'; cases b) simp
  then show thesis by (rule that)
qed

lemma same_diskI [intro]: "b' = b\<lparr>fbCache := c, fbStats := st, fbReports := r\<rparr> \<Longrightarrow> same_disk b b'"
  by (simp add: same_disk_def)

lemma same_disk_refl [simp]: "same_disk b b"
  by (simp add: same_disk_def)

lemma same_disk_trans [trans]: "same_disk a b \<Longrightarrow> same_disk b c \<Longrightarrow> same_disk a c"
  by (elim same_diskE) (simp add: same_disk_def)

lemma same_disk_simps:
  assumes "same_disk b b'"
  shows "fbSize b' = fbSize b" "fbMetadata b' = fbMetadata b" "fbMeta b' = fbMeta b" "fbExtents b' = fbExtents b"
    "fbSaves b' = fbSaves b" "fbLimit b' = fbLimit b" "fbClosed b' = fbClosed b" "fbStore b' = fbStore b"
    "backend_wf b' = backend_wf b" "backend_byte content cardByte b' = backend_byte content cardByte b"
proof -
  from assms obtain c st r where b': "b' = b\<lparr>fbCache := c, fbStats := st, fbReports := r\<rparr>" by (rule same_diskE)
  show parts: "fbSize b' = fbSize b" "fbMetadata b' = fbMetadata b" "fbMeta b' = fbMeta b" "fbExtents b' = fbExtents b"
    "fbSaves b' = fbSaves b" "fbLimit b' = fbLimit b" "fbClosed b' = fbClosed b" "fbStore b' = fbStore b"
    by (simp_all add: b')
  show "backend_wf b' = backend_wf b" by (simp only: backend_wf_def parts)
  show "backend_byte content cardByte b' = backend_byte content cardByte b"
    by (simp only: backend_byte_def [abs_def] parts)
qed

text \<open>
  The cache holds at most \<open>fbLimit\<close> handles, one for a path, and each reads its file.  The
  high-water mark never passes the limit.
\<close>

definition cache_ok :: "'s backend \<Rightarrow> bool" where
  "cache_ok b \<longleftrightarrow> 1 \<le> fbLimit b \<and> distinct (map fst (fbCache b)) \<and> int (length (fbCache b)) \<le> fbLimit b \<and>
     int (stPeakOpenFiles (fbStats b)) \<le> fbLimit b"

definition cache_honest :: "'w os \<Rightarrow> (string \<Rightarrow> byte list) \<Rightarrow> 's backend \<Rightarrow> bool" where
  "cache_honest os content b \<longleftrightarrow> (\<forall>(p, h) \<in> set (fbCache b). honest_pread os h (content p))"

definition keeps_cache :: "'w os \<Rightarrow> (string \<Rightarrow> byte list) \<Rightarrow> 's backend \<Rightarrow> 's backend \<Rightarrow> bool" where
  "keeps_cache os content b b' \<longleftrightarrow> same_disk b b' \<and> (cache_ok b \<longrightarrow> cache_ok b') \<and>
     (cache_honest os content b \<longrightarrow> cache_honest os content b')"

lemma keeps_cache_refl [simp]: "keeps_cache os content b b"
  by (simp add: keeps_cache_def)

lemma keeps_cache_trans [trans]:
  "keeps_cache os content a b \<Longrightarrow> keeps_cache os content b c \<Longrightarrow> keeps_cache os content a c"
  using same_disk_trans by (fastforce simp: keeps_cache_def)

lemma keeps_cache_counters:
  "keeps_cache os content b (count_miss b)" "keeps_cache os content b (count_eviction b)"
  "keeps_cache os content b (fst (report_failure code (b, w)))"
  "keeps_cache os content b (b\<lparr>fbStats := (fbStats b)\<lparr>stSourceReads := n\<rparr>\<rparr>)"
  by (simp_all add: keeps_cache_def same_disk_def count_miss_def count_eviction_def report_failure_def
      cache_ok_def cache_honest_def)

lemma distinct_map_filter: "distinct (map f xs) \<Longrightarrow> distinct (map f (filter P xs))"
  by (induction xs) auto

lemma filter_within: "int (length xs) \<le> l \<Longrightarrow> int (length (filter P xs)) \<le> l"
  by (meson length_filter_le of_nat_mono order_trans)

lemma keeps_cache_filter: "keeps_cache os content b (b\<lparr>fbCache := filter P (fbCache b)\<rparr>)"
  by (auto simp: keeps_cache_def same_disk_def cache_ok_def cache_honest_def distinct_map_filter filter_within)

lemma keeps_cache_butlast: "keeps_cache os content b (b\<lparr>fbCache := butlast (fbCache b)\<rparr>)"
  by (auto simp: keeps_cache_def same_disk_def cache_ok_def cache_honest_def map_butlast distinct_butlast
      dest: in_set_butlastD)

lemma evict_oldest_keeps:
  assumes "evict_oldest os (b, w) = (e, b', w')"
  shows "keeps_cache os content b b'"
    and "e = None \<Longrightarrow> cache_ok b \<Longrightarrow> int (length (fbCache b')) < fbLimit b'"
    and "set (fbCache b') \<subseteq> set (fbCache b)"
proof -
  let ?b = "b\<lparr>fbCache := butlast (fbCache b)\<rparr>"
  consider "b' = b" "int (length (fbCache b)) < fbLimit b \<or> e \<noteq> None" | "b' = ?b" "e \<noteq> None"
    | "b' = count_eviction ?b" "fbCache b \<noteq> []"
    using assms by (fastforce simp: evict_oldest_def split: if_splits prod.splits option.splits)
  then show "keeps_cache os content b b'"
    using keeps_cache_butlast [of os content b] keeps_cache_trans [OF _ keeps_cache_counters(2)]
    by cases auto
  show "e = None \<Longrightarrow> cache_ok b \<Longrightarrow> int (length (fbCache b')) < fbLimit b'"
    using assms by (auto simp: evict_oldest_def count_eviction_def cache_ok_def split: if_splits prod.splits option.splits)
  show "set (fbCache b') \<subseteq> set (fbCache b)"
    using assms by (auto simp: evict_oldest_def count_eviction_def dest: in_set_butlastD split: if_splits prod.splits option.splits)
qed

lemma insert_handle_keeps:
  assumes "path \<notin> fst ` set (fbCache b)" "cache_ok b \<Longrightarrow> int (length (fbCache b)) < fbLimit b"
    and "honest_pread os h (content path)"
  shows "keeps_cache os content b (insert_handle path h b)"
  using assms by (auto simp: keeps_cache_def same_disk_def insert_handle_def Let_def cache_ok_def cache_honest_def)

lemma open_handle_keeps:
  assumes "open_handle os path (b, w) = (r, b', w')" "honest_os os content"
  shows "keeps_cache os content b b'"
    and "cache_honest os content b \<Longrightarrow> r = Inr h \<Longrightarrow> honest_pread os h (content path)"
proof -
  show "keeps_cache os content b b'"
  proof (cases "map_of (fbCache b) path")
    case (Some h)
    have "(path, h) \<in> set (fbCache b)" by (rule map_of_SomeD [OF Some])
    then have "length (filter (\<lambda>x. fst x \<noteq> path) (fbCache b)) < length (fbCache b)"
      by (intro length_filter_less) auto
    with Some assms(1) \<open>(path, h) \<in> set (fbCache b)\<close> show ?thesis
      by (auto simp: open_handle_def Let_def keeps_cache_def same_disk_def cache_ok_def cache_honest_def distinct_map_filter)
  next
    case None
    obtain e b1 w1 where ev: "evict_oldest os (b, w) = (e, b1, w1)" by (metis prod_cases3)
    note ev_keeps = evict_oldest_keeps(1) [OF ev, of content] evict_oldest_keeps(2,3) [OF ev]
    show ?thesis
    proof (cases e)
      case (Some err)
      with None ev assms(1) ev_keeps(1) show ?thesis by (simp add: open_handle_def)
    next
      case e: None
      obtain o1 w2 where o1: "os_open os path w1 = (o1, w2)" by (metis prod.exhaust)
      note miss = keeps_cache_trans [OF ev_keeps(1) keeps_cache_counters(1)]
      show ?thesis
      proof (cases o1)
        case (Inl err)
        with None ev assms(1) e o1 miss show ?thesis by (simp add: open_handle_def)
      next
        case (Inr h)
        have "path \<notin> fst ` set (fbCache b)" using None by (simp add: map_of_eq_None_iff)
        then have out: "path \<notin> fst ` set (fbCache (count_miss b1))" using ev_keeps(3) by (auto simp: count_miss_def)
        have h: "honest_pread os h (content path)" using assms(2) o1 Inr by (auto simp: honest_os_def)
        have "cache_ok b \<Longrightarrow> keeps_cache os content (count_miss b1) (insert_handle path h (count_miss b1))"
          using out h ev_keeps(2) [OF e] by (intro insert_handle_keeps) (auto simp: count_miss_def)
        moreover have "b' = insert_handle path h (count_miss b1)"
          using None ev assms(1) e o1 Inr by (simp add: open_handle_def)
        moreover have "cache_honest os content b \<longrightarrow> cache_honest os content (insert_handle path h (count_miss b1))"
          "same_disk (count_miss b1) (insert_handle path h (count_miss b1))"
          using h miss by (auto simp: keeps_cache_def cache_honest_def insert_handle_def Let_def same_disk_def)
        ultimately show ?thesis using miss same_disk_trans unfolding keeps_cache_def by blast
      qed
    qed
  qed
  show "honest_pread os h (content path)" if "cache_honest os content b" "r = Inr h"
  proof (cases "map_of (fbCache b) path")
    case (Some h1)
    with assms(1) that have "(path, h) \<in> set (fbCache b)" by (auto simp: open_handle_def Let_def dest: map_of_SomeD)
    with that(1) show ?thesis by (auto simp: cache_honest_def)
  next
    case None
    with assms that(2) show ?thesis
      by (fastforce simp: open_handle_def honest_os_def split: prod.splits option.splits sum.splits)
  qed
qed

lemma drop_cached_keeps: "keeps_cache os content b (fst (drop_cached os path (b, w)))"
  using keeps_cache_trans [OF keeps_cache_filter keeps_cache_counters(2), of os content b "\<lambda>x. fst x \<noteq> path"]
  by (simp add: drop_cached_def split: option.split prod.split)

lemma report_drop_keeps:
  "keeps_cache os content b (fst (report_failure code (drop_cached os path (b, w))))"
  using keeps_cache_trans [OF drop_cached_keeps keeps_cache_counters(3)] by (metis prod.collapse)

lemma report_keeps: "keeps_cache os content b b' \<Longrightarrow> keeps_cache os content b (fst (report_failure code (b', w)))"
  by (rule keeps_cache_trans [OF _ keeps_cache_counters(3)])

section \<open>One step\<close>

text \<open>The store knows the card of every save extent, and the extent lies in the card.\<close>

definition saves_served :: "(string \<Rightarrow> int option) \<Rightarrow> 's backend \<Rightarrow> bool" where
  "saves_served sizes b \<longleftrightarrow> list_all (\<lambda>s. case sizes (sxSaveObjectID s) of None \<Rightarrow> False
     | Some sz \<Rightarrow> 0 \<le> sxCardOffset s \<and> sxCardOffset s + sxLength s \<le> sz) (fbSaves b)"

lemma saves_servedD:
  assumes "saves_served sizes b" "s \<in> set (fbSaves b)"
  obtains sz where "sizes (sxSaveObjectID s) = Some sz" "0 \<le> sxCardOffset s" "sxCardOffset s + sxLength s \<le> sz"
  using assms by (auto simp: saves_served_def list_all_iff split: option.splits)

lemma clip_bounds:
  "p < hi \<Longrightarrow> 0 < r \<Longrightarrow> 0 < clip r (hi - p) \<and> clip r (hi - p) \<le> r \<and> p + int (clip r (hi - p)) \<le> hi"
  by (auto simp: clip_def)

lemma prefix_range:
  assumes "length bs \<le> n" "\<And>i. i < n \<Longrightarrow> f (a + int i) = g (p + int i)"
    and "bs = byte_range f a (length bs)"
  shows "bs = byte_range g p (length bs)"
proof (rule byte_range_eqI [OF refl])
  fix i assume i: "i < length bs"
  have "bs ! i = byte_range f a (length bs) ! i" using assms(3) by simp
  with i assms(1,2) show "bs ! i = g (p + int i)" by (simp add: nth_byte_range)
qed

lemma slice_range:
  assumes "length bs \<le> n" "0 \<le> a" "bs = slice c (nat a) (length bs)"
    and "\<And>i. i < n \<Longrightarrow> g (p + int i) = c ! nat (a + int i)"
  shows "bs = byte_range g p (length bs)"
proof (rule byte_range_eqI [OF refl])
  fix i assume i: "i < length bs"
  have "length bs = length (slice c (nat a) (length bs))" using assms(3) by simp
  then have "length bs \<le> length c - nat a" by (simp add: slice_def)
  with i have "nat a + length bs \<le> length c" by linarith
  with i have "slice c (nat a) (length bs) ! i = c ! (nat a + i)" by (intro nth_slice) auto
  then have "bs ! i = c ! (nat a + i)" using assms(3) by simp
  also have "\<dots> = g (p + int i)" using assms(1,2,4) i by (simp add: nat_add_distrib)
  finally show "bs ! i = g (p + int i)" .
qed

lemma read_meta_part_sound:
  assumes "backend_wf b" "m \<in> set (fbMeta b)" "mxVirtualOffset m \<le> p" "p < mx_end m" "0 < r"
    and "read_meta_part m p r (b, w, s) = ((bs, e), st')"
  shows "length bs \<le> r \<and> bs = byte_range (backend_byte content cardByte b) p (length bs) \<and>
    e = None \<and> 0 < length bs \<and> st' = (b, w, s)"
proof -
  define n where "n = clip r (mx_end m - p)"
  define a where "a = mxStorageOffset m + (p - mxVirtualOffset m)"
  have n: "0 < n" "n \<le> r" "p + int n \<le> mx_end m" using clip_bounds [OF assms(4,5)] by (simp_all add: n_def)
  have "0 \<le> mxStorageOffset m" "mxStorageOffset m + mxLength m \<le> int (length (fbMetadata b))"
    using assms(1,2) by (auto simp: backend_wf_def list_all_iff meta_storage_ok_def)
  then have a: "0 \<le> a" "a + int n \<le> int (length (fbMetadata b))" using n assms(3) by (simp_all add: a_def mx_end_def)
  then have out: "bs = slice (fbMetadata b) (nat a) n" "e = None" "st' = (b, w, s)"
    using assms(6) by (auto simp: read_meta_part_def Let_def n_def a_def add_diff_eq)
  have len: "length bs = n" unfolding out(1) by (rule length_slice) (use a in linarith)
  have "bs = byte_range (backend_byte content cardByte b) p (length bs)"
  proof (rule slice_range [of bs n a "fbMetadata b"])
    fix i assume "i < n"
    then show "backend_byte content cardByte b (p + int i) = fbMetadata b ! nat (a + int i)"
      using assms(3) n(3) by (subst backend_byte_meta [OF assms(1,2)]) (auto simp: a_def algebra_simps)
  qed (use len out a in auto)
  with len n out show ?thesis by simp
qed

lemma read_source_part_sound:
  assumes "backend_wf b" "x \<in> set (fbExtents b)" "feVirtualOffset x \<le> p" "p < fe_end x" "0 < r"
    and "honest_os os content" "cache_honest os content b"
    and "read_source_part os x p r (b, w) = ((bs, e), b', w')"
  shows "length bs \<le> r \<and> bs = byte_range (backend_byte content cardByte b) p (length bs) \<and>
    (e = None \<longrightarrow> 0 < length bs) \<and> keeps_cache os content b b'"
proof -
  define n where "n = clip r (fe_end x - p)"
  define a where "a = feSourceOffset x + (p - feVirtualOffset x)"
  have n: "0 < n" "n \<le> r" "p + int n \<le> fe_end x" using clip_bounds [OF assms(4,5)] by (simp_all add: n_def)
  have "0 \<le> feSourceOffset x" using assms(1,2) by (auto simp: backend_wf_def list_all_iff)
  then have a: "0 \<le> a" using assms(3) by (simp add: a_def)
  have off: "feSourceOffset x + p - feVirtualOffset x = a" by (simp add: a_def)
  define ident where "ident = (if idFilesystemID (feIdentity x) = '''' then (feIdentity x)\<lparr>idFilesystemID :=
      (case map_of (fbFilesystems b) (feSourcePath x) of None \<Rightarrow> '''' | Some i \<Rightarrow> i)\<rparr> else feIdentity x)"
  have unf: "read_source_part os x p r (b, w) =
      (case verify_identity os (feSourcePath x) ident w of
         (Some err, w1) \<Rightarrow>
           (([], Some err),
            report_failure (if errors_Is err err_identity_changed then ''SOURCE-IDENTITY-CHANGED''
                            else source_failure_code err) (drop_cached os (feSourcePath x) (b, w1)))
       | (None, w1) \<Rightarrow>
           (case open_handle os (feSourcePath x) (b, w1) of
              (Inl err, st2) \<Rightarrow> (([], Some err), report_failure (source_failure_code err) st2)
            | (Inr h, b2, w2) \<Rightarrow>
                (let b3 = b2\<lparr>fbStats := (fbStats b2)\<lparr>stSourceReads := stSourceReads (fbStats b2) + 1\<rparr>\<rparr>
                 in case read_at_full os h n a [] w2 of
                      ((bs, None), w3) \<Rightarrow> ((bs, None), b3, w3)
                    | ((bs, Some err), w3) \<Rightarrow>
                        ((bs, Some err), report_failure (source_failure_code err)
                           (drop_cached os (feSourcePath x) (b3, w3))))))"
    by (simp only: read_source_part_def Let_def ident_def n_def off fst_conv snd_conv)
  note res0 = assms(8) [unfolded unf]
  obtain v w1 where v: "verify_identity os (feSourcePath x) ident w = (v, w1)" by (metis prod.exhaust)
  obtain o1 b2 w2 where o1: "open_handle os (feSourcePath x) (b, w1) = (o1, b2, w2)" by (metis prod_cases3)
  note o_keeps = open_handle_keeps(1) [OF o1 assms(6)]
  show ?thesis
  proof (cases v)
    case (Some err)
    with res0 v have "bs = []" "e = Some err"
      "b' = fst (report_failure (if errors_Is err err_identity_changed then ''SOURCE-IDENTITY-CHANGED''
         else source_failure_code err) (drop_cached os (feSourcePath x) (b, w1)))"
      by auto
    with report_drop_keeps show ?thesis by auto
  next
    case v0: None
    show ?thesis
    proof (cases o1)
      case (Inl err)
      with res0 v v0 o1 have "bs = []" "e = Some err" "b' = fst (report_failure (source_failure_code err) (b2, w2))"
        by auto
      with report_keeps [OF o_keeps] show ?thesis by auto
    next
      case (Inr h)
      define b3 where "b3 = b2\<lparr>fbStats := (fbStats b2)\<lparr>stSourceReads := stSourceReads (fbStats b2) + 1\<rparr>\<rparr>"
      have keep3: "keeps_cache os content b b3"
        unfolding b3_def by (rule keeps_cache_trans [OF o_keeps keeps_cache_counters(4)])
      obtain bs1 e1 w3 where rd: "read_at_full os h n a [] w2 = ((bs1, e1), w3)" by (metis prod_cases3 prod.exhaust)
      have "honest_pread os h (content (feSourcePath x))"
        using open_handle_keeps(2) [OF o1 assms(6,7)] Inr by simp
      from read_at_full_honest [OF this a rd]
      have full: "length bs1 \<le> n" "bs1 = slice (content (feSourcePath x)) (nat a) (length bs1)"
        "e1 = None \<longleftrightarrow> length bs1 = n" by (simp_all add: slice_def)
      have res: "bs = bs1" "e = e1"
        "b' = b3 \<or> b' = fst (report_failure (source_failure_code (the e1)) (drop_cached os (feSourcePath x) (b3, w3)))"
        using res0 v v0 o1 Inr rd by (auto simp: Let_def b3_def split: option.splits)
      have "bs = byte_range (backend_byte content cardByte b) p (length bs)"
      proof (rule slice_range [of bs n a "content (feSourcePath x)"])
        fix i assume "i < n"
        then show "backend_byte content cardByte b (p + int i) = content (feSourcePath x) ! nat (a + int i)"
          using assms(3) n(3) by (subst backend_byte_source [OF assms(1,2)]) (auto simp: a_def algebra_simps)
      qed (use full res a in auto)
      moreover have "keeps_cache os content b b'"
        using res(3) keep3 keeps_cache_trans [OF keep3 report_drop_keeps] by auto
      ultimately show ?thesis using full n res by auto
    qed
  qed
qed

section \<open>Reads over any card service\<close>

text \<open>What a reader of the device may assume of the state between calls.\<close>

definition backend_inv ::
  "('s \<Rightarrow> bool) \<Rightarrow> ('s \<Rightarrow> string \<Rightarrow> int option) \<Rightarrow> 'w os \<Rightarrow> (string \<Rightarrow> byte list) \<Rightarrow> ('w, 's) bstate \<Rightarrow> bool" where
  "backend_inv ok sizes os content st \<longleftrightarrow>
     backend_wf (fst st) \<and> \<not> fbClosed (fst st) \<and> cache_honest os content (fst st) \<and> cache_ok (fst st) \<and>
     ok (snd (snd st)) \<and> saves_served (sizes (snd (snd st))) (fst st)"

context card_service
begin

definition served_by :: "'s backend \<Rightarrow> bool" where
  "served_by b \<longleftrightarrow> (case fbStore b of None \<Rightarrow> fbSaves b = []
     | Some store \<Rightarrow> ssRead store = cardRead \<and> ssWrite store = cardWrite)"

text \<open>A call leaves the disk and the cards as they are.\<close>

definition disk_kept :: "'w os \<Rightarrow> (string \<Rightarrow> byte list) \<Rightarrow> ('w, 's) bstate \<Rightarrow> ('w, 's) bstate \<Rightarrow> bool" where
  "disk_kept os content st st' \<longleftrightarrow> keeps_cache os content (fst st) (fst st') \<and> inv (snd (snd st')) \<and>
     cardSize (snd (snd st')) = cardSize (snd (snd st)) \<and> cardByte (snd (snd st')) = cardByte (snd (snd st))"

lemma disk_kept_trans: "disk_kept os content a b \<Longrightarrow> disk_kept os content b c \<Longrightarrow> disk_kept os content a c"
  using keeps_cache_trans by (fastforce simp: disk_kept_def)

lemma disk_kept_inv:
  assumes "disk_kept os content st st'" "backend_inv inv cardSize os content st" "served_by (fst st)"
  shows "backend_inv inv cardSize os content st'" "served_by (fst st')"
    "backend_byte content (cardByte (snd (snd st'))) (fst st') = backend_byte content (cardByte (snd (snd st))) (fst st)"
proof -
  have same: "same_disk (fst st) (fst st')" using assms(1) by (simp add: disk_kept_def keeps_cache_def)
  note parts = same_disk_simps [OF same]
  show "backend_inv inv cardSize os content st'"
    using assms(1,2) parts by (auto simp: backend_inv_def disk_kept_def keeps_cache_def saves_served_def)
  show "served_by (fst st')" using assms(3) unfolding served_by_def parts(5,8) .
  show "backend_byte content (cardByte (snd (snd st'))) (fst st') = backend_byte content (cardByte (snd (snd st))) (fst st)"
    using assms(1) parts by (simp add: disk_kept_def)
qed

lemma read_save_part_sound:
  assumes "backend_wf b" "x \<in> set (fbSaves b)" "sxVirtualOffset x \<le> p" "p < sx_end x" "0 < r"
    and "inv s" "saves_served (cardSize s) b" "served_by b"
    and "read_save_part x p r (b, w, s) = ((bs, e), st')"
  shows "length bs \<le> r \<and> bs = byte_range (backend_byte content (cardByte s) b) p (length bs) \<and>
    (e = None \<longrightarrow> 0 < length bs) \<and> disk_kept os content (b, w, s) st'"
proof -
  define n where "n = clip r (sx_end x - p)"
  define a where "a = sxCardOffset x + (p - sxVirtualOffset x)"
  have n: "0 < n" "n \<le> r" "p + int n \<le> sx_end x" using clip_bounds [OF assms(4,5)] by (simp_all add: n_def)
  obtain sz where sz: "cardSize s (sxSaveObjectID x) = Some sz" "0 \<le> sxCardOffset x" "sxCardOffset x + sxLength x \<le> sz"
    by (rule saves_servedD [OF assms(7,2)])
  have a: "0 \<le> a" "a + int n \<le> sz" using n sz assms(3) by (simp_all add: a_def sx_end_def)
  obtain store where store: "fbStore b = Some store" "ssRead store = cardRead"
    using assms(2,8) by (auto simp: served_by_def split: option.splits)
  obtain bs1 e1 s1 where rd: "cardRead (sxSaveObjectID x) n a s = ((bs1, e1), s1)" by (metis prod_cases3 prod.exhaust)
  with assms(9) store have out: "bs = bs1" "e = e1" "st' = (b, w, s1)"
    by (auto simp: read_save_part_def n_def a_def add_diff_eq)
  note law = card_read_law [OF assms(6) sz(1) a rd]
  have "bs = byte_range (backend_byte content (cardByte s) b) p (length bs)"
  proof (rule prefix_range [of bs n "cardByte s (sxSaveObjectID x)" a])
    fix i assume "i < n"
    then show "cardByte s (sxSaveObjectID x) (a + int i) = backend_byte content (cardByte s) b (p + int i)"
      using assms(3) n(3) by (subst backend_byte_save [OF assms(1,2)]) (auto simp: a_def algebra_simps)
  qed (use law out in auto)
  with law n out show ?thesis by (auto simp: disk_kept_def)
qed

lemma backend_step_sound:
  assumes inv: "backend_inv inv cardSize os content st" and serv: "served_by (fst st)" and "0 < r"
    and os: "honest_os os content" and step: "backend_step os p r st = ((bs, e), st')"
  shows "length bs \<le> r \<and> bs = byte_range (backend_byte content (cardByte (snd (snd st))) (fst st)) p (length bs) \<and>
    (e = None \<longrightarrow> 0 < length bs) \<and> disk_kept os content st st'"
proof -
  obtain b w s where st: "st = (b, w, s)" by (cases st)
  have wf: "backend_wf b" "cache_honest os content b" "inv s" "saves_served (cardSize s) b" "served_by b"
    using inv serv by (simp_all add: backend_inv_def st)
  consider (save) x where "find_save (fbSaves b) p = Some x"
    | (meta) m where "find_save (fbSaves b) p = None" "find_metadata (fbMeta b) p = Some m"
    | (source) x where "find_save (fbSaves b) p = None" "find_metadata (fbMeta b) p = None"
        "find_source (fbExtents b) p = Some x"
    | (gap) "find_save (fbSaves b) p = None" "find_metadata (fbMeta b) p = None" "find_source (fbExtents b) p = None"
    by (metis option.exhaust)
  then show ?thesis
  proof cases
    case save
    have "read_save_part x p r (b, w, s) = ((bs, e), st')" using step save by (simp add: backend_step_def st)
    with read_save_part_sound [OF wf(1) save_table.lookup_sound [OF save] \<open>0 < r\<close> wf(3-5)] show ?thesis by (simp add: st)
  next
    case meta
    have "read_meta_part m p r (b, w, s) = ((bs, e), st')" using step meta by (simp add: backend_step_def st)
    from read_meta_part_sound [OF wf(1) meta_table.lookup_sound [OF meta(2)] \<open>0 < r\<close> this, of content "cardByte s"]
    show ?thesis using wf(3) by (auto simp: st disk_kept_def)
  next
    case source
    obtain b1 w1 where part: "read_source_part os x p r (b, w) = ((bs, e), b1, w1)" "st' = (b1, w1, s)"
      using step source by (auto simp: backend_step_def st split: prod.splits)
    from read_source_part_sound [OF wf(1) source_table.lookup_sound [OF source(3)] \<open>0 < r\<close> os wf(2) part(1), of "cardByte s"]
    show ?thesis using wf(3) part(2) by (simp add: st disk_kept_def)
  next
    case gap
    let ?next = "gap_end b p (p + int r)"
    have nxt: "p < ?next" "?next \<le> p + int r" using gap_end_bounds [of p "p + int r" b] \<open>0 < r\<close> by auto
    have out: "bs = zeros (nat (?next - p))" "e = None" "st' = st"
      using step gap nxt by (auto simp: backend_step_def st Let_def max_def)
    have "zeros (nat (?next - p)) = byte_range (backend_byte content (cardByte s) b) p (nat (?next - p))"
      using nxt backend_byte_gap [OF wf(1) gap, of _ "p + int r"] \<open>0 < r\<close> by (intro byte_range_eqI) auto
    with out nxt wf(3) show ?thesis by (auto simp: st disk_kept_def)
  qed
qed

lemma backend_loop_sound:
  assumes "backend_inv inv cardSize os content st" "served_by (fst st)" "honest_os os content"
    and "length acc \<le> len" "acc = byte_range (backend_byte content (cardByte (snd (snd st))) (fst st)) off (length acc)"
  shows "\<exists>bs e st'. backend_loop os off len acc st = Some ((bs, e), st') \<and> length bs \<le> len \<and>
    bs = byte_range (backend_byte content (cardByte (snd (snd st))) (fst st)) off (length bs) \<and>
    (e = None \<longrightarrow> length bs = len) \<and> disk_kept os content st st'"
  using assms
proof (induction "len - length acc" arbitrary: acc st rule: less_induct)
  case less
  let ?f = "backend_byte content (cardByte (snd (snd st))) (fst st)"
  show ?case
  proof (cases "length acc < len")
    case False
    with less.prems show ?thesis
      by (subst backend_loop.simps) (auto simp: disk_kept_def backend_inv_def)
  next
    case True
    obtain bs e st1 where step: "backend_step os (off + int (length acc)) (len - length acc) st = ((bs, e), st1)"
      by (metis prod_cases3 prod.exhaust)
    have pos: "0 < len - length acc" using True by simp
    note s = backend_step_sound [OF less.prems(1,2) pos less.prems(3) step]
    note inv1 = disk_kept_inv [OF _ less.prems(1,2)]
    have kept: "disk_kept os content st st1" using s by blast
    have acc: "acc @ bs = byte_range ?f off (length (acc @ bs))"
      using less.prems(5) s byte_range_append [of ?f off "length acc" "length bs"] by simp
    show ?thesis
    proof (cases e)
      case (Some err)
      with True step s acc show ?thesis
        by (subst backend_loop.simps) (auto simp: kept)
    next
      case None
      then have "0 < length bs" using s by blast
      with True s have shorter: "len - length (acc @ bs) < len - length acc" "length (acc @ bs) \<le> len"
        unfolding length_append by linarith+
      have "acc @ bs = byte_range (backend_byte content (cardByte (snd (snd st1))) (fst st1)) off (length (acc @ bs))"
        unfolding inv1(3) [OF kept] by (rule acc)
      from less.hyps [OF shorter(1) inv1(1,2) [OF kept] less.prems(3) shorter(2) this]
      obtain cs e' st' where rest: "backend_loop os off len (acc @ bs) st1 = Some ((cs, e'), st')" "length cs \<le> len"
        "cs = byte_range ?f off (length cs)" "e' = None \<longrightarrow> length cs = len" "disk_kept os content st1 st'"
        unfolding inv1(3) [OF kept] by blast
      have "backend_loop os off len acc st = Some ((cs, e'), st')"
        using True step None rest(1) by (subst backend_loop.simps) simp
      with rest disk_kept_trans [OF kept rest(5)] show ?thesis by blast
    qed
  qed
qed

text \<open>The whole read: it returns, refuses a range outside the disk, and else reads the reference.\<close>

lemma backend_read_sound:
  assumes "backend_inv inv cardSize os content st" "served_by (fst st)" "honest_os os content"
    and "0 \<le> off" "int len \<le> fbSize (fst st) - off"
  shows "\<exists>bs e st'. backend_read_at os len off st = Some ((bs, e), st') \<and> length bs \<le> len \<and>
    bs = byte_range (backend_byte content (cardByte (snd (snd st))) (fst st)) off (length bs) \<and>
    (e = None \<longrightarrow> length bs = len) \<and> disk_kept os content st st'"
  using backend_loop_sound [OF assms(1-3), of "[]" len off] assms(1,4,5)
  by (simp add: backend_read_at_def backend_inv_def)

text \<open>A write that is acknowledged lies in one save extent and changes exactly the bytes it names.\<close>

lemma write_other_card:
  assumes "backend_wf b" "saves_served (cardSize s) b" "distinct (map sxSaveObjectID (fbSaves b))"
    and "x \<in> set (fbSaves b)" "sxVirtualOffset x \<le> off" "off + int (length bs) \<le> sx_end x"
    and "\<forall>j z p. cardSize s j = Some z \<longrightarrow> 0 \<le> p \<longrightarrow> p < z \<longrightarrow> c' j p =
      (if j = sxSaveObjectID x then patch (cardByte s (sxSaveObjectID x)) (sxCardOffset x + (off - sxVirtualOffset x)) bs p
       else cardByte s j p)"
  shows "backend_byte content c' b p = patch (backend_byte content (cardByte s) b) off bs p"
proof (cases "find_save (fbSaves b) p")
  case None
  then have "\<not> (off \<le> p \<and> p < off + int (length bs))"
    using assms(1,4-6) by (force simp: backend_wf_def save_table.lookup_None_iff)
  then have "patch (backend_byte content (cardByte s) b) off bs p = backend_byte content (cardByte s) b p"
    unfolding patch_def by (rule if_not_P)
  with None show ?thesis by (simp add: backend_byte_lookup [OF assms(1)])
next
  case (Some y)
  note y = save_table.lookup_sound [OF Some]
  obtain sz where sz: "cardSize s (sxSaveObjectID y) = Some sz" "0 \<le> sxCardOffset y" "sxCardOffset y + sxLength y \<le> sz"
    by (rule saves_servedD [OF assms(2) y(1)])
  define q where "q = sxCardOffset y + (p - sxVirtualOffset y)"
  have "0 \<le> q" "q < sz" using sz(2,3) y(2,3) by (simp_all add: q_def sx_end_def)
  with assms(7) sz(1) have c': "c' (sxSaveObjectID y) q =
      (if sxSaveObjectID y = sxSaveObjectID x
       then patch (cardByte s (sxSaveObjectID x)) (sxCardOffset x + (off - sxVirtualOffset x)) bs q
       else cardByte s (sxSaveObjectID y) q)" by blast
  have byte: "backend_byte content c b p = c (sxSaveObjectID y) q" for c
    unfolding q_def by (rule backend_byte_save [OF assms(1) y])
  have inj: "sxSaveObjectID y = sxSaveObjectID x \<Longrightarrow> y = x"
    using assms(3,4) y(1) by (metis distinct_map inj_onD)
  show ?thesis
  proof (cases "y = x")
    case True
    then have q: "q = sxCardOffset x + (off - sxVirtualOffset x) + (p - off)" by (simp add: q_def)
    define a where "a = sxCardOffset x + (off - sxVirtualOffset x)"
    have shift: "patch f a bs (a + (p - off)) = patch g off bs p" if "f (a + (p - off)) = g p" for f g
      using that by (simp add: patch_def)
    have "c' (sxSaveObjectID x) q = patch (cardByte s (sxSaveObjectID x)) a bs (a + (p - off))"
      using c' True by (simp add: q a_def)
    also have "\<dots> = patch (backend_byte content (cardByte s) b) off bs p"
      by (rule shift) (use True in \<open>simp add: byte q a_def\<close>)
    finally show ?thesis using True by (simp add: byte)
  next
    case False
    then have "\<not> (off \<le> p \<and> p < off + int (length bs))"
      using save_table.lookup_complete [OF _ assms(4), of p] Some assms(1,5,6) by (auto simp: backend_wf_def)
    then have "patch (backend_byte content (cardByte s) b) off bs p = cardByte s (sxSaveObjectID y) q"
      unfolding patch_def byte by (rule if_not_P)
    with c' False inj show ?thesis by (auto simp: byte)
  qed
qed

lemma backend_write_sound:
  assumes inv: "backend_inv inv cardSize os content st" and serv: "served_by (fst st)"
    and dist: "distinct (map sxSaveObjectID (fbSaves (fst st)))"
    and wr: "backend_write_at bs off st = ((n, None), st')"
  shows "n = length bs \<and> fst st' = fst st \<and> backend_inv inv cardSize os content st' \<and>
    backend_byte content (cardByte (snd (snd st'))) (fst st') p =
      patch (backend_byte content (cardByte (snd (snd st))) (fst st)) off bs p"
proof -
  obtain b w s where st: "st = (b, w, s)" by (cases st)
  have wf: "backend_wf b" "inv s" "saves_served (cardSize s) b" "served_by b" "distinct (map sxSaveObjectID (fbSaves b))"
    using inv serv dist by (simp_all add: backend_inv_def st)
  from wr obtain store x s1 where w: "fbStore b = Some store" "find_save (fbSaves b) off = Some x"
    "bs \<noteq> []" "off + int (length bs) \<le> sx_end x" "st' = (b, w, s1)"
    "ssWrite store (sxSaveObjectID x) bs (sxCardOffset x + off - sxVirtualOffset x) s = ((n, None), s1)"
    by (auto simp: backend_write_at_def st Let_def split: if_splits option.splits prod.splits)
  note x = save_table.lookup_sound [OF w(2)]
  obtain sz where sz: "cardSize s (sxSaveObjectID x) = Some sz" "0 \<le> sxCardOffset x" "sxCardOffset x + sxLength x \<le> sz"
    by (rule saves_servedD [OF wf(3) x(1)])
  define a where "a = sxCardOffset x + (off - sxVirtualOffset x)"
  have a: "0 \<le> a" "a + int (length bs) \<le> sz" using sz x w(4) by (simp_all add: a_def sx_end_def)
  have "ssWrite store = cardWrite" using wf(4) w(1) by (simp add: served_by_def)
  with w(6) have "cardWrite (sxSaveObjectID x) bs a s = ((n, None), s1)" by (simp add: a_def add_diff_eq)
  note law = card_write_law [OF wf(2) sz(1) a(1) w(3) a(2) this]
  have "backend_byte content (cardByte s1) b p = patch (backend_byte content (cardByte s) b) off bs p"
    by (rule write_other_card [OF wf(1,3,5) x(1,2) w(4)]) (use law in \<open>simp add: a_def\<close>)
  moreover have "backend_inv inv cardSize os content (b, w, s1)"
    using inv law by (simp add: backend_inv_def st)
  ultimately show ?thesis using law by (simp add: st w(5))
qed

end

text \<open>Cards that agree inside their sizes give the same disk.\<close>

lemma backend_byte_cards:
  assumes "backend_wf b" "saves_served sizes b"
    and "\<forall>j z p. sizes j = Some z \<longrightarrow> 0 \<le> p \<longrightarrow> p < z \<longrightarrow> c' j p = c j p"
  shows "backend_byte content c' b = backend_byte content c b"
proof (rule ext)
  fix p
  show "backend_byte content c' b p = backend_byte content c b p"
  proof (cases "find_save (fbSaves b) p")
    case (Some y)
    note y = save_table.lookup_sound [OF Some]
    obtain sz where sz: "sizes (sxSaveObjectID y) = Some sz" "0 \<le> sxCardOffset y" "sxCardOffset y + sxLength y \<le> sz"
      by (rule saves_servedD [OF assms(2) y(1)])
    have "c' (sxSaveObjectID y) (sxCardOffset y + (p - sxVirtualOffset y)) =
        c (sxSaveObjectID y) (sxCardOffset y + (p - sxVirtualOffset y))"
      using assms(3) sz y by (simp add: sx_end_def)
    then show ?thesis by (simp add: backend_byte_save [OF assms(1) y])
  qed (simp add: backend_byte_lookup [OF assms(1)])
qed

context durable_cards
begin

lemma backend_write_failed:
  assumes inv: "backend_inv inv cardSize os content st" and serv: "served_by (fst st)"
    and wr: "backend_write_at bs off st = ((n, Some e), st')"
  shows "st' = st"
proof -
  obtain b w s where st: "st = (b, w, s)" by (cases st)
  have wf: "backend_wf b" "inv s" "saves_served (cardSize s) b" "served_by b"
    using inv serv by (simp_all add: backend_inv_def st)
  show ?thesis
  proof (cases "find_save (fbSaves b) off")
    case None
    then show ?thesis using wr by (auto simp: backend_write_at_def st Let_def split: if_splits option.splits)
  next
    case (Some x)
    note x = save_table.lookup_sound [OF Some]
    show ?thesis
    proof (cases "st' = st")
      case changed: False
      with Some wr obtain store s1 where w: "fbStore b = Some store" "bs \<noteq> []" "off + int (length bs) \<le> sx_end x"
        "ssWrite store (sxSaveObjectID x) bs (sxCardOffset x + off - sxVirtualOffset x) s = ((n, Some e), s1)"
        "st' = (b, w, s1)"
        by (auto simp: backend_write_at_def st Let_def split: if_splits option.splits prod.splits)
      obtain sz where sz: "cardSize s (sxSaveObjectID x) = Some sz" "0 \<le> sxCardOffset x" "sxCardOffset x + sxLength x \<le> sz"
        by (rule saves_servedD [OF wf(3) x(1)])
      have a: "0 \<le> sxCardOffset x + off - sxVirtualOffset x"
        "sxCardOffset x + off - sxVirtualOffset x + int (length bs) \<le> sz"
        using sz x w(3) by (simp_all add: sx_end_def)
      have "ssWrite store = cardWrite" using wf(4) w(1) by (simp add: served_by_def)
      with w(4) card_write_fail [OF wf(2) sz(1) a(1) w(2) a(2)] have "s1 = s" by simp
      with w(5) show ?thesis by (simp add: st)
    qed
  qed
qed

lemma backend_sync_sound:
  assumes inv: "backend_inv inv cardSize os content st"
    and sync: "\<And>store. fbStore (fst st) = Some store \<Longrightarrow> ssSync store = cardSync"
    and run: "backend_sync st = (e, st')"
  shows "fst st' = fst st \<and> backend_inv inv cardSize os content st' \<and>
    backend_byte content (cardByte (snd (snd st'))) (fst st') = backend_byte content (cardByte (snd (snd st))) (fst st)"
proof -
  obtain b w s where st: "st = (b, w, s)" by (cases st)
  have wf: "backend_wf b" "inv s" "saves_served (cardSize s) b" "\<not> fbClosed b"
    using inv by (simp_all add: backend_inv_def st)
  show ?thesis
  proof (cases "fbStore b")
    case None
    with run wf inv show ?thesis by (auto simp: backend_sync_def st)
  next
    case (Some store)
    obtain s1 where s1: "cardSync s = (e, s1)" "st' = (b, w, s1)"
      using run wf(4) Some sync [unfolded st, simplified, OF Some] by (auto simp: backend_sync_def st split: prod.splits)
    note law = card_sync_law [OF wf(2) s1(1)]
    have "backend_byte content (cardByte s1) b = backend_byte content (cardByte s) b"
      by (rule backend_byte_cards [OF wf(1,3)]) (use law in blast)
    with law inv show ?thesis by (simp add: backend_inv_def st s1(2))
  qed
qed

end

end
