(* ===== verification/Save_Objects.thy ===== *)
theory Save_Objects
  imports Go_Std
begin

text \<open>
  Memory-card objects of \<open>server/host-daemon/gamecube/saveoverlay.go\<close> and the modes of
  \<open>volume.go\<close>: which cards a library needs (\<open>PlanSaveObjects\<close>), the checks on a card's
  association with its directory (\<open>saveObjectDirectory\<close>) and on the stored selection
  (\<open>SaveSelection.Validate\<close>).  A mode is a Go string; \<open>OtherMode\<close> is one that no constant
  names.
\<close>

datatype memory_card_mode =
    MemoryCardPhysical | MemoryCardEmulated | MemoryCardEmulatedIndividual
  | MemoryCardEmulatedShared | OtherMode string

definition is_library_emulated :: "memory_card_mode \<Rightarrow> bool" where
  "is_library_emulated mode \<longleftrightarrow>
     mode = MemoryCardEmulatedIndividual \<or> mode = MemoryCardEmulatedShared"

definition valid_memory_card_sizes :: "int list" where
  "valid_memory_card_sizes = [524288, 1048576, 2097152, 4194304, 8388608, 16777216]"

abbreviation (input) maximum_save_card_size :: int where "maximum_save_card_size \<equiv> 16777216"
abbreviation (input) maximum_save_upload_size :: int where "maximum_save_upload_size \<equiv> 16777216"
abbreviation (input) save_block_size :: int where "save_block_size \<equiv> 512"
abbreviation (input) save_overlay_format_version :: int where "save_overlay_format_version \<equiv> 1"

definition supported_save_card_size :: "int \<Rightarrow> bool" where
  "supported_save_card_size sz \<longleftrightarrow> sz \<in> set valid_memory_card_sizes \<and> sz \<le> maximum_save_card_size"

section \<open>Names\<close>

definition is_upper :: "char \<Rightarrow> bool" where
  "is_upper c \<longleftrightarrow> 65 \<le> code_of c \<and> code_of c \<le> 90"

definition is_lower :: "char \<Rightarrow> bool" where
  "is_lower c \<longleftrightarrow> 97 \<le> code_of c \<and> code_of c \<le> 122"

definition is_digit :: "char \<Rightarrow> bool" where
  "is_digit c \<longleftrightarrow> 48 \<le> code_of c \<and> code_of c \<le> 57"

definition valid_id :: "string \<Rightarrow> bool" where
  "valid_id s \<longleftrightarrow> length s = 6 \<and> list_all (\<lambda>c. is_upper c \<or> is_digit c) s"

definition shared_card_pattern :: "string \<Rightarrow> bool" where
  "shared_card_pattern s \<longleftrightarrow> 1 \<le> length s \<and> length s \<le> 32 \<and>
     list_all (\<lambda>c. is_upper c \<or> is_lower c \<or> is_digit c \<or> c = CHR ''_'' \<or> c = CHR ''-'') s"

definition save_object_pattern :: "string \<Rightarrow> bool" where
  "save_object_pattern s \<longleftrightarrow>
     take 11 s = ''individual:'' \<and> valid_id (drop 11 s) \<or>
     take 7 s = ''shared:'' \<and> shared_card_pattern (drop 7 s)"

section \<open>Objects\<close>

record save_object =
  soID :: string
  soMode :: memory_card_mode
  soGameID :: string
  soSharedCardName :: string
  soCardSize :: int
  soVirtualPath :: string

fun plan_individual ::
  "int \<Rightarrow> string list \<Rightarrow> string list \<Rightarrow> save_object list \<Rightarrow> go_err + save_object list" where
  "plan_individual cardSize [] seen objects = Inr (sort_slice soID objects)"
| "plan_individual cardSize (game # games) seen objects =
     (if \<not> valid_id game then Inl (Msg ''invalid GameCube ID for individual memory card'')
      else if ''individual:'' @ game \<in> set seen then plan_individual cardSize games seen objects
      else plan_individual cardSize games ((''individual:'' @ game) # seen)
             (objects @ [\<lparr>soID = ''individual:'' @ game, soMode = MemoryCardEmulatedIndividual,
                soGameID = game, soSharedCardName = '''', soCardSize = cardSize,
                soVirtualPath = ''/saves/'' @ game @ ''.raw''\<rparr>]))"

definition plan_save_objects ::
  "memory_card_mode \<Rightarrow> string list \<Rightarrow> string \<Rightarrow> int \<Rightarrow> go_err + save_object list" where
  "plan_save_objects mode gameIDs sharedName cardSize =
     (if \<not> is_library_emulated mode
      then if mode = MemoryCardPhysical then Inr []
           else Inl (Msg ''unsupported complete-library memory-card mode'')
      else if \<not> supported_save_card_size cardSize then Inl (Msg ''SAVE-CARD-SIZE-UNSUPPORTED'')
      else if mode = MemoryCardEmulatedShared
      then if \<not> shared_card_pattern sharedName
           then Inl (Msg ''shared memory-card name must use letters, numbers, underscore, or hyphen'')
           else Inr [\<lparr>soID = ''shared:'' @ sharedName, soMode = mode, soGameID = '''',
                  soSharedCardName = sharedName, soCardSize = cardSize,
                  soVirtualPath = ''/saves/ninmem.raw''\<rparr>]
      else plan_individual cardSize gameIDs [] [])"

text \<open>
  The directory of an object, relative to the save root: the path components.  The checks
  on the tree above it (\<open>validateManagedDirectoryTree\<close>) are a parameter, \<open>treeCheck\<close>.
\<close>

definition save_object_directory ::
  "(string list \<Rightarrow> go_err option) \<Rightarrow> save_object \<Rightarrow> go_err + string list" where
  "save_object_directory treeCheck object =
     (if \<not> save_object_pattern (soID object) \<or> \<not> supported_save_card_size (soCardSize object)
      then Inl (Msg ''SAVE-CARD-INVALID'')
      else let checked = (\<lambda>relative. case treeCheck relative of Some err \<Rightarrow> Inl err | None \<Rightarrow> Inr relative)
           in case soMode object of
             MemoryCardEmulatedIndividual \<Rightarrow>
               if soID object \<noteq> ''individual:'' @ soGameID object \<or> \<not> valid_id (soGameID object) \<or>
                  soSharedCardName object \<noteq> ''''
               then Inl (Msg ''SAVE-CARD-INVALID: individual association'')
               else checked [''individual'', soGameID object]
           | MemoryCardEmulatedShared \<Rightarrow>
               if soID object \<noteq> ''shared:'' @ soSharedCardName object \<or>
                  \<not> shared_card_pattern (soSharedCardName object) \<or> soGameID object \<noteq> ''''
               then Inl (Msg ''SAVE-CARD-INVALID: shared association'')
               else checked [''shared'', soSharedCardName object]
           | _ \<Rightarrow> Inl (Msg ''SAVE-CARD-INVALID: mode''))"

definition safe_download_name :: "save_object \<Rightarrow> string" where
  "safe_download_name object =
     (if soGameID object \<noteq> '''' then ''wiibridge-'' @ soGameID object @ ''.raw''
      else ''wiibridge-shared-'' @ soSharedCardName object @ ''.raw'')"

section \<open>The stored selection\<close>

record save_selection =
  slFormatVersion :: int
  slMode :: memory_card_mode
  slCardSize :: int
  slSharedCardName :: string
  slAutomaticCreation :: bool
  slMaximumRetainedBackups :: int
  slAutomaticBackupInterval :: int
  slUpdatedAt :: int

definition selection_validate :: "save_selection \<Rightarrow> go_err option" where
  "selection_validate s =
     (if slFormatVersion s \<noteq> save_overlay_format_version
      then Some (Msg ''SAVE-CARD-INVALID: unsupported save settings format'')
      else if slMode s \<noteq> MemoryCardPhysical \<and> \<not> is_library_emulated (slMode s)
      then Some (Msg ''SAVE-CARD-INVALID: unsupported memory-card mode'')
      else if \<not> supported_save_card_size (slCardSize s) then Some (Msg ''SAVE-CARD-SIZE-UNSUPPORTED'')
      else if slMode s = MemoryCardEmulatedShared \<and> \<not> shared_card_pattern (slSharedCardName s)
      then Some (Msg ''SAVE-CARD-INVALID: shared memory-card selection'')
      else if slMaximumRetainedBackups s < 1 \<or> slMaximumRetainedBackups s > 100
      then Some (Msg ''SAVE-BACKUP-FAILED: backup retention must be between 1 and 100'')
      else if slAutomaticBackupInterval s < 0 \<or> slAutomaticBackupInterval s > 30 * 24 * 3600
      then Some (Msg ''SAVE-BACKUP-FAILED: invalid automatic backup interval'')
      else None)"

section \<open>Properties\<close>

text \<open>An object that its directory check accepts.\<close>

definition object_ok :: "save_object \<Rightarrow> bool" where
  "object_ok obj \<longleftrightarrow> (\<exists>p. save_object_directory (\<lambda>_. None) obj = Inr p)"

lemma plan_individual_ok:
  "plan_individual cardSize games seen objects = Inr res \<Longrightarrow> supported_save_card_size cardSize \<Longrightarrow>
   set seen = set (map soID objects) \<Longrightarrow> distinct (map soID objects) \<Longrightarrow>
   \<forall>x \<in> set objects. object_ok x \<and> soCardSize x = cardSize \<Longrightarrow>
   sorted (map soID res) \<and> distinct (map soID res) \<and>
   (\<forall>x \<in> set res. object_ok x \<and> soCardSize x = cardSize) \<and>
   set (map soID res) = set (map soID objects) \<union> (\<lambda>g. ''individual:'' @ g) ` set games"
proof (induction cardSize games seen objects rule: plan_individual.induct)
  case (1 cardSize seen objects)
  then show ?case by (auto simp: sorted_sort_slice)
next
  case (2 cardSize game games seen objects)
  define new where "new = \<lparr>soID = ''individual:'' @ game, soMode = MemoryCardEmulatedIndividual,
     soGameID = game, soSharedCardName = '''', soCardSize = cardSize,
     soVirtualPath = ''/saves/'' @ game @ ''.raw''\<rparr>"
  from 2(3) have id: "valid_id game" by (auto split: if_splits)
  show ?case
  proof (cases "''individual:'' @ game \<in> set seen")
    case True
    with 2(3-7) id "2.IH"(1) show ?thesis by auto
  next
    case False
    have new: "object_ok new \<and> soCardSize new = cardSize" "soID new = ''individual:'' @ game"
      using id 2(4)
      by (simp_all add: new_def object_ok_def save_object_directory_def save_object_pattern_def Let_def)
    have "sorted (map soID res) \<and> distinct (map soID res) \<and>
      (\<forall>x \<in> set res. object_ok x \<and> soCardSize x = cardSize) \<and>
      set (map soID res) = set (map soID (objects @ [new])) \<union> (\<lambda>g. ''individual:'' @ g) ` set games"
    proof (rule "2.IH"(2) [folded new_def])
      show "plan_individual cardSize games ((''individual:'' @ game) # seen) (objects @ [new]) = Inr res"
        using 2(3) id False by (simp add: new_def)
    qed (use 2(4-7) id False new in auto)
    with new(2) show ?thesis by auto
  qed
qed

text \<open>
  C27.  \<open>PlanSaveObjects\<close> for individual cards yields exactly one object for every game ID,
  in ascending order and without duplicates, and each passes the association checks of
  \<open>saveObjectDirectory\<close>, so that the store can open what the planner planned.
\<close>

theorem plan_save_objects_sound:
  assumes "plan_save_objects MemoryCardEmulatedIndividual ids shared cardSize = Inr objects"
  shows "sorted (map soID objects) \<and> distinct (map soID objects) \<and>
    (\<forall>x \<in> set objects. object_ok x \<and> soCardSize x = cardSize) \<and>
    set (map soID objects) = (\<lambda>g. ''individual:'' @ g) ` set ids"
proof -
  from assms have "plan_individual cardSize ids [] [] = Inr objects" "supported_save_card_size cardSize"
    by (auto simp: plan_save_objects_def is_library_emulated_def split: if_splits)
  from plan_individual_ok [OF this] show ?thesis by simp
qed

theorem plan_save_objects_sound_witness:
  "distinct (map soID (projr (plan_save_objects MemoryCardEmulatedIndividual
     [''GZLE01'', ''GALE01'', ''GZLE01''] '''' 524288)))"
proof -
  have "isl (plan_save_objects MemoryCardEmulatedIndividual [''GZLE01'', ''GALE01'', ''GZLE01''] '''' 524288)
    = False"
    by (simp add: plan_save_objects_def is_library_emulated_def supported_save_card_size_def
        valid_memory_card_sizes_def valid_id_def is_upper_def is_digit_def code_of_def)
  then obtain objects where
    "plan_save_objects MemoryCardEmulatedIndividual [''GZLE01'', ''GALE01'', ''GZLE01''] '''' 524288
      = Inr objects"
    by (metis sum.collapse(2))
  with plan_save_objects_sound [OF this] show ?thesis by simp
qed

end
