(* ===== verification/Save_World.thy ===== *)
theory Save_World
  imports Save_Objects
begin

text \<open>
  One card's directory as \<open>server/host-daemon/gamecube/saveoverlay.go\<close> sees it: named files
  over nodes, where a hard link is the same node under two names, and the system calls of
  the package.  Each call takes the next outcome from \<open>wFaults\<close> (\<open>None\<close>, or an exhausted
  list, is success; \<open>Some (err, n)\<close> fails, a write after its first \<open>n\<close> bytes), so a property
  that quantifies over \<open>wFaults\<close> covers every pattern of failing calls.  \<open>wSeen\<close> collects
  every state the directory goes through, torn writes included: a crash at any moment leaves
  one of them.  The calls take effect in order, which is what the code's file and directory
  syncs ask of the file system.

  A JSON file holds the record it encodes.  \<open>ndIdent\<close> stands for the device, inode and
  modification time that \<open>SizeIdentityMatches\<close> compares: it is fresh when a file is created
  and follows the node through links and renames.  Times of day are left out.
\<close>

section \<open>Directory\<close>

datatype file_name =
    ActiveRaw | MetadataJson | PreviousRaw | PreviousJson | CheckpointTmp | RestoreTmp
  | SelectedTmp | UploadTmp | CreateTmp | ManagedTmp | PendingLog
  | BackupRaw string | BackupJson string | BackupTmp string

record save_metadata =
  smFormatVersion :: int
  smMode :: memory_card_mode
  smGameID :: string
  smSharedCardName :: string
  smCardSize :: int
  smSHA256 :: string
  smApplication :: string
  smGenerationID :: string
  smDirty :: bool
  smRecoveryState :: string
  smIdent :: nat
  smLastErrorCode :: string
  smLastErrorMessage :: string

record backup_metadata =
  bkFormatVersion :: int
  bkMode :: memory_card_mode
  bkGameID :: string
  bkSharedCardName :: string
  bkCardSize :: int
  bkSHA256 :: string
  bkApplication :: string
  bkGenerationID :: string
  bkReason :: string
  bkName :: string

datatype file_content = Raw "byte list" | MetaFile save_metadata | BackupFile backup_metadata

record node =
  ndIdent :: nat
  ndContent :: file_content

type_synonym dir = "file_name \<Rightarrow> node option"

record world =
  wDir :: dir
  wNext :: nat
  wFaults :: "(go_err \<times> nat) option list"
  wSeen :: "dir list"

section \<open>System calls\<close>

definition next_fault :: "world \<Rightarrow> (go_err \<times> nat) option \<times> world" where
  "next_fault w = (case wFaults w of
     [] \<Rightarrow> (None, w)
   | f # fs \<Rightarrow> (f, w\<lparr>wFaults := fs\<rparr>))"

definition set_dir :: "dir \<Rightarrow> world \<Rightarrow> world" where
  "set_dir d w = w\<lparr>wDir := d, wSeen := d # wSeen w\<rparr>"

text \<open>\<open>Sync\<close>, \<open>Close\<close>, \<open>Chmod\<close>, \<open>Seek\<close> and \<open>syncDirectory\<close>: no effect on the names or bytes.\<close>

definition sys_nop :: "world \<Rightarrow> go_err option \<times> world" where
  "sys_nop w = (case next_fault w of (f, w1) \<Rightarrow> (map_option fst f, w1))"

definition sys_remove :: "file_name \<Rightarrow> world \<Rightarrow> go_err option \<times> world" where
  "sys_remove n w = (case next_fault w of
     (Some (err, _), w1) \<Rightarrow> (Some err, w1)
   | (None, w1) \<Rightarrow>
       if wDir w1 n = None then (Some ErrNotExist, w1)
       else (None, set_dir ((wDir w1)(n := None)) w1))"

definition sys_lstat :: "file_name \<Rightarrow> world \<Rightarrow> (go_err + node) \<times> world" where
  "sys_lstat n w = (case next_fault w of
     (Some (err, _), w1) \<Rightarrow> (Inl err, w1)
   | (None, w1) \<Rightarrow> (case wDir w1 n of None \<Rightarrow> Inl ErrNotExist | Some nd \<Rightarrow> Inr nd, w1))"

abbreviation (input) sys_open :: "file_name \<Rightarrow> world \<Rightarrow> (go_err + node) \<times> world" where
  "sys_open \<equiv> sys_lstat"

text \<open>A rename between two links of one file does nothing and succeeds.\<close>

definition sys_rename :: "file_name \<Rightarrow> file_name \<Rightarrow> world \<Rightarrow> go_err option \<times> world" where
  "sys_rename a b w = (case next_fault w of
     (Some (err, _), w1) \<Rightarrow> (Some err, w1)
   | (None, w1) \<Rightarrow>
       (case wDir w1 a of
          None \<Rightarrow> (Some ErrNotExist, w1)
        | Some nd \<Rightarrow>
            if map_option ndIdent (wDir w1 b) = Some (ndIdent nd) then (None, w1)
            else (None, set_dir ((wDir w1)(b := Some nd, a := None)) w1)))"

definition sys_link :: "file_name \<Rightarrow> file_name \<Rightarrow> world \<Rightarrow> go_err option \<times> world" where
  "sys_link a b w = (case next_fault w of
     (Some (err, _), w1) \<Rightarrow> (Some err, w1)
   | (None, w1) \<Rightarrow>
       (case (wDir w1 a, wDir w1 b) of
          (Some nd, None) \<Rightarrow> (None, set_dir ((wDir w1)(b := Some nd)) w1)
        | (None, _) \<Rightarrow> (Some ErrNotExist, w1)
        | _ \<Rightarrow> (Some (Msg ''file exists''), w1)))"

definition sys_create :: "bool \<Rightarrow> file_name \<Rightarrow> world \<Rightarrow> go_err option \<times> world" where
  "sys_create exclusive n w = (case next_fault w of
     (Some (err, _), w1) \<Rightarrow> (Some err, w1)
   | (None, w1) \<Rightarrow>
       if exclusive \<and> wDir w1 n \<noteq> None then (Some (Msg ''file exists''), w1)
       else (None, set_dir ((wDir w1)(n := Some \<lparr>ndIdent = wNext w1, ndContent = Raw []\<rparr>))
                     (w1\<lparr>wNext := Suc (wNext w1)\<rparr>)))"

definition raw_of :: "file_content \<Rightarrow> byte list" where
  "raw_of c = (case c of Raw bs \<Rightarrow> bs | _ \<Rightarrow> [])"

definition put_raw :: "file_name \<Rightarrow> byte list \<Rightarrow> dir \<Rightarrow> dir" where
  "put_raw n bs d = (case d n of None \<Rightarrow> d | Some nd \<Rightarrow> d(n := Some (nd\<lparr>ndContent := Raw bs\<rparr>)))"

text \<open>
  A write of \<open>bs\<close> at \<open>off\<close> of a regular file: every prefix may be what a crash leaves.
\<close>

definition write_prefix :: "byte list \<Rightarrow> nat \<Rightarrow> byte list \<Rightarrow> nat \<Rightarrow> byte list" where
  "write_prefix old off bs k =
     take off (old @ zeros (off - length old)) @ take k bs @ drop (off + min k (length bs)) old"

definition sys_write :: "file_name \<Rightarrow> nat \<Rightarrow> byte list \<Rightarrow> world \<Rightarrow> go_err option \<times> world" where
  "sys_write n off bs w =
     (case next_fault w of
        (f, w1) \<Rightarrow>
          (let old = (case wDir w1 n of None \<Rightarrow> [] | Some nd \<Rightarrow> raw_of (ndContent nd));
               count = (case f of None \<Rightarrow> length bs | Some (_, k) \<Rightarrow> min k (length bs));
               states = map (\<lambda>k. put_raw n (write_prefix old off bs k) (wDir w1)) [0..<Suc count]
           in (map_option fst f, w1\<lparr>wDir := last states, wSeen := rev states @ wSeen w1\<rparr>)))"

definition sys_put :: "file_name \<Rightarrow> file_content \<Rightarrow> world \<Rightarrow> go_err option \<times> world" where
  "sys_put n c w = (case next_fault w of
     (Some (err, _), w1) \<Rightarrow> (Some err, w1)
   | (None, w1) \<Rightarrow>
       (None, set_dir (case wDir w1 n of None \<Rightarrow> wDir w1
                | Some nd \<Rightarrow> (wDir w1)(n := Some (nd\<lparr>ndContent := c\<rparr>))) w1))"

definition sys_pread :: "byte list \<Rightarrow> nat \<Rightarrow> nat \<Rightarrow> world \<Rightarrow> (byte list \<times> go_err option) \<times> world" where
  "sys_pread c off n w = (case next_fault w of
     (Some (err, k), w1) \<Rightarrow> ((take k (slice c off n), Some err), w1)
   | (None, w1) \<Rightarrow>
       (let bs = slice c off n in ((bs, if length bs = n then None else Some EOF), w1)))"

section \<open>Sequences of calls\<close>

text \<open>Run the next call only when there is no error yet, as \<open>if err == nil\<close> chains do.\<close>

definition and_then ::
  "(world \<Rightarrow> go_err option \<times> world) \<Rightarrow> go_err option \<times> world \<Rightarrow> go_err option \<times> world" where
  "and_then call r = (case r of (None, w) \<Rightarrow> call w | (Some err, w) \<Rightarrow> (Some err, w))"

text \<open>Run a call in any case and keep the first error, as the \<open>Close\<close> of a written file.\<close>

definition and_also ::
  "(world \<Rightarrow> go_err option \<times> world) \<Rightarrow> go_err option \<times> world \<Rightarrow> go_err option \<times> world" where
  "and_also call r = (case r of (e, w) \<Rightarrow>
     (case call w of (e2, w') \<Rightarrow> (case e of None \<Rightarrow> e2 | Some err \<Rightarrow> Some err, w')))"

definition ignore_error :: "(world \<Rightarrow> go_err option \<times> world) \<Rightarrow> world \<Rightarrow> world" where
  "ignore_error call w = snd (call w)"

text \<open>\<open>atomicWrite\<close>: a temporary file, synced, renamed over the target, the directory synced.\<close>

definition atomic_write :: "file_name \<Rightarrow> file_content \<Rightarrow> world \<Rightarrow> go_err option \<times> world" where
  "atomic_write n c w =
     (case sys_create False ManagedTmp w of
        (Some err, w1) \<Rightarrow> (Some err, w1)
      | (None, w1) \<Rightarrow>
          (case and_also sys_nop (and_then sys_nop (and_then (sys_put ManagedTmp c) (sys_nop w1))) of
             (Some err, w2) \<Rightarrow> (Some err, ignore_error (sys_remove ManagedTmp) w2)
           | (None, w2) \<Rightarrow>
               (case and_then sys_nop (sys_rename ManagedTmp n w2) of
                  (e, w3) \<Rightarrow> (e, ignore_error (sys_remove ManagedTmp) w3))))"

definition hash_raw :: "byte list \<Rightarrow> string" where
  "hash_raw bs = hex_lower (sha256 bs)"

definition hash_regular_file :: "file_name \<Rightarrow> int \<Rightarrow> world \<Rightarrow> (go_err + string) \<times> world" where
  "hash_regular_file n expected w =
     (case sys_lstat n w of
        (Inl _, w1) \<Rightarrow> (Inl (Msg ''invalid regular card file''), w1)
      | (Inr nd, w1) \<Rightarrow>
          if int (length (raw_of (ndContent nd))) \<noteq> expected
          then (Inl (Msg ''invalid regular card file''), w1)
          else (case sys_open n w1 of
                  (Inl err, w2) \<Rightarrow> (Inl err, w2)
                | (Inr nd2, w2) \<Rightarrow>
                    (case sys_nop w2 of
                       (Some _, w3) \<Rightarrow> (Inl (Msg ''card checksum read failed''), w3)
                     | (None, w3) \<Rightarrow> (Inr (hash_raw (take (nat expected) (raw_of (ndContent nd2)))), w3))))"

definition validate_candidate :: "file_name \<Rightarrow> int \<Rightarrow> string \<Rightarrow> world \<Rightarrow> go_err option \<times> world" where
  "validate_candidate n sz checksum w =
     (case hash_regular_file n sz w of
        (Inl err, w1) \<Rightarrow> (Some err, w1)
      | (Inr digest, w1) \<Rightarrow> (if digest \<noteq> checksum then Some (Msg ''card checksum mismatch'') else None, w1))"

end
