(* ===== verification/Save_Overlay.thy ===== *)
theory Save_Overlay
  imports Save_World Block_Device
begin

text \<open>
  The save overlay of one card, \<open>server/host-daemon/gamecube/saveoverlay.go\<close>: 512-byte dirty
  blocks over the confirmed card, a journal that every write reaches before its blocks, and
  the checkpoint that turns them into a new confirmed card.  Metrics are off.
\<close>

section \<open>State\<close>

record store_config =
  cfApplication :: string
  cfGenerationID :: string
  cfMaxBackups :: int
  cfMaxDirtyBlocks :: int
  cfMaxJournalBytes :: int
  cfMaxPendingBytes :: int

text \<open>
  \<open>scFile\<close> is the open handle of the active card, as the bytes of the node it was opened on
  (the code only ever replaces that node); \<open>None\<close> is a closed or nil handle.
\<close>

record save_card =
  scSpec :: save_object
  scFile :: "byte list option"
  scMetadata :: save_metadata
  scDirty :: "(int \<times> byte list) list"
  scPending :: int
  scJournalBytes :: int
  scBlocked :: bool
  scWorld :: world

definition file_read_at :: "byte list option \<Rightarrow> int \<Rightarrow> nat \<Rightarrow> world \<Rightarrow> (byte list \<times> go_err option) \<times> world" where
  "file_read_at file off n w =
     (case file of None \<Rightarrow> (([], Some ErrClosed), w) | Some c \<Rightarrow> sys_pread c (nat off) n w)"

section \<open>Reading\<close>

function clean_span :: "(int \<times> byte list) list \<Rightarrow> int \<Rightarrow> int \<Rightarrow> int \<Rightarrow> int" where
  "clean_span dirty position len remaining =
     (if len < remaining \<and> map_of dirty ((position + len) div save_block_size) = None
      then clean_span dirty position (len + min (remaining - len) save_block_size) remaining
      else len)"
  by pat_completeness auto
termination
  by (relation "measure (\<lambda>(d, p, l, r). nat (r - l))") auto

declare clean_span.simps [simp del]

lemma clean_span_bounds:
  "len \<le> remaining \<Longrightarrow> len \<le> clean_span dirty position len remaining \<and>
   clean_span dirty position len remaining \<le> remaining"
proof (induction dirty position len remaining rule: clean_span.induct)
  case (1 dirty position len remaining)
  show ?case
  proof (cases "len < remaining \<and> map_of dirty ((position + len) div save_block_size) = None")
    case True
    then have m: "0 < min (remaining - len) save_block_size"
      "len + min (remaining - len) save_block_size \<le> remaining" by auto
    have "clean_span dirty position len remaining =
        clean_span dirty position (len + min (remaining - len) save_block_size) remaining"
      using True by (subst clean_span.simps) simp
    with "1.IH" [OF True m(2)] m(1) show ?thesis by linarith
  next
    case False
    with "1.prems" show ?thesis by (subst (1 2) clean_span.simps) auto
  qed
qed

lemma file_read_at_full:
  "file_read_at file off n w = ((bs, None), w') \<Longrightarrow> length bs = n"
  by (auto simp: file_read_at_def sys_pread_def Let_def split: option.splits prod.splits if_splits)

lemma card_read_progress:
  assumes "file_read_at fl pos (nat (clean_span dirty pos n r)) w = ((bs, None), w')"
    and "0 < n" "n \<le> r"
  shows "0 < length bs \<and> int (length bs) \<le> r"
  using assms(2,3) file_read_at_full [OF assms(1)] clean_span_bounds [of n r dirty pos] by simp

function card_read_loop ::
  "(int \<times> byte list) list \<Rightarrow> byte list option \<Rightarrow> int \<Rightarrow> nat \<Rightarrow> nat \<Rightarrow> byte list \<Rightarrow> world \<Rightarrow>
   (byte list \<times> go_err option) \<times> world" where
  "card_read_loop dirty file off len done acc w =
     (if done < len
      then let position = off + int done;
               blockIndex = position div save_block_size;
               inBlock = position mod save_block_size;
               n = min (int (len - done)) (save_block_size - inBlock)
           in case map_of dirty blockIndex of
                Some block \<Rightarrow>
                  card_read_loop dirty file off len (done + nat n)
                    (acc @ slice block (nat inBlock) (nat n)) w
              | None \<Rightarrow>
                  (case file_read_at file position
                          (nat (clean_span dirty position n (int (len - done)))) w of
                     ((bs, Some err), w1) \<Rightarrow> ((acc @ bs, Some err), w1)
                   | ((bs, None), w1) \<Rightarrow>
                       card_read_loop dirty file off len (done + length bs) (acc @ bs) w1)
      else ((acc, None), w))"
  by pat_completeness auto
termination
proof (relation "measure (\<lambda>(d, f, off, len, done, acc, w). len - done)", goal_cases)
  case 1
  then show ?case by simp
next
  case 2
  then show ?case by - (hypsubst_thin, frule card_read_progress [OF sym], simp, simp, auto intro: diff_less_mono2)
next
  case (3 dirty fl off len d acc w position blockIndex inBlock n block)
  have "inBlock < 512" using 3 by simp
  with 3 show ?case by auto
qed

declare card_read_loop.simps [simp del]

definition card_read :: "nat \<Rightarrow> int \<Rightarrow> save_card \<Rightarrow> (byte list \<times> go_err option) \<times> save_card" where
  "card_read len off c =
     (if off < 0 \<or> int len > soCardSize (scSpec c) - off
      then (([], Some (Msg ''SAVE-WRITE-OUTSIDE-EXTENT'')), c)
      else case (if scDirty c = [] then file_read_at (scFile c) off len (scWorld c)
                 else card_read_loop (scDirty c) (scFile c) off len 0 [] (scWorld c)) of
             (r, w) \<Rightarrow> (r, c\<lparr>scWorld := w\<rparr>))"

section \<open>Dirty blocks\<close>

text \<open>The loop of \<open>WriteSaveAt\<close> and of \<open>loadJournal\<close> that copies bytes into their blocks.\<close>

function apply_blocks ::
  "byte list option \<Rightarrow> int \<Rightarrow> byte list \<Rightarrow> nat \<Rightarrow> (int \<times> byte list) list \<Rightarrow> world \<Rightarrow>
   (nat \<times> go_err option) \<times> (int \<times> byte list) list \<times> world" where
  "apply_blocks file off buf done dirty w =
     (if done < length buf
      then let position = off + int done;
               blockIndex = position div save_block_size;
               inBlock = nat (position mod save_block_size);
               n = min (length buf - done) (nat save_block_size - inBlock);
               put = (\<lambda>block. put_at block inBlock (slice buf done n))
           in case map_of dirty blockIndex of
                Some block \<Rightarrow>
                  apply_blocks file off buf (done + n) (AList.update blockIndex (put block) dirty) w
              | None \<Rightarrow>
                  (case file_read_at file (blockIndex * save_block_size) (nat save_block_size) w of
                     ((bs, Some err), w1) \<Rightarrow> ((done, Some err), dirty, w1)
                   | ((bs, None), w1) \<Rightarrow>
                       apply_blocks file off buf (done + n) (AList.update blockIndex (put bs) dirty) w1)
      else ((done, None), dirty, w))"
  by pat_completeness auto
termination
proof (relation "measure (\<lambda>(f, off, buf, d, dirty, w). length buf - d)", goal_cases)
  case 1
  then show ?case by simp
next
  case (2 fl off buf d dirty w pos bi ib n put block)
  have "nat (pos mod 512) < 512" by (simp add: nat_less_iff)
  with 2(1,4,5) have "0 < n" by simp
  with 2(1) show ?case by simp
next
  case (3 fl off buf d dirty w pos bi ib n put)
  have "nat (pos mod 512) < 512" by (simp add: nat_less_iff)
  with 3(1,4,5) have "0 < n" by simp
  with 3(1) show ?case by simp
qed

declare apply_blocks.simps [simp del]

section \<open>The journal\<close>

definition journal_magic :: "byte list" where
  "journal_magic = bytes_of ''WBSAVE1'' @ [10]"

definition journal_header :: "int \<Rightarrow> byte list \<Rightarrow> byte list" where
  "journal_header off buf =
     journal_magic @ le_bytes 8 (u64_of off) @ le_bytes 4 (u32_of (int (length buf))) @ sha256 buf"

definition journal_bytes :: "world \<Rightarrow> byte list" where
  "journal_bytes w = (case wDir w PendingLog of None \<Rightarrow> [] | Some nd \<Rightarrow> raw_of (ndContent nd))"

definition journal_write :: "byte list \<Rightarrow> world \<Rightarrow> go_err option \<times> world" where
  "journal_write bs w = sys_write PendingLog (length (journal_bytes w)) bs w"

definition append_journal :: "int \<Rightarrow> byte list \<Rightarrow> world \<Rightarrow> go_err option \<times> world" where
  "append_journal off buf w =
     and_then sys_nop (and_then (journal_write buf) (journal_write (journal_header off buf) w))"

function load_records ::
  "store_config \<Rightarrow> int \<Rightarrow> byte list option \<Rightarrow> byte list \<Rightarrow> int \<Rightarrow> (int \<times> byte list) list \<Rightarrow> world \<Rightarrow>
   (go_err + int) \<times> (int \<times> byte list) list \<times> world" where
  "load_records cfg cardSize file bs sofar dirty w =
     (if bs = [] then (Inr sofar, dirty, w)
      else if length bs < 52 \<or> take 8 bs \<noteq> journal_magic
      then (Inl (Msg ''incomplete or malformed save journal''), dirty, w)
      else let off = i64 (int (get_le bs 8 8));
               len = int (get_le bs 16 4)
           in if len \<le> 0 \<or> len > maximum_save_upload_size \<or> off < 0 \<or> off > cardSize - len \<or>
                 sofar > cfMaxPendingBytes cfg - len
              then (Inl (Msg ''save journal record exceeds bounds''), dirty, w)
              else if length bs < 52 + nat len
              then (Inl (Msg ''incomplete save journal record''), dirty, w)
              else let payload = slice bs 52 (nat len)
                   in if sha256 payload \<noteq> slice bs 20 32
                      then (Inl (Msg ''save journal checksum mismatch''), dirty, w)
                      else case apply_blocks file off payload 0 dirty w of
                             ((_, Some err), dirty1, w1) \<Rightarrow> (Inl err, dirty1, w1)
                           | ((_, None), dirty1, w1) \<Rightarrow>
                               load_records cfg cardSize file (drop (52 + nat len) bs)
                                 (sofar + len) dirty1 w1)"
  by pat_completeness auto
termination
  by (relation "measure (\<lambda>(cfg, sz, f, bs, t, d, w). length bs)") auto

declare load_records.simps [simp del]

definition load_journal :: "store_config \<Rightarrow> save_card \<Rightarrow> go_err option \<times> save_card" where
  "load_journal cfg c =
     (if scJournalBytes c > cfMaxJournalBytes cfg
      then (Some (Msg ''journal exceeds configured limit''), c)
      else case sys_nop (scWorld c) of
             (Some err, w) \<Rightarrow> (Some err, c\<lparr>scWorld := w\<rparr>)
           | (None, w) \<Rightarrow>
               (case load_records cfg (soCardSize (scSpec c)) (scFile c)
                       (take (nat (cfMaxJournalBytes cfg) + 1) (journal_bytes w)) 0 (scDirty c) w of
                  (Inl err, dirty, w1) \<Rightarrow> (Some err, c\<lparr>scDirty := dirty, scWorld := w1\<rparr>)
                | (Inr pending, dirty, w1) \<Rightarrow>
                    (None, c\<lparr>scDirty := dirty, scPending := pending, scWorld := w1\<rparr>)))"

section \<open>What the card holds\<close>

text \<open>
  The byte at a position of the card, as a reader must see it: the dirty block if there is
  one, the confirmed card otherwise.
\<close>

definition overlay_byte :: "(int \<times> byte list) list \<Rightarrow> byte list \<Rightarrow> int \<Rightarrow> byte" where
  "overlay_byte dirty base p =
     (case map_of dirty (p div 512) of
        Some block \<Rightarrow> block ! nat (p mod 512)
      | None \<Rightarrow> base ! nat p)"

definition dirty_ok :: "int \<Rightarrow> (int \<times> byte list) list \<Rightarrow> bool" where
  "dirty_ok sz dirty \<longleftrightarrow> distinct (map fst dirty) \<and>
     (\<forall>i b. map_of dirty i = Some b \<longrightarrow> length b = 512 \<and> 0 \<le> i \<and> i * 512 < sz)"

definition base_ok :: "int \<Rightarrow> byte list \<Rightarrow> bool" where
  "base_ok sz base \<longleftrightarrow> int (length base) = sz \<and> sz mod 512 = 0"

lemma block_split:
  fixes pos :: int
  assumes "0 \<le> i" "i < 512 - pos mod 512"
  shows "(pos + i) div 512 = pos div 512" "(pos + i) mod 512 = pos mod 512 + i"
proof -
  have "0 \<le> pos mod 512 + i" "pos mod 512 + i < 512" using assms by auto
  moreover have "pos + i = 512 * (pos div 512) + (pos mod 512 + i)" by simp
  ultimately show "(pos + i) div 512 = pos div 512" "(pos + i) mod 512 = pos mod 512 + i"
    using int_div_pos_eq int_mod_pos_eq by blast+
qed

lemma clean_span_clean:
  "(\<forall>i. 0 \<le> i \<longrightarrow> i < len \<longrightarrow> map_of dirty ((pos + i) div 512) = None) \<Longrightarrow>
   (len < remaining \<longrightarrow> (pos + len) mod 512 = 0) \<Longrightarrow> 0 \<le> len \<Longrightarrow> len \<le> remaining \<Longrightarrow>
   0 \<le> j \<Longrightarrow> j < clean_span dirty pos len remaining \<Longrightarrow> map_of dirty ((pos + j) div 512) = None"
proof (induction dirty pos len remaining rule: clean_span.induct)
  case (1 dirty pos len remaining)
  show ?case
  proof (cases "len < remaining \<and> map_of dirty ((pos + len) div save_block_size) = None")
    case False
    with "1.prems"(6) have "j < len" by (subst (asm) clean_span.simps) auto
    with "1.prems"(1,5) show ?thesis by simp
  next
    case True
    let ?m = "min (remaining - len) save_block_size"
    have al: "(pos + len) mod 512 = 0" using "1.prems"(2) True by simp
    have span: "clean_span dirty pos len remaining = clean_span dirty pos (len + ?m) remaining"
      using True by (subst clean_span.simps) simp
    show ?thesis
    proof (rule "1.IH" [OF True _ _ _ _ "1.prems"(5)])
      show "\<forall>i. 0 \<le> i \<longrightarrow> i < len + ?m \<longrightarrow> map_of dirty ((pos + i) div 512) = None"
      proof (intro allI impI)
        fix i assume i: "0 \<le> i" "i < len + ?m"
        show "map_of dirty ((pos + i) div 512) = None"
        proof (cases "i < len")
          case True
          with "1.prems"(1) i show ?thesis by simp
        next
          case False
          then have "(pos + len + (i - len)) div 512 = (pos + len) div 512"
            using i al by (intro block_split(1)) auto
          with \<open>len < remaining \<and> _\<close> show ?thesis by simp
        qed
      qed
      show "len + ?m < remaining \<longrightarrow> (pos + (len + ?m)) mod 512 = 0"
      proof
        assume "len + ?m < remaining"
        then have "?m = 512" by auto
        then have "(pos + (len + ?m)) mod 512 = (pos + len + 512) mod 512" by (simp add: add.assoc)
        also have "\<dots> = 0" using al by (simp only: mod_add_self2)
        finally show "(pos + (len + ?m)) mod 512 = 0" .
      qed
      show "0 \<le> len + ?m" "len + ?m \<le> remaining" using True "1.prems"(3) by auto
      show "j < clean_span dirty pos (len + ?m) remaining" using "1.prems"(6) span by simp
    qed
  qed
qed

lemma sys_pread_prefix:
  assumes "sys_pread c off n w = ((bs, e), w')"
  shows "length bs \<le> n \<and> bs = slice c off (length bs) \<and> (e = None \<longrightarrow> length bs = n)"
proof -
  obtain k where k: "bs = take k (slice c off n)" "e = None \<longrightarrow> length bs = n"
  proof -
    have "slice c off n = take n (slice c off n)" by (simp add: slice_def)
    moreover obtain f w1 where "next_fault w = (f, w1)" by (metis prod.exhaust)
    ultimately show thesis
      using assms that [of n] that [of "snd (the f)"]
      by (cases f) (auto simp: sys_pread_def Let_def split: prod.splits if_splits)
  qed
  have m: "bs = slice c off (min k n)" using k(1) by (simp add: slice_def)
  have eqn: "slice c off (min k n) = slice c off (length (slice c off (min k n)))"
    by (simp add: slice_def min_def)
  have "length bs \<le> n" by (simp add: m slice_def)
  moreover have "bs = slice c off (length bs)" unfolding m by (rule eqn)
  ultimately show ?thesis using k(2) by blast
qed

lemma file_read_overlay:
  assumes "file_read_at (Some base) pos n w = ((bs, e), w')" "0 \<le> pos"
    and "\<forall>i. 0 \<le> i \<longrightarrow> i < int n \<longrightarrow> map_of dirty ((pos + i) div 512) = None"
  shows "bs = byte_range (overlay_byte dirty base) pos (length bs) \<and> length bs \<le> n \<and>
    (e = None \<longrightarrow> length bs = n)"
proof -
  from sys_pread_prefix [of base "nat pos" n w bs e w'] assms(1)
  have p: "length bs \<le> n" "bs = slice base (nat pos) (length bs)" "e = None \<longrightarrow> length bs = n"
    by (auto simp: file_read_at_def)
  have "bs = byte_range (overlay_byte dirty base) pos (length bs)"
  proof (rule byte_range_eqI [OF refl])
    fix i assume i: "i < length bs"
    have "length bs = min (length bs) (length base - nat pos)"
      using arg_cong [OF p(2), of length] by (simp add: slice_def)
    with i have "slice base (nat pos) (length bs) ! i = base ! (nat pos + i)" by (simp add: slice_def)
    with p(2) have "bs ! i = base ! (nat pos + i)" by simp
    moreover have "map_of dirty ((pos + int i) div 512) = None" using assms(3) i p(1) by simp
    ultimately show "bs ! i = overlay_byte dirty base (pos + int i)"
      using assms(2) by (simp add: overlay_byte_def nat_add_distrib)
  qed
  with p show ?thesis by simp
qed

lemma card_read_loop_sound:
  "card_read_loop dirty (Some base) off len done acc w = ((bs, e), w') \<Longrightarrow>
   dirty_ok sz dirty \<Longrightarrow> 0 \<le> off \<Longrightarrow> done \<le> len \<Longrightarrow>
   acc = byte_range (overlay_byte dirty base) off done \<Longrightarrow>
   length bs \<le> len \<and> bs = byte_range (overlay_byte dirty base) off (length bs) \<and>
   (e = None \<longrightarrow> length bs = len)"
proof (induction dirty "Some base" off len "done" acc w rule: card_read_loop.induct)
  case (1 dirty off len "done" acc w)
  show ?case
  proof (cases "done < len")
    case False
    with "1.prems" show ?thesis by (auto simp: card_read_loop.simps)
  next
    case True
    define pos where "pos = off + int done"
    define n where "n = min (int (len - done)) (save_block_size - pos mod save_block_size)"
    have pos: "0 \<le> pos" using "1.prems"(3) by (simp add: pos_def)
    have n: "0 < n" "n \<le> int (len - done)" "n \<le> 512 - pos mod 512" using True by (auto simp: n_def)
    show ?thesis
    proof (cases "map_of dirty (pos div save_block_size)")
      case (Some block)
      have blen: "length block = 512" using "1.prems"(2) Some by (auto simp: dirty_ok_def)
      let ?piece = "slice block (nat (pos mod save_block_size)) (nat n)"
      have room: "nat (pos mod 512) + nat n \<le> 512" using n(3) by (simp add: nat_add_distrib [symmetric])
      have piece: "?piece = byte_range (overlay_byte dirty base) pos (nat n)"
      proof (rule byte_range_eqI)
        show "length ?piece = nat n" by (rule length_slice) (use room blen in simp)
        fix i assume i: "i < nat n"
        then have "0 \<le> int i" "int i < 512 - pos mod 512" using n(3) by auto
        note bs = block_split [OF this]
        show "?piece ! i = overlay_byte dirty base (pos + int i)"
          using i room blen bs Some by (simp add: nth_slice overlay_byte_def nat_add_distrib)
      qed
      from "1.prems"(1) True Some have
        rest: "card_read_loop dirty (Some base) off len (done + nat n) (acc @ ?piece) w = ((bs, e), w')"
        by (subst (asm) card_read_loop.simps) (simp add: Let_def pos_def n_def)
      have "acc @ ?piece = byte_range (overlay_byte dirty base) off (done + nat n)"
        using "1.prems"(5) piece by (simp add: byte_range_append pos_def)
      from "1.hyps"(2) [OF True pos_def refl refl n_def Some rest "1.prems"(2,3) _ this] n
      show ?thesis by simp
    next
      case None
      define n2 where "n2 = clean_span dirty pos n (int (len - done))"
      have n2: "n \<le> n2" "n2 \<le> int (len - done)"
        using clean_span_bounds [OF n(2), of dirty pos] by (simp_all add: n2_def)
      have clean: "\<forall>i. 0 \<le> i \<longrightarrow> i < int (nat n2) \<longrightarrow> map_of dirty ((pos + i) div 512) = None"
      proof (intro allI impI)
        fix i assume i: "0 \<le> i" "i < int (nat n2)"
        show "map_of dirty ((pos + i) div 512) = None"
        proof (rule clean_span_clean [OF _ _ _ n(2) i(1), of dirty pos])
          show "\<forall>i. 0 \<le> i \<longrightarrow> i < n \<longrightarrow> map_of dirty ((pos + i) div 512) = None"
            using n(3) None block_split(1) [of _ pos] by simp
          show "n < int (len - done) \<longrightarrow> (pos + n) mod 512 = 0"
          proof
            assume "n < int (len - done)"
            then have "n = 512 - pos mod 512" by (auto simp: n_def)
            moreover have "k = 512 - r \<Longrightarrow> 512 * q + r = p \<Longrightarrow> p + k = 512 * (q + 1)" for k q r p :: int
              by simp
            ultimately have "pos + n = 512 * (pos div 512 + 1)" using mult_div_mod_eq [of 512 pos] by blast
            then show "(pos + n) mod 512 = 0" by simp
          qed
          show "0 \<le> n" using n(1) by simp
          show "i < clean_span dirty pos n (int (len - done))" using i(2) n(1) n2(1) by (simp add: n2_def)
        qed
      qed
      obtain x e1 w1 where rd: "file_read_at (Some base) pos (nat n2) w = ((x, e1), w1)"
        by (metis prod.exhaust)
      note fr = file_read_overlay [OF rd pos clean]
      have app: "acc @ x = byte_range (overlay_byte dirty base) off (done + length x)"
        using "1.prems"(5) fr by (metis byte_range_append pos_def)
      show ?thesis
      proof (cases e1)
        case (Some err)
        with "1.prems"(1) True None rd have "bs = acc @ x" "e = Some err"
          by (subst (asm) card_read_loop.simps, simp add: Let_def pos_def n_def n2_def)+
        moreover have "done + length x \<le> len" using fr n2(2) True by auto
        ultimately show ?thesis using app "1.prems"(5) by simp
      next
        case e1: None
        with "1.prems"(1) True None rd have
          rest: "card_read_loop dirty (Some base) off len (done + length x) (acc @ x) w1 = ((bs, e), w')"
          by (subst (asm) card_read_loop.simps) (simp add: Let_def pos_def n_def n2_def)
        have len: "done + length x \<le> len" using fr n2 True by auto
        show ?thesis
          by (rule "1.hyps"(1) [OF True pos_def refl refl n_def None
                rd [unfolded n2_def, symmetric] refl e1 rest "1.prems"(2,3) len app])
      qed
    qed
  qed
qed

lemma card_read_sound:
  assumes "card_read len off c = ((bs, e), c')" "scFile c = Some base"
    and "dirty_ok (soCardSize (scSpec c)) (scDirty c)"
  shows "length bs \<le> len \<and> bs = byte_range (overlay_byte (scDirty c) base) off (length bs) \<and>
    (e = None \<longrightarrow> length bs = len \<and> 0 \<le> off \<and> off + int len \<le> soCardSize (scSpec c)) \<and>
    (\<exists>w. c' = c\<lparr>scWorld := w\<rparr>)"
proof (cases "off < 0 \<or> int len > soCardSize (scSpec c) - off")
  case True
  with assms(1) show ?thesis by (auto simp: card_read_def intro: exI [of _ "scWorld c"])
next
  case False
  obtain w where r: "(if scDirty c = [] then file_read_at (scFile c) off len (scWorld c)
      else card_read_loop (scDirty c) (scFile c) off len 0 [] (scWorld c)) = ((bs, e), w)"
    "c' = c\<lparr>scWorld := w\<rparr>"
    using assms(1) False by (auto simp: card_read_def split: prod.splits)
  have "length bs \<le> len \<and> bs = byte_range (overlay_byte (scDirty c) base) off (length bs) \<and>
      (e = None \<longrightarrow> length bs = len)"
  proof (cases "scDirty c = []")
    case True
    with r(1) assms(2) file_read_overlay [of base off len "scWorld c" bs e w "scDirty c"] False
    show ?thesis by auto
  next
    case d: False
    with r(1) assms(2) card_read_loop_sound [OF _ assms(3), of base off len 0 "[]" "scWorld c" bs e w] False
    show ?thesis by auto
  qed
  with False r(2) show ?thesis by auto
qed

section \<open>Applying a write\<close>

lemma overlay_update:
  assumes "length block = 512" "0 \<le> inb" "inb + int (length bs) \<le> 512"
    and "p div 512 = i \<Longrightarrow> block ! nat (p mod 512) = F p"
    and "p div 512 \<noteq> i \<Longrightarrow> overlay_byte dirty base p = F p" "0 \<le> p"
  shows "overlay_byte (AList.update i (put_at block (nat inb) bs) dirty) base p = patch F (512 * i + inb) bs p"
proof (cases "p div 512 = i")
  case False
  then have "p < 512 * i \<or> 512 * i + 512 \<le> p" by auto
  then have "\<not> (512 * i + inb \<le> p \<and> p < 512 * i + inb + int (length bs))" using assms(2,3) by auto
  with False assms(5) [OF False] show ?thesis
    by (auto simp: overlay_byte_def update_conv' patch_def)
next
  case True
  have p: "p = 512 * i + p mod 512" "0 \<le> p mod 512" "p mod 512 < 512" using True by auto
  have room: "nat inb + length bs \<le> length block" using assms(1-3) by linarith
  have "overlay_byte (AList.update i (put_at block (nat inb) bs) dirty) base p =
      (if nat inb \<le> nat (p mod 512) \<and> nat (p mod 512) < nat inb + length bs
       then bs ! (nat (p mod 512) - nat inb) else block ! nat (p mod 512))"
    using True p room assms(1) by (simp add: overlay_byte_def update_conv' nth_put_at nat_less_iff)
  also have "\<dots> = patch F (512 * i + inb) bs p"
  proof -
    define r where "r = p mod 512"
    have "p = 512 * i + r" "0 \<le> r" using p by (simp_all add: r_def)
    moreover have "block ! nat r = F p" using assms(4) [OF True] by (simp add: r_def)
    moreover have "nat r - nat inb = nat (r - inb)" using assms(2) by (simp add: nat_diff_distrib')
    moreover have "nat inb \<le> nat r \<longleftrightarrow> inb \<le> r" "nat r < nat inb + length bs \<longleftrightarrow> r < inb + int (length bs)"
      using assms(2) \<open>0 \<le> r\<close> by linarith+
    ultimately show ?thesis unfolding r_def [symmetric] by (simp add: patch_def)
  qed
  finally show ?thesis .
qed

lemma patch_extend:
  assumes "n \<le> length buf - done" "done \<le> length buf" "0 \<le> off"
  shows "patch (patch F off (take done buf)) (off + int done) (slice buf done n) p =
    patch F off (take (done + n) buf) p"
proof -
  consider "off \<le> p" "p < off + int done" | "off + int done \<le> p" "p < off + int (done + n)"
    | "p < off \<or> off + int (done + n) \<le> p" by linarith
  then show ?thesis
  proof cases
    case 2
    then have "nat (p - off) = done + nat (p - (off + int done))" "nat (p - (off + int done)) < n" by auto
    with 2 assms show ?thesis by (simp add: patch_def slice_def)
  qed (use assms in \<open>auto simp: patch_def slice_def\<close>)
qed

lemma sector_end:
  fixes p sz :: int
  assumes "p < sz" "sz mod 512 = 0"
  shows "p div 512 * 512 + 512 \<le> sz"
proof -
  obtain k where sz: "sz = 512 * k" using assms(2) by auto
  have aux: "512 * q + r = p \<Longrightarrow> 0 \<le> r \<Longrightarrow> p < 512 * k \<Longrightarrow> q * 512 + 512 \<le> 512 * k" for q r :: int
  proof -
    assume "512 * q + r = p" "0 \<le> r" "p < 512 * k"
    then have "q < k" by linarith
    then show ?thesis by linarith
  qed
  have "0 \<le> p mod 512" by simp
  from aux [OF mult_div_mod_eq this] assms(1) sz show ?thesis by simp
qed

definition apply_post where
  "apply_post sz base F off buf d' e dirty' \<longleftrightarrow>
     d' \<le> length buf \<and> (e = None \<longrightarrow> d' = length buf) \<and> dirty_ok sz dirty' \<and>
     (\<forall>p. 0 \<le> p \<longrightarrow> p < sz \<longrightarrow> overlay_byte dirty' base p = patch F off (take d' buf) p)"

lemma apply_blocks_sound:
  "apply_blocks (Some base) off buf done dirty w = ((d', e), dirty', w') \<Longrightarrow>
   base_ok sz base \<Longrightarrow> dirty_ok sz dirty \<Longrightarrow> 0 \<le> off \<Longrightarrow> off + int (length buf) \<le> sz \<Longrightarrow>
   done \<le> length buf \<Longrightarrow>
   (\<forall>p. 0 \<le> p \<longrightarrow> p < sz \<longrightarrow> overlay_byte dirty base p = patch F off (take done buf) p) \<Longrightarrow>
   apply_post sz base F off buf d' e dirty'"
proof (induction "Some base" off buf "done" dirty w rule: apply_blocks.induct)
  case (1 off buf "done" dirty w)
  show ?case
  proof (cases "done < length buf")
    case False
    with "1.prems" show ?thesis by (auto simp: apply_blocks.simps apply_post_def)
  next
    case True
    define pos where "pos = off + int done"
    define i where "i = pos div save_block_size"
    define inb where "inb = nat (pos mod save_block_size)"
    define n where "n = min (length buf - done) (nat save_block_size - inb)"
    have pos: "0 \<le> pos" "pos < sz" using "1.prems"(4,5) True by (simp_all add: pos_def)
    have i: "0 \<le> i" "i * 512 + 512 \<le> sz"
      using pos sector_end [OF pos(2)] "1.prems"(2) by (simp_all add: i_def base_ok_def pos_imp_zdiv_nonneg_iff)
    have inb: "inb < 512" "512 * i + int inb = pos" by (simp_all add: inb_def i_def nat_less_iff)
    have n: "0 < n" "n \<le> length buf - done" "inb + n \<le> 512" using True inb by (auto simp: n_def)
    have slen: "length (slice buf done n) = n" using n by simp
    have step: "overlay_byte (AList.update i (put_at block inb (slice buf done n)) dirty) base p =
        patch F off (take (done + n) buf) p"
      if "length block = 512" "p div 512 = i \<Longrightarrow> block ! nat (p mod 512) = overlay_byte dirty base p"
        "0 \<le> p" "p < sz" for block p
    proof -
      have "overlay_byte (AList.update i (put_at block (nat (int inb)) (slice buf done n)) dirty) base p =
          patch (patch F off (take done buf)) (512 * i + int inb) (slice buf done n) p"
        by (rule overlay_update)
          (use that n slen inb "1.prems"(7) in auto)
      also have "\<dots> = patch F off (take (done + n) buf) p"
        unfolding inb(2) pos_def by (rule patch_extend) (use n True "1.prems"(4) in auto)
      finally show ?thesis by simp
    qed
    have ok: "dirty_ok sz (AList.update i (put_at block inb (slice buf done n)) dirty)"
      if "length block = 512" for block
      using "1.prems"(3) i inb n slen that
      by (auto simp: dirty_ok_def distinct_update update_conv')
    have ahead: "done + n \<le> length buf" using n True by simp
    show ?thesis
    proof (cases "map_of dirty i")
      case (Some block)
      have blen: "length block = 512" using "1.prems"(3) Some by (auto simp: dirty_ok_def)
      from "1.prems"(1) True Some have rest: "apply_blocks (Some base) off buf (done + n)
          (AList.update i (put_at block inb (slice buf done n)) dirty) w = ((d', e), dirty', w')"
        by (subst (asm) apply_blocks.simps) (simp add: Let_def pos_def i_def inb_def n_def)
      have "\<forall>p. 0 \<le> p \<longrightarrow> p < sz \<longrightarrow> overlay_byte
          (AList.update i (put_at block inb (slice buf done n)) dirty) base p =
          patch F off (take (done + n) buf) p"
        using step [OF blen] Some by (auto simp: overlay_byte_def)
      then show ?thesis
        by (intro "1.hyps"(2) [OF True pos_def i_def inb_def n_def refl Some rest "1.prems"(2) ok [OF blen]
            "1.prems"(4,5) ahead])
    next
      case None
      obtain bs e1 w1 where rd: "file_read_at (Some base) (i * save_block_size) (nat save_block_size) w = ((bs, e1), w1)"
        by (metis prod.exhaust)
      show ?thesis
      proof (cases e1)
        case (Some err)
        with "1.prems"(1) True None rd have "d' = done" "e = Some err" "dirty' = dirty"
          by (subst (asm) apply_blocks.simps, simp add: Let_def pos_def i_def inb_def n_def)+
        with "1.prems" show ?thesis by (simp add: apply_post_def)
      next
        case e1: None
        with file_read_at_full rd have blen: "length bs = 512" by fastforce
        have "bs = slice base (nat (i * 512)) 512"
          using sys_pread_prefix [of base "nat (i * 512)" 512 w bs e1 w1] rd blen by (auto simp: file_read_at_def)
        then have bs: "p div 512 = i \<Longrightarrow> 0 \<le> p \<Longrightarrow> bs ! nat (p mod 512) = overlay_byte dirty base p" for p
        proof -
          assume b: "bs = slice base (nat (i * 512)) 512" and p: "p div 512 = i" "0 \<le> p"
          have "nat (i * 512) + 512 \<le> length base" using i "1.prems"(2) unfolding base_ok_def by linarith
          then have "bs ! nat (p mod 512) = base ! (nat (i * 512) + nat (p mod 512))"
            unfolding b by (intro nth_slice) (auto simp: nat_less_iff)
          moreover have "nat (i * 512) + nat (p mod 512) = nat p"
            using p i by (simp add: nat_add_distrib [symmetric] flip: p(1))
          ultimately show ?thesis using None p by (simp add: overlay_byte_def)
        qed
        from "1.prems"(1) True None rd e1 have rest: "apply_blocks (Some base) off buf (done + n)
            (AList.update i (put_at bs inb (slice buf done n)) dirty) w1 = ((d', e), dirty', w')"
          by (subst (asm) apply_blocks.simps) (simp add: Let_def pos_def i_def inb_def n_def)
        have "\<forall>p. 0 \<le> p \<longrightarrow> p < sz \<longrightarrow> overlay_byte
            (AList.update i (put_at bs inb (slice buf done n)) dirty) base p =
            patch F off (take (done + n) buf) p"
          using step [OF blen bs] by blast
        then show ?thesis
          by (intro "1.hyps"(1) [OF True pos_def i_def inb_def n_def refl None rd [symmetric] refl e1
              rest "1.prems"(2) ok [OF blen] "1.prems"(4,5) ahead])
      qed
    qed
  qed
qed

end
