(* ===== verification/Save_Checkpoint.thy ===== *)
theory Save_Checkpoint
  imports Save_Overlay
begin

text \<open>
  The checkpoint of \<open>server/host-daemon/gamecube/saveoverlay.go\<close>: \<open>flushCard\<close> with its helpers
  \<open>preparePrevious\<close>, \<open>commitPrevious\<close> and the deferred \<open>restorePrevious\<close>; \<open>WriteSaveAt\<close>, which
  checkpoints when a bound would be passed; and opening a card again, with
  \<open>recoverInterruptedActivation\<close>, \<open>validateCardFiles\<close> and \<open>loadJournal\<close>.  Metrics are off; a
  file handle that the code closes is only the number of system calls it makes.
\<close>

section \<open>The previous confirmed card\<close>

definition tolerant_remove :: "file_name \<Rightarrow> world \<Rightarrow> go_err option \<times> world" where
  "tolerant_remove n w = (case sys_remove n w of
     (Some err, w1) \<Rightarrow> (if errors_Is err ErrNotExist then None else Some err, w1)
   | (None, w1) \<Rightarrow> (None, w1))"

text \<open>\<open>io.CopyN\<close> of \<open>size\<close> bytes of an open file into a newly created one.\<close>

definition sys_copy :: "file_name \<Rightarrow> byte list \<Rightarrow> int \<Rightarrow> world \<Rightarrow> go_err option \<times> world" where
  "sys_copy dst bs sz w = (case sys_write dst 0 (take (nat sz) bs) w of
     (Some err, w1) \<Rightarrow> (Some err, w1)
   | (None, w1) \<Rightarrow> (if int (length bs) < sz then Some EOF else None, w1))"

definition copy_validated_candidate ::
  "file_name \<Rightarrow> file_name \<Rightarrow> int \<Rightarrow> string \<Rightarrow> world \<Rightarrow> go_err option \<times> world" where
  "copy_validated_candidate src dst sz checksum w0 =
     (case tolerant_remove dst w0 of
        (Some err, w1) \<Rightarrow> (Some err, w1)
      | (None, w1) \<Rightarrow>
          (case sys_lstat src w1 of
             (Inl _, w2) \<Rightarrow> (Some (Msg ''invalid restore source''), w2)
           | (Inr nd, w2) \<Rightarrow>
               if int (length (raw_of (ndContent nd))) \<noteq> sz
               then (Some (Msg ''invalid restore source''), w2)
               else (case sys_open src w2 of
                       (Inl err, w3) \<Rightarrow> (Some err, w3)
                     | (Inr f, w3) \<Rightarrow>
                         (case sys_create True dst w3 of
                            (Some err, w4) \<Rightarrow> (Some err, w4)
                          | (None, w4) \<Rightarrow>
                              (case and_also sys_nop (and_then sys_nop
                                      (sys_copy dst (raw_of (ndContent f)) sz w4)) of
                                 (Some err, w5) \<Rightarrow> (Some err, ignore_error (sys_remove dst) w5)
                               | (None, w5) \<Rightarrow> validate_candidate dst sz checksum w5)))))"

definition prepare_previous :: "save_object \<Rightarrow> save_metadata \<Rightarrow> world \<Rightarrow> go_err option \<times> world" where
  "prepare_previous spec md w0 =
     (case and_then (atomic_write PreviousJson (MetaFile md))
             (and_then (tolerant_remove PreviousJson) (tolerant_remove PreviousRaw w0)) of
        (Some err, w1) \<Rightarrow> (Some err, w1)
      | (None, w1) \<Rightarrow>
          and_then sys_nop
            (case sys_link ActiveRaw PreviousRaw w1 of
               (None, w2) \<Rightarrow> (None, w2)
             | (Some _, w2) \<Rightarrow>
                 copy_validated_candidate ActiveRaw PreviousRaw (soCardSize spec) (smSHA256 md) w2))"

definition commit_previous :: "world \<Rightarrow> go_err option \<times> world" where
  "commit_previous w =
     and_then sys_nop (and_then (sys_remove PreviousRaw) (sys_remove PreviousJson w))"

definition restore_previous :: "save_metadata \<Rightarrow> save_card \<Rightarrow> go_err option \<times> save_card" where
  "restore_previous md c =
     (case sys_lstat PreviousRaw (scWorld c) of
        (Inl _, w1) \<Rightarrow> (Some (Msg ''SAVE-RECOVERY-AMBIGUOUS: previous checkpoint unavailable''), c\<lparr>scWorld := w1\<rparr>)
      | (Inr nd, w1) \<Rightarrow>
          if int (length (raw_of (ndContent nd))) \<noteq> soCardSize (scSpec c)
          then (Some (Msg ''SAVE-RECOVERY-AMBIGUOUS: previous checkpoint unavailable''), c\<lparr>scWorld := w1\<rparr>)
          else (case and_then sys_nop (sys_rename PreviousRaw ActiveRaw (ignore_error sys_nop w1)) of
                  (Some err, w2) \<Rightarrow> (Some err, c\<lparr>scFile := None, scWorld := w2\<rparr>)
                | (None, w2) \<Rightarrow>
                    (case sys_open ActiveRaw w2 of
                       (Inl err, w3) \<Rightarrow> (Some err, c\<lparr>scFile := None, scWorld := w3\<rparr>)
                     | (Inr f, w3) \<Rightarrow>
                         (case and_then sys_nop (and_then (tolerant_remove PreviousJson)
                                 (atomic_write MetadataJson (MetaFile md) w3)) of
                            (e, w4) \<Rightarrow> (e, c\<lparr>scFile := Some (raw_of (ndContent f)), scMetadata := md,
                                             scWorld := w4\<rparr>)))))"

section \<open>The checkpoint\<close>

definition write_blocks :: "(int \<times> byte list) list \<Rightarrow> go_err option \<times> world \<Rightarrow> go_err option \<times> world" where
  "write_blocks dirty r =
     foldl (\<lambda>r (block, bs). and_then (sys_write CheckpointTmp (nat (block * save_block_size)) bs) r)
       r (sort_slice fst dirty)"

text \<open>The candidate: the confirmed card with the dirty blocks applied, synced and hashed.\<close>

definition stage_checkpoint :: "int \<Rightarrow> (int \<times> byte list) list \<Rightarrow> world \<Rightarrow> (go_err + string) \<times> world" where
  "stage_checkpoint sz dirty w0 =
     (case tolerant_remove CheckpointTmp w0 of
        (Some err, w1) \<Rightarrow> (Inl err, w1)
      | (None, w1) \<Rightarrow>
          (case sys_open ActiveRaw w1 of
             (Inl err, w2) \<Rightarrow> (Inl err, w2)
           | (Inr source, w2) \<Rightarrow>
               (case sys_create True CheckpointTmp w2 of
                  (Some err, w3) \<Rightarrow> (Inl err, ignore_error sys_nop w3)
                | (None, w3) \<Rightarrow>
                    (case and_also sys_nop (and_then sys_nop (write_blocks dirty
                            (and_also sys_nop (sys_copy CheckpointTmp (raw_of (ndContent source)) sz w3)))) of
                       (Some err, w4) \<Rightarrow> (Inl err, ignore_error (sys_remove CheckpointTmp) w4)
                     | (None, w4) \<Rightarrow>
                         (case hash_regular_file CheckpointTmp sz w4 of
                            (Inl err, w5) \<Rightarrow> (Inl err, ignore_error (sys_remove CheckpointTmp) w5)
                          | (Inr digest, w5) \<Rightarrow> (Inr digest, w5))))))"

definition flush_fail :: "save_card \<Rightarrow> save_card" where
  "flush_fail c = c\<lparr>scMetadata := (scMetadata c)\<lparr>smLastErrorCode := ''SAVE-FLUSH-FAILED'',
     smLastErrorMessage := ''Save checkpoint could not be committed.''\<rparr>\<rparr>"

text \<open>From the closed handle to the removed rollback marker.\<close>

definition activate_checkpoint ::
  "store_config \<Rightarrow> string \<Rightarrow> save_card \<Rightarrow> go_err option \<times> save_card" where
  "activate_checkpoint cfg digest c =
     (case sys_nop (scWorld c) of
        (Some err, w1) \<Rightarrow> (Some err, c\<lparr>scFile := None, scWorld := w1\<rparr>)
      | (None, w1) \<Rightarrow>
          (case sys_rename CheckpointTmp ActiveRaw w1 of
             (Some err, w2) \<Rightarrow>
               (case sys_open ActiveRaw w2 of
                  (Inl _, w3) \<Rightarrow> (Some err, c\<lparr>scFile := None, scWorld := w3\<rparr>)
                | (Inr f, w3) \<Rightarrow> (Some err, c\<lparr>scFile := Some (raw_of (ndContent f)), scWorld := w3\<rparr>))
           | (None, w2) \<Rightarrow>
               (case sys_nop w2 of
                  (Some err, w3) \<Rightarrow> (Some err, c\<lparr>scFile := None, scWorld := w3\<rparr>)
                | (None, w3) \<Rightarrow>
                    (case sys_open ActiveRaw w3 of
                       (Inl err, w4) \<Rightarrow> (Some err, c\<lparr>scFile := None, scWorld := w4\<rparr>)
                     | (Inr f, w4) \<Rightarrow>
                         let c1 = c\<lparr>scFile := Some (raw_of (ndContent f))\<rparr>
                         in case sys_nop w4 of
                              (Some err, w5) \<Rightarrow> (Some err, c1\<lparr>scWorld := w5\<rparr>)
                            | (None, w5) \<Rightarrow>
                                let md = (scMetadata c)\<lparr>smSHA256 := digest, smDirty := False,
                                           smRecoveryState := ''clean'', smGenerationID := cfGenerationID cfg,
                                           smLastErrorCode := '''', smLastErrorMessage := '''',
                                           smIdent := ndIdent f\<rparr>
                                in case and_then commit_previous
                                          (atomic_write MetadataJson (MetaFile md) w5) of
                                     (e, w6) \<Rightarrow> (e, c1\<lparr>scMetadata := md, scWorld := w6\<rparr>)))))"

definition truncate_journal :: "world \<Rightarrow> go_err option \<times> world" where
  "truncate_journal w = and_then sys_nop (and_then sys_nop (sys_put PendingLog (Raw []) w))"

definition flush_card :: "store_config \<Rightarrow> save_card \<Rightarrow> go_err option \<times> save_card" where
  "flush_card cfg c =
     (if scDirty c = [] then (None, c)
      else case stage_checkpoint (soCardSize (scSpec c)) (scDirty c) (scWorld c) of
             (Inl err, w1) \<Rightarrow> (Some err, flush_fail (c\<lparr>scWorld := w1\<rparr>))
           | (Inr digest, w1) \<Rightarrow>
               (case prepare_previous (scSpec c) (scMetadata c) w1 of
                  (Some err, w2) \<Rightarrow>
                    (Some err, flush_fail (c\<lparr>scWorld := ignore_error (sys_remove CheckpointTmp) w2\<rparr>))
                | (None, w2) \<Rightarrow>
                    (case activate_checkpoint cfg digest (c\<lparr>scWorld := w2\<rparr>) of
                       (Some err, c1) \<Rightarrow> (Some err, snd (restore_previous (scMetadata c) (flush_fail c1)))
                     | (None, c1) \<Rightarrow>
                         (case truncate_journal (scWorld c1) of
                            (Some err, w3) \<Rightarrow> (Some err, flush_fail (c1\<lparr>scWorld := w3\<rparr>))
                          | (None, w3) \<Rightarrow>
                              (None, c1\<lparr>scDirty := [], scPending := 0, scJournalBytes := 0,
                                        scWorld := w3\<rparr>)))))"

section \<open>Writing\<close>

definition new_blocks :: "(int \<times> byte list) list \<Rightarrow> int \<Rightarrow> int \<Rightarrow> int" where
  "new_blocks dirty firstBlock lastBlock =
     int (length (filter (\<lambda>b. map_of dirty b = None) [firstBlock..lastBlock]))"

definition card_write :: "store_config \<Rightarrow> byte list \<Rightarrow> int \<Rightarrow> save_card \<Rightarrow> (nat \<times> go_err option) \<times> save_card" where
  "card_write cfg buf off c =
     (let n = int (length buf);
          firstBlock = off div save_block_size;
          lastBlock = (off + n - 1) div save_block_size
      in if off < 0 \<or> n = 0 \<or> n > soCardSize (scSpec c) - off
         then ((0, Some (Msg ''SAVE-WRITE-OUTSIDE-EXTENT'')), c)
         else if scBlocked c
         then ((0, Some (Msg ''SAVE-RECOVERY-AMBIGUOUS: card journal is blocked'')), c)
         else if n > cfMaxPendingBytes cfg \<or> n + 52 > cfMaxJournalBytes cfg \<or>
                 lastBlock - firstBlock + 1 > cfMaxDirtyBlocks cfg
         then ((0, Some (Msg ''SAVE-JOURNAL-LIMIT'')), c)
         else case (if scPending c + n > cfMaxPendingBytes cfg \<or>
                       scJournalBytes c + n + 52 > cfMaxJournalBytes cfg
                    then flush_card cfg c else (None, c)) of
                (Some err, c1) \<Rightarrow> ((0, Some (Wrap ''SAVE-JOURNAL-LIMIT'' err)), c1)
              | (None, c1) \<Rightarrow>
                  (case (if int (length (scDirty c1)) + new_blocks (scDirty c1) firstBlock lastBlock
                              > cfMaxDirtyBlocks cfg
                         then flush_card cfg c1 else (None, c1)) of
                     (Some err, c2) \<Rightarrow> ((0, Some (Wrap ''SAVE-JOURNAL-LIMIT'' err)), c2)
                   | (None, c2) \<Rightarrow>
                       (case append_journal off buf (scWorld c2) of
                          (Some err, w) \<Rightarrow>
                            ((0, Some (Wrap ''SAVE-FLUSH-FAILED: journal'' err)),
                             c2\<lparr>scBlocked := True, scWorld := w,
                               scMetadata := (scMetadata c2)\<lparr>smRecoveryState := ''journal-incomplete'',
                                 smLastErrorCode := ''SAVE-FLUSH-FAILED'',
                                 smLastErrorMessage := ''The bounded save journal is incomplete; restart recovery is required.''\<rparr>\<rparr>)
                        | (None, w) \<Rightarrow>
                            (case apply_blocks (scFile c2) off buf 0 (scDirty c2) w of
                               ((done, Some err), dirty, w1) \<Rightarrow>
                                 ((done, Some err), c2\<lparr>scDirty := dirty, scWorld := w1\<rparr>)
                             | ((done, None), dirty, w1) \<Rightarrow>
                                 ((length buf, None),
                                  c2\<lparr>scDirty := dirty, scWorld := w1,
                                     scPending := scPending c2 + n,
                                     scJournalBytes := scJournalBytes c2 + n + 52,
                                     scMetadata := (scMetadata c2)\<lparr>smDirty := True\<rparr>\<rparr>)))))"

end
