(* ===== verification/Save_Recovery.thy ===== *)
theory Save_Recovery
  imports Save_Checkpoint
begin

text \<open>
  Opening a card of \<open>server/host-daemon/gamecube/saveoverlay.go\<close>: an interrupted activation is
  rolled back (\<open>recoverInterruptedActivation\<close>), the card is checked against its metadata
  (\<open>validateCardFiles\<close>), a left-over candidate is removed (\<open>rejectCheckpointConflicts\<close>), and
  the journal is replayed and checkpointed (\<open>openObject\<close>).  \<open>createCard\<close> makes the files.
\<close>

definition read_meta :: "file_name \<Rightarrow> world \<Rightarrow> save_metadata option \<times> world" where
  "read_meta n w =
     (case sys_lstat n w of
        (Inl _, w1) \<Rightarrow> (None, w1)
      | (Inr _, w1) \<Rightarrow>
          (case sys_open n w1 of
             (Inl _, w2) \<Rightarrow> (None, w2)
           | (Inr nd, w2) \<Rightarrow> (case ndContent nd of MetaFile md \<Rightarrow> Some md | _ \<Rightarrow> None, w2)))"

definition meta_matches :: "save_object \<Rightarrow> save_metadata \<Rightarrow> bool" where
  "meta_matches spec md \<longleftrightarrow>
     smMode md = soMode spec \<and> smGameID md = soGameID spec \<and>
     smSharedCardName md = soSharedCardName spec \<and> smCardSize md = soCardSize spec"

fun remove_staged :: "file_name list \<Rightarrow> world \<Rightarrow> go_err option \<times> world" where
  "remove_staged [] w = (None, w)"
| "remove_staged (n # ns) w =
     (case sys_lstat n w of
        (Inl err, w1) \<Rightarrow>
          if errors_Is err ErrNotExist then remove_staged ns w1
          else (Some (Msg ''SAVE-RECOVERY-AMBIGUOUS: invalid staged card''), w1)
      | (Inr _, w1) \<Rightarrow>
          (case sys_remove n w1 of
             (Some err, w2) \<Rightarrow> (Some err, w2)
           | (None, w2) \<Rightarrow> remove_staged ns w2))"

text \<open>
  From the checks on the association to the end: \<open>md\<close> is the metadata to restore and \<open>marker\<close>
  says whether it comes from the previous-confirmed file, whose checksum must then hold.
\<close>

definition roll_back :: "save_object \<Rightarrow> bool \<Rightarrow> save_metadata \<Rightarrow> world \<Rightarrow> go_err option \<times> world" where
  "roll_back spec marker md w3 =
     (if \<not> meta_matches spec md
      then (Some (Msg ''SAVE-RECOVERY-AMBIGUOUS: previous association''), w3)
      else (case hash_regular_file PreviousRaw (soCardSize spec) w3 of
        (Inl _, w4) \<Rightarrow> (Some (Msg ''SAVE-RECOVERY-AMBIGUOUS: previous checksum''), w4)
      | (Inr digest, w4) \<Rightarrow>
          if length (smSHA256 md) = 64 \<and> marker \<and> digest \<noteq> smSHA256 md
          then (Some (Msg ''SAVE-RECOVERY-AMBIGUOUS: previous checksum''), w4)
          else (case sys_rename PreviousRaw ActiveRaw w4 of
            (Some err, w5) \<Rightarrow> (Some err, w5)
          | (None, w5) \<Rightarrow>
              (case sys_lstat ActiveRaw w5 of
                 (Inl err, w6) \<Rightarrow> (Some err, w6)
               | (Inr active, w6) \<Rightarrow>
                   let md1 = md\<lparr>smSHA256 := digest, smIdent := ndIdent active, smDirty := False,
                               smRecoveryState := ''rolled-back-interrupted-checkpoint''\<rparr>
                   in and_then sys_nop
                        (and_then (remove_staged [CheckpointTmp, RestoreTmp, SelectedTmp, UploadTmp])
                          (and_then (tolerant_remove PreviousJson)
                            (atomic_write MetadataJson (MetaFile md1) w6)))))))"

definition recover_interrupted_activation :: "save_object \<Rightarrow> world \<Rightarrow> go_err option \<times> world" where
  "recover_interrupted_activation spec w0 =
     (case sys_lstat PreviousRaw w0 of
        (Inl err, w1) \<Rightarrow>
          if errors_Is err ErrNotExist then tolerant_remove PreviousJson w1
          else (Some (Msg ''SAVE-RECOVERY-AMBIGUOUS: invalid previous checkpoint''), w1)
      | (Inr nd, w1) \<Rightarrow>
          if int (length (raw_of (ndContent nd))) \<noteq> soCardSize spec
          then (Some (Msg ''SAVE-RECOVERY-AMBIGUOUS: invalid previous checkpoint''), w1)
          else (case read_meta PreviousJson w1 of
                  (Some md, w2) \<Rightarrow> roll_back spec True md w2
                | (None, w2) \<Rightarrow>
                    (case read_meta MetadataJson w2 of
                       (None, w3) \<Rightarrow> (Some (Msg ''SAVE-RECOVERY-AMBIGUOUS: metadata unavailable''), w3)
                     | (Some md, w3) \<Rightarrow>
                         roll_back spec False
                           (md\<lparr>smMode := soMode spec, smGameID := soGameID spec,
                               smSharedCardName := soSharedCardName spec,
                               smCardSize := soCardSize spec\<rparr>) w3)))"

definition size_identity_matches :: "save_metadata \<Rightarrow> node \<Rightarrow> bool" where
  "size_identity_matches md nd \<longleftrightarrow>
     int (length (raw_of (ndContent nd))) = smCardSize md \<and> ndIdent nd = smIdent md"

definition validate_card_files :: "save_object \<Rightarrow> world \<Rightarrow> (go_err + save_metadata) \<times> world" where
  "validate_card_files spec w0 =
     (case sys_lstat ActiveRaw w0 of
        (Inl _, w1) \<Rightarrow> (Inl (Msg ''SAVE-CARD-INVALID: active card''), w1)
      | (Inr nd, w1) \<Rightarrow>
          if int (length (raw_of (ndContent nd))) \<noteq> soCardSize spec
          then (Inl (Msg ''SAVE-CARD-INVALID: active card''), w1)
          else (case read_meta MetadataJson w1 of
            (None, w2) \<Rightarrow> (Inl (Msg ''SAVE-CARD-INVALID: metadata''), w2)
          | (Some md, w2) \<Rightarrow>
              if smFormatVersion md \<noteq> save_overlay_format_version \<or> \<not> meta_matches spec md \<or>
                 length (smSHA256 md) \<noteq> 64
              then (Inl (Msg ''SAVE-CARD-INVALID: metadata association''), w2)
              else if size_identity_matches md nd then (Inr md, w2)
              else (case hash_regular_file ActiveRaw (soCardSize spec) w2 of
                (Inl _, w3) \<Rightarrow> (Inl (Msg ''SAVE-RECOVERY-AMBIGUOUS: active checksum''), w3)
              | (Inr digest, w3) \<Rightarrow>
                  if digest \<noteq> smSHA256 md
                  then (Inl (Msg ''SAVE-RECOVERY-AMBIGUOUS: active checksum''), w3)
                  else let md1 = md\<lparr>smIdent := ndIdent nd\<rparr>
                       in case atomic_write MetadataJson (MetaFile md1) w3 of
                            (Some err, w4) \<Rightarrow> (Inl err, w4)
                          | (None, w4) \<Rightarrow> (Inr md1, w4))))"

text \<open>Staged files: the names that begin with \<open>.checkpoint\<close>, \<open>.restore\<close> or \<open>.upload\<close>.\<close>

definition staged_names :: "file_name list" where
  "staged_names = [CheckpointTmp, RestoreTmp, SelectedTmp, UploadTmp]"

definition reject_checkpoint_conflicts :: "world \<Rightarrow> go_err option \<times> world" where
  "reject_checkpoint_conflicts w0 =
     (case sys_nop w0 of
        (Some err, w1) \<Rightarrow> (Some err, w1)
      | (None, w1) \<Rightarrow>
          (let candidates = filter (\<lambda>n. wDir w1 n \<noteq> None) staged_names
           in if length candidates > 1
              then (Some (Msg ''SAVE-RECOVERY-AMBIGUOUS: conflicting staged cards''), w1)
              else foldl (\<lambda>r n. and_then (\<lambda>w.
                     case sys_lstat n w of
                       (Inl _, w2) \<Rightarrow> (Some (Msg ''SAVE-RECOVERY-AMBIGUOUS: invalid staged card''), w2)
                     | (Inr _, w2) \<Rightarrow> sys_remove n w2) r) (None, w1) candidates))"

definition open_journal :: "world \<Rightarrow> (go_err + int) \<times> world" where
  "open_journal w0 =
     (case sys_nop w0 of
        (Some _, w1) \<Rightarrow> (Inl (Msg ''SAVE-CARD-INVALID: journal directory''), w1)
      | (None, w1) \<Rightarrow>
          (case (if wDir w1 PendingLog = None then sys_create False PendingLog w1 else sys_nop w1) of
             (Some err, w2) \<Rightarrow> (Inl err, w2)
           | (None, w2) \<Rightarrow>
               (case sys_nop w2 of
                  (Some _, w3) \<Rightarrow> (Inl (Msg ''SAVE-CARD-INVALID: journal file''), w3)
                | (None, w3) \<Rightarrow> (Inr (int (length (journal_bytes w3))), w3))))"

definition open_object :: "store_config \<Rightarrow> save_object \<Rightarrow> world \<Rightarrow> (go_err + save_card) \<times> world" where
  "open_object cfg spec w0 =
     (case recover_interrupted_activation spec w0 of
        (Some err, w1) \<Rightarrow> (Inl err, w1)
      | (None, w1) \<Rightarrow>
          (case validate_card_files spec w1 of
             (Inl err, w2) \<Rightarrow> (Inl err, w2)
           | (Inr md, w2) \<Rightarrow>
               if smFormatVersion md \<noteq> save_overlay_format_version
               then (Inl (Msg ''SAVE-CARD-INVALID: unsupported save-overlay format''), w2)
               else (case sys_open ActiveRaw w2 of
                 (Inl err, w3) \<Rightarrow> (Inl err, w3)
               | (Inr f, w3) \<Rightarrow>
                   (case reject_checkpoint_conflicts w3 of
                      (Some err, w4) \<Rightarrow> (Inl err, w4)
                    | (None, w4) \<Rightarrow>
                        (case open_journal w4 of
                           (Inl err, w5) \<Rightarrow> (Inl err, w5)
                         | (Inr n, w5) \<Rightarrow>
                             let card = \<lparr>scSpec = spec, scFile = Some (raw_of (ndContent f)), scMetadata = md,
                                  scDirty = [], scPending = 0, scJournalBytes = n, scBlocked = False,
                                  scWorld = w5\<rparr>
                             in if n > 0
                                then (case load_journal cfg card of
                                   (Some err, c1) \<Rightarrow> (Inl err, scWorld c1)
                                 | (None, c1) \<Rightarrow>
                                     (case flush_card cfg (c1\<lparr>scMetadata :=
                                             (scMetadata c1)\<lparr>smRecoveryState := ''journal-recovery''\<rparr>\<rparr>) of
                                        (Some err, c2) \<Rightarrow> (Inl (Wrap ''SAVE-RECOVERY-AMBIGUOUS'' err), scWorld c2)
                                      | (None, c2) \<Rightarrow> (Inr c2, scWorld c2)))
                                else (Inr card, w5))))))"

definition create_card :: "save_object \<Rightarrow> string \<Rightarrow> string \<Rightarrow> world \<Rightarrow> go_err option \<times> world" where
  "create_card spec app generation w0 =
     (if \<not> supported_save_card_size (soCardSize spec) then (Some (Msg ''SAVE-CARD-SIZE-UNSUPPORTED''), w0)
      else case sys_create True CreateTmp w0 of
        (Some err, w1) \<Rightarrow> (Some err, w1)
      | (None, w1) \<Rightarrow>
          (case and_also sys_nop (and_then sys_nop
                  (sys_put CreateTmp (Raw (zeros (nat (soCardSize spec)))) w1)) of
             (Some err, w2) \<Rightarrow> (Some err, ignore_error (sys_remove CreateTmp) w2)
           | (None, w2) \<Rightarrow>
               (case sys_rename CreateTmp ActiveRaw w2 of
                  (Some err, w3) \<Rightarrow> (Some err, ignore_error (sys_remove CreateTmp) w3)
                | (None, w3) \<Rightarrow>
                    (case sys_lstat ActiveRaw w3 of
                       (Inl err, w4) \<Rightarrow> (Some err, ignore_error (sys_remove CreateTmp) w4)
                     | (Inr nd, w4) \<Rightarrow>
                         let md = \<lparr>smFormatVersion = save_overlay_format_version, smMode = soMode spec,
                               smGameID = soGameID spec, smSharedCardName = soSharedCardName spec,
                               smCardSize = soCardSize spec,
                               smSHA256 = hash_raw (zeros (nat (soCardSize spec))),
                               smApplication = app, smGenerationID = generation, smDirty = False,
                               smRecoveryState = ''clean'', smIdent = ndIdent nd,
                               smLastErrorCode = '''', smLastErrorMessage = ''''\<rparr>
                         in case and_then sys_nop (atomic_write MetadataJson (MetaFile md) w4) of
                              (e, w5) \<Rightarrow> (e, ignore_error (sys_remove CreateTmp) w5)))))"

end
