(* ===== verification/Save_Crash.thy ===== *)
theory Save_Crash
  imports Save_Recovery
begin

text \<open>
  Crash safety of a checkpoint.  When no system call fails, every state the directory goes
  through while \<open>flushCard\<close> runs is one of three shapes (the confirmed card with its journal,
  the candidate in place with the confirmed card beside it, the new card confirmed), and
  opening the card from any of them gives the contents the journal had promised.
\<close>

section \<open>Calls that do not fail\<close>

named_theorems calm_simps \<open>system calls without a failure\<close>

definition calm :: "world \<Rightarrow> bool" where
  "calm w \<longleftrightarrow> wFaults w = [] \<and> (\<forall>n nd. wDir w n = Some nd \<longrightarrow> ndIdent nd < wNext w)"

lemma calm_next_fault [calm_simps]: "calm w \<Longrightarrow> next_fault w = (None, w)"
  by (simp add: calm_def next_fault_def)

lemma calm_nop [calm_simps]: "calm w \<Longrightarrow> sys_nop w = (None, w)"
  by (simp add: sys_nop_def calm_simps)

lemma set_dir_simps [simp]:
  "wDir (set_dir d w) = d" "wSeen (set_dir d w) = d # wSeen w" "wNext (set_dir d w) = wNext w"
  "wFaults (set_dir d w) = wFaults w"
  by (simp_all add: set_dir_def)

lemma calm_set_dir:
  "calm w \<Longrightarrow> (\<And>n nd. d n = Some nd \<Longrightarrow> ndIdent nd < wNext w) \<Longrightarrow> calm (set_dir d w)"
  by (simp add: calm_def)

lemma calm_fresh: "calm w \<Longrightarrow> wDir w n = Some nd \<Longrightarrow> ndIdent nd < wNext w"
  by (simp add: calm_def)

lemma calm_remove [calm_simps]:
  "calm w \<Longrightarrow> wDir w n = Some nd \<Longrightarrow> sys_remove n w = (None, set_dir ((wDir w)(n := None)) w)"
  "calm w \<Longrightarrow> wDir w n = None \<Longrightarrow> sys_remove n w = (Some ErrNotExist, w)"
  by (simp_all add: sys_remove_def calm_simps)

lemma calm_remove_calm: "calm w \<Longrightarrow> calm (set_dir ((wDir w)(n := None)) w)"
  by (rule calm_set_dir) (auto split: if_splits intro: calm_fresh)

definition without :: "file_name \<Rightarrow> world \<Rightarrow> world" where
  "without n w = (if wDir w n = None then w else set_dir ((wDir w)(n := None)) w)"

lemma calm_tolerant_remove [calm_simps]: "calm w \<Longrightarrow> tolerant_remove n w = (None, without n w)"
  by (cases "wDir w n") (simp_all add: tolerant_remove_def without_def calm_simps)

lemma calm_without [calm_simps, simp]: "calm w \<Longrightarrow> calm (without n w)"
  by (simp add: without_def calm_remove_calm)

lemma without_dir [simp]: "wDir (without n w) = (wDir w)(n := None)" "wNext (without n w) = wNext w"
  by (auto simp: without_def)

lemma without_seen: "set (wSeen (without n w)) \<subseteq> {(wDir w)(n := None)} \<union> set (wSeen w)"
  by (auto simp: without_def)

lemma calm_ignore_remove [calm_simps]: "calm w \<Longrightarrow> ignore_error (sys_remove n) w = without n w"
  by (cases "wDir w n") (simp_all add: ignore_error_def without_def calm_simps)

lemma calm_lstat [calm_simps]:
  "calm w \<Longrightarrow> wDir w n = Some nd \<Longrightarrow> sys_lstat n w = (Inr nd, w)"
  "calm w \<Longrightarrow> wDir w n = None \<Longrightarrow> sys_lstat n w = (Inl ErrNotExist, w)"
  by (simp_all add: sys_lstat_def calm_simps)

lemma calm_rename [calm_simps]:
  "calm w \<Longrightarrow> wDir w a = Some nd \<Longrightarrow> map_option ndIdent (wDir w b) \<noteq> Some (ndIdent nd) \<Longrightarrow>
   sys_rename a b w = (None, set_dir ((wDir w)(b := Some nd, a := None)) w)"
  "calm w \<Longrightarrow> wDir w a = Some nd \<Longrightarrow> map_option ndIdent (wDir w b) = Some (ndIdent nd) \<Longrightarrow>
   sys_rename a b w = (None, w)"
  by (auto simp add: sys_rename_def calm_simps)

lemma calm_rename_calm:
  "calm w \<Longrightarrow> wDir w a = Some nd \<Longrightarrow> calm (set_dir ((wDir w)(b := Some nd, a := None)) w)"
  by (rule calm_set_dir) (auto split: if_splits intro: calm_fresh)

lemma and_then_simps [simp]:
  "and_then call (None, w) = call w" "and_then call (Some e, w) = (Some e, w)"
  by (simp_all add: and_then_def)

lemma and_also_nop [calm_simps]: "calm w \<Longrightarrow> and_also sys_nop (e, w) = (e, w)"
  by (cases e) (simp_all add: and_also_def calm_simps)

lemma ignore_nop [calm_simps]: "calm w \<Longrightarrow> ignore_error sys_nop w = w"
  by (simp add: ignore_error_def calm_simps)

text \<open>
  \<open>trail P w w'\<close>: from \<open>w\<close> to \<open>w'\<close> no failure is left and every state passed satisfies \<open>P\<close>.
\<close>

definition trail :: "(dir \<Rightarrow> bool) \<Rightarrow> world \<Rightarrow> world \<Rightarrow> bool" where
  "trail P w w' \<longleftrightarrow> calm w' \<and> (\<forall>d \<in> set (wSeen w'). d \<in> set (wSeen w) \<or> P d)"

lemma trail_refl: "calm w \<Longrightarrow> trail P w w"
  by (simp add: trail_def)

lemma trail_trans: "trail P w w1 \<Longrightarrow> trail P w1 w2 \<Longrightarrow> trail P w w2"
  by (auto simp: trail_def)

lemma trail_mono: "trail P w w' \<Longrightarrow> (\<And>d. P d \<Longrightarrow> Q d) \<Longrightarrow> trail Q w w'"
  by (auto simp: trail_def)

lemma trail_set_dir: "calm (set_dir d w) \<Longrightarrow> P d \<Longrightarrow> trail P w (set_dir d w)"
  by (auto simp: trail_def)

lemma trail_without: "calm w \<Longrightarrow> P ((wDir w)(n := None)) \<Longrightarrow> trail P w (without n w)"
  using without_seen [of n w] by (auto simp: trail_def)

text \<open>An atomic write passes through states that differ only in the temporary file.\<close>

lemma atomic_write_calm:
  assumes "calm w" "n \<noteq> ManagedTmp"
    and "\<And>x. P ((wDir w)(ManagedTmp := x))"
    and "P ((wDir w)(n := Some \<lparr>ndIdent = wNext w, ndContent = c\<rparr>, ManagedTmp := None))"
  shows "\<exists>w'. atomic_write n c w = (None, w') \<and> trail P w w' \<and>
    wDir w' = (wDir w)(n := Some \<lparr>ndIdent = wNext w, ndContent = c\<rparr>, ManagedTmp := None)"
proof -
  define d1 where "d1 = (wDir w)(ManagedTmp := Some \<lparr>ndIdent = wNext w, ndContent = Raw []\<rparr>)"
  define w1 where "w1 = set_dir d1 (w\<lparr>wNext := Suc (wNext w)\<rparr>)"
  define d2 where "d2 = (wDir w)(ManagedTmp := Some \<lparr>ndIdent = wNext w, ndContent = c\<rparr>)"
  define w2 where "w2 = set_dir d2 w1"
  define d3 where "d3 = (wDir w)(n := Some \<lparr>ndIdent = wNext w, ndContent = c\<rparr>, ManagedTmp := None)"
  define w3 where "w3 = set_dir d3 w2"
  have c: "sys_create False ManagedTmp w = (None, w1)"
    using assms(1) by (simp add: sys_create_def calm_simps w1_def d1_def)
  have calm1: "calm w1" and calm2: "calm w2" and calm3: "calm w3"
    using assms(1) by (auto simp: calm_def w1_def w2_def w3_def d1_def d2_def d3_def less_SucI)
  have p: "sys_put ManagedTmp c w1 = (None, w2)"
    using calm1 by (simp add: sys_put_def calm_simps w2_def) (simp add: w1_def d1_def d2_def)
  have "map_option ndIdent (wDir w2 n) \<noteq> Some (wNext w)"
    using assms(2) calm_fresh [OF assms(1), of n] by (auto simp: w2_def d2_def)
  then have r: "sys_rename ManagedTmp n w2 = (None, w3)"
    using calm_rename(1) [OF calm2, of ManagedTmp] assms(2)
    by (simp add: w3_def d3_def) (simp add: w2_def d2_def fun_upd_twist)
  have "wDir w3 ManagedTmp = None" by (simp add: w3_def d3_def)
  then have "without ManagedTmp w3 = w3" by (simp add: without_def)
  then have "atomic_write n c w = (None, w3)"
    by (simp add: atomic_write_def c p r calm1 calm2 calm3 calm_simps)
  moreover have "trail P w w3"
    using calm3 assms(3,4) by (auto simp: trail_def w3_def w2_def w1_def d1_def d2_def d3_def)
  ultimately show ?thesis by (auto simp: w3_def d3_def)
qed

lemma length_hash_raw [simp]: "length (hash_raw bs) = 64"
  by (simp add: hash_raw_def hex_lower_def to_lower_def)

lemma hash_regular_file_calm [calm_simps]:
  "calm w \<Longrightarrow> wDir w n = Some nd \<Longrightarrow> ndContent nd = Raw bs \<Longrightarrow> int (length bs) = sz \<Longrightarrow>
   hash_regular_file n sz w = (Inr (hash_raw bs), w)"
  by (simp add: hash_regular_file_def calm_simps raw_of_def)

lemma read_meta_calm [calm_simps]:
  "calm w \<Longrightarrow> wDir w n = Some nd \<Longrightarrow> ndContent nd = MetaFile md \<Longrightarrow> read_meta n w = (Some md, w)"
  "calm w \<Longrightarrow> wDir w n = None \<Longrightarrow> read_meta n w = (None, w)"
  by (simp_all add: read_meta_def calm_simps)

section \<open>The candidate\<close>

definition merged :: "byte list \<Rightarrow> (int \<times> byte list) list \<Rightarrow> byte list" where
  "merged base dirty = byte_range (overlay_byte dirty base) 0 (length base)"

lemma length_merged [simp]: "length (merged base dirty) = length base"
  by (simp add: merged_def)

lemma write_prefix_full:
  "off + length bs \<le> length old \<Longrightarrow> write_prefix old off bs (length bs) = put_at old off bs"
  by (simp add: write_prefix_def put_at_def)

lemma sys_write_calm:
  assumes "calm w" "wDir w n = Some nd" "\<And>x. P ((wDir w)(n := Some x))"
  shows "\<exists>w'. sys_write n off bs w = (None, w') \<and> trail P w w' \<and>
    wDir w' = (wDir w)(n := Some (nd\<lparr>ndContent := Raw (write_prefix (raw_of (ndContent nd)) off bs (length bs))\<rparr>))"
proof -
  define states where
    "states = map (\<lambda>k. put_raw n (write_prefix (raw_of (ndContent nd)) off bs k) (wDir w)) [0..<Suc (length bs)]"
  define w' where "w' = w\<lparr>wDir := last states, wSeen := rev states @ wSeen w\<rparr>"
  have eq: "sys_write n off bs w = (None, w')"
    using assms(1,2) by (simp add: sys_write_def calm_simps states_def w'_def Let_def)
  have last: "last states = (wDir w)(n := Some (nd\<lparr>ndContent := Raw (write_prefix (raw_of (ndContent nd)) off bs (length bs))\<rparr>))"
    using assms(2) by (simp add: states_def put_raw_def)
  have "calm w'"
    using assms(1,2) by (auto simp: calm_def w'_def last split: if_splits)
  moreover have "\<forall>d \<in> set states. P d"
    using assms(2,3) by (auto simp: states_def put_raw_def)
  ultimately have "trail P w w'" by (auto simp: trail_def w'_def)
  with eq last show ?thesis by (auto simp: w'_def)
qed

definition put_blocks :: "byte list \<Rightarrow> (int \<times> byte list) list \<Rightarrow> byte list" where
  "put_blocks cur bl = foldl (\<lambda>c (b, bs). put_at c (nat (b * 512)) bs) cur bl"

lemma put_blocks_spec:
  "distinct (map fst bl) \<Longrightarrow>
   \<forall>(b, bs) \<in> set bl. 0 \<le> b \<and> length bs = 512 \<and> nat (b * 512) + 512 \<le> length cur \<Longrightarrow>
   length (put_blocks cur bl) = length cur \<and>
   (\<forall>p. 0 \<le> p \<longrightarrow> p < int (length cur) \<longrightarrow> put_blocks cur bl ! nat p = overlay_byte bl cur p)"
proof (induction bl arbitrary: cur)
  case Nil
  then show ?case by (simp add: put_blocks_def overlay_byte_def)
next
  case (Cons x bl)
  obtain b bs where x: "x = (b, bs)" by (cases x)
  define cur' where "cur' = put_at cur (nat (b * 512)) bs"
  have b: "0 \<le> b" "length bs = 512" "nat (b * 512) + 512 \<le> length cur" using Cons.prems(2) x by auto
  then have len: "length cur' = length cur" by (simp add: cur'_def)
  have IH: "length (put_blocks cur' bl) = length cur' \<and>
      (\<forall>p. 0 \<le> p \<longrightarrow> p < int (length cur') \<longrightarrow> put_blocks cur' bl ! nat p = overlay_byte bl cur' p)"
    using Cons.IH [of cur'] Cons.prems x len by auto
  have step: "put_blocks cur (x # bl) = put_blocks cur' bl" by (simp add: put_blocks_def x cur'_def)
  have "overlay_byte bl cur' p = overlay_byte (x # bl) cur p" if p: "0 \<le> p" "p < int (length cur)" for p
  proof (cases "p div 512 = b")
    case True
    have none: "map_of bl b = None" using Cons.prems(1) x by (auto simp: map_of_eq_None_iff)
    have pm: "nat p = nat (b * 512) + nat (p mod 512)" "nat (p mod 512) < 512"
      using True p b(1) by (auto simp: nat_add_distrib [symmetric] nat_less_iff)
    have "cur' ! nat p = bs ! nat (p mod 512)"
      unfolding cur'_def pm(1) using b pm(2) p by (subst nth_put_at) auto
    with True none show ?thesis by (simp add: overlay_byte_def x)
  next
    case False
    then have "p < b * 512 \<or> b * 512 + 512 \<le> p" by auto
    then have "\<not> (nat (b * 512) \<le> nat p \<and> nat p < nat (b * 512) + length bs)" using p b by auto
    then have "cur' ! nat p = cur ! nat p"
      unfolding cur'_def using b p by (subst nth_put_at) auto
    with False show ?thesis by (simp add: overlay_byte_def x split: option.splits)
  qed
  with IH len step show ?case by simp
qed

lemma put_blocks_merged:
  assumes "base_ok sz base" "dirty_ok sz dirty"
  shows "put_blocks base (sort_slice fst dirty) = merged base dirty"
proof -
  let ?bl = "sort_slice fst dirty"
  have dist: "distinct (map fst dirty)" and dist': "distinct (map fst ?bl)"
    using assms(2) by (simp_all add: dirty_ok_def)
  have same: "map_of ?bl = map_of dirty" by (simp add: map_of_inject_set [OF dist' dist])
  have fits: "\<forall>(b, bs) \<in> set ?bl. 0 \<le> b \<and> length bs = 512 \<and> nat (b * 512) + 512 \<le> length base"
  proof (clarify, intro conjI)
    fix b bs assume "(b, bs) \<in> set ?bl"
    then have "map_of dirty b = Some bs" using dist by simp
    with assms(2) have b: "0 \<le> b" "length bs = 512" "b * 512 < sz" by (auto simp: dirty_ok_def)
    with sector_end [of "b * 512" sz] assms(1)
    show "0 \<le> b" "length bs = 512" "nat (b * 512) + 512 \<le> length base" by (auto simp: base_ok_def)
  qed
  note spec = put_blocks_spec [OF dist' fits]
  show ?thesis
    unfolding merged_def
  proof (rule byte_range_eqI)
    show "length (put_blocks base ?bl) = length base" using spec by simp
    fix i assume "i < length base"
    then have "put_blocks base ?bl ! nat (int i) = overlay_byte ?bl base (int i)"
      using spec [THEN conjunct2, rule_format, of "int i"] by simp
    with same show "put_blocks base ?bl ! i = overlay_byte dirty base (0 + int i)"
      by (simp add: overlay_byte_def)
  qed
qed

lemma write_blocks_calm:
  assumes "calm w" "wDir w CheckpointTmp = Some \<lparr>ndIdent = i, ndContent = Raw cur\<rparr>"
    and "\<And>x. P ((wDir w)(CheckpointTmp := Some x))"
    and "\<forall>(b, bs) \<in> set bl. 0 \<le> b \<and> length bs = 512 \<and> nat (b * 512) + 512 \<le> length cur"
  shows "\<exists>w'. foldl (\<lambda>r (block, bs). and_then (sys_write CheckpointTmp (nat (block * save_block_size)) bs) r)
      (None, w) bl = (None, w') \<and> trail P w w' \<and>
    wDir w' = (wDir w)(CheckpointTmp := Some \<lparr>ndIdent = i, ndContent = Raw (put_blocks cur bl)\<rparr>)"
  using assms
proof (induction bl arbitrary: w cur)
  case Nil
  then show ?case by (auto simp: put_blocks_def trail_refl intro!: exI [of _ w])
next
  case (Cons x bl)
  obtain b bs where x: "x = (b, bs)" by (cases x)
  have b: "0 \<le> b" "length bs = 512" "nat (b * 512) + 512 \<le> length cur" using Cons.prems(4) x by auto
  define cur' where "cur' = put_at cur (nat (b * 512)) bs"
  have len: "length cur' = length cur" using b by (simp add: cur'_def)
  obtain w1 where w1: "sys_write CheckpointTmp (nat (b * save_block_size)) bs w = (None, w1)" "trail P w w1"
    "wDir w1 = (wDir w)(CheckpointTmp := Some \<lparr>ndIdent = i, ndContent = Raw cur'\<rparr>)"
    using sys_write_calm [OF Cons.prems(1,2), of P "nat (b * 512)" bs] Cons.prems(3) b
    by (auto simp: raw_of_def cur'_def write_prefix_full [symmetric])
  have c1: "calm w1" using w1(2) by (simp add: trail_def)
  have d1: "wDir w1 CheckpointTmp = Some \<lparr>ndIdent = i, ndContent = Raw cur'\<rparr>" by (simp add: w1(3))
  have p1: "P ((wDir w1)(CheckpointTmp := Some x))" for x using Cons.prems(3) by (simp only: w1(3) fun_upd_upd)
  have l1: "\<forall>(b, bs) \<in> set bl. 0 \<le> b \<and> length bs = 512 \<and> nat (b * 512) + 512 \<le> length cur'"
    using Cons.prems(4) len by simp
  from Cons.IH [OF c1 d1 p1 l1] obtain w2 where "foldl (\<lambda>r (block, bs). and_then (sys_write CheckpointTmp (nat (block * save_block_size)) bs) r)
      (None, w1) bl = (None, w2)" "trail P w1 w2"
    "wDir w2 = (wDir w1)(CheckpointTmp := Some \<lparr>ndIdent = i, ndContent = Raw (put_blocks cur' bl)\<rparr>)"
    by blast
  with w1 trail_trans [OF w1(2)] show ?case by (auto simp: x put_blocks_def cur'_def)
qed

lemma stage_checkpoint_calm:
  assumes "calm w" "wDir w ActiveRaw = Some nd" "ndContent nd = Raw base"
    and "base_ok sz base" "dirty_ok sz dirty" "\<And>x. P ((wDir w)(CheckpointTmp := x))"
  shows "\<exists>w' i. stage_checkpoint sz dirty w = (Inr (hash_raw (merged base dirty)), w') \<and> trail P w w' \<and>
    wDir w' = (wDir w)(CheckpointTmp := Some \<lparr>ndIdent = i, ndContent = Raw (merged base dirty)\<rparr>) \<and>
    i \<noteq> ndIdent nd"
proof -
  define w1 where "w1 = without CheckpointTmp w"
  have c1: "calm w1" and t1: "trail P w w1"
    using assms(1,6) by (simp_all add: w1_def trail_without)
  have open1: "sys_lstat ActiveRaw w1 = (Inr nd, w1)"
    using assms(2) by (intro calm_lstat(1) c1) (simp add: w1_def)
  define new where "new = \<lparr>ndIdent = wNext w1, ndContent = Raw []\<rparr>"
  define w2 where "w2 = set_dir ((wDir w1)(CheckpointTmp := Some new)) (w1\<lparr>wNext := Suc (wNext w1)\<rparr>)"
  have cr: "sys_create True CheckpointTmp w1 = (None, w2)"
    using c1 by (simp add: sys_create_def calm_simps w2_def new_def) (simp add: w1_def)
  have c2: "calm w2" using c1 by (auto simp: calm_def w2_def new_def less_SucI)
  have d2: "wDir w2 = (wDir w)(CheckpointTmp := Some new)" by (simp add: w2_def w1_def)
  have t2: "trail P w1 w2" using c2 assms(6) by (auto simp: trail_def w2_def w1_def)
  have P2: "P ((wDir w2)(CheckpointTmp := Some x))" for x using assms(6) by (simp only: d2 fun_upd_upd)
  have len: "int (length base) = sz" using assms(4) by (simp add: base_ok_def)
  define full where "full = \<lparr>ndIdent = wNext w1, ndContent = Raw base\<rparr>"
  obtain w3 where w3: "sys_write CheckpointTmp 0 (take (nat sz) base) w2 = (None, w3)" "trail P w2 w3"
    "wDir w3 = (wDir w2)(CheckpointTmp := Some (new\<lparr>ndContent := Raw (write_prefix (raw_of (ndContent new)) 0
        (take (nat sz) base) (length (take (nat sz) base)))\<rparr>))"
    using sys_write_calm [OF c2, of CheckpointTmp new P 0 "take (nat sz) base"] P2 d2 by auto
  have d3: "wDir w3 = (wDir w2)(CheckpointTmp := Some full)"
    using w3(3) len by (simp add: new_def full_def write_prefix_def raw_of_def)
  have c3: "calm w3" using w3(2) by (simp add: trail_def)
  have cp: "sys_copy CheckpointTmp (raw_of (ndContent nd)) sz w2 = (None, w3)"
    using w3(1) assms(3) len by (simp add: sys_copy_def raw_of_def)
  have fits: "\<forall>(b, bs) \<in> set (sort_slice fst dirty). 0 \<le> b \<and> length bs = 512 \<and> nat (b * 512) + 512 \<le> length base"
  proof (clarify, intro conjI)
    fix b bs assume "(b, bs) \<in> set (sort_slice fst dirty)"
    then have "map_of dirty b = Some bs" using assms(5) by (simp add: dirty_ok_def)
    with assms(5) have b: "0 \<le> b" "length bs = 512" "b * 512 < sz" by (auto simp: dirty_ok_def)
    with sector_end [of "b * 512" sz] assms(4)
    show "0 \<le> b" "length bs = 512" "nat (b * 512) + 512 \<le> length base" by (auto simp: base_ok_def)
  qed
  have s3: "wDir w3 CheckpointTmp = Some \<lparr>ndIdent = wNext w1, ndContent = Raw base\<rparr>"
    by (simp add: d3 full_def)
  have P3: "P ((wDir w3)(CheckpointTmp := Some x))" for x
    using assms(6) by (simp only: d3 d2 fun_upd_upd)
  from write_blocks_calm [where P = P, OF c3 s3 P3 fits] obtain w4 where
    w4: "write_blocks dirty (None, w3) = (None, w4)" "trail P w3 w4"
    "wDir w4 = (wDir w3)(CheckpointTmp := Some \<lparr>ndIdent = wNext w1, ndContent = Raw (merged base dirty)\<rparr>)"
    unfolding write_blocks_def put_blocks_merged [OF assms(4,5)] by blast
  have c4: "calm w4" using w4(2) by (simp add: trail_def)
  have h: "hash_regular_file CheckpointTmp sz w4 = (Inr (hash_raw (merged base dirty)), w4)"
    by (rule hash_regular_file_calm [OF c4,
          where nd = "\<lparr>ndIdent = wNext w1, ndContent = Raw (merged base dirty)\<rparr>"])
      (simp_all add: w4(3) len)
  have st: "stage_checkpoint sz dirty w = (Inr (hash_raw (merged base dirty)), w4)"
    using assms(1) c1 c2 c3 c4 open1 cr cp w4(1) h
    by (simp add: stage_checkpoint_def calm_simps w1_def [symmetric])
  have "trail P w w4" by (rule trail_trans [OF t1 trail_trans [OF t2 trail_trans [OF w3(2) w4(2)]]])
  moreover have "wDir w4 = (wDir w)(CheckpointTmp := Some \<lparr>ndIdent = wNext w1, ndContent = Raw (merged base dirty)\<rparr>)"
    by (simp only: w4(3) d3 d2 fun_upd_upd)
  moreover have "wNext w1 \<noteq> ndIdent nd"
    using calm_fresh [OF assms(1,2)] by (simp add: w1_def)
  ultimately show ?thesis using st by blast
qed

section \<open>Shapes of the directory\<close>

definition meta_record :: "save_object \<Rightarrow> byte list \<Rightarrow> node \<Rightarrow> bool" where
  "meta_record spec bytes nd \<longleftrightarrow> (\<exists>md. ndContent nd = MetaFile md \<and>
     smFormatVersion md = save_overlay_format_version \<and> meta_matches spec md \<and> smSHA256 md = hash_raw bytes)"

definition meta_for :: "save_object \<Rightarrow> byte list \<Rightarrow> dir \<Rightarrow> bool" where
  "meta_for spec bytes d \<longleftrightarrow> (\<exists>nd. d MetadataJson = Some nd \<and> meta_record spec bytes nd)"

definition journal_is :: "byte list \<Rightarrow> dir \<Rightarrow> bool" where
  "journal_is j d \<longleftrightarrow> (\<exists>nd. d PendingLog = Some nd \<and> ndContent nd = Raw j)"

definition unstaged :: "dir \<Rightarrow> bool" where
  "unstaged d \<longleftrightarrow> d RestoreTmp = None \<and> d SelectedTmp = None \<and> d UploadTmp = None"

definition previous_ok :: "save_object \<Rightarrow> node \<Rightarrow> byte list \<Rightarrow> dir \<Rightarrow> bool" where
  "previous_ok spec old base d \<longleftrightarrow> d PreviousRaw = Some old \<and>
     (\<forall>nd. d PreviousJson = Some nd \<longrightarrow> meta_record spec base nd)"

text \<open>\<open>old\<close> is the node of the confirmed card, \<open>base\<close> its bytes, \<open>fresh\<close> those of the candidate.\<close>

definition shape_before where
  "shape_before spec old base j d \<longleftrightarrow> unstaged d \<and> journal_is j d \<and> meta_for spec base d \<and>
     d ActiveRaw = Some old \<and> (d PreviousRaw = None \<or> previous_ok spec old base d)"

definition shape_between where
  "shape_between spec old base fresh j d \<longleftrightarrow> unstaged d \<and> journal_is j d \<and>
     (meta_for spec base d \<or> meta_for spec fresh d) \<and> previous_ok spec old base d \<and>
     (\<exists>i. d ActiveRaw = Some \<lparr>ndIdent = i, ndContent = Raw fresh\<rparr> \<and> i \<noteq> ndIdent old)"

definition shape_after where
  "shape_after spec fresh j d \<longleftrightarrow> unstaged d \<and> (journal_is j d \<or> journal_is [] d) \<and> meta_for spec fresh d \<and>
     d PreviousRaw = None \<and> (\<exists>i. d ActiveRaw = Some \<lparr>ndIdent = i, ndContent = Raw fresh\<rparr>)"

definition shape where
  "shape spec old base fresh j d \<longleftrightarrow>
     shape_before spec old base j d \<or> shape_between spec old base fresh j d \<or> shape_after spec fresh j d"

lemmas shape_parts = unstaged_def journal_is_def meta_for_def previous_ok_def

lemma shape_irrelevant [simp]:
  "shape_before spec old base j (d(CheckpointTmp := x)) = shape_before spec old base j d"
  "shape_before spec old base j (d(ManagedTmp := x)) = shape_before spec old base j d"
  "shape_between spec old base fresh j (d(CheckpointTmp := x)) = shape_between spec old base fresh j d"
  "shape_between spec old base fresh j (d(ManagedTmp := x)) = shape_between spec old base fresh j d"
  "shape_after spec fresh j (d(CheckpointTmp := x)) = shape_after spec fresh j d"
  "shape_after spec fresh j (d(ManagedTmp := x)) = shape_after spec fresh j d"
  by (simp_all add: shape_before_def shape_between_def shape_after_def shape_parts)

text \<open>A card at rest, ready for a checkpoint.\<close>

definition card_ready :: "node \<Rightarrow> byte list \<Rightarrow> byte list \<Rightarrow> save_card \<Rightarrow> bool" where
  "card_ready old base j c \<longleftrightarrow>
     calm (scWorld c) \<and> base_ok (soCardSize (scSpec c)) base \<and>
     dirty_ok (soCardSize (scSpec c)) (scDirty c) \<and> scFile c = Some base \<and>
     ndContent old = Raw base \<and> shape_before (scSpec c) old base j (wDir (scWorld c)) \<and>
     smFormatVersion (scMetadata c) = save_overlay_format_version \<and>
     meta_matches (scSpec c) (scMetadata c) \<and> smSHA256 (scMetadata c) = hash_raw base"

lemma prepare_previous_calm:
  assumes "calm w" "shape_before spec old base j (wDir w)" "meta_record spec base \<lparr>ndIdent = 0, ndContent = MetaFile md\<rparr>"
  shows "\<exists>w' i. prepare_previous spec md w = (None, w') \<and> trail (shape_before spec old base j) w w' \<and>
    wDir w' = (wDir w)(PreviousRaw := Some old,
      PreviousJson := Some \<lparr>ndIdent = i, ndContent = MetaFile md\<rparr>, ManagedTmp := None)"
proof -
  let ?S = "shape_before spec old base j"
  define w1 where "w1 = without PreviousRaw w"
  have s1: "?S (wDir w1)" using assms(2) by (auto simp: w1_def shape_before_def shape_parts)
  have c1: "calm w1" and t1: "trail ?S w w1"
    using assms(1) s1 by (simp_all add: w1_def trail_without)
  define w2 where "w2 = without PreviousJson w1"
  have s2: "?S (wDir w2)" using s1 by (auto simp: w2_def w1_def shape_before_def shape_parts)
  have c2: "calm w2" and t2: "trail ?S w1 w2"
    using c1 s2 by (simp_all add: w2_def trail_without)
  define pj where "pj = \<lparr>ndIdent = wNext w2, ndContent = MetaFile md\<rparr>"
  have s3: "?S ((wDir w2)(PreviousJson := Some pj, ManagedTmp := None))"
    using s2 by (simp add: shape_before_def shape_parts) (simp add: w2_def w1_def)
  obtain w3 where w3: "atomic_write PreviousJson (MetaFile md) w2 = (None, w3)" "trail ?S w2 w3"
    "wDir w3 = (wDir w2)(PreviousJson := Some pj, ManagedTmp := None)"
    using atomic_write_calm [OF c2, of PreviousJson ?S "MetaFile md"] s2 s3 by (auto simp: pj_def)
  have c3: "calm w3" using w3(2) by (simp add: trail_def)
  have act: "wDir w3 ActiveRaw = Some old" using s3 by (simp add: w3(3) shape_before_def)
  have prev: "wDir w3 PreviousRaw = None" by (simp add: w3(3) w2_def w1_def)
  define w4 where "w4 = set_dir ((wDir w3)(PreviousRaw := Some old)) w3"
  have ln: "sys_link ActiveRaw PreviousRaw w3 = (None, w4)"
    using c3 act prev by (simp add: sys_link_def calm_simps w4_def)
  have c4: "calm w4"
    unfolding w4_def by (rule calm_set_dir [OF c3]) (use act c3 in \<open>auto split: if_splits intro: calm_fresh\<close>)
  have "meta_record spec base pj" using assms(3) by (simp add: pj_def meta_record_def)
  then have s4: "?S (wDir w4)"
    using s3 by (simp add: w4_def w3(3) shape_before_def shape_parts)
  have t4: "trail ?S w3 w4" unfolding w4_def by (rule trail_set_dir) (use c4 s4 in \<open>simp_all add: w4_def\<close>)
  have "prepare_previous spec md w = (None, w4)"
    by (simp add: prepare_previous_def calm_simps assms(1) c1 c4 w1_def [symmetric] w2_def [symmetric] w3(1) ln)
  moreover have "trail ?S w w4" by (rule trail_trans [OF t1 trail_trans [OF t2 trail_trans [OF w3(2) t4]]])
  moreover have "wDir w4 = (wDir w)(PreviousRaw := Some old,
      PreviousJson := Some \<lparr>ndIdent = wNext w2, ndContent = MetaFile md\<rparr>, ManagedTmp := None)"
    by (simp add: w4_def w3(3) w2_def w1_def pj_def fun_upd_twist)
  ultimately show ?thesis by blast
qed

lemma commit_previous_calm:
  assumes "calm w" "shape_between spec old base fresh j (wDir w)" "meta_for spec fresh (wDir w)"
    "wDir w PreviousJson = Some pj"
  shows "\<exists>w'. commit_previous w = (None, w') \<and> trail (shape spec old base fresh j) w w' \<and>
    wDir w' = (wDir w)(PreviousJson := None, PreviousRaw := None)"
proof -
  define w1 where "w1 = set_dir ((wDir w)(PreviousJson := None)) w"
  have r1: "sys_remove PreviousJson w = (None, w1)" using assms(1,4) by (simp add: calm_simps w1_def)
  have c1: "calm w1" unfolding w1_def by (rule calm_remove_calm [OF assms(1)])
  have s1: "shape_between spec old base fresh j (wDir w1)"
    using assms(2) by (simp add: w1_def shape_between_def shape_parts)
  have p1: "wDir w1 PreviousRaw = Some old" using s1 by (simp add: shape_between_def previous_ok_def)
  define w2 where "w2 = set_dir ((wDir w1)(PreviousRaw := None)) w1"
  have r2: "sys_remove PreviousRaw w1 = (None, w2)" using c1 p1 by (simp add: calm_simps w2_def)
  have c2: "calm w2" unfolding w2_def by (rule calm_remove_calm [OF c1])
  have s2: "shape_after spec fresh j (wDir w2)"
    using s1 assms(3) by (auto simp: w2_def w1_def shape_between_def shape_after_def shape_parts)
  have "commit_previous w = (None, w2)" by (simp add: commit_previous_def r1 r2 calm_simps c2)
  moreover have "trail (shape spec old base fresh j) w w2"
    using c2 s1 s2 by (auto simp: trail_def w2_def w1_def shape_def)
  ultimately show ?thesis by (auto simp: w2_def w1_def)
qed

lemma activate_checkpoint_calm:
  assumes "calm (scWorld c)" "shape_before (scSpec c) old base j (wDir (scWorld c))"
    and "wDir (scWorld c) PreviousRaw = Some old" "wDir (scWorld c) PreviousJson = Some pj"
    and "wDir (scWorld c) CheckpointTmp = Some \<lparr>ndIdent = i, ndContent = Raw fresh\<rparr>" "i \<noteq> ndIdent old"
    and "smFormatVersion (scMetadata c) = save_overlay_format_version" "meta_matches (scSpec c) (scMetadata c)"
  shows "\<exists>w' md. activate_checkpoint cfg (hash_raw fresh) c =
      (None, c\<lparr>scFile := Some fresh, scMetadata := md, scWorld := w'\<rparr>) \<and>
    trail (shape (scSpec c) old base fresh j) (scWorld c) w' \<and>
    shape_after (scSpec c) fresh j (wDir w') \<and> journal_is j (wDir w') \<and> wDir w' CheckpointTmp = None \<and>
    smFormatVersion md = save_overlay_format_version \<and> meta_matches (scSpec c) md \<and> smSHA256 md = hash_raw fresh"
proof -
  let ?w = "scWorld c" and ?spec = "scSpec c"
  let ?S = "shape ?spec old base fresh j" and ?B = "shape_between ?spec old base fresh j"
  define nd where "nd = \<lparr>ndIdent = i, ndContent = Raw fresh\<rparr>"
  have act0: "wDir ?w ActiveRaw = Some old" using assms(2) by (simp add: shape_before_def)
  define w1 where "w1 = set_dir ((wDir ?w)(ActiveRaw := Some nd, CheckpointTmp := None)) ?w"
  have rn: "sys_rename CheckpointTmp ActiveRaw ?w = (None, w1)"
    using calm_rename(1) [OF assms(1), of CheckpointTmp nd ActiveRaw] assms(5,6) act0
    by (simp add: w1_def nd_def)
  have c1: "calm w1" unfolding w1_def by (rule calm_rename_calm) (simp_all add: assms nd_def)
  have b1: "?B (wDir w1)"
    using assms(2,3,6) by (auto simp: w1_def nd_def shape_before_def shape_between_def shape_parts)
  have t1: "trail ?S ?w w1"
    unfolding w1_def by (rule trail_set_dir) (use c1 b1 in \<open>simp_all add: w1_def shape_def\<close>)
  have op: "sys_lstat ActiveRaw w1 = (Inr nd, w1)"
    by (rule calm_lstat(1) [OF c1]) (simp add: w1_def)
  define md where "md = (scMetadata c)\<lparr>smSHA256 := hash_raw fresh, smDirty := False,
     smRecoveryState := ''clean'', smGenerationID := cfGenerationID cfg, smLastErrorCode := '''',
     smLastErrorMessage := '''', smIdent := ndIdent nd\<rparr>"
  have md: "smFormatVersion md = save_overlay_format_version" "meta_matches ?spec md" "smSHA256 md = hash_raw fresh"
    using assms(7,8) by (simp_all add: md_def meta_matches_def)
  define mnode where "mnode = \<lparr>ndIdent = wNext w1, ndContent = MetaFile md\<rparr>"
  have mrec: "meta_record ?spec fresh mnode" using md by (simp add: mnode_def meta_record_def)
  have b2: "?B ((wDir w1)(MetadataJson := Some mnode, ManagedTmp := None))"
    using b1 mrec by (auto simp: shape_between_def shape_parts)
  obtain w2 where w2: "atomic_write MetadataJson (MetaFile md) w1 = (None, w2)" "trail ?S w1 w2"
    "wDir w2 = (wDir w1)(MetadataJson := Some mnode, ManagedTmp := None)"
    using atomic_write_calm [OF c1, of MetadataJson ?S "MetaFile md"] b1 b2
    by (auto simp: mnode_def shape_def)
  have c2: "calm w2" using w2(2) by (simp add: trail_def)
  have b2': "?B (wDir w2)" using b2 by (simp only: w2(3))
  have m2: "meta_for ?spec fresh (wDir w2)" using mrec by (simp add: w2(3) meta_for_def)
  have pj2: "wDir w2 PreviousJson = Some pj" using assms(4) by (simp add: w2(3) w1_def)
  obtain w3 where w3: "commit_previous w2 = (None, w3)" "trail ?S w2 w3"
    "wDir w3 = (wDir w2)(PreviousJson := None, PreviousRaw := None)"
    using commit_previous_calm [OF c2 b2' m2 pj2] by blast
  have "activate_checkpoint cfg (hash_raw fresh) c =
      (None, c\<lparr>scFile := Some fresh, scMetadata := md, scWorld := w3\<rparr>)"
    by (simp add: activate_checkpoint_def calm_simps assms(1) rn c1 op Let_def md_def [symmetric] w2(1) w3(1))
      (simp add: nd_def raw_of_def)
  moreover have "trail ?S ?w w3" by (rule trail_trans [OF t1 trail_trans [OF w2(2) w3(2)]])
  moreover have "shape_after ?spec fresh j (wDir w3)" "journal_is j (wDir w3)"
    using b2' m2 by (auto simp: w3(3) shape_between_def shape_after_def shape_parts)
  moreover have "wDir w3 CheckpointTmp = None" by (simp add: w3(3) w2(3) w1_def)
  ultimately show ?thesis using md by blast
qed

lemma truncate_journal_calm:
  assumes "calm w" "shape_after spec fresh j (wDir w)"
  shows "\<exists>w'. truncate_journal w = (None, w') \<and> trail (shape_after spec fresh j) w w' \<and>
    shape_after spec fresh j (wDir w') \<and> journal_is [] (wDir w') \<and>
    (\<forall>n. n \<noteq> PendingLog \<longrightarrow> wDir w' n = wDir w n) \<and> wDir w' \<in> set (wSeen w')"
proof -
  from assms(2) obtain nd where nd: "wDir w PendingLog = Some nd"
    by (auto simp: shape_after_def journal_is_def)
  define w1 where "w1 = set_dir ((wDir w)(PendingLog := Some (nd\<lparr>ndContent := Raw []\<rparr>))) w"
  have p: "sys_put PendingLog (Raw []) w = (None, w1)"
    using assms(1) nd by (simp add: sys_put_def calm_simps w1_def)
  have c1: "calm w1"
    unfolding w1_def by (rule calm_set_dir [OF assms(1)])
      (use calm_fresh [OF assms(1)] nd in \<open>auto split: if_splits\<close>)
  have s1: "shape_after spec fresh j (wDir w1)" and j1: "journal_is [] (wDir w1)"
    using assms(2) by (auto simp: w1_def shape_after_def shape_parts)
  have "truncate_journal w = (None, w1)" by (simp add: truncate_journal_def p calm_simps c1)
  moreover have "trail (shape_after spec fresh j) w w1"
    unfolding w1_def by (rule trail_set_dir) (use c1 s1 in \<open>simp_all add: w1_def\<close>)
  ultimately show ?thesis using s1 j1 by (auto simp: w1_def)
qed

lemma flush_card_calm:
  assumes ready: "card_ready old base j c" and dirty: "scDirty c \<noteq> []"
  defines "fresh \<equiv> merged base (scDirty c)"
  shows "\<exists>w' md. flush_card cfg c = (None, c\<lparr>scFile := Some fresh, scMetadata := md, scDirty := [],
      scPending := 0, scJournalBytes := 0, scWorld := w'\<rparr>) \<and>
    trail (shape (scSpec c) old base fresh j) (scWorld c) w' \<and>
    shape_after (scSpec c) fresh [] (wDir w') \<and> wDir w' CheckpointTmp = None \<and>
    wDir w' \<in> set (wSeen w') \<and> smFormatVersion md = save_overlay_format_version \<and> meta_matches (scSpec c) md \<and> smSHA256 md = hash_raw fresh"
proof -
  let ?w = "scWorld c" and ?spec = "scSpec c" and ?sz = "soCardSize (scSpec c)"
  let ?A = "shape_before ?spec old base j" and ?S = "shape ?spec old base fresh j"
  from ready have calm: "calm ?w" and bok: "base_ok ?sz base" and dok: "dirty_ok ?sz (scDirty c)"
    and old: "ndContent old = Raw base" and before: "?A (wDir ?w)"
    and md: "smFormatVersion (scMetadata c) = save_overlay_format_version" "meta_matches ?spec (scMetadata c)"
      "smSHA256 (scMetadata c) = hash_raw base"
    by (auto simp: card_ready_def)
  have act: "wDir ?w ActiveRaw = Some old" using before by (simp add: shape_before_def)
  have upd: "?A ((wDir ?w)(CheckpointTmp := x))" for x using before by simp
  from stage_checkpoint_calm [where P = ?A, OF calm act old bok dok upd] obtain w1 i where
    w1: "stage_checkpoint ?sz (scDirty c) ?w = (Inr (hash_raw fresh), w1)" "trail ?A ?w w1"
    "wDir w1 = (wDir ?w)(CheckpointTmp := Some \<lparr>ndIdent = i, ndContent = Raw fresh\<rparr>)" "i \<noteq> ndIdent old"
    unfolding fresh_def by blast
  have c1: "calm w1" using w1(2) by (simp add: trail_def)
  have b1: "?A (wDir w1)" using before by (simp add: w1(3))
  have mrec: "meta_record ?spec base \<lparr>ndIdent = 0, ndContent = MetaFile (scMetadata c)\<rparr>"
    using md by (simp add: meta_record_def)
  from prepare_previous_calm [OF c1 b1 mrec] obtain w2 k where
    w2: "prepare_previous ?spec (scMetadata c) w1 = (None, w2)" "trail ?A w1 w2"
    "wDir w2 = (wDir w1)(PreviousRaw := Some old,
      PreviousJson := Some \<lparr>ndIdent = k, ndContent = MetaFile (scMetadata c)\<rparr>, ManagedTmp := None)"
    by blast
  have c2: "calm w2" using w2(2) by (simp add: trail_def)
  have b2: "?A (wDir w2)"
    using b1 mrec by (simp add: w2(3) shape_before_def shape_parts meta_record_def)
  define c2' where "c2' = c\<lparr>scWorld := w2\<rparr>"
  have act2: "\<exists>w' md. activate_checkpoint cfg (hash_raw fresh) c2' =
      (None, c2'\<lparr>scFile := Some fresh, scMetadata := md, scWorld := w'\<rparr>) \<and>
    trail (shape (scSpec c2') old base fresh j) (scWorld c2') w' \<and>
    shape_after (scSpec c2') fresh j (wDir w') \<and> journal_is j (wDir w') \<and> wDir w' CheckpointTmp = None \<and>
    smFormatVersion md = save_overlay_format_version \<and> meta_matches (scSpec c2') md \<and> smSHA256 md = hash_raw fresh"
    by (rule activate_checkpoint_calm [where i = i])
      (use c2 b2 w1(4) md in \<open>simp_all add: c2'_def w2(3) w1(3)\<close>)
  then obtain w3 m where w3: "activate_checkpoint cfg (hash_raw fresh) (c\<lparr>scWorld := w2\<rparr>) =
      (None, c\<lparr>scFile := Some fresh, scMetadata := m, scWorld := w3\<rparr>)" "trail ?S w2 w3"
    "shape_after ?spec fresh j (wDir w3)" "wDir w3 CheckpointTmp = None"
    "smFormatVersion m = save_overlay_format_version" "meta_matches ?spec m" "smSHA256 m = hash_raw fresh"
    by (auto simp: c2'_def)
  have c3: "calm w3" using w3(2) by (simp add: trail_def)
  from truncate_journal_calm [OF c3 w3(3)] obtain w4 where
    w4: "truncate_journal w3 = (None, w4)" "trail (shape_after ?spec fresh j) w3 w4"
    "shape_after ?spec fresh j (wDir w4)" "journal_is [] (wDir w4)" "wDir w4 CheckpointTmp = None"
    "wDir w4 \<in> set (wSeen w4)"
    using w3(4) by auto
  have "flush_card cfg c = (None, c\<lparr>scFile := Some fresh, scMetadata := m, scDirty := [],
      scPending := 0, scJournalBytes := 0, scWorld := w4\<rparr>)"
    using dirty by (simp add: flush_card_def w1(1) w2(1) w3(1) w4(1))
  moreover have "trail ?S ?w w4"
    using trail_mono [OF w1(2), of ?S] trail_mono [OF w2(2), of ?S] w3(2) trail_mono [OF w4(2), of ?S]
    by (metis shape_def trail_trans)
  moreover have "shape_after ?spec fresh [] (wDir w4)"
    using w4(3,4) by (simp add: shape_after_def)
  ultimately show ?thesis using w4(5,6) w3(5-7) by blast
qed

end
