(* ===== verification/Save_Reopen.thy ===== *)
theory Save_Reopen
  imports Save_Crash
begin

text \<open>
  Opening a card again after a crash: the journal decodes to the records that were appended,
  the directory is rolled back or forward to a consistent card, and the replay gives the
  contents that the writer had been promised.
\<close>

section \<open>The journal is a faithful record\<close>

type_synonym save_record = "int \<times> byte list"

definition encode_journal :: "save_record list \<Rightarrow> byte list" where
  "encode_journal recs = concat (map (\<lambda>(off, bs). journal_header off bs @ bs) recs)"

definition record_ok :: "int \<Rightarrow> save_record \<Rightarrow> bool" where
  "record_ok sz r \<longleftrightarrow> 0 \<le> fst r \<and> snd r \<noteq> [] \<and> fst r + int (length (snd r)) \<le> sz"

definition patches :: "(int \<Rightarrow> byte) \<Rightarrow> save_record list \<Rightarrow> int \<Rightarrow> byte" where
  "patches f recs = foldl (\<lambda>f (off, bs). patch f off bs) f recs"

definition record_bytes :: "save_record list \<Rightarrow> int" where
  "record_bytes recs = int (sum_list (map (\<lambda>r. length (snd r)) recs))"

lemma record_bytes_simps [simp]:
  "record_bytes [] = 0" "record_bytes (r # rs) = int (length (snd r)) + record_bytes rs"
  by (simp_all add: record_bytes_def)

lemma record_bytes_nonneg: "0 \<le> record_bytes recs"
  by (simp add: record_bytes_def)

text \<open>Replaying the records over their own result changes nothing.\<close>

lemma patches_last:
  "patches f recs p = (case find (\<lambda>(off, bs). off \<le> p \<and> p < off + int (length bs)) (rev recs) of
     None \<Rightarrow> f p | Some (off, bs) \<Rightarrow> bs ! nat (p - off))"
proof (induction recs rule: rev_induct)
  case Nil
  then show ?case by (simp add: patches_def)
next
  case (snoc r recs)
  then show ?case by (cases r) (auto simp: patches_def patch_def)
qed

lemma patches_idem: "patches (patches f recs) recs p = patches f recs p"
  unfolding patches_last [of _ recs p]
  by (cases "find (\<lambda>(off, bs). off \<le> p \<and> p < off + int (length bs)) (rev recs)")
    (simp_all add: patches_last split: prod.splits)

lemma patches_cong: "f p = g p \<Longrightarrow> patches f recs p = patches g recs p"
  unfolding patches_last [of _ recs p] by (simp split: option.splits)

lemma length_magic [simp]: "length journal_magic = 8"
  by (simp add: journal_magic_def bytes_of_def)

lemma length_journal_header [go_len, simp]: "length (journal_header off bs) = 52"
  by (simp add: journal_header_def)

lemma journal_header_fields:
  assumes "0 \<le> off" "off < 2 ^ 63" "length bs < 2 ^ 32"
  shows "take 8 (journal_header off bs @ xs) = journal_magic"
    and "i64 (int (get_le (journal_header off bs @ xs) 8 8)) = off"
    and "get_le (journal_header off bs @ xs) 16 4 = length bs"
    and "slice (journal_header off bs @ xs) 20 32 = sha256 bs"
    and "slice (journal_header off bs @ bs @ ys) 52 (length bs) = bs"
    and "drop (52 + length bs) (journal_header off bs @ bs @ ys) = ys"
proof -
  show "take 8 (journal_header off bs @ xs) = journal_magic"
    by (simp add: journal_header_def)
  have "slice (journal_header off bs @ xs) 8 8 = le_bytes 8 (u64_of off)"
    by (simp add: journal_header_def slice_def)
  then have "get_le (journal_header off bs @ xs) 8 8 = nat off"
    using assms by (simp add: get_le_def le_val_le_bytes u64_of_def)
  with assms show "i64 (int (get_le (journal_header off bs @ xs) 8 8)) = off"
    by (simp add: i64_id in_i64_def)
  have "slice (journal_header off bs @ xs) 16 4 = le_bytes 4 (u32_of (int (length bs)))"
    by (simp add: journal_header_def slice_def)
  with assms(3) show "get_le (journal_header off bs @ xs) 16 4 = length bs"
    by (simp add: get_le_def le_val_le_bytes u32_of_def)
  show "slice (journal_header off bs @ xs) 20 32 = sha256 bs"
    by (simp add: journal_header_def slice_def)
  show "slice (journal_header off bs @ bs @ ys) 52 (length bs) = bs"
    by (simp add: slice_def)
  show "drop (52 + length bs) (journal_header off bs @ bs @ ys) = ys"
    by simp
qed

lemma file_read_calm:
  "calm w \<Longrightarrow> 0 \<le> off \<Longrightarrow> nat off + n \<le> length base \<Longrightarrow>
   file_read_at (Some base) off n w = ((slice base (nat off) n, None), w)"
  by (simp add: file_read_at_def sys_pread_def calm_simps Let_def)

lemma apply_blocks_calm:
  "calm w \<Longrightarrow> base_ok sz base \<Longrightarrow> 0 \<le> off \<Longrightarrow> off + int (length buf) \<le> sz \<Longrightarrow> done \<le> length buf \<Longrightarrow>
   \<exists>dirty'. apply_blocks (Some base) off buf done dirty w = ((length buf, None), dirty', w) \<and>
     (done < length buf \<or> dirty \<noteq> [] \<longrightarrow> dirty' \<noteq> [])"
proof (induction "Some base" off buf "done" dirty w rule: apply_blocks.induct)
  case (1 off buf "done" dirty w)
  show ?case
  proof (cases "done < length buf")
    case False
    with "1.prems"(5) show ?thesis by (simp add: apply_blocks.simps)
  next
    case True
    define pos where "pos = off + int done"
    define i where "i = pos div save_block_size"
    define inb where "inb = nat (pos mod save_block_size)"
    define n where "n = min (length buf - done) (nat save_block_size - inb)"
    have pos: "0 \<le> pos" "pos < sz" using "1.prems"(3,4) True by (simp_all add: pos_def)
    have i: "0 \<le> i" "i * 512 + 512 \<le> sz"
      using pos sector_end [OF pos(2)] "1.prems"(2) by (simp_all add: i_def base_ok_def pos_imp_zdiv_nonneg_iff)
    have ahead: "done + n \<le> length buf" using True by (auto simp: n_def)
    have ne: "AList.update k v al \<noteq> []" for k :: int and v and al :: "(int \<times> byte list) list"
      by (cases al) auto
    show ?thesis
    proof (cases "map_of dirty i")
      case (Some block)
      define d1 where "d1 = AList.update i (put_at block inb (slice buf done n)) dirty"
      have "apply_blocks (Some base) off buf done dirty w = apply_blocks (Some base) off buf (done + n) d1 w"
        using True Some by (subst apply_blocks.simps) (simp add: Let_def pos_def i_def inb_def n_def d1_def)
      moreover have "d1 \<noteq> []" by (simp add: d1_def ne)
      ultimately show ?thesis
        using "1.hyps"(2) [OF True pos_def i_def inb_def n_def refl Some "1.prems"(1-4) ahead]
        unfolding d1_def by fastforce
    next
      case None
      have rd: "file_read_at (Some base) (i * save_block_size) (nat save_block_size) w =
          ((slice base (nat (i * 512)) 512, None), w)"
      proof -
        have "nat (i * 512) + 512 \<le> length base" using i "1.prems"(2) unfolding base_ok_def by linarith
        with file_read_calm [OF "1.prems"(1), of "i * 512" 512 base] i(1) show ?thesis by simp
      qed
      define d1 where "d1 = AList.update i (put_at (slice base (nat (i * 512)) 512) inb (slice buf done n)) dirty"
      have "apply_blocks (Some base) off buf done dirty w = apply_blocks (Some base) off buf (done + n) d1 w"
        using True None rd by (subst apply_blocks.simps) (simp add: Let_def pos_def i_def inb_def n_def d1_def)
      moreover have "d1 \<noteq> []" by (simp add: d1_def ne)
      ultimately show ?thesis
        using "1.hyps"(1) [OF True pos_def i_def inb_def n_def refl None rd [symmetric] refl refl "1.prems"(1-4) ahead]
        unfolding d1_def by fastforce
    qed
  qed
qed

text \<open>Decoding the journal gives back the records: the dirty blocks show their bytes.\<close>

lemma load_records_encode_append:
  "\<forall>r \<in> set recs. record_ok sz r \<Longrightarrow> calm w \<Longrightarrow> base_ok sz base \<Longrightarrow> sz \<le> maximum_save_card_size \<Longrightarrow>
   dirty_ok sz dirty \<Longrightarrow> 0 \<le> sofar \<Longrightarrow> sofar + record_bytes recs \<le> cfMaxPendingBytes cfg \<Longrightarrow>
   \<forall>p. 0 \<le> p \<longrightarrow> p < sz \<longrightarrow> overlay_byte dirty base p = F p \<Longrightarrow>
   \<exists>dirty'. (\<forall>ys. load_records cfg sz (Some base) (encode_journal recs @ ys) sofar dirty w =
       load_records cfg sz (Some base) ys (sofar + record_bytes recs) dirty' w) \<and>
     dirty_ok sz dirty' \<and> (recs \<noteq> [] \<or> dirty \<noteq> [] \<longrightarrow> dirty' \<noteq> []) \<and>
     (\<forall>p. 0 \<le> p \<longrightarrow> p < sz \<longrightarrow> overlay_byte dirty' base p = patches F recs p)"
proof (induction recs arbitrary: sofar dirty F)
  case Nil
  then show ?case by (auto simp: encode_journal_def patches_def)
next
  case (Cons r recs)
  obtain off bs where r: "r = (off, bs)" by (cases r)
  have ok: "0 \<le> off" "bs \<noteq> []" "off + int (length bs) \<le> sz"
    using Cons.prems(1) by (auto simp: record_ok_def r)
  have len: "length bs \<le> 16777216" "off < 2 ^ 63" "length bs < 2 ^ 32" using ok Cons.prems(4) by auto
  obtain d1 where d1: "apply_blocks (Some base) off bs 0 dirty w = ((length bs, None), d1, w)" "d1 \<noteq> []"
    using apply_blocks_calm [OF Cons.prems(2,3) ok(1,3), of 0 dirty] ok(2) by auto
  have "\<forall>p. 0 \<le> p \<longrightarrow> p < sz \<longrightarrow> overlay_byte dirty base p = patch F off (take 0 bs) p"
    using Cons.prems(8) by (auto simp: patch_def)
  from apply_blocks_sound [OF d1(1) Cons.prems(3,5) ok(1,3) _ this]
  have post: "dirty_ok sz d1" "\<forall>p. 0 \<le> p \<longrightarrow> p < sz \<longrightarrow> overlay_byte d1 base p = patch F off bs p"
    by (simp_all add: apply_post_def)
  have room: "sofar + int (length bs) + record_bytes recs \<le> cfMaxPendingBytes cfg"
    using Cons.prems(7) by (simp add: r)
  have step: "load_records cfg sz (Some base) (encode_journal (r # recs) @ ys) sofar dirty w =
      load_records cfg sz (Some base) (encode_journal recs @ ys) (sofar + int (length bs)) d1 w" for ys
  proof -
    define j where "j = journal_header off bs @ bs @ encode_journal recs @ ys"
    have enc: "encode_journal (r # recs) @ ys = j" by (simp add: encode_journal_def r j_def)
    note fld = journal_header_fields(1-4) [OF ok(1) len(2,3), where xs = "bs @ encode_journal recs @ ys", folded j_def]
      journal_header_fields(5,6) [OF ok(1) len(2,3), where ys = "encode_journal recs @ ys", folded j_def]
    have "j \<noteq> []" "\<not> length j < 52" "\<not> length j < 52 + length bs" using ok(2) by (auto simp: j_def)
    moreover have "\<not> (int (length bs) \<le> 0 \<or> int (length bs) > maximum_save_upload_size \<or> off < 0 \<or>
        off > sz - int (length bs) \<or> sofar > cfMaxPendingBytes cfg - int (length bs))"
      using ok len(1) room record_bytes_nonneg [of recs] by auto
    ultimately show ?thesis
      unfolding enc using fld d1(1) by (subst load_records.simps) (simp add: Let_def del: append.simps)
  qed
  obtain d2 where "\<forall>ys. load_records cfg sz (Some base) (encode_journal recs @ ys) (sofar + int (length bs)) d1 w =
      load_records cfg sz (Some base) ys (sofar + int (length bs) + record_bytes recs) d2 w"
    "dirty_ok sz d2" "d2 \<noteq> []"
    "\<forall>p. 0 \<le> p \<longrightarrow> p < sz \<longrightarrow> overlay_byte d2 base p = patches (patch F off bs) recs p"
    using Cons.IH [of d1 "sofar + int (length bs)" "patch F off bs"] Cons.prems(1-4,6) post room d1(2) by auto
  then show ?case
    unfolding step by (intro exI [of _ d2]) (simp add: r patches_def add.assoc)
qed

lemma load_records_encode:
  assumes "\<forall>r \<in> set recs. record_ok sz r" "calm w" "base_ok sz base" "sz \<le> maximum_save_card_size"
    "dirty_ok sz dirty" "0 \<le> sofar" "sofar + record_bytes recs \<le> cfMaxPendingBytes cfg"
    "\<forall>p. 0 \<le> p \<longrightarrow> p < sz \<longrightarrow> overlay_byte dirty base p = F p"
  shows "\<exists>dirty'. load_records cfg sz (Some base) (encode_journal recs) sofar dirty w =
       (Inr (sofar + record_bytes recs), dirty', w) \<and>
     dirty_ok sz dirty' \<and> (recs \<noteq> [] \<or> dirty \<noteq> [] \<longrightarrow> dirty' \<noteq> []) \<and>
     (\<forall>p. 0 \<le> p \<longrightarrow> p < sz \<longrightarrow> overlay_byte dirty' base p = patches F recs p)"
proof -
  have "load_records cfg sz fl [] n d w = (Inr n, d, w)" for fl n d by (simp add: load_records.simps)
  with load_records_encode_append [OF assms] show ?thesis by (metis append_Nil2)
qed

text \<open>A torn record at the end is refused, whatever was decoded before it.\<close>

lemma load_records_torn:
  assumes "0 \<le> off" "off < 2 ^ 63" "length bs < 2 ^ 32" "0 < k" "k < 52 + length bs"
  shows "\<exists>e. load_records cfg sz fl (take k (journal_header off bs @ bs)) sofar dirty w = (Inl e, dirty, w)"
proof -
  define j where "j = take k (journal_header off bs @ bs)"
  have len: "length j = k" using assms(5) by (simp add: j_def)
  then have "j \<noteq> []" using assms(4) by auto
  show ?thesis
  proof (cases "k < 52")
    case True
    with len \<open>j \<noteq> []\<close> show ?thesis unfolding j_def [symmetric] by (subst load_records.simps) simp
  next
    case False
    then have j: "j = journal_header off bs @ take (k - 52) bs" by (simp add: j_def)
    note fld = journal_header_fields(1-3) [OF assms(1-3), where xs = "take (k - 52) bs", folded j]
    have "length j < 52 + length bs" using len assms(5) by simp
    with fld len False \<open>j \<noteq> []\<close> show ?thesis
      unfolding j_def [symmetric] by (subst load_records.simps) (simp add: Let_def)
  qed
qed

section \<open>Rolling back or forward\<close>

lemma remove_staged_calm:
  "calm w \<Longrightarrow> \<exists>w'. remove_staged ns w = (None, w') \<and> calm w' \<and>
     wDir w' = (\<lambda>n. if n \<in> set ns then None else wDir w n)"
proof (induction ns arbitrary: w)
  case Nil
  then show ?case by simp
next
  case (Cons n ns)
  obtain w' where w': "remove_staged ns (without n w) = (None, w')" "calm w'"
    "wDir w' = (\<lambda>m. if m \<in> set ns then None else ((wDir w)(n := None)) m)"
    using Cons.IH [OF calm_without [OF Cons.prems, of n]] unfolding without_dir by blast
  have "remove_staged (n # ns) w = remove_staged ns (without n w)"
    by (cases "wDir w n") (simp_all add: calm_simps Cons.prems without_def)
  with w' show ?case by (auto simp: fun_eq_iff)
qed

text \<open>What recovery establishes: a card at rest with bytes \<open>B\<close>, whose journal is \<open>j\<close>.\<close>

definition recovered :: "save_object \<Rightarrow> node \<Rightarrow> byte list \<Rightarrow> byte list \<Rightarrow> world \<Rightarrow> bool" where
  "recovered spec nd B j w \<longleftrightarrow> calm w \<and> shape_before spec nd B j (wDir w) \<and> ndContent nd = Raw B"

lemma roll_back_calm:
  assumes calm: "calm w" and prev_ok: "previous_ok spec old base (wDir w)"
    and md: "meta_matches spec md" "smFormatVersion md = save_overlay_format_version"
      "marker \<longrightarrow> smSHA256 md = hash_raw base"
    and base: "ndContent old = Raw base" "int (length base) = soCardSize spec"
    and rest: "journal_is j (wDir w)" "unstaged (wDir w)"
    and linked: "\<forall>nd. wDir w ActiveRaw = Some nd \<longrightarrow> ndIdent nd = ndIdent old \<longrightarrow> nd = old"
  shows "\<exists>w'. roll_back spec marker md w = (None, w') \<and> recovered spec old base j w'"
proof -
  have prev: "wDir w PreviousRaw = Some old" using prev_ok by (simp add: previous_ok_def)
  have hash: "hash_regular_file PreviousRaw (soCardSize spec) w = (Inr (hash_raw base), w)"
    by (rule hash_regular_file_calm [OF calm prev base])
  obtain w1 where w1: "sys_rename PreviousRaw ActiveRaw w = (None, w1)" "calm w1"
    "wDir w1 PreviousRaw = None \<or> wDir w1 PreviousRaw = Some old" "wDir w1 ActiveRaw = Some old"
    "\<And>n. n \<noteq> ActiveRaw \<Longrightarrow> n \<noteq> PreviousRaw \<Longrightarrow> wDir w1 n = wDir w n"
  proof (cases "map_option ndIdent (wDir w ActiveRaw) = Some (ndIdent old)")
    case True
    show thesis
      by (rule that [OF calm_rename(2) [OF calm prev True]]) (use calm prev True linked in auto)
  next
    case False
    show thesis
      by (rule that [OF calm_rename(1) [OF calm prev False]])
        (use calm_rename_calm [OF calm prev, of ActiveRaw] in auto)
  qed
  define md1 where "md1 = md\<lparr>smSHA256 := hash_raw base, smIdent := ndIdent old, smDirty := False,
     smRecoveryState := ''rolled-back-interrupted-checkpoint''\<rparr>"
  define mnode where "mnode = \<lparr>ndIdent = wNext w1, ndContent = MetaFile md1\<rparr>"
  obtain w2 where w2: "atomic_write MetadataJson (MetaFile md1) w1 = (None, w2)" "calm w2"
    "wDir w2 = (wDir w1)(MetadataJson := Some mnode, ManagedTmp := None)"
    using atomic_write_calm [OF w1(2), of MetadataJson "\<lambda>_. True" "MetaFile md1"]
    by (auto simp: mnode_def trail_def)
  define w3 where "w3 = without PreviousJson w2"
  have c3: "calm w3" using w2(2) by (simp add: w3_def)
  obtain w4 where w4: "remove_staged [CheckpointTmp, RestoreTmp, SelectedTmp, UploadTmp] w3 = (None, w4)" "calm w4"
    "wDir w4 = (\<lambda>n. if n \<in> set [CheckpointTmp, RestoreTmp, SelectedTmp, UploadTmp] then None else wDir w3 n)"
    using remove_staged_calm [OF c3] by blast
  have d4: "wDir w4 n = wDir w1 n"
    if "n \<notin> {CheckpointTmp, RestoreTmp, SelectedTmp, UploadTmp, PreviousJson, MetadataJson, ManagedTmp}" for n
    using that by (auto simp: w4(3) w3_def w2(3))
  have "roll_back spec marker md w = (None, w4)"
    using md(1,3) w1(4)
    by (simp add: roll_back_def hash w1(1,2) calm_lstat(1) [OF w1(2)] Let_def md1_def [symmetric] w2(1,2)
        calm_tolerant_remove w3_def [symmetric] w4(1,2) calm_nop del: remove_staged.simps)
  moreover have "recovered spec old base j w4"
    using md w1(3,4,5) rest base
    by (auto simp: recovered_def shape_before_def shape_parts d4 w4(2))
      (simp_all add: w4(3) w3_def w2(3) mnode_def md1_def meta_record_def meta_matches_def)
  ultimately show ?thesis by blast
qed

lemma recover_with_previous:
  assumes calm: "calm w" and prev_ok: "previous_ok spec old base (wDir w)" and meta: "meta_for spec other (wDir w)"
    and base: "ndContent old = Raw base" "int (length base) = soCardSize spec"
    and rest: "journal_is j (wDir w)" "unstaged (wDir w)"
    and linked: "\<forall>nd. wDir w ActiveRaw = Some nd \<longrightarrow> ndIdent nd = ndIdent old \<longrightarrow> nd = old"
  shows "\<exists>w'. recover_interrupted_activation spec w = (None, w') \<and> recovered spec old base j w'"
proof -
  have prev: "wDir w PreviousRaw = Some old" using prev_ok by (simp add: previous_ok_def)
  have raw: "raw_of (ndContent old) = base" using base(1) by (simp add: raw_of_def)
  show ?thesis
  proof (cases "wDir w PreviousJson")
    case (Some nd)
    with prev_ok obtain md where md: "ndContent nd = MetaFile md" "meta_matches spec md"
      "smFormatVersion md = save_overlay_format_version" "smSHA256 md = hash_raw base"
      by (auto simp: previous_ok_def meta_record_def)
    have "recover_interrupted_activation spec w = roll_back spec True md w"
      using calm prev raw base(2) read_meta_calm(1) [OF calm Some md(1)]
      by (simp add: recover_interrupted_activation_def calm_lstat)
    with roll_back_calm [OF calm prev_ok md(2,3) _ base rest linked] md(4) show ?thesis by auto
  next
    case None
    from meta obtain nd md where md: "wDir w MetadataJson = Some nd" "ndContent nd = MetaFile md"
      "smFormatVersion md = save_overlay_format_version" by (auto simp: meta_for_def meta_record_def)
    define md1 where "md1 = md\<lparr>smMode := soMode spec, smGameID := soGameID spec,
       smSharedCardName := soSharedCardName spec, smCardSize := soCardSize spec\<rparr>"
    have "recover_interrupted_activation spec w = roll_back spec False md1 w"
      using calm prev raw base(2) None read_meta_calm(1) [OF calm md(1,2)]
      by (simp add: recover_interrupted_activation_def calm_simps md1_def)
    with roll_back_calm [OF calm prev_ok, of md1 False] base rest linked md(3) show ?thesis
      by (auto simp: md1_def meta_matches_def)
  qed
qed

lemma recover_without_previous:
  assumes "calm w" "wDir w PreviousRaw = None"
  shows "recover_interrupted_activation spec w = (None, without PreviousJson w)"
  using assms by (simp add: recover_interrupted_activation_def calm_simps)

lemma recover_shape:
  assumes "calm w" "shape spec old base fresh j (wDir w)" "ndContent old = Raw base"
    "int (length base) = soCardSize spec"
  shows "\<exists>w' nd B j'. recover_interrupted_activation spec w = (None, w') \<and> recovered spec nd B j' w' \<and>
    (B = base \<and> j' = j \<or> B = fresh \<and> (j' = j \<or> j' = []))"
  using assms(2) unfolding shape_def
proof (elim disjE)
  assume before: "shape_before spec old base j (wDir w)"
  show ?thesis
  proof (cases "wDir w PreviousRaw")
    case None
    with before assms(1,3) have "recovered spec old base j (without PreviousJson w)"
      by (auto simp: recovered_def shape_before_def shape_parts)
    with recover_without_previous [OF assms(1) None] show ?thesis by blast
  next
    case (Some nd)
    with before have "previous_ok spec old base (wDir w)" by (simp add: shape_before_def)
    from recover_with_previous [OF assms(1) this _ assms(3,4), of base j] before show ?thesis
      unfolding shape_before_def by fastforce
  qed
next
  assume between: "shape_between spec old base fresh j (wDir w)"
  then obtain other where "meta_for spec other (wDir w)" by (auto simp: shape_between_def)
  from recover_with_previous [OF assms(1) _ this assms(3,4), of j] between show ?thesis
    unfolding shape_between_def by fastforce
next
  assume after: "shape_after spec fresh j (wDir w)"
  then obtain i where i: "wDir w ActiveRaw = Some \<lparr>ndIdent = i, ndContent = Raw fresh\<rparr>"
    and none: "wDir w PreviousRaw = None" by (auto simp: shape_after_def)
  from after obtain j' where j': "journal_is j' (wDir w)" "j' = j \<or> j' = []" by (auto simp: shape_after_def)
  have "recovered spec \<lparr>ndIdent = i, ndContent = Raw fresh\<rparr> fresh j' (without PreviousJson w)"
    using after i j'(1) assms(1) none
    by (auto simp: recovered_def shape_after_def shape_before_def shape_parts)
  with recover_without_previous [OF assms(1) none] j'(2) show ?thesis by blast
qed

section \<open>Opening the recovered card\<close>

definition confirmed_meta :: "save_object \<Rightarrow> byte list \<Rightarrow> save_metadata \<Rightarrow> bool" where
  "confirmed_meta spec B md \<longleftrightarrow> smFormatVersion md = save_overlay_format_version \<and>
     meta_matches spec md \<and> smSHA256 md = hash_raw B"

lemma recovered_metadata_update:
  assumes "recovered spec nd B j w" "confirmed_meta spec B md"
  shows "\<exists>w'. atomic_write MetadataJson (MetaFile md) w = (None, w') \<and> recovered spec nd B j w'"
proof -
  have calm: "calm w" using assms(1) by (simp add: recovered_def)
  obtain w' where w': "atomic_write MetadataJson (MetaFile md) w = (None, w')" "calm w'"
    "wDir w' = (wDir w)(MetadataJson := Some \<lparr>ndIdent = wNext w, ndContent = MetaFile md\<rparr>, ManagedTmp := None)"
    using atomic_write_calm [OF calm, of MetadataJson "\<lambda>_. True" "MetaFile md"] by (auto simp: trail_def)
  with assms have "recovered spec nd B j w'"
    by (auto simp: recovered_def shape_before_def shape_parts meta_record_def confirmed_meta_def)
  with w'(1) show ?thesis by blast
qed

lemma validate_recovered:
  assumes "recovered spec nd B j w" "int (length B) = soCardSize spec"
  shows "\<exists>w' md. validate_card_files spec w = (Inr md, w') \<and> recovered spec nd B j w' \<and> confirmed_meta spec B md"
proof -
  have calm: "calm w" and before: "shape_before spec nd B j (wDir w)" and raw: "ndContent nd = Raw B"
    using assms(1) by (auto simp: recovered_def)
  have act: "wDir w ActiveRaw = Some nd" using before by (simp add: shape_before_def)
  from before obtain mn md where md: "wDir w MetadataJson = Some mn" "ndContent mn = MetaFile md"
    "confirmed_meta spec B md" by (auto simp: shape_before_def meta_for_def meta_record_def confirmed_meta_def)
  note read = read_meta_calm(1) [OF calm md(1,2)]
  note hash = hash_regular_file_calm [OF calm act raw assms(2)]
  define md1 where "md1 = md\<lparr>smIdent := ndIdent nd\<rparr>"
  have md1: "confirmed_meta spec B md1" using md(3) by (simp add: confirmed_meta_def md1_def meta_matches_def)
  obtain w' where w': "atomic_write MetadataJson (MetaFile md1) w = (None, w')" "recovered spec nd B j w'"
    using recovered_metadata_update [OF assms(1) md1] by blast
  show ?thesis
  proof (cases "size_identity_matches md nd")
    case True
    with act raw assms md(3) show ?thesis
      by (auto simp: validate_card_files_def calm_lstat [OF calm] read raw_of_def confirmed_meta_def)
  next
    case False
    with act raw assms md(3) md1 w' show ?thesis
      by (auto simp: validate_card_files_def calm_lstat [OF calm] read raw_of_def hash Let_def
          confirmed_meta_def md1_def)
  qed
qed

lemma reject_conflicts_recovered:
  assumes "recovered spec nd B j w"
  shows "\<exists>w'. reject_checkpoint_conflicts w = (None, w') \<and> recovered spec nd B j w'"
proof -
  have calm: "calm w" and un: "unstaged (wDir w)"
    using assms by (auto simp: recovered_def shape_before_def)
  have rec: "recovered spec nd B j (without CheckpointTmp w)"
    using assms calm by (simp add: recovered_def)
  show ?thesis
  proof (cases "wDir w CheckpointTmp")
    case None
    with un have "filter (\<lambda>n. wDir w n \<noteq> None) staged_names = []"
      by (simp add: staged_names_def unstaged_def)
    with calm assms show ?thesis by (simp add: reject_checkpoint_conflicts_def calm_nop Let_def)
  next
    case (Some x)
    with un have "filter (\<lambda>n. wDir w n \<noteq> None) staged_names = [CheckpointTmp]"
      by (simp add: staged_names_def unstaged_def)
    with calm Some rec show ?thesis
      by (simp add: reject_checkpoint_conflicts_def calm_nop Let_def calm_lstat calm_remove without_def)
  qed
qed

lemma open_journal_recovered:
  assumes "recovered spec nd B j w"
  shows "open_journal w = (Inr (int (length j)), w) \<and> journal_bytes w = j"
proof -
  have calm: "calm w" and "journal_is j (wDir w)" using assms by (auto simp: recovered_def shape_before_def)
  then obtain nd where "wDir w PendingLog = Some nd" "journal_bytes w = j"
    by (auto simp: journal_is_def journal_bytes_def raw_of_def)
  with calm show ?thesis by (simp add: open_journal_def calm_nop)
qed

definition opened_card :: "save_object \<Rightarrow> byte list \<Rightarrow> save_metadata \<Rightarrow> int \<Rightarrow> world \<Rightarrow> save_card" where
  "opened_card spec B md n w = \<lparr>scSpec = spec, scFile = Some B, scMetadata = md, scDirty = [],
     scPending = 0, scJournalBytes = n, scBlocked = False, scWorld = w\<rparr>"

lemma open_recovered:
  assumes "recover_interrupted_activation spec w = (None, w1)" "recovered spec nd B j w1"
    "int (length B) = soCardSize spec"
  shows "\<exists>w2 md. recovered spec nd B j w2 \<and> confirmed_meta spec B md \<and>
    open_object cfg spec w =
      (let card = opened_card spec B md (int (length j)) w2
       in if j = [] then (Inr card, w2)
          else case load_journal cfg card of
            (Some err, c1) \<Rightarrow> (Inl err, scWorld c1)
          | (None, c1) \<Rightarrow>
              (case flush_card cfg (c1\<lparr>scMetadata := (scMetadata c1)\<lparr>smRecoveryState := ''journal-recovery''\<rparr>\<rparr>) of
                 (Some err, c2) \<Rightarrow> (Inl (Wrap ''SAVE-RECOVERY-AMBIGUOUS'' err), scWorld c2)
               | (None, c2) \<Rightarrow> (Inr c2, scWorld c2)))"
proof -
  obtain w2 md where w2: "validate_card_files spec w1 = (Inr md, w2)" "recovered spec nd B j w2" "confirmed_meta spec B md"
    using validate_recovered [OF assms(2,3)] by blast
  have calm: "calm w2" and act: "wDir w2 ActiveRaw = Some nd" and raw: "ndContent nd = Raw B"
    using w2(2) by (auto simp: recovered_def shape_before_def)
  obtain w3 where w3: "reject_checkpoint_conflicts w2 = (None, w3)" "recovered spec nd B j w3"
    using reject_conflicts_recovered [OF w2(2)] by blast
  have "open_object cfg spec w = (let card = opened_card spec B md (int (length j)) w3
       in if j = [] then (Inr card, w3)
          else case load_journal cfg card of
            (Some err, c1) \<Rightarrow> (Inl err, scWorld c1)
          | (None, c1) \<Rightarrow>
              (case flush_card cfg (c1\<lparr>scMetadata := (scMetadata c1)\<lparr>smRecoveryState := ''journal-recovery''\<rparr>\<rparr>) of
                 (Some err, c2) \<Rightarrow> (Inl (Wrap ''SAVE-RECOVERY-AMBIGUOUS'' err), scWorld c2)
               | (None, c2) \<Rightarrow> (Inr c2, scWorld c2)))"
    using w2(3) raw
    by (simp add: open_object_def assms(1) w2(1) calm_lstat(1) [OF calm act] w3(1)
        open_journal_recovered [OF w3(2)] Let_def opened_card_def raw_of_def confirmed_meta_def)
  with w3(2) w2(3) show ?thesis by blast
qed

text \<open>The journal of a recovered card is replayed and checkpointed.\<close>

lemma open_replays:
  assumes "recover_interrupted_activation spec w = (None, w1)" "recovered spec nd B (encode_journal recs) w1"
    and base: "base_ok (soCardSize spec) B" "soCardSize spec \<le> maximum_save_card_size"
    and recs: "\<forall>r \<in> set recs. record_ok (soCardSize spec) r" "recs \<noteq> []"
    and room: "record_bytes recs \<le> cfMaxPendingBytes cfg" "int (length (encode_journal recs)) \<le> cfMaxJournalBytes cfg"
  shows "\<exists>c w'. open_object cfg spec w = (Inr c, w') \<and> scSpec c = spec \<and> scDirty c = [] \<and>
    scFile c = Some (byte_range (patches (\<lambda>p. B ! nat p) recs) 0 (length B))"
proof -
  let ?j = "encode_journal recs" and ?F = "\<lambda>p. B ! nat p"
  have len: "int (length B) = soCardSize spec" using base(1) by (simp add: base_ok_def)
  obtain w2 md where w2: "recovered spec nd B ?j w2" "confirmed_meta spec B md"
    and op: "open_object cfg spec w =
      (let card = opened_card spec B md (int (length ?j)) w2
       in if ?j = [] then (Inr card, w2)
          else case load_journal cfg card of
            (Some err, c1) \<Rightarrow> (Inl err, scWorld c1)
          | (None, c1) \<Rightarrow>
              (case flush_card cfg (c1\<lparr>scMetadata := (scMetadata c1)\<lparr>smRecoveryState := ''journal-recovery''\<rparr>\<rparr>) of
                 (Some err, c2) \<Rightarrow> (Inl (Wrap ''SAVE-RECOVERY-AMBIGUOUS'' err), scWorld c2)
               | (None, c2) \<Rightarrow> (Inr c2, scWorld c2)))"
    using open_recovered [OF assms(1,2) len, of cfg] by blast
  have calm: "calm w2" and before: "shape_before spec nd B ?j (wDir w2)" and raw: "ndContent nd = Raw B"
    using w2(1) by (auto simp: recovered_def)
  have ne: "?j \<noteq> []"
  proof -
    from recs(2) obtain off bs rs where "recs = (off, bs) # rs" by (cases recs) auto
    moreover have "journal_header off bs \<noteq> []" by (simp flip: length_0_conv)
    ultimately show ?thesis by (simp add: encode_journal_def)
  qed
  have "dirty_ok (soCardSize spec) []" by (simp add: dirty_ok_def)
  from load_records_encode [OF recs(1) calm base(1,2) this, of 0 cfg ?F] room(1)
  obtain dirty where dirty: "load_records cfg (soCardSize spec) (Some B) ?j 0 [] w2 = (Inr (record_bytes recs), dirty, w2)"
    "dirty_ok (soCardSize spec) dirty" "dirty \<noteq> []"
    "\<forall>p. 0 \<le> p \<longrightarrow> p < soCardSize spec \<longrightarrow> overlay_byte dirty B p = patches ?F recs p"
    using recs(2) by (auto simp: overlay_byte_def)
  define c1 where "c1 = (opened_card spec B md (int (length ?j)) w2)\<lparr>scDirty := dirty, scPending := record_bytes recs\<rparr>"
  have ld: "load_journal cfg (opened_card spec B md (int (length ?j)) w2) = (None, c1)"
    using room(2) dirty(1) open_journal_recovered [OF w2(1)]
    by (simp add: load_journal_def opened_card_def calm_nop [OF calm] c1_def)
  define c1' where "c1' = c1\<lparr>scMetadata := (scMetadata c1)\<lparr>smRecoveryState := ''journal-recovery''\<rparr>\<rparr>"
  have "card_ready nd B ?j c1'"
    using calm base(1) dirty(2) raw before w2(2)
    by (simp add: card_ready_def c1'_def c1_def opened_card_def confirmed_meta_def meta_matches_def)
  moreover have "scDirty c1' \<noteq> []" using dirty(3) by (simp add: c1'_def c1_def)
  ultimately obtain w' m where fl: "flush_card cfg c1' = (None, c1'\<lparr>scFile := Some (merged B (scDirty c1')),
      scMetadata := m, scDirty := [], scPending := 0, scJournalBytes := 0, scWorld := w'\<rparr>)"
    using flush_card_calm by blast
  have "merged B dirty = byte_range (patches ?F recs) 0 (length B)"
    unfolding merged_def using dirty(4) len by (intro byte_range_cong) simp
  moreover have "scDirty c1' = dirty" by (simp add: c1'_def c1_def)
  moreover have "scSpec c1' = spec" by (simp add: c1'_def c1_def opened_card_def)
  ultimately show ?thesis
    using op ne fl by (simp add: Let_def ld c1'_def [symmetric])
qed

end
