(* ===== verification/Save_Session.thy ===== *)
theory Save_Session
  imports Save_Reopen
begin

text \<open>
  What a client of one card of the save overlay (\<open>server/host-daemon/gamecube/saveoverlay.go\<close>)
  is promised: reads see the confirmed card under the writes so far, a write is journalled
  before it is visible, and a crash between two calls or at any
  moment of a checkpoint loses nothing that was acknowledged.
\<close>

section \<open>The invariant of a card in use\<close>

definition card_base :: "save_card \<Rightarrow> byte list" where
  "card_base c = (case scFile c of None \<Rightarrow> [] | Some b \<Rightarrow> b)"

definition card_contents :: "save_card \<Rightarrow> int \<Rightarrow> byte" where
  "card_contents c = overlay_byte (scDirty c) (card_base c)"

definition base_contents :: "save_card \<Rightarrow> int \<Rightarrow> byte" where
  "base_contents c p = card_base c ! nat p"

text \<open>
  \<open>journalled cfg recs c\<close>: the files are those of a card at rest, the journal holds \<open>recs\<close>
  within its bounds, and the dirty blocks are what replaying \<open>recs\<close> gives.
\<close>

definition journalled :: "store_config \<Rightarrow> save_record list \<Rightarrow> save_card \<Rightarrow> bool" where
  "journalled cfg recs c \<longleftrightarrow>
     (\<exists>old. card_ready old (card_base c) (encode_journal recs) c) \<and>
     soCardSize (scSpec c) \<le> maximum_save_card_size \<and>
     list_all (record_ok (soCardSize (scSpec c))) recs \<and>
     (scDirty c = [] \<longleftrightarrow> recs = []) \<and> \<not> scBlocked c \<and>
     scPending c = record_bytes recs \<and> scPending c \<le> cfMaxPendingBytes cfg \<and>
     scJournalBytes c = int (length (encode_journal recs)) \<and> scJournalBytes c \<le> cfMaxJournalBytes cfg \<and>
     (\<forall>p. 0 \<le> p \<longrightarrow> p < soCardSize (scSpec c) \<longrightarrow> card_contents c p = patches (base_contents c) recs p)"

lemma encode_journal_simps [simp]:
  "encode_journal [] = []"
  "encode_journal (recs @ [(off, bs)]) = encode_journal recs @ journal_header off bs @ bs"
  by (simp_all add: encode_journal_def)

lemma patches_snoc: "patches f (recs @ [(off, bs)]) = patch (patches f recs) off bs"
  by (simp add: patches_def)

lemma record_bytes_snoc [simp]: "record_bytes (recs @ [(off, bs)]) = record_bytes recs + int (length bs)"
  by (simp add: record_bytes_def)

lemma card_base_file: "scFile c = Some b \<Longrightarrow> card_base c = b"
  by (simp add: card_base_def)

lemma journalled_file: "journalled cfg recs c \<Longrightarrow> scFile c = Some (card_base c)"
  by (auto simp: journalled_def card_ready_def)

lemma merged_byte:
  "base_ok sz base \<Longrightarrow> 0 \<le> p \<Longrightarrow> p < sz \<Longrightarrow> merged base dirty ! nat p = overlay_byte dirty base p"
  by (simp add: merged_def base_ok_def nth_byte_range nat_less_iff)

section \<open>Checkpoints keep the contents\<close>

lemma flush_journalled:
  assumes "journalled cfg recs c"
  shows "\<exists>c'. flush_card cfg c = (None, c') \<and> journalled cfg [] c' \<and> scSpec c' = scSpec c \<and>
    (\<forall>p. 0 \<le> p \<longrightarrow> p < soCardSize (scSpec c) \<longrightarrow> card_contents c' p = card_contents c p)"
proof (cases "scDirty c = []")
  case True
  with assms show ?thesis by (auto simp: flush_card_def journalled_def)
next
  case False
  let ?sz = "soCardSize (scSpec c)" and ?fresh = "merged (card_base c) (scDirty c)"
  from assms obtain old where ready: "card_ready old (card_base c) (encode_journal recs) c"
    by (auto simp: journalled_def)
  then have base: "base_ok ?sz (card_base c)" by (simp add: card_ready_def)
  from flush_card_calm [OF ready False] obtain w' md where
    fl: "flush_card cfg c = (None, c\<lparr>scFile := Some ?fresh, scMetadata := md, scDirty := [],
      scPending := 0, scJournalBytes := 0, scWorld := w'\<rparr>)"
    and tr: "trail (shape (scSpec c) old (card_base c) ?fresh (encode_journal recs)) (scWorld c) w'"
    and sh: "shape_after (scSpec c) ?fresh [] (wDir w')"
    and md: "smFormatVersion md = save_overlay_format_version" "meta_matches (scSpec c) md" "smSHA256 md = hash_raw ?fresh"
    by blast
  define c' where "c' = c\<lparr>scFile := Some ?fresh, scMetadata := md, scDirty := [],
      scPending := 0, scJournalBytes := 0, scWorld := w'\<rparr>"
  from sh obtain i where i: "wDir w' ActiveRaw = Some \<lparr>ndIdent = i, ndContent = Raw ?fresh\<rparr>"
    by (auto simp: shape_after_def)
  have "card_ready \<lparr>ndIdent = i, ndContent = Raw ?fresh\<rparr> ?fresh [] c'"
    using base sh i md tr
    by (auto simp: card_ready_def c'_def base_ok_def dirty_ok_def trail_def shape_after_def shape_before_def)
  moreover have "card_base c' = ?fresh" by (simp add: c'_def card_base_def)
  moreover have "card_contents c' p = card_contents c p" if "0 \<le> p" "p < ?sz" for p
    using merged_byte [OF base that] \<open>card_base c' = ?fresh\<close>
    by (simp add: card_contents_def c'_def overlay_byte_def)
  moreover have "0 \<le> cfMaxPendingBytes cfg" "0 \<le> cfMaxJournalBytes cfg"
    using assms record_bytes_nonneg [of recs] by (simp_all add: journalled_def)
  ultimately show ?thesis
    using assms fl
    by (auto simp: journalled_def c'_def [symmetric])
      (auto simp: c'_def card_contents_def base_contents_def overlay_byte_def patches_def)
qed

section \<open>Writes\<close>

lemma journal_write_calm:
  assumes "calm w" "shape_before spec nd B j (wDir w)"
  shows "\<exists>w'. journal_write bs w = (None, w') \<and> calm w' \<and> shape_before spec nd B (j @ bs) (wDir w')"
proof -
  from assms(2) obtain jn where jn: "wDir w PendingLog = Some jn" "ndContent jn = Raw j"
    by (auto simp: shape_before_def journal_is_def)
  then have jb: "journal_bytes w = j" by (simp add: journal_bytes_def raw_of_def)
  obtain w' where w': "sys_write PendingLog (length j) bs w = (None, w')" "calm w'"
    "wDir w' = (wDir w)(PendingLog := Some (jn\<lparr>ndContent := Raw (write_prefix j (length j) bs (length bs))\<rparr>))"
    using sys_write_calm [OF assms(1) jn(1), of "\<lambda>_. True" "length j" bs] jn(2) by (auto simp: trail_def raw_of_def)
  have "write_prefix j (length j) bs (length bs) = j @ bs" by (simp add: write_prefix_def)
  with w' assms(2) have "shape_before spec nd B (j @ bs) (wDir w')"
    by (auto simp: shape_before_def shape_parts)
  with w'(1,2) show ?thesis by (simp add: journal_write_def jb)
qed

lemma append_journal_calm:
  assumes "calm w" "shape_before spec nd B j (wDir w)"
  shows "\<exists>w'. append_journal off buf w = (None, w') \<and> calm w' \<and>
    shape_before spec nd B (j @ journal_header off buf @ buf) (wDir w')"
proof -
  obtain w1 where w1: "journal_write (journal_header off buf) w = (None, w1)" "calm w1"
    "shape_before spec nd B (j @ journal_header off buf) (wDir w1)"
    using journal_write_calm [OF assms] by blast
  obtain w2 where "journal_write buf w1 = (None, w2)" "calm w2"
    "shape_before spec nd B ((j @ journal_header off buf) @ buf) (wDir w2)"
    using journal_write_calm [OF w1(2,3)] by blast
  with w1(1) show ?thesis by (simp add: append_journal_def calm_nop)
qed

lemma patch_cong: "(p \<notin> {off..<off + int (length bs)} \<Longrightarrow> f p = g p) \<Longrightarrow> patch f off bs p = patch g off bs p"
  by (auto simp: patch_def)

text \<open>One write that needs no checkpoint: journalled first, then visible.\<close>

lemma write_journalled:
  assumes inv: "journalled cfg recs c" and rec: "record_ok (soCardSize (scSpec c)) (off, buf)"
    and room: "scPending c + int (length buf) \<le> cfMaxPendingBytes cfg"
      "scJournalBytes c + int (length buf) + 52 \<le> cfMaxJournalBytes cfg"
  shows "\<exists>w dirty. append_journal off buf (scWorld c) = (None, w) \<and>
    apply_blocks (scFile c) off buf 0 (scDirty c) w = ((length buf, None), dirty, w) \<and>
    (let c' = c\<lparr>scDirty := dirty, scWorld := w, scPending := scPending c + int (length buf),
           scJournalBytes := scJournalBytes c + int (length buf) + 52,
           scMetadata := (scMetadata c)\<lparr>smDirty := True\<rparr>\<rparr>
     in journalled cfg (recs @ [(off, buf)]) c' \<and>
       (\<forall>p. 0 \<le> p \<longrightarrow> p < soCardSize (scSpec c) \<longrightarrow> card_contents c' p = patch (card_contents c) off buf p))"
proof -
  let ?sz = "soCardSize (scSpec c)" and ?B = "card_base c"
  from inv obtain old where ready: "card_ready old ?B (encode_journal recs) c" by (auto simp: journalled_def)
  then have calm: "calm (scWorld c)" and base: "base_ok ?sz ?B" and dok: "dirty_ok ?sz (scDirty c)"
    and before: "shape_before (scSpec c) old ?B (encode_journal recs) (wDir (scWorld c))"
    by (simp_all add: card_ready_def)
  have fl: "scFile c = Some ?B" by (rule journalled_file [OF inv])
  have bounds: "0 \<le> off" "off + int (length buf) \<le> ?sz" "buf \<noteq> []" using rec by (simp_all add: record_ok_def)
  obtain w where w: "append_journal off buf (scWorld c) = (None, w)" "calm w"
    "shape_before (scSpec c) old ?B (encode_journal recs @ journal_header off buf @ buf) (wDir w)"
    using append_journal_calm [OF calm before] by blast
  obtain dirty where dirty: "apply_blocks (Some ?B) off buf 0 (scDirty c) w = ((length buf, None), dirty, w)" "dirty \<noteq> []"
    using apply_blocks_calm [OF w(2) base bounds(1,2), of 0 "scDirty c"] bounds(3) by auto
  have "\<forall>p. 0 \<le> p \<longrightarrow> p < ?sz \<longrightarrow> overlay_byte (scDirty c) ?B p = patch (card_contents c) off (take 0 buf) p"
    by (auto simp: patch_def card_contents_def)
  from apply_blocks_sound [OF dirty(1) base dok bounds(1,2) _ this]
  have post: "dirty_ok ?sz dirty" "\<forall>p. 0 \<le> p \<longrightarrow> p < ?sz \<longrightarrow> overlay_byte dirty ?B p = patch (card_contents c) off buf p"
    by (simp_all add: apply_post_def)
  define c' where "c' = c\<lparr>scDirty := dirty, scWorld := w, scPending := scPending c + int (length buf),
           scJournalBytes := scJournalBytes c + int (length buf) + 52,
           scMetadata := (scMetadata c)\<lparr>smDirty := True\<rparr>\<rparr>"
  have cb: "card_base c' = ?B" "base_contents c' = base_contents c"
    by (simp_all add: c'_def card_base_def base_contents_def fun_eq_iff)
  have ready': "card_ready old ?B (encode_journal (recs @ [(off, buf)])) c'"
    using ready w(2,3) post(1) by (simp add: card_ready_def c'_def meta_matches_def)
  have vis: "card_contents c' p = patch (card_contents c) off buf p" if "0 \<le> p" "p < ?sz" for p
    using post(2) that by (simp add: card_contents_def cb) (simp add: c'_def)
  have "patch (card_contents c) off buf p = patches (base_contents c) (recs @ [(off, buf)]) p"
    if "0 \<le> p" "p < ?sz" for p
    unfolding patches_snoc using inv that by (intro patch_cong) (simp add: journalled_def)
  with vis ready' inv rec room dirty(2) have "journalled cfg (recs @ [(off, buf)]) c'"
    unfolding journalled_def cb by (auto simp: c'_def)
  with w(1) dirty(1) vis show ?thesis
    by (auto simp: fl Let_def c'_def)
qed

lemma flush_if_journalled:
  assumes "journalled cfg recs c"
  shows "\<exists>c' recs'. (if b then flush_card cfg c else (None, c)) = (None, c') \<and> journalled cfg recs' c' \<and>
    scSpec c' = scSpec c \<and> (if b then recs' = [] else c' = c) \<and>
    (\<forall>p. 0 \<le> p \<longrightarrow> p < soCardSize (scSpec c) \<longrightarrow> card_contents c' p = card_contents c p)"
  using assms flush_journalled [OF assms] by (cases b) auto

lemma card_write_journalled:
  assumes inv: "journalled cfg recs c" and rec: "record_ok (soCardSize (scSpec c)) (off, buf)"
    and fits: "int (length buf) \<le> cfMaxPendingBytes cfg" "int (length buf) + 52 \<le> cfMaxJournalBytes cfg"
      "(off + int (length buf) - 1) div 512 - off div 512 + 1 \<le> cfMaxDirtyBlocks cfg"
  shows "\<exists>c' recs'. card_write cfg buf off c = ((length buf, None), c') \<and> journalled cfg recs' c' \<and>
    scSpec c' = scSpec c \<and>
    (\<forall>p. 0 \<le> p \<longrightarrow> p < soCardSize (scSpec c) \<longrightarrow> card_contents c' p = patch (card_contents c) off buf p)"
proof -
  let ?n = "int (length buf)" and ?sz = "soCardSize (scSpec c)"
  define b1 where "b1 \<longleftrightarrow> scPending c + ?n > cfMaxPendingBytes cfg \<or> scJournalBytes c + ?n + 52 > cfMaxJournalBytes cfg"
  obtain c1 r1 where c1: "(if b1 then flush_card cfg c else (None, c)) = (None, c1)" "journalled cfg r1 c1"
    "scSpec c1 = scSpec c" "if b1 then r1 = [] else c1 = c"
    "\<forall>p. 0 \<le> p \<longrightarrow> p < ?sz \<longrightarrow> card_contents c1 p = card_contents c p"
    using flush_if_journalled [OF inv, of b1] by blast
  define b2 where "b2 \<longleftrightarrow> int (length (scDirty c1)) + new_blocks (scDirty c1) (off div 512) ((off + ?n - 1) div 512)
      > cfMaxDirtyBlocks cfg"
  obtain c2 r2 where c2: "(if b2 then flush_card cfg c1 else (None, c1)) = (None, c2)" "journalled cfg r2 c2"
    "scSpec c2 = scSpec c1" "if b2 then r2 = [] else c2 = c1"
    "\<forall>p. 0 \<le> p \<longrightarrow> p < ?sz \<longrightarrow> card_contents c2 p = card_contents c1 p"
    using flush_if_journalled [OF c1(2), of b2] c1(3) by auto
  have room1: "scPending c1 + ?n \<le> cfMaxPendingBytes cfg" "scJournalBytes c1 + ?n + 52 \<le> cfMaxJournalBytes cfg"
  proof -
    have "b1 \<Longrightarrow> scPending c1 = 0 \<and> scJournalBytes c1 = 0" using c1(2,4) by (simp add: journalled_def)
    with fits show "scPending c1 + ?n \<le> cfMaxPendingBytes cfg" "scJournalBytes c1 + ?n + 52 \<le> cfMaxJournalBytes cfg"
      using c1(4) by (cases b1; simp add: b1_def)+
  qed
  have room2: "scPending c2 + ?n \<le> cfMaxPendingBytes cfg" "scJournalBytes c2 + ?n + 52 \<le> cfMaxJournalBytes cfg"
  proof -
    have "b2 \<Longrightarrow> scPending c2 = 0 \<and> scJournalBytes c2 = 0" using c2(2,4) by (simp add: journalled_def)
    with fits room1 show "scPending c2 + ?n \<le> cfMaxPendingBytes cfg" "scJournalBytes c2 + ?n + 52 \<le> cfMaxJournalBytes cfg"
      using c2(4) by (cases b2; simp)+
  qed
  have rec2: "record_ok (soCardSize (scSpec c2)) (off, buf)" using rec c1(3) c2(3) by simp
  obtain w dirty where w: "append_journal off buf (scWorld c2) = (None, w)"
    "apply_blocks (scFile c2) off buf 0 (scDirty c2) w = ((length buf, None), dirty, w)"
    "let c' = c2\<lparr>scDirty := dirty, scWorld := w, scPending := scPending c2 + ?n,
           scJournalBytes := scJournalBytes c2 + ?n + 52, scMetadata := (scMetadata c2)\<lparr>smDirty := True\<rparr>\<rparr>
     in journalled cfg (r2 @ [(off, buf)]) c' \<and>
       (\<forall>p. 0 \<le> p \<longrightarrow> p < soCardSize (scSpec c2) \<longrightarrow> card_contents c' p = patch (card_contents c2) off buf p)"
    using write_journalled [OF c2(2) rec2 room2] by blast
  define c' where "c' = c2\<lparr>scDirty := dirty, scWorld := w, scPending := scPending c2 + ?n,
           scJournalBytes := scJournalBytes c2 + ?n + 52, scMetadata := (scMetadata c2)\<lparr>smDirty := True\<rparr>\<rparr>"
  have ok: "0 \<le> off" "buf \<noteq> []" "off + ?n \<le> ?sz" using rec by (simp_all add: record_ok_def)
  have "\<not> scBlocked c" using inv by (simp add: journalled_def)
  with ok fits have "card_write cfg buf off c = ((length buf, None), c')"
    using c1(1) c2(1) w(1,2) by (simp add: card_write_def Let_def b1_def b2_def c'_def)
  moreover have "journalled cfg (r2 @ [(off, buf)]) c'" using w(3) by (simp add: Let_def c'_def)
  moreover have "scSpec c' = scSpec c" by (simp add: c'_def c1(3) c2(3))
  moreover have "card_contents c' p = patch (card_contents c) off buf p" if "0 \<le> p" "p < ?sz" for p
  proof -
    have "card_contents c' p = patch (card_contents c2) off buf p"
      using w(3) that c1(3) c2(3) by (simp add: Let_def c'_def)
    also have "\<dots> = patch (card_contents c) off buf p" by (rule patch_cong) (simp add: c1(5) c2(5) that)
    finally show ?thesis .
  qed
  ultimately show ?thesis by blast
qed

section \<open>Properties\<close>

lemma encode_journal_empty [simp]: "encode_journal recs = [] \<longleftrightarrow> recs = []"
proof (cases recs)
  case (Cons r rs)
  moreover have "journal_header (fst r) (snd r) \<noteq> []" by (simp flip: length_0_conv)
  ultimately show ?thesis by (auto simp: encode_journal_def split_beta)
qed simp

lemma flush_seen_shapes:
  assumes inv: "journalled cfg recs c" and seen: "wSeen (scWorld c) = []"
    and d: "d = wDir (scWorld c) \<or> d \<in> set (wSeen (scWorld (snd (flush_card cfg c))))"
  shows "\<exists>old. ndContent old = Raw (card_base c) \<and>
    shape (scSpec c) old (card_base c) (merged (card_base c) (scDirty c)) (encode_journal recs) d"
proof -
  from inv obtain old where ready: "card_ready old (card_base c) (encode_journal recs) c"
    by (auto simp: journalled_def)
  then have s0: "ndContent old = Raw (card_base c)"
    "shape (scSpec c) old (card_base c) F (encode_journal recs) (wDir (scWorld c))" for F
    by (simp_all add: card_ready_def shape_def)
  show ?thesis
  proof (cases "scDirty c = []")
    case True
    with d seen s0 show ?thesis by (auto simp: flush_card_def)
  next
    case False
    from flush_card_calm [OF ready False, of cfg] seen d s0 show ?thesis
      by (auto simp: trail_def)
  qed
qed

text \<open>
  C1.  Crash safety of the save overlay.  For a card in use, take any state the card's
  directory goes through from the last acknowledged write to the end of a checkpoint
  (\<open>wSeen\<close> holds every one, torn writes of the candidate included) and open the card again
  from it: opening succeeds, nothing is left in the overlay, and every byte of the card is
  what a reader saw before the crash.
\<close>

theorem checkpoint_crash_safe:
  assumes "journalled cfg recs c" "wSeen (scWorld c) = []"
    and "d = wDir (scWorld c) \<or> d \<in> set (wSeen (scWorld (snd (flush_card cfg c))))"
    and "calm w" "wDir w = d"
  shows "\<exists>c' w'. open_object cfg (scSpec c) w = (Inr c', w') \<and> scSpec c' = scSpec c \<and> scDirty c' = [] \<and>
    (\<forall>p. 0 \<le> p \<longrightarrow> p < soCardSize (scSpec c) \<longrightarrow> card_contents c' p = card_contents c p)"
proof -
  let ?B0 = "card_base c" and ?j = "encode_journal recs" and ?sz = "soCardSize (scSpec c)"
  let ?fresh = "merged ?B0 (scDirty c)"
  from assms(1) have base: "base_ok ?sz ?B0" and small: "?sz \<le> maximum_save_card_size"
    by (auto simp: journalled_def card_ready_def)
  have contents: "card_contents c p = patches (\<lambda>p. ?B0 ! nat p) recs p" if "0 \<le> p" "p < ?sz" for p
    using assms(1) that by (simp add: journalled_def base_contents_def [abs_def])
  obtain old where "ndContent old = Raw ?B0" "shape (scSpec c) old ?B0 ?fresh ?j (wDir w)"
    using flush_seen_shapes [OF assms(1-3)] assms(5) by blast
  then obtain w1 nd B j' where w1: "recover_interrupted_activation (scSpec c) w = (None, w1)"
    "recovered (scSpec c) nd B j' w1" "B = ?B0 \<and> j' = ?j \<or> B = ?fresh \<and> (j' = ?j \<or> j' = [])"
    using recover_shape [OF assms(4), of "scSpec c" old ?B0 ?fresh ?j] base by (auto simp: base_ok_def)
  have okB: "base_ok ?sz B" using w1(3) base by (auto simp: base_ok_def)
  then have lenB: "int (length B) = ?sz" by (simp add: base_ok_def)
  have B: "patches (\<lambda>p. B ! nat p) recs p = card_contents c p" if "0 \<le> p" "p < ?sz" for p
  proof (cases "B = ?B0")
    case False
    with w1(3) have "B ! nat p = patches (\<lambda>p. ?B0 ! nat p) recs p"
      using merged_byte [OF base that] contents [OF that] by (simp add: card_contents_def)
    then have "patches (\<lambda>p. B ! nat p) recs p = patches (patches (\<lambda>p. ?B0 ! nat p) recs) recs p"
      by (rule patches_cong)
    with contents [OF that] show ?thesis by (simp add: patches_idem)
  qed (simp add: contents that)
  show ?thesis
  proof (cases "j' = []")
    case False
    with w1(3) have j': "j' = ?j" "recs \<noteq> []" by auto
    have "\<exists>c' w'. open_object cfg (scSpec c) w = (Inr c', w') \<and> scSpec c' = scSpec c \<and> scDirty c' = [] \<and>
        scFile c' = Some (byte_range (patches (\<lambda>p. B ! nat p) recs) 0 (length B))"
      by (rule open_replays [OF w1(1) w1(2) [unfolded j'] okB small])
        (use assms(1) j'(2) in \<open>auto simp: journalled_def list_all_iff\<close>)
    then obtain c' w' where c': "open_object cfg (scSpec c) w = (Inr c', w')" "scSpec c' = scSpec c" "scDirty c' = []"
      "scFile c' = Some (byte_range (patches (\<lambda>p. B ! nat p) recs) 0 (length B))" by blast
    have "card_contents c' p = card_contents c p" if "0 \<le> p" "p < ?sz" for p
      using c'(3,4) B [OF that] that lenB
      by (simp add: card_contents_def [of c'] card_base_def overlay_byte_def nth_byte_range nat_less_iff)
    with c' show ?thesis by blast
  next
    case True
    obtain w2 md where "open_object cfg (scSpec c) w = (Inr (opened_card (scSpec c) B md 0 w2), w2)"
      using open_recovered [OF w1(1,2) lenB, of cfg] True by auto
    moreover have "B ! nat p = card_contents c p" if "0 \<le> p" "p < ?sz" for p
    proof (cases "B = ?fresh")
      case True
      then show ?thesis using merged_byte [OF base that] by (simp add: card_contents_def)
    next
      case False
      with w1(3) \<open>j' = []\<close> have "B = ?B0" "recs = []" by (auto dest: sym)
      with contents [OF that] show ?thesis by (simp add: patches_def)
    qed
    ultimately show ?thesis
      by (auto simp: opened_card_def card_contents_def [of "opened_card _ _ _ _ _"] card_base_def overlay_byte_def
          card_contents_def)
  qed
qed

text \<open>A 512 KiB card with one acknowledged byte, for the witnesses.\<close>

definition demo_spec :: save_object where
  "demo_spec = \<lparr>soID = ''individual:GALE01'', soMode = MemoryCardEmulatedIndividual, soGameID = ''GALE01'',
     soSharedCardName = '''', soCardSize = 524288, soVirtualPath = ''/saves/GALE01.raw''\<rparr>"

definition demo_metadata :: save_metadata where
  "demo_metadata = \<lparr>smFormatVersion = 1, smMode = MemoryCardEmulatedIndividual, smGameID = ''GALE01'',
     smSharedCardName = '''', smCardSize = 524288, smSHA256 = hash_raw (zeros 524288), smApplication = '''',
     smGenerationID = '''', smDirty = True, smRecoveryState = ''clean'', smIdent = 0,
     smLastErrorCode = '''', smLastErrorMessage = ''''\<rparr>"

definition demo_config :: store_config where
  "demo_config = \<lparr>cfApplication = '''', cfGenerationID = ''g1'', cfMaxBackups = 10, cfMaxDirtyBlocks = 32768,
     cfMaxJournalBytes = 67108864, cfMaxPendingBytes = 16777216\<rparr>"

definition demo_dir :: "byte list \<Rightarrow> dir" where
  "demo_dir j = (\<lambda>_. None)(ActiveRaw := Some \<lparr>ndIdent = 0, ndContent = Raw (zeros 524288)\<rparr>,
     MetadataJson := Some \<lparr>ndIdent = 1, ndContent = MetaFile demo_metadata\<rparr>,
     PendingLog := Some \<lparr>ndIdent = 2, ndContent = Raw j\<rparr>)"

definition demo_card :: save_card where
  "demo_card = \<lparr>scSpec = demo_spec, scFile = Some (zeros 524288), scMetadata = demo_metadata,
     scDirty = [(0, 42 # zeros 511)], scPending = 1, scJournalBytes = 53, scBlocked = False,
     scWorld = \<lparr>wDir = demo_dir (journal_header 0 [42] @ [42]), wNext = 3, wFaults = [], wSeen = []\<rparr>\<rparr>"

lemma demo_card_journalled: "journalled demo_config [(0, [42])] demo_card"
proof -
  have enc: "encode_journal [(0, [42])] = journal_header 0 [42] @ [42]" by (simp add: encode_journal_def)
  have base: "card_base demo_card = zeros 524288" by (simp add: card_base_def demo_card_def)
  have calm: "calm (scWorld demo_card)" by (simp add: calm_def demo_card_def demo_dir_def)
  have shape: "shape_before demo_spec \<lparr>ndIdent = 0, ndContent = Raw (zeros 524288)\<rparr> (zeros 524288)
      (journal_header 0 [42] @ [42]) (wDir (scWorld demo_card))"
    by (simp add: shape_before_def shape_parts demo_card_def demo_dir_def meta_record_def demo_metadata_def
        meta_matches_def demo_spec_def)
  have ready: "card_ready \<lparr>ndIdent = 0, ndContent = Raw (zeros 524288)\<rparr> (zeros 524288)
      (journal_header 0 [42] @ [42]) demo_card"
    using calm shape
    by (simp add: card_ready_def demo_card_def base_ok_def dirty_ok_def demo_metadata_def meta_matches_def demo_spec_def)
  have "card_contents demo_card p = patches (base_contents demo_card) [(0, [42])] p" if p: "0 \<le> p" "p < 524288" for p
  proof (cases "p div 512 = 0")
    case True
    then have "p < 512" by auto
    then have "p mod 512 = p" using p by simp
    moreover have "base_contents demo_card p = 0" using p by (simp add: base_contents_def base)
    ultimately show ?thesis
      using True p \<open>p < 512\<close>
      by (auto simp: card_contents_def patches_def patch_def overlay_byte_def demo_card_def nth_Cons')
  next
    case False
    then have "p \<noteq> 0" by auto
    with False p show ?thesis
      by (auto simp: card_contents_def base_contents_def base patches_def patch_def overlay_byte_def demo_card_def)
  qed
  with ready show ?thesis
    unfolding journalled_def enc base
    by (auto simp: demo_card_def demo_spec_def demo_config_def record_ok_def)
qed

theorem checkpoint_crash_safe_witness:
  "\<exists>c' w'. open_object demo_config demo_spec (scWorld (snd (flush_card demo_config demo_card))) = (Inr c', w') \<and>
     card_contents c' 0 = 42"
proof -
  have ne: "scDirty demo_card \<noteq> []" by (simp add: demo_card_def)
  from demo_card_journalled obtain old where
    ready: "card_ready old (card_base demo_card) (encode_journal [(0, [42])]) demo_card"
    by (auto simp: journalled_def)
  let ?w = "scWorld (snd (flush_card demo_config demo_card))"
  have w: "calm ?w" "wDir ?w \<in> set (wSeen ?w)"
    using flush_card_calm [OF ready ne, of demo_config] by (auto simp: trail_def)
  have seen: "wSeen (scWorld demo_card) = []" by (simp add: demo_card_def)
  have "soCardSize (scSpec demo_card) = 524288" "scSpec demo_card = demo_spec"
    by (simp_all add: demo_card_def demo_spec_def)
  moreover have "card_contents demo_card 0 = 42"
    by (simp add: card_contents_def overlay_byte_def demo_card_def)
  ultimately show ?thesis
    using checkpoint_crash_safe [OF demo_card_journalled seen disjI2 [OF w(2)] w(1) refl] by auto
qed

text \<open>
  C2.  A write to a card in use, within the request bounds, succeeds: it is journalled
  before it is visible (checkpointing first when a bound would be passed), and afterwards
  every byte of the card reads as the write says, or as before outside it.
\<close>

theorem card_write_visible:
  assumes "journalled cfg recs c" "record_ok (soCardSize (scSpec c)) (off, buf)"
    and "int (length buf) \<le> cfMaxPendingBytes cfg" "int (length buf) + 52 \<le> cfMaxJournalBytes cfg"
    and "(off + int (length buf) - 1) div 512 - off div 512 + 1 \<le> cfMaxDirtyBlocks cfg"
  shows "\<exists>c' recs'. card_write cfg buf off c = ((length buf, None), c') \<and> journalled cfg recs' c' \<and>
    (\<forall>p. 0 \<le> p \<longrightarrow> p < soCardSize (scSpec c) \<longrightarrow> card_contents c' p = patch (card_contents c) off buf p)"
  using card_write_journalled [OF assms] by blast

theorem card_write_visible_witness:
  "\<exists>c' recs'. card_write demo_config [7, 8] 600 demo_card = ((2, None), c') \<and> journalled demo_config recs' c' \<and>
     card_contents c' 601 = 8 \<and> card_contents c' 0 = 42"
proof -
  have sz: "soCardSize (scSpec demo_card) = 524288" by (simp add: demo_card_def demo_spec_def)
  have "card_contents demo_card 0 = 42"
    by (simp add: card_contents_def overlay_byte_def demo_card_def)
  with card_write_visible [OF demo_card_journalled, of 600 "[7, 8]"] show ?thesis
    unfolding sz by (fastforce simp: record_ok_def demo_config_def patch_def)
qed

text \<open>
  C15.  \<open>ReadSaveAt\<close> under any pattern of failing calls: what it returns is a prefix of the
  visible bytes of the range (the dirty blocks over the confirmed card), all of it when it
  reports no error, and it changes nothing but the file system's own progress.
\<close>

theorem card_read_refines:
  assumes "card_read len off c = ((bs, e), c')" "scFile c \<noteq> None"
    and "dirty_ok (soCardSize (scSpec c)) (scDirty c)"
  shows "length bs \<le> len \<and> bs = byte_range (card_contents c) off (length bs) \<and>
    (e = None \<longrightarrow> length bs = len \<and> 0 \<le> off \<and> off + int len \<le> soCardSize (scSpec c)) \<and>
    (\<exists>w. c' = c\<lparr>scWorld := w\<rparr>)"
proof -
  from assms(2) have "scFile c = Some (card_base c)" by (auto simp: card_base_def)
  from card_read_sound [OF assms(1) this assms(3)] show ?thesis by (simp add: card_contents_def)
qed

theorem card_read_refines_witness:
  "fst (card_read 1 0 demo_card) = ([42], None)"
proof -
  obtain bs e c' where r: "card_read 1 0 demo_card = ((bs, e), c')" by (metis prod.exhaust)
  have "scFile demo_card \<noteq> None" "dirty_ok (soCardSize (scSpec demo_card)) (scDirty demo_card)"
    by (simp_all add: demo_card_def demo_spec_def dirty_ok_def)
  note P = card_read_refines [OF r this]
  have "e = None"
    using r by (simp add: card_read_def demo_card_def demo_spec_def card_read_loop.simps [of _ _ _ _ 0]
        card_read_loop.simps [of _ _ _ _ "Suc 0"] Let_def)
  moreover have "card_contents demo_card 0 = 42"
    by (simp add: card_contents_def overlay_byte_def demo_card_def)
  ultimately have "bs = byte_range (card_contents demo_card) 0 1" using P by (metis of_nat_1)
  then have "bs = [42]" using \<open>card_contents demo_card 0 = 42\<close> by (simp add: byte_range_def)
  with \<open>e = None\<close> r show ?thesis by simp
qed

text \<open>
  C16.  The journal decodes to exactly the records that were appended: replaying it over the
  confirmed card succeeds, accounts for every byte, and shows their bytes in order.  If the
  last record is torn anywhere, the replay reports an error and the card is not opened.
\<close>

theorem journal_roundtrip:
  assumes "\<forall>r \<in> set recs. record_ok sz r" "calm w" "base_ok sz base" "sz \<le> maximum_save_card_size"
    and "record_bytes recs \<le> cfMaxPendingBytes cfg" "record_ok sz (off, buf)" "0 < k" "k < 52 + length buf"
  shows "\<exists>dirty. load_records cfg sz (Some base) (encode_journal recs) 0 [] w = (Inr (record_bytes recs), dirty, w) \<and>
    (\<forall>p. 0 \<le> p \<longrightarrow> p < sz \<longrightarrow> overlay_byte dirty base p = patches (\<lambda>p. base ! nat p) recs p) \<and>
    (\<exists>err. load_records cfg sz (Some base) (encode_journal recs @ take k (journal_header off buf @ buf)) 0 [] w =
      (Inl err, dirty, w))"
proof -
  have none: "dirty_ok sz []" "\<forall>p. 0 \<le> p \<longrightarrow> p < sz \<longrightarrow> overlay_byte [] base p = base ! nat p"
    by (simp_all add: dirty_ok_def overlay_byte_def)
  have room: "0 + record_bytes recs \<le> cfMaxPendingBytes cfg" using assms(5) by simp
  obtain dirty where a: "\<forall>ys. load_records cfg sz (Some base) (encode_journal recs @ ys) 0 [] w =
        load_records cfg sz (Some base) ys (record_bytes recs) dirty w"
    "\<forall>p. 0 \<le> p \<longrightarrow> p < sz \<longrightarrow> overlay_byte dirty base p = patches (\<lambda>p. base ! nat p) recs p"
    using load_records_encode_append [OF assms(1-4) none(1) order.refl room none(2)] by auto
  have "0 \<le> off" "off < 2 ^ 63" "length buf < 2 ^ 32" using assms(4,6) by (auto simp: record_ok_def)
  note torn = load_records_torn [OF this assms(7,8), of cfg sz "Some base" "record_bytes recs" dirty w]
  have "load_records cfg sz (Some base) (encode_journal recs) 0 [] w = (Inr (record_bytes recs), dirty, w)"
    using a(1) [rule_format, of "[]"] by (simp add: load_records.simps)
  with a torn show ?thesis by (intro exI [of _ dirty]) simp
qed

theorem journal_roundtrip_witness:
  "\<exists>err dirty. load_records demo_config 524288 (Some (zeros 524288))
     (encode_journal [(0, [42])] @ take 52 (journal_header 7 [1] @ [1])) 0 []
     (scWorld demo_card) = (Inl err, dirty, scWorld demo_card)"
proof -
  have "calm (scWorld demo_card)" by (simp add: calm_def demo_card_def demo_dir_def)
  with journal_roundtrip [of "[(0, [42])]" 524288 "scWorld demo_card" "zeros 524288" demo_config 7 "[1]" 52]
  show ?thesis by (auto simp: record_ok_def base_ok_def demo_config_def)
qed

section \<open>A second crash\<close>

text \<open>The directory states already seen stay recorded.\<close>

lemma seen_next_fault: "next_fault w = (f, w') \<Longrightarrow> wSeen w' = wSeen w"
  by (auto simp: next_fault_def split: list.splits)

lemma seen_calls:
  "set (wSeen w) \<subseteq> set (wSeen (snd (sys_nop w)))" "set (wSeen w) \<subseteq> set (wSeen (snd (sys_remove n w)))"
  "set (wSeen w) \<subseteq> set (wSeen (snd (sys_rename n m w)))" "set (wSeen w) \<subseteq> set (wSeen (snd (sys_create x n w)))"
  "set (wSeen w) \<subseteq> set (wSeen (snd (sys_put n c w)))" "set (wSeen w) \<subseteq> set (wSeen (snd (sys_lstat n w)))"
  by (auto simp: sys_nop_def sys_remove_def sys_rename_def sys_create_def sys_put_def sys_lstat_def Let_def
      dest!: seen_next_fault split: prod.splits option.splits if_splits)

definition keeps_seen :: "(world \<Rightarrow> 'a \<times> world) \<Rightarrow> bool" where
  "keeps_seen call \<longleftrightarrow> (\<forall>v. set (wSeen v) \<subseteq> set (wSeen (snd (call v))))"

lemma seen_and_then:
  assumes "set (wSeen w) \<subseteq> set (wSeen (snd r))" "keeps_seen call"
  shows "set (wSeen w) \<subseteq> set (wSeen (snd (and_then call r)))"
proof -
  obtain e v where r: "r = (e, v)" by (cases r)
  have "set (wSeen v) \<subseteq> set (wSeen (snd (call v)))" using assms(2) by (simp add: keeps_seen_def)
  with assms(1) show ?thesis by (cases e) (auto simp: r)
qed

lemma seen_and_also:
  assumes "set (wSeen w) \<subseteq> set (wSeen (snd r))" "keeps_seen call"
  shows "set (wSeen w) \<subseteq> set (wSeen (snd (and_also call r)))"
proof -
  obtain e v where r: "r = (e, v)" by (cases r)
  have "set (wSeen v) \<subseteq> set (wSeen (snd (call v)))" using assms(2) by (simp add: keeps_seen_def)
  with assms(1) show ?thesis by (simp add: r and_also_def split: prod.splits) auto
qed

lemma seen_ignore:
  assumes "set (wSeen w) \<subseteq> set (wSeen v)" "keeps_seen call"
  shows "set (wSeen w) \<subseteq> set (wSeen (ignore_error call v))"
  using assms by (auto simp: keeps_seen_def ignore_error_def)

lemma seen_tolerant_remove: "set (wSeen w) \<subseteq> set (wSeen (snd (tolerant_remove n w)))"
  using seen_calls(2) [of w n] by (auto simp: tolerant_remove_def split: prod.splits option.splits)

lemma keeps_seen_calls:
  "keeps_seen sys_nop" "keeps_seen (sys_remove n)" "keeps_seen (sys_rename n m)" "keeps_seen (sys_create x n)"
  "keeps_seen (sys_put n c)" "keeps_seen (sys_lstat n)" "keeps_seen (tolerant_remove n)"
  using seen_calls seen_tolerant_remove by (simp_all add: keeps_seen_def)

lemma keeps_seenD: "keeps_seen call \<Longrightarrow> call w = (r, w') \<Longrightarrow> set (wSeen w) \<subseteq> set (wSeen w')"
  by (metis keeps_seen_def snd_conv)

lemma seen_atomic_write: "keeps_seen (atomic_write n c)"
  unfolding keeps_seen_def
proof
  fix w
  obtain e1 w1 where 1: "sys_create False ManagedTmp w = (e1, w1)" by (metis prod.exhaust)
  have s1: "set (wSeen w) \<subseteq> set (wSeen w1)" by (rule keeps_seenD [OF keeps_seen_calls(4) 1])
  let ?r2 = "and_also sys_nop (and_then sys_nop (and_then (sys_put ManagedTmp c) (sys_nop w1)))"
  have "set (wSeen w1) \<subseteq> set (wSeen (snd (sys_nop w1)))" by (rule seen_calls)
  then have "set (wSeen w1) \<subseteq> set (wSeen (snd ?r2))"
    by (intro seen_and_also seen_and_then keeps_seen_calls)
  then obtain e2 w2 where 2: "?r2 = (e2, w2)" "set (wSeen w1) \<subseteq> set (wSeen w2)"
    by (metis prod.exhaust snd_conv)
  let ?r3 = "and_then sys_nop (sys_rename ManagedTmp n w2)"
  have "set (wSeen w2) \<subseteq> set (wSeen (snd (sys_rename ManagedTmp n w2)))" by (rule seen_calls)
  then have "set (wSeen w2) \<subseteq> set (wSeen (snd ?r3))" by (intro seen_and_then keeps_seen_calls)
  then obtain e3 w3 where 3: "?r3 = (e3, w3)" "set (wSeen w2) \<subseteq> set (wSeen w3)"
    by (metis prod.exhaust snd_conv)
  have s2: "set (wSeen w) \<subseteq> set (wSeen w2)" and s3: "set (wSeen w) \<subseteq> set (wSeen w3)"
    using s1 2(2) 3(2) by auto
  note i2 = seen_ignore [OF s2 keeps_seen_calls(2) [of ManagedTmp]]
    and i3 = seen_ignore [OF s3 keeps_seen_calls(2) [of ManagedTmp]]
  show "set (wSeen w) \<subseteq> set (wSeen (snd (atomic_write n c w)))"
    using s1 i2 i3 by (cases e1; cases e2) (simp_all add: atomic_write_def 1 2(1) 3(1))
qed

lemma seen_remove_staged: "keeps_seen (remove_staged ns)"
proof (induction ns)
  case (Cons n ns)
  show ?case
    unfolding keeps_seen_def
  proof
    fix w
    obtain r w1 where 1: "sys_lstat n w = (r, w1)" by (metis prod.exhaust)
    obtain e w2 where 2: "sys_remove n w1 = (e, w2)" by (metis prod.exhaust)
    have "set (wSeen w) \<subseteq> set (wSeen w1)" "set (wSeen w1) \<subseteq> set (wSeen w2)"
      using keeps_seenD [OF keeps_seen_calls(6) 1] keeps_seenD [OF keeps_seen_calls(2) 2] by auto
    moreover have "set (wSeen w1) \<subseteq> set (wSeen (snd (remove_staged ns w1)))"
      "set (wSeen w2) \<subseteq> set (wSeen (snd (remove_staged ns w2)))" using Cons by (simp_all add: keeps_seen_def)
    ultimately show "set (wSeen w) \<subseteq> set (wSeen (snd (remove_staged (n # ns) w)))"
      by (cases r; cases e) (auto simp: 1 2)
  qed
qed (simp add: keeps_seen_def)

text \<open>
  C18.  The recovery itself is not crash safe.  When a checkpoint was interrupted after its
  metadata was written and before its rollback marker was removed, and the machine stops a
  second time between the rename and the metadata of \<open>recoverInterruptedActivation\<close>, the old
  card is back under the new card's checksum: from that state every later start refuses the
  card, its journal included (unless the two cards have one SHA-256).
\<close>

theorem recovery_window_blocks_card:
  assumes "calm w" "shape_between spec old base fresh j (wDir w)" "ndContent old = Raw base"
    and "int (length base) = soCardSize spec"
    and "wDir w MetadataJson = Some mn" "ndContent mn = MetaFile md" "smSHA256 md = hash_raw fresh" "smIdent md \<noteq> ndIdent old"
    and "wDir w PreviousJson \<noteq> None"
  shows "hash_raw base = hash_raw fresh \<or> (\<exists>d \<in> set (wSeen (snd (recover_interrupted_activation spec w))).
    \<forall>w2. calm w2 \<longrightarrow> wDir w2 = d \<longrightarrow>
      fst (open_object cfg spec w2) = Inl (Msg ''SAVE-RECOVERY-AMBIGUOUS: active checksum''))"
proof (cases "hash_raw base = hash_raw fresh")
  case True
  then show ?thesis ..
next
  case collide: False
  let ?d = "(wDir w)(ActiveRaw := Some old, PreviousRaw := None)"
  define w1 where "w1 = set_dir ?d w"
  from assms(2) obtain i where act: "wDir w ActiveRaw = Some \<lparr>ndIdent = i, ndContent = Raw fresh\<rparr>" "i \<noteq> ndIdent old"
    and prev: "wDir w PreviousRaw = Some old" and pok: "previous_ok spec old base (wDir w)"
    by (auto simp: shape_between_def previous_ok_def)
  from pok assms(9) obtain pn pmd where pm: "wDir w PreviousJson = Some pn" "ndContent pn = MetaFile pmd"
    "meta_matches spec pmd" "smSHA256 pmd = hash_raw base"
    by (auto simp: previous_ok_def meta_record_def)
  have c1: "calm w1" unfolding w1_def by (rule calm_rename_calm [OF assms(1) prev])
  have rn: "sys_rename PreviousRaw ActiveRaw w = (None, w1)"
    using calm_rename(1) [OF assms(1) prev, of ActiveRaw] act by (simp add: w1_def)
  have hash: "hash_regular_file PreviousRaw (soCardSize spec) w = (Inr (hash_raw base), w)"
    by (rule hash_regular_file_calm [OF assms(1) prev assms(3,4)])
  have raw: "raw_of (ndContent old) = base" using assms(3) by (simp add: raw_of_def)
  have ls: "sys_lstat ActiveRaw w1 = (Inr old, w1)" by (rule calm_lstat(1) [OF c1]) (simp add: w1_def)
  define md1 where "md1 = pmd\<lparr>smSHA256 := hash_raw base, smIdent := ndIdent old, smDirty := False,
     smRecoveryState := ''rolled-back-interrupted-checkpoint''\<rparr>"
  have "recover_interrupted_activation spec w = roll_back spec True pmd w"
    using assms(1,4) prev raw read_meta_calm(1) [OF assms(1) pm(1,2)]
    by (simp add: recover_interrupted_activation_def calm_lstat)
  also have "\<dots> = and_then sys_nop (and_then (remove_staged [CheckpointTmp, RestoreTmp, SelectedTmp, UploadTmp])
      (and_then (tolerant_remove PreviousJson) (atomic_write MetadataJson (MetaFile md1) w1)))"
    using pm(3,4) by (simp add: roll_back_def hash rn ls Let_def md1_def del: remove_staged.simps)
  finally have eq: "recover_interrupted_activation spec w =
      and_then sys_nop (and_then (remove_staged [CheckpointTmp, RestoreTmp, SelectedTmp, UploadTmp])
        (and_then (tolerant_remove PreviousJson) (atomic_write MetadataJson (MetaFile md1) w1)))" .
  have "set (wSeen w1) \<subseteq> set (wSeen (snd (recover_interrupted_activation spec w)))"
    unfolding eq using seen_atomic_write [of MetadataJson "MetaFile md1", unfolded keeps_seen_def]
    by (intro seen_and_then keeps_seen_calls seen_remove_staged) blast
  moreover have "?d \<in> set (wSeen w1)" by (simp add: w1_def)
  ultimately have seen: "?d \<in> set (wSeen (snd (recover_interrupted_activation spec w)))" by blast
  show ?thesis
  proof (intro disjI2 bexI [OF _ seen] allI impI)
    fix w2 assume c2: "calm w2" and d2: "wDir w2 = ?d"
    define w3 where "w3 = without PreviousJson w2"
    have r2: "recover_interrupted_activation spec w2 = (None, w3)"
      using recover_without_previous [OF c2, of spec] d2 by (simp add: w3_def)
    have c3: "calm w3" using c2 by (simp add: w3_def)
    have act3: "wDir w3 ActiveRaw = Some old" and meta3: "wDir w3 MetadataJson = Some mn"
      using assms(5) by (simp_all add: w3_def d2)
    note read3 = read_meta_calm(1) [OF c3 meta3 assms(6)]
    note hash3 = hash_regular_file_calm [OF c3 act3 assms(3,4)]
    have "smFormatVersion md = save_overlay_format_version" "meta_matches spec md"
      using assms(2,5,6) by (auto simp: shape_between_def meta_for_def meta_record_def)
    then have "fst (validate_card_files spec w3) = Inl (Msg ''SAVE-RECOVERY-AMBIGUOUS: active checksum'')"
      using assms(4,7,8) collide raw
      by (simp add: validate_card_files_def calm_lstat(1) [OF c3 act3] read3 hash3 size_identity_matches_def)
    then show "fst (open_object cfg spec w2) = Inl (Msg ''SAVE-RECOVERY-AMBIGUOUS: active checksum'')"
      by (cases "validate_card_files spec w3") (auto simp: open_object_def r2)
  qed
qed

definition tiny_spec :: save_object where
  "tiny_spec = demo_spec\<lparr>soCardSize := 1\<rparr>"

definition tiny_meta :: "byte list \<Rightarrow> nat \<Rightarrow> save_metadata" where
  "tiny_meta bs i = demo_metadata\<lparr>smCardSize := 1, smSHA256 := hash_raw bs, smIdent := i\<rparr>"

definition tiny_world :: world where
  "tiny_world = \<lparr>wDir = (\<lambda>_. None)(ActiveRaw := Some \<lparr>ndIdent = 1, ndContent = Raw [2]\<rparr>,
     PreviousRaw := Some \<lparr>ndIdent = 0, ndContent = Raw [1]\<rparr>,
     PreviousJson := Some \<lparr>ndIdent = 2, ndContent = MetaFile (tiny_meta [1] 0)\<rparr>,
     MetadataJson := Some \<lparr>ndIdent = 3, ndContent = MetaFile (tiny_meta [2] 1)\<rparr>,
     PendingLog := Some \<lparr>ndIdent = 4, ndContent = Raw []\<rparr>), wNext = 5, wFaults = [], wSeen = []\<rparr>"

theorem recovery_window_blocks_card_witness:
  "hash_raw [1] = hash_raw [2] \<or>
   (\<exists>d \<in> set (wSeen (snd (recover_interrupted_activation tiny_spec tiny_world))).
     \<forall>w2. calm w2 \<longrightarrow> wDir w2 = d \<longrightarrow>
       fst (open_object demo_config tiny_spec w2) = Inl (Msg ''SAVE-RECOVERY-AMBIGUOUS: active checksum''))"
proof (rule recovery_window_blocks_card [where md = "tiny_meta [2] 1" and
      mn = "\<lparr>ndIdent = 3, ndContent = MetaFile (tiny_meta [2] 1)\<rparr>"])
  show "calm tiny_world" by (simp add: calm_def tiny_world_def)
  show "shape_between tiny_spec \<lparr>ndIdent = 0, ndContent = Raw [1]\<rparr> [1] [2] [] (wDir tiny_world)"
    by (simp add: shape_between_def shape_parts tiny_world_def meta_record_def tiny_meta_def tiny_spec_def
        demo_metadata_def demo_spec_def meta_matches_def)
qed (simp_all add: tiny_world_def tiny_spec_def tiny_meta_def)

end
