(* ===== verification/Save_Store.thy ===== *)
theory Save_Store
  imports Save_Session Fat_Read
begin

text \<open>
  \<open>SaveStore\<close> of \<open>gamecube/saveoverlay.go\<close>: the cards of a profile by object ID, each over its
  own directory, with the methods the FAT32 backend calls.  The store keeps the laws of
  \<open>card_service\<close> while its cards are open and its file system answers.
\<close>

section \<open>Operations\<close>

record card_store =
  csObjects :: "(string \<times> save_card) list"
  csClosed :: bool

definition put_card :: "string \<Rightarrow> save_card \<Rightarrow> card_store \<Rightarrow> card_store" where
  "put_card i c s = s\<lparr>csObjects := AList.update i c (csObjects s)\<rparr>"

definition read_save_at ::
  "string \<Rightarrow> nat \<Rightarrow> int \<Rightarrow> card_store \<Rightarrow> (byte list \<times> go_err option) \<times> card_store" where
  "read_save_at objectID len off s =
     (if csClosed s then (([], Some ErrClosed), s)
      else case map_of (csObjects s) objectID of
             None \<Rightarrow> (([], Some (Msg ''SAVE-WRITE-OUTSIDE-EXTENT'')), s)
           | Some c \<Rightarrow> (case card_read len off c of (r, c') \<Rightarrow> (r, put_card objectID c' s)))"

definition write_save_at ::
  "store_config \<Rightarrow> string \<Rightarrow> byte list \<Rightarrow> int \<Rightarrow> card_store \<Rightarrow> (nat \<times> go_err option) \<times> card_store" where
  "write_save_at cfg objectID buf off s =
     (if csClosed s then ((0, Some ErrClosed), s)
      else case map_of (csObjects s) objectID of
             None \<Rightarrow> ((0, Some (Msg ''SAVE-WRITE-OUTSIDE-EXTENT'')), s)
           | Some c \<Rightarrow> (case card_write cfg buf off c of (r, c') \<Rightarrow> (r, put_card objectID c' s)))"

fun flush_keys :: "store_config \<Rightarrow> string list \<Rightarrow> card_store \<Rightarrow> go_err option \<times> card_store" where
  "flush_keys cfg [] s = (None, s)"
| "flush_keys cfg (k # ks) s =
     (case map_of (csObjects s) k of
        None \<Rightarrow> flush_keys cfg ks s
      | Some c \<Rightarrow>
          (case flush_card cfg c of
             (Some err, c') \<Rightarrow> (Some err, put_card k c' s)
           | (None, c') \<Rightarrow> flush_keys cfg ks (put_card k c' s)))"

definition store_sync :: "store_config \<Rightarrow> card_store \<Rightarrow> go_err option \<times> card_store" where
  "store_sync cfg s =
     (if csClosed s then (Some ErrClosed, s)
      else flush_keys cfg (sort_slice id (map fst (csObjects s))) s)"

text \<open>Closing one card: a last checkpoint, the journal and the card file.\<close>

definition first_error :: "go_err option \<Rightarrow> go_err option \<Rightarrow> go_err option" where
  "first_error first e = (if first = None then e else first)"

definition close_card :: "store_config \<Rightarrow> go_err option \<Rightarrow> save_card \<Rightarrow> go_err option \<times> save_card" where
  "close_card cfg first c =
     (case (if scDirty c \<noteq> [] then flush_card cfg c else (None, c)) of
        (e1, c1) \<Rightarrow>
          (case sys_nop (scWorld c1) of
             (e2, w2) \<Rightarrow>
               (case (if scFile c1 \<noteq> None then sys_nop w2 else (None, w2)) of
                  (e3, w3) \<Rightarrow>
                    (first_error (first_error (first_error first e1) e2) e3, c1\<lparr>scWorld := w3\<rparr>))))"

fun close_cards ::
  "store_config \<Rightarrow> go_err option \<Rightarrow> (string \<times> save_card) list \<Rightarrow> go_err option \<times> (string \<times> save_card) list" where
  "close_cards cfg first [] = (first, [])"
| "close_cards cfg first ((i, c) # cs) =
     (case close_card cfg first c of
        (first1, c1) \<Rightarrow> (case close_cards cfg first1 cs of (first2, cs2) \<Rightarrow> (first2, (i, c1) # cs2)))"

text \<open>Go ranges over the map in any order, which shows only in which error is the first.\<close>

definition store_close :: "store_config \<Rightarrow> card_store \<Rightarrow> go_err option \<times> card_store" where
  "store_close cfg s =
     (if csClosed s then (None, s)
      else case close_cards cfg None (csObjects s) of
             (first, cs) \<Rightarrow> (first, s\<lparr>csObjects := cs, csClosed := True\<rparr>))"

text \<open>\<open>Verify\<close>, up to the status report it returns.\<close>

definition store_verify :: "store_config \<Rightarrow> string \<Rightarrow> card_store \<Rightarrow> go_err option \<times> card_store" where
  "store_verify cfg objectID s =
     (case map_of (csObjects s) objectID of
        None \<Rightarrow> (Some (Msg ''SAVE-CARD-MISSING''), s)
      | Some c \<Rightarrow>
          (case (if scDirty c \<noteq> [] then flush_card cfg c else (None, c)) of
             (Some err, c1) \<Rightarrow> (Some err, put_card objectID c1 s)
           | (None, c1) \<Rightarrow>
               (case hash_regular_file ActiveRaw (soCardSize (scSpec c1)) (scWorld c1) of
                  (r, w) \<Rightarrow>
                    (if r \<noteq> Inr (smSHA256 (scMetadata c1))
                     then Some (Msg ''SAVE-CARD-INVALID: checksum mismatch'') else None,
                     put_card objectID (c1\<lparr>scWorld := w\<rparr>) s))))"

section \<open>The laws\<close>

definition store_inv :: "store_config \<Rightarrow> card_store \<Rightarrow> bool" where
  "store_inv cfg s \<longleftrightarrow> \<not> csClosed s \<and> distinct (map fst (csObjects s)) \<and>
     (\<forall>(i, c) \<in> set (csObjects s). \<exists>recs. journalled cfg recs c)"

definition store_card_size :: "card_store \<Rightarrow> string \<Rightarrow> int option" where
  "store_card_size s i = map_option (\<lambda>c. soCardSize (scSpec c)) (map_of (csObjects s) i)"

definition store_byte :: "card_store \<Rightarrow> string \<Rightarrow> int \<Rightarrow> byte" where
  "store_byte s i = (case map_of (csObjects s) i of None \<Rightarrow> (\<lambda>_. 0) | Some c \<Rightarrow> card_contents c)"

lemma map_of_put_card [simp]: "map_of (csObjects (put_card i c s)) = (map_of (csObjects s))(i \<mapsto> c)"
  by (simp add: put_card_def update_conv')

lemma csClosed_put_card [simp]: "csClosed (put_card i c s) = csClosed s"
  by (simp add: put_card_def)

lemma set_map_of: "distinct (map fst xs) \<Longrightarrow> (i, c) \<in> set xs \<longleftrightarrow> map_of xs i = Some c"
  by (metis map_of_is_SomeI map_of_SomeD)

lemma store_inv_card:
  assumes "store_inv cfg s" "map_of (csObjects s) i = Some c"
  obtains recs where "journalled cfg recs c"
  using assms by (fastforce simp: store_inv_def dest: map_of_SomeD)

lemma store_inv_put:
  assumes "store_inv cfg s" "journalled cfg recs c"
  shows "store_inv cfg (put_card i c s)"
proof -
  have dist: "distinct (map fst (csObjects (put_card i c s)))"
    using assms(1) by (simp add: store_inv_def put_card_def distinct_update)
  have "\<exists>recs. journalled cfg recs c'" if "(j, c') \<in> set (csObjects (put_card i c s))" for j c'
  proof (cases "j = i")
    case False
    then have "map_of (csObjects s) j = Some c'" using that set_map_of [OF dist] by simp
    then show ?thesis using store_inv_card [OF assms(1)] by metis
  next
    case True
    then show ?thesis using that set_map_of [OF dist] assms(2) by auto
  qed
  with dist assms(1) show ?thesis by (auto simp: store_inv_def)
qed

text \<open>A read of a card at rest leaves it as it is.\<close>

lemma file_read_at_calm: "calm w \<Longrightarrow> snd (file_read_at file off n w) = w"
  by (auto simp: file_read_at_def sys_pread_def calm_next_fault Let_def split: option.split)

lemma card_read_loop_calm: "calm w \<Longrightarrow> snd (card_read_loop dirty file off len done acc w) = w"
proof (induction dirty "file" off len "done" acc w rule: card_read_loop.induct)
  case (1 dirty fl off len d acc w)
  note IH = "1.IH" and calm = "1.prems"
  let ?n = "min (int (len - d)) (save_block_size - (off + int d) mod save_block_size)"
  let ?read = "file_read_at fl (off + int d) (nat (clean_span dirty (off + int d) ?n (int (len - d)))) w"
  obtain bs e w1 where rd: "?read = ((bs, e), w1)" by (metis prod.exhaust)
  have w1: "w1 = w" using file_read_at_calm [OF calm, of fl "off + int d"] rd by (metis snd_conv)
  show ?case
  proof (cases "d < len")
    case True
    show ?thesis
    proof (cases "map_of dirty ((off + int d) div save_block_size)")
      case None
      with True rd w1 IH(1) [OF True refl refl refl refl None rd [symmetric] refl] calm show ?thesis
        by (subst card_read_loop.simps) (auto simp: Let_def split: option.split)
    next
      case (Some block)
      with True IH(2) [OF True refl refl refl refl Some] calm show ?thesis
        by (subst card_read_loop.simps) (simp add: Let_def)
    qed
  qed (subst card_read_loop.simps, simp)
qed

lemma card_read_calm: "calm (scWorld c) \<Longrightarrow> snd (card_read len off c) = c"
proof -
  assume calm: "calm (scWorld c)"
  let ?r = "if scDirty c = [] then file_read_at (scFile c) off len (scWorld c)
            else card_read_loop (scDirty c) (scFile c) off len 0 [] (scWorld c)"
  have "snd ?r = scWorld c" using file_read_at_calm [OF calm] card_read_loop_calm [OF calm] by simp
  then show "snd (card_read len off c) = c"
    by (cases ?r) (simp add: card_read_def)
qed

lemma journalledD:
  assumes "journalled cfg recs c"
  shows "calm (scWorld c)" "scFile c = Some (card_base c)" "dirty_ok (soCardSize (scSpec c)) (scDirty c)"
proof -
  show "calm (scWorld c)" "dirty_ok (soCardSize (scSpec c)) (scDirty c)"
    using assms by (auto simp: journalled_def card_ready_def)
  show "scFile c = Some (card_base c)" by (rule journalled_file [OF assms])
qed

lemma read_save_at_law:
  assumes "store_inv cfg s" "store_card_size s i = Some sz" "0 \<le> off" "off + int n \<le> sz"
    and "read_save_at i n off s = ((bs, e), s')"
  shows "length bs \<le> n \<and> bs = byte_range (store_byte s i) off (length bs) \<and> (e = None \<longrightarrow> length bs = n) \<and>
    store_inv cfg s' \<and> store_card_size s' = store_card_size s \<and> store_byte s' = store_byte s"
proof -
  obtain c where c: "map_of (csObjects s) i = Some c" "soCardSize (scSpec c) = sz"
    using assms(2) by (auto simp: store_card_size_def)
  obtain recs where j: "journalled cfg recs c" by (rule store_inv_card [OF assms(1) c(1)])
  note parts = journalledD [OF j]
  obtain bs1 e1 c1 where rd: "card_read n off c = ((bs1, e1), c1)" by (metis prod.exhaust)
  have c1: "c1 = c" using card_read_calm [OF parts(1), of n off] rd by simp
  have "\<not> csClosed s" using assms(1) by (simp add: store_inv_def)
  with assms(5) c rd c1 have out: "bs = bs1" "e = e1" "s' = put_card i c s"
    by (auto simp: read_save_at_def)
  have same: "map_of (csObjects s') = map_of (csObjects s)" using c(1) by (auto simp: out)
  have "store_inv cfg s'" unfolding out by (rule store_inv_put [OF assms(1) j])
  moreover have "store_card_size s' = store_card_size s" "store_byte s' = store_byte s"
    by (simp_all add: store_card_size_def [abs_def] store_byte_def [abs_def] same)
  ultimately show ?thesis
    using card_read_sound [OF rd parts(2,3)] c by (simp add: out store_byte_def card_contents_def)
qed

lemma card_write_fits:
  assumes "card_write cfg buf off c = ((n, None), c')"
  shows "int (length buf) \<le> cfMaxPendingBytes cfg" "int (length buf) + 52 \<le> cfMaxJournalBytes cfg"
    "(off + int (length buf) - 1) div 512 - off div 512 + 1 \<le> cfMaxDirtyBlocks cfg"
  using assms by (auto simp: card_write_def Let_def split: if_splits)

lemma write_save_at_law:
  assumes "store_inv cfg s" "store_card_size s i = Some sz" "0 \<le> off" "bs \<noteq> []" "off + int (length bs) \<le> sz"
    and "write_save_at cfg i bs off s = ((n, None), s')"
  shows "n = length bs \<and> store_inv cfg s' \<and> store_card_size s' = store_card_size s \<and>
    (\<forall>j z p. store_card_size s j = Some z \<longrightarrow> 0 \<le> p \<longrightarrow> p < z \<longrightarrow>
       store_byte s' j p = (if j = i then patch (store_byte s i) off bs p else store_byte s j p))"
proof -
  obtain c where c: "map_of (csObjects s) i = Some c" "soCardSize (scSpec c) = sz"
    using assms(2) by (auto simp: store_card_size_def)
  obtain recs where j: "journalled cfg recs c" by (rule store_inv_card [OF assms(1) c(1)])
  have "\<not> csClosed s" using assms(1) by (simp add: store_inv_def)
  with assms(6) c obtain c1 where wr: "card_write cfg bs off c = ((n, None), c1)" "s' = put_card i c1 s"
    by (auto simp: write_save_at_def split: prod.splits)
  have "record_ok (soCardSize (scSpec c)) (off, bs)" using assms(3-5) c(2) by (simp add: record_ok_def)
  from card_write_journalled [OF j this card_write_fits [OF wr(1)]] wr(1)
  obtain recs' where out: "n = length bs" "journalled cfg recs' c1" "scSpec c1 = scSpec c"
    "\<forall>p. 0 \<le> p \<longrightarrow> p < sz \<longrightarrow> card_contents c1 p = patch (card_contents c) off bs p"
    using c(2) by auto
  have "store_card_size s' = store_card_size s"
    using c out(3) by (auto simp: store_card_size_def wr(2))
  moreover have "store_byte s' j p = (if j = i then patch (store_byte s i) off bs p else store_byte s j p)"
    if "store_card_size s j = Some z" "0 \<le> p" "p < z" for j z p
    using that c out(4) assms(2) by (auto simp: store_byte_def wr(2))
  ultimately show ?thesis using out store_inv_put [OF assms(1) out(2)] wr(2) by auto
qed

text \<open>A write that fits the card fails only because it is too large for the journal, before any change.\<close>

lemma write_save_at_fail:
  assumes "store_inv cfg s" "store_card_size s i = Some sz" "0 \<le> off" "bs \<noteq> []" "off + int (length bs) \<le> sz"
    and "write_save_at cfg i bs off s = ((n, Some e), s')"
  shows "s' = s"
proof -
  obtain c where c: "map_of (csObjects s) i = Some c" "soCardSize (scSpec c) = sz"
    using assms(2) by (auto simp: store_card_size_def)
  obtain recs where j: "journalled cfg recs c" by (rule store_inv_card [OF assms(1) c(1)])
  have "\<not> csClosed s" using assms(1) by (simp add: store_inv_def)
  with assms(6) c obtain c1 where wr: "card_write cfg bs off c = ((n, Some e), c1)" "s' = put_card i c1 s"
    by (auto simp: write_save_at_def split: prod.splits)
  have rec: "record_ok (soCardSize (scSpec c)) (off, bs)" using assms(3-5) c(2) by (simp add: record_ok_def)
  have big: "\<not> (int (length bs) \<le> cfMaxPendingBytes cfg \<and> int (length bs) + 52 \<le> cfMaxJournalBytes cfg \<and>
      (off + int (length bs) - 1) div 512 - off div 512 + 1 \<le> cfMaxDirtyBlocks cfg)"
    using card_write_journalled [OF j rec] wr(1) by auto
  have "\<not> scBlocked c" using j by (simp add: journalled_def)
  then have "c1 = c"
    using wr(1) big by (simp add: card_write_def Let_def linorder_not_le split: if_splits)
  with wr(2) c(1) show ?thesis by (simp add: put_card_def update_triv)
qed

lemma flush_keys_law:
  assumes "store_inv cfg s" "flush_keys cfg ks s = (e, s')"
  shows "e = None \<and> store_inv cfg s' \<and> store_card_size s' = store_card_size s \<and>
    (\<forall>j z p. store_card_size s j = Some z \<longrightarrow> 0 \<le> p \<longrightarrow> p < z \<longrightarrow> store_byte s' j p = store_byte s j p)"
  using assms
proof (induction ks arbitrary: s)
  case (Cons k ks)
  show ?case
  proof (cases "map_of (csObjects s) k")
    case None
    with Cons show ?thesis by auto
  next
    case (Some c)
    obtain recs where "journalled cfg recs c" by (rule store_inv_card [OF Cons.prems(1) Some])
    from flush_journalled [OF this] obtain c' where c': "flush_card cfg c = (None, c')" "journalled cfg [] c'"
      "scSpec c' = scSpec c" "\<forall>p. 0 \<le> p \<longrightarrow> p < soCardSize (scSpec c) \<longrightarrow> card_contents c' p = card_contents c p"
      by blast
    have size: "store_card_size (put_card k c' s) = store_card_size s"
      using Some c'(3) by (auto simp: store_card_size_def)
    have byte: "store_byte (put_card k c' s) j p = store_byte s j p"
      if "store_card_size s j = Some z" "0 \<le> p" "p < z" for j z p
      using that Some c'(4) by (auto simp: store_card_size_def store_byte_def)
    have "flush_keys cfg ks (put_card k c' s) = (e, s')" using Cons.prems(2) Some c'(1) by simp
    from Cons.IH [OF store_inv_put [OF Cons.prems(1) c'(2)] this] size byte show ?thesis by simp
  qed
qed simp

lemma store_sync_law:
  assumes "store_inv cfg s" "store_sync cfg s = (e, s')"
  shows "store_inv cfg s' \<and> store_card_size s' = store_card_size s \<and>
    (\<forall>j z p. store_card_size s j = Some z \<longrightarrow> 0 \<le> p \<longrightarrow> p < z \<longrightarrow> store_byte s' j p = store_byte s j p)"
proof -
  have "flush_keys cfg (sort_slice id (map fst (csObjects s))) s = (e, s')"
    using assms by (simp add: store_sync_def store_inv_def)
  from flush_keys_law [OF assms(1) this] show ?thesis by blast
qed

interpretation card_store: durable_cards read_save_at "write_save_at cfg" "store_inv cfg" store_card_size store_byte
  "store_sync cfg"
  by unfold_locales (fact read_save_at_law write_save_at_law write_save_at_fail store_sync_law)+

end
