(* ===== verification/Fat_Disk.thy ===== *)
theory Fat_Disk
  imports Fat_Build Fat_Read Save_Store
begin

text \<open>
  The parts of the GameCube disk together: the layout that \<open>Build\<close> makes passes \<open>Validate\<close>, a
  backend opened on it over the save store of \<open>gamecube/saveoverlay.go\<close> is in the state that
  the laws of \<open>Fat_Read\<close> ask for, and its reads and writes are those of the files and cards.
\<close>

section \<open>The tables of a built layout\<close>

lemma ordered_by_spans:
  assumes "sorted (map lo xs)" "distinct (map lo xs)" "\<And>a. a \<in> set xs \<Longrightarrow> lo a \<le> hi a"
    and "\<And>a b. a \<in> set xs \<Longrightarrow> b \<in> set xs \<Longrightarrow> lo a < lo b \<Longrightarrow> hi a \<le> (lo b :: int)"
  shows "ordered_extents lo hi xs"
  using assms
proof (induction xs)
  case (Cons x xs)
  have "hi x \<le> lo y" if "y \<in> set xs" for y
  proof -
    have "lo x \<le> lo y" "lo x \<noteq> lo y" using Cons.prems(1,2) that by auto
    then show ?thesis using Cons.prems(4) [of x y] that by simp
  qed
  with Cons show ?case by simp
qed simp

text \<open>What disjoint spans on the disk say of two of the tables.\<close>

lemma spans_on_disk_parts:
  assumes "spans_on_disk sz (xs @ ys)"
  shows "spans_on_disk sz xs" "spans_on_disk sz ys"
    "a \<in> set xs \<Longrightarrow> b \<in> set ys \<Longrightarrow> snd b \<le> fst a \<or> snd a \<le> fst b"
proof -
  show "spans_on_disk sz xs" "spans_on_disk sz ys" using assms by (auto simp: spans_on_disk_def list_all_iff)
  assume ab: "a \<in> set xs" "b \<in> set ys"
  then have "fst a \<noteq> fst b" using assms by (auto simp: spans_on_disk_def)
  then consider "fst a < fst b" | "fst b < fst a" by linarith
  then show "snd b \<le> fst a \<or> snd a \<le> fst b"
    using assms ab by cases (auto simp: spans_on_disk_def list_all_iff)
qed

lemma spans_on_disk_ordered:
  assumes "spans_on_disk sz (map (\<lambda>x. (lo x, hi x)) xs)" "sorted (map lo xs)"
  shows "ordered_extents lo hi xs"
  using assms by (intro ordered_by_spans) (auto simp: spans_on_disk_def list_all_iff span_inside_def comp_def)

lemma spans_of_ends:
  "spans_of metas srcs svs = map (\<lambda>m. (mxVirtualOffset m, mx_end m)) metas @
     map (\<lambda>e. (feVirtualOffset e, fe_end e)) srcs @ map (\<lambda>s. (sxVirtualOffset s, sx_end s)) svs"
  by (simp add: spans_of_def mx_end_def fe_end_def sx_end_def)

lemma validated_sources:
  assumes "validate_layout l md = None"
  shows "list_all (meta_storage_ok md) (flMetadataExtents l)" "list_all (\<lambda>e. 0 \<le> feSourceOffset e) (flSourceExtents l)"
    "flSchema l = 2" "0 < flVirtualSize l" "distinct (map sxSaveObjectID (flSaveExtents l))"
    "list_all (save_range_ok (flVirtualSize l)) (flSaveExtents l)"
proof -
  have v: "validate_ranges (flVirtualSize l) (flMetadataExtents l) (flSourceExtents l) (flSaveExtents l) = None"
    and "list_all (meta_storage_ok md) (flMetadataExtents l)" "flSchema l = 2" "0 < flVirtualSize l"
    using assms by (auto simp: validate_layout_def split: if_splits)
  then show "list_all (meta_storage_ok md) (flMetadataExtents l)" "flSchema l = 2" "0 < flVirtualSize l" by auto
  show "list_all (\<lambda>e. 0 \<le> feSourceOffset e) (flSourceExtents l)"
    using v by (auto simp: validate_ranges_def source_range_ok_def list_all_iff split: if_splits)
  have cs: "check_saves (flVirtualSize l) (flSaveExtents l) [] = None"
    using v by (auto simp: validate_ranges_def split: if_splits option.splits)
  have "check_saves sz svs seen = None \<Longrightarrow> list_all (save_range_ok sz) svs \<and> distinct (map sxSaveObjectID svs) \<and>
      set (map sxSaveObjectID svs) \<inter> set seen = {}" for sz svs seen
    by (induction sz svs seen rule: check_saves.induct) (auto split: if_splits)
  from this [OF cs] show "distinct (map sxSaveObjectID (flSaveExtents l))"
    "list_all (save_range_ok (flVirtualSize l)) (flSaveExtents l)" by auto
qed

lemma opened_backend:
  assumes "validate_layout l md = None" "layout_sorted l" "spans_on_disk (flVirtualSize l) (layout_spans l)"
    and "1 \<le> ooCacheLimit options" "flSaveExtents l = [] \<or> ooSaveStore options \<noteq> None"
  shows "\<exists>b. open_with_options l md options = Inr b \<and> backend_wf b \<and> cache_ok b \<and> cache_honest os content b \<and>
    \<not> fbClosed b \<and> fbStore b = ooSaveStore options \<and> fbSaves b = flSaveExtents l \<and> fbSize b = flVirtualSize l \<and>
    fbExtents b = flSourceExtents l"
proof -
  note v = validated_sources [OF assms(1)]
  let ?metas = "map (\<lambda>m. (mxVirtualOffset m, mx_end m)) (flMetadataExtents l)"
  let ?srcs = "map (\<lambda>e. (feVirtualOffset e, fe_end e)) (flSourceExtents l)"
  let ?svs = "map (\<lambda>s. (sxVirtualOffset s, sx_end s)) (flSaveExtents l)"
  note d = assms(3) [unfolded layout_spans_def spans_of_ends]
  note d1 = spans_on_disk_parts [OF d] and d2 = spans_on_disk_parts [OF spans_on_disk_parts(2) [OF d]]
  have ordered: "ordered_extents mxVirtualOffset mx_end (flMetadataExtents l)"
    "ordered_extents feVirtualOffset fe_end (flSourceExtents l)" "ordered_extents sxVirtualOffset sx_end (flSaveExtents l)"
    using assms(2) d1(1) d2(1,2) by (simp_all add: layout_sorted_def spans_on_disk_ordered)
  have apart: "apart (\<lambda>m. (mxVirtualOffset m, mx_end m)) (\<lambda>s. (sxVirtualOffset s, sx_end s)) (flMetadataExtents l) (flSaveExtents l)"
    "apart (\<lambda>e. (feVirtualOffset e, fe_end e)) (\<lambda>s. (sxVirtualOffset s, sx_end s)) (flSourceExtents l) (flSaveExtents l)"
    "apart (\<lambda>e. (feVirtualOffset e, fe_end e)) (\<lambda>m. (mxVirtualOffset m, mx_end m)) (flSourceExtents l) (flMetadataExtents l)"
    using d1(3) d2(3) unfolding apart_def list_all_iff by fastforce+
  show ?thesis
    using assms(1,4,5) v ordered apart
    by (auto simp: open_with_options_def backend_wf_def cache_ok_def cache_honest_def)
qed

section \<open>The disk over the save store\<close>

definition card_store_ops :: "store_config \<Rightarrow> card_store save_store" where
  "card_store_ops cfg = \<lparr>ssRead = read_save_at, ssWrite = write_save_at cfg, ssSync = store_sync cfg,
     ssClose = store_close cfg\<rparr>"

text \<open>The state between calls: an open backend over cards at rest, with honest cached handles.\<close>

definition disk_ready ::
  "store_config \<Rightarrow> 'w os \<Rightarrow> (string \<Rightarrow> byte list) \<Rightarrow> ('w, card_store) bstate \<Rightarrow> bool" where
  "disk_ready cfg os content st \<longleftrightarrow>
     backend_inv (store_inv cfg) store_card_size os content st \<and> honest_os os content \<and>
     distinct (map sxSaveObjectID (fbSaves (fst st))) \<and>
     (fbStore (fst st) = Some (card_store_ops cfg) \<or> fbStore (fst st) = None \<and> fbSaves (fst st) = [])"

text \<open>The bytes a reader of the disk sees.\<close>

definition disk_byte_of :: "(string \<Rightarrow> byte list) \<Rightarrow> ('w, card_store) bstate \<Rightarrow> int \<Rightarrow> byte" where
  "disk_byte_of content st = backend_byte content (store_byte (snd (snd st))) (fst st)"

lemma disk_ready_served: "disk_ready cfg os content st \<Longrightarrow> card_store.served_by cfg (fst st)"
  by (auto simp: disk_ready_def card_store.served_by_def card_store_ops_def split: option.split)

lemma disk_kept_ready:
  assumes "card_store.disk_kept cfg os content st st'" "disk_ready cfg os content st"
  shows "disk_ready cfg os content st'" "disk_byte_of content st' = disk_byte_of content st"
proof -
  have same: "same_disk (fst st) (fst st')" using assms(1) by (simp add: card_store.disk_kept_def keeps_cache_def)
  have inv: "backend_inv (store_inv cfg) store_card_size os content st" using assms(2) by (simp add: disk_ready_def)
  note kept = card_store.disk_kept_inv [OF assms(1) inv disk_ready_served [OF assms(2)]]
  show "disk_ready cfg os content st'"
    using assms(2) kept(1) same_disk_simps(5,8) [OF same] by (simp add: disk_ready_def)
  show "disk_byte_of content st' = disk_byte_of content st" using kept(3) by (simp add: disk_byte_of_def)
qed

lemma disk_read_ok:
  assumes "disk_ready cfg os content st" "0 \<le> off" "off + int len \<le> fbSize (fst st)"
  shows "\<exists>bs e st'. backend_read_at os len off st = Some ((bs, e), st') \<and> length bs \<le> len \<and>
    bs = byte_range (disk_byte_of content st) off (length bs) \<and> (e = None \<longrightarrow> length bs = len) \<and>
    disk_ready cfg os content st' \<and> disk_byte_of content st' = disk_byte_of content st \<and>
    int (length (fbCache (fst st'))) \<le> fbLimit (fst st') \<and> fbSize (fst st') = fbSize (fst st)"
proof -
  have ready: "backend_inv (store_inv cfg) store_card_size os content st" "honest_os os content"
    using assms(1) by (simp_all add: disk_ready_def)
  from card_store.backend_read_sound [OF ready(1) disk_ready_served [OF assms(1)] ready(2) assms(2), of len]
  obtain bs e st' where r: "backend_read_at os len off st = Some ((bs, e), st')" "length bs \<le> len"
    "bs = byte_range (disk_byte_of content st) off (length bs)" "e = None \<longrightarrow> length bs = len"
    "card_store.disk_kept cfg os content st st'"
    using assms(3) unfolding disk_byte_of_def by force
  note kept = disk_kept_ready [OF r(5) assms(1)]
  have "int (length (fbCache (fst st'))) \<le> fbLimit (fst st')"
    using kept(1) by (simp add: disk_ready_def backend_inv_def cache_ok_def)
  moreover have "fbSize (fst st') = fbSize (fst st)"
    using r(5) same_disk_simps(1) by (auto simp: card_store.disk_kept_def keeps_cache_def)
  ultimately show ?thesis using r kept by blast
qed

lemma disk_write_ok:
  assumes "disk_ready cfg os content st" "backend_write_at bs off st = ((n, None), st')"
  shows "n = length bs \<and> fst st' = fst st \<and> disk_ready cfg os content st' \<and>
    disk_byte_of content st' = patch (disk_byte_of content st) off bs"
proof -
  have ready: "backend_inv (store_inv cfg) store_card_size os content st"
    "distinct (map sxSaveObjectID (fbSaves (fst st)))"
    using assms(1) by (simp_all add: disk_ready_def)
  note w = card_store.backend_write_sound [OF ready(1) disk_ready_served [OF assms(1)] ready(2) assms(2)]
  have "disk_ready cfg os content st'" using w assms(1) by (simp add: disk_ready_def)
  moreover have "disk_byte_of content st' p = patch (disk_byte_of content st) off bs p" for p
    unfolding disk_byte_of_def using w by blast
  ultimately show ?thesis using w by auto
qed

text \<open>
  C9.  \<open>ReadAt\<close> of the GameCube disk inside its size always returns, and what it returns is a
  prefix of the reference bytes of the range, all of it when it reports no error: metadata,
  source files and memory cards at their extents, zero in between.  It leaves every byte of
  the disk as it was, and its handle cache within the limit.
\<close>

theorem backend_read_refines:
  assumes "disk_ready cfg os content st" "0 \<le> off" "off + int len \<le> fbSize (fst st)"
  shows "\<exists>bs e st'. backend_read_at os len off st = Some ((bs, e), st') \<and> length bs \<le> len \<and>
    bs = byte_range (disk_byte_of content st) off (length bs) \<and> (e = None \<longrightarrow> length bs = len) \<and>
    disk_ready cfg os content st' \<and> disk_byte_of content st' = disk_byte_of content st \<and>
    int (length (fbCache (fst st'))) \<le> fbLimit (fst st')"
  using disk_read_ok [OF assms] by blast

text \<open>
  C10.  A write the disk acknowledges has all its bytes in one memory card, changes exactly the
  bytes it names for every later reader, and keeps the disk ready.
\<close>

theorem backend_write_visible:
  assumes "disk_ready cfg os content st" "backend_write_at bs off st = ((n, None), st')"
  shows "n = length bs \<and> disk_ready cfg os content st' \<and>
    disk_byte_of content st' = patch (disk_byte_of content st) off bs"
  using disk_write_ok [OF assms] by blast

text \<open>
  C11.  A ready disk refuses a write that is not wholly inside one memory card and changes nothing: with a
  permission error on a read-only disk; else with the code for a write outside the cards when it
  is empty, starts before the disk or outside every card, or runs past the end of the disk; and
  else, when it starts in a card and ends on the disk, with the code for crossing a card's end.
\<close>

theorem backend_write_refused:
  assumes "disk_ready cfg os content st"
    and "\<not> (\<exists>s \<in> set (fbSaves (fst st)). bs \<noteq> [] \<and> sxVirtualOffset s \<le> off \<and> off + int (length bs) \<le> sx_end s)"
  shows "backend_write_at bs off st = ((0, Some (
      if backend_read_only (fst st) then ErrPermission
      else if off < 0 \<or> bs = [] \<or> fbSize (fst st) < off + int (length bs) \<or>
        (\<forall>s \<in> set (fbSaves (fst st)). \<not> (sxVirtualOffset s \<le> off \<and> off < sx_end s))
      then Coded ''SAVE-WRITE-OUTSIDE-EXTENT''
      else Coded ''SAVE-WRITE-CROSSES-BOUNDARY'')), st)"
proof -
  obtain b w s where st: "st = (b, w, s)" by (cases st)
  have ready: "\<not> fbClosed b" "ordered_extents sxVirtualOffset sx_end (fbSaves b)"
    using assms(1) by (auto simp: disk_ready_def backend_inv_def backend_wf_def st)
  show ?thesis
  proof (cases "find_save (fbSaves b) off")
    case None
    then show ?thesis
      using ready save_table.lookup_None_iff [OF ready(2), of off]
      by (auto simp: backend_write_at_def st Let_def backend_read_only_def split: option.split)
  next
    case (Some x)
    note x = save_table.lookup_sound [OF Some]
    with assms(2) have "bs = [] \<or> int (length bs) > sx_end x - off" by (force simp: st)
    with Some x ready show ?thesis
      by (auto simp: backend_write_at_def st Let_def backend_read_only_def split: option.split)
  qed
qed

text \<open>The offset on the disk of the file at position \<open>p\<close> of the walk.\<close>

definition file_offset :: "fat_layout \<Rightarrow> fat_file list \<Rightarrow> fat_node \<Rightarrow> nat \<Rightarrow> int" where
  "file_offset l files root p = cluster_offset (data_start (fgFATSectors (flGeometry l)))
     (chain_start (dir_counts root @ file_counts files root) 2 ! (length (collect_dirs root) + p))"

lemma saves_from_served:
  assumes "saves_from files (fbSaves b)"
    and "\<forall>f \<in> set files. ffWritable f \<longrightarrow> (\<exists>sz. sizes (ffSaveObjectID f) = Some sz \<and> ffCardSize f \<le> sz)"
  shows "saves_served sizes b"
  using assms by (fastforce simp: saves_from_def saves_served_def list_all_iff list_ex_iff split: option.split)

lemma mapped_file_byte:
  assumes "file_mapped l md files root p" "backend_wf b" "fbSaves b = flSaveExtents l" "fbExtents b = flSourceExtents l"
    and "f = files ! (file_indices root ! p)" "0 \<le> k" "k < ffLogicalSize f" "file_ok f"
  shows "backend_byte content cards b (file_offset l files root p + k) =
    (if ffWritable f then cards (ffSaveObjectID f) k
     else content (ffSourcePath f) ! nat (ffSourceOffset f + k))"
proof -
  define c where "c = chain_start (dir_counts root @ file_counts files root) 2 ! (length (collect_dirs root) + p)"
  define ds where "ds = data_start (fgFATSectors (flGeometry l))"
  have off: "file_offset l files root p = cluster_offset ds c" by (simp add: file_offset_def c_def ds_def)
  show ?thesis
  proof (cases "ffWritable f")
    case True
    then obtain s where s: "s \<in> set (fbSaves b)" "s = (save_of ds c f)\<lparr>sxLayoutChecksum := flLayoutChecksum l\<rparr>"
      using assms(1,3,5) by (auto simp: file_mapped_def Let_def c_def ds_def)
    then have parts: "sxVirtualOffset s = cluster_offset ds c" "sx_end s = cluster_offset ds c + ffLogicalSize f"
      "sxSaveObjectID s = ffSaveObjectID f" "sxCardOffset s = 0"
      using True assms(8) by (simp_all add: save_of_def sx_end_def file_ok_def)
    have "backend_byte content cards b (cluster_offset ds c + k) = cards (ffSaveObjectID f) k"
      using backend_byte_save [OF assms(2) s(1), of "cluster_offset ds c + k" content cards] assms(6,7)
      by (simp add: parts)
    with True off show ?thesis by simp
  next
    case False
    then have e: "source_of ds c f \<in> set (fbExtents b)"
      using assms(1,4,5) by (auto simp: file_mapped_def Let_def c_def ds_def)
    have "backend_byte content cards b (cluster_offset ds c + k) =
        content (ffSourcePath f) ! nat (ffSourceOffset f + k)"
      using backend_byte_source [OF assms(2) e, of "cluster_offset ds c + k" content cards] assms(6,7)
      by (simp add: source_of_def fe_end_def)
    with False off show ?thesis by simp
  qed
qed

lemma built_disk_ok:
  assumes "build_input virtualSize files0 files root" "1 \<le> limit" "honest_os os content" "store_inv cfg cs"
    and "\<forall>f \<in> set files. ffWritable f \<longrightarrow>
      (\<exists>sz. store_card_size cs (ffSaveObjectID f) = Some sz \<and> ffCardSize f \<le> sz)"
  shows "\<exists>l md b. fat_build virtualSize label identity files0 = Inr (l, md) \<and>
    open_with_options l md \<lparr>ooSourceFilesystems = fss, ooCacheLimit = limit,
      ooSaveStore = Some (card_store_ops cfg)\<rparr> = Inr b \<and>
    fbSize b = virtualSize \<and> disk_ready cfg os content (b, w, cs) \<and>
    (\<forall>p k. p < length files \<longrightarrow> 0 \<le> k \<longrightarrow> k < ffLogicalSize (files ! (file_indices root ! p)) \<longrightarrow>
       disk_byte_of content (b, w, cs) (file_offset l files root p + k) =
         (let f = files ! (file_indices root ! p)
          in if ffWritable f then store_byte cs (ffSaveObjectID f) k
             else content (ffSourcePath f) ! nat (ffSourceOffset f + k)))"
proof -
  obtain l md where l: "fat_build virtualSize label identity files0 = Inr (l, md)" "validate_layout l md = None"
    "layout_sorted l" "flVirtualSize l = virtualSize" "saves_from files (flSaveExtents l)"
    "spans_on_disk virtualSize (layout_spans l)" "\<forall>p < length files. file_mapped l md files root p"
    using fat_build_ok [OF assms(1), of label identity] by blast
  define opts where "opts = \<lparr>ooSourceFilesystems = fss, ooCacheLimit = limit, ooSaveStore = Some (card_store_ops cfg)\<rparr>"
  obtain b where b: "open_with_options l md opts = Inr b" "backend_wf b" "cache_ok b" "cache_honest os content b"
    "\<not> fbClosed b" "fbStore b = Some (card_store_ops cfg)" "fbSaves b = flSaveExtents l" "fbSize b = virtualSize"
    "fbExtents b = flSourceExtents l"
    using opened_backend [OF l(2,3) l(6) [folded l(4)], of opts os content] assms(2) l(4) by (auto simp: opts_def)
  have served: "saves_served (store_card_size cs) b"
    by (rule saves_from_served [OF l(5) [folded b(7)] assms(5)])
  have "distinct (map sxSaveObjectID (fbSaves b))" unfolding b(7) by (rule validated_sources(5) [OF l(2)])
  with b served assms(3,4) have ready: "disk_ready cfg os content (b, w, cs)"
    by (simp add: disk_ready_def backend_inv_def)
  have ok: "file_ok (files ! (file_indices root ! p))" if "p < length files" for p
  proof -
    have "mset (file_indices root) = mset [0..<length files]" "list_all file_ok files"
      using build_input_files [OF assms(1)] by auto
    then have "length (file_indices root) = length files" "set (file_indices root) = {0..<length files}"
      using mset_eq_length mset_eq_setD by fastforce+
    then show ?thesis using that \<open>list_all file_ok files\<close> nth_mem [of p "file_indices root"] by (auto simp: list_all_length)
  qed
  have "disk_byte_of content (b, w, cs) (file_offset l files root p + k) =
      (let f = files ! (file_indices root ! p)
       in if ffWritable f then store_byte cs (ffSaveObjectID f) k
          else content (ffSourcePath f) ! nat (ffSourceOffset f + k))"
    if "p < length files" "0 \<le> k" "k < ffLogicalSize (files ! (file_indices root ! p))" for p k
    unfolding disk_byte_of_def Let_def fst_conv snd_conv
    using l(7) that b(2,7,9) ok by (intro mapped_file_byte) auto
  with l(1) b(1,8) ready show ?thesis unfolding opts_def by blast
qed

text \<open>
  C8.  From files to bytes: for valid files whose cards the save store holds, \<open>Build\<close> returns a
  layout that \<open>OpenWithOptions\<close> accepts, the opened disk is ready, and every byte of every file
  stands at its place: a byte of its source file, or of its memory card.
\<close>

theorem built_disk_serves_files:
  assumes "build_input virtualSize files0 files root" "1 \<le> limit" "honest_os os content" "store_inv cfg cs"
    and "\<forall>f \<in> set files. ffWritable f \<longrightarrow>
      (\<exists>sz. store_card_size cs (ffSaveObjectID f) = Some sz \<and> ffCardSize f \<le> sz)"
  shows "\<exists>l md b. fat_build virtualSize label identity files0 = Inr (l, md) \<and>
    open_with_options l md \<lparr>ooSourceFilesystems = fss, ooCacheLimit = limit,
      ooSaveStore = Some (card_store_ops cfg)\<rparr> = Inr b \<and>
    fbSize b = virtualSize \<and> disk_ready cfg os content (b, w, cs) \<and>
    (\<forall>p k. p < length files \<longrightarrow> 0 \<le> k \<longrightarrow> k < ffLogicalSize (files ! (file_indices root ! p)) \<longrightarrow>
       disk_byte_of content (b, w, cs) (file_offset l files root p + k) =
         (let f = files ! (file_indices root ! p)
          in if ffWritable f then store_byte cs (ffSaveObjectID f) k
             else content (ffSourcePath f) ! nat (ffSourceOffset f + k)))"
  using assms by (rule built_disk_ok)

section \<open>A disk with one game and one card\<close>

definition sample_store :: card_store where
  "sample_store = \<lparr>csObjects = [(''individual:GALE01'', demo_card)], csClosed = False\<rparr>"

definition sample_tree :: "(string \<times> file_info \<times> byte list) list" where
  "sample_tree = [(''/src/demo.iso'', \<lparr>fiRegular = True, fiIsDir = False, fiSymlink = False, fiSize = 40000, fiModNano = 1,
     fiSys = Some (1, 2)\<rparr>, replicate 40000 7)]"

lemma sample_store_inv: "store_inv demo_config sample_store"
  using demo_card_journalled by (auto simp: store_inv_def sample_store_def)

lemma sample_cards:
  "\<forall>f \<in> set sample_files. ffWritable f \<longrightarrow>
     (\<exists>sz. store_card_size sample_store (ffSaveObjectID f) = Some sz \<and> ffCardSize f \<le> sz)"
  by (auto simp: sample_files_def sample_game_def sample_card_def sample_store_def store_card_size_def
      demo_card_def demo_spec_def)

theorem built_disk_serves_files_witness:
  "\<exists>l md b. fat_build 3145728 ''WIIBRIDGE'' ''id'' [sample_game, sample_card] = Inr (l, md) \<and>
     open_with_options l md \<lparr>ooSourceFilesystems = [], ooCacheLimit = 4,
       ooSaveStore = Some (card_store_ops demo_config)\<rparr> = Inr b \<and>
     disk_ready demo_config (mem_os sample_tree) (mem_content sample_tree) (b, (), sample_store)"
proof -
  have "(1 :: int) \<le> 4" by simp
  from built_disk_serves_files [OF sample_input this mem_os_honest sample_store_inv sample_cards,
      of "''WIIBRIDGE''" "''id''" "[]" sample_tree "()"]
  show ?thesis by blast
qed

lemma sample_disk:
  "\<exists>l md b. fat_build 3145728 ''WIIBRIDGE'' ''id'' [sample_game, sample_card] = Inr (l, md) \<and>
     open_with_options l md \<lparr>ooSourceFilesystems = [], ooCacheLimit = 4,
       ooSaveStore = Some (card_store_ops demo_config)\<rparr> = Inr b \<and> fbSize b = 3145728 \<and>
     disk_ready demo_config (mem_os sample_tree) (mem_content sample_tree) (b, (), sample_store)"
proof -
  have "(1 :: int) \<le> 4" by simp
  from built_disk_ok [OF sample_input this mem_os_honest sample_store_inv sample_cards,
      of "''WIIBRIDGE''" "''id''" "[]" sample_tree "()"]
  show ?thesis by blast
qed

theorem backend_read_refines_witness:
  "\<exists>b bs e st'. backend_read_at (mem_os sample_tree) 512 0 (b, (), sample_store) = Some ((bs, e), st') \<and>
     fbSize b = 3145728 \<and>
     bs = byte_range (disk_byte_of (mem_content sample_tree) (b, (), sample_store)) 0 (length bs)"
proof -
  obtain b where b: "fbSize b = 3145728"
    "disk_ready demo_config (mem_os sample_tree) (mem_content sample_tree) (b, (), sample_store)"
    using sample_disk by blast
  from backend_read_refines [OF b(2), of 0 512] b(1) show ?thesis by fastforce
qed

definition card_extent :: save_extent where
  "card_extent = \<lparr>sxVirtualOffset = 512, sxLength = 524288, sxSaveObjectID = ''individual:GALE01'', sxCardOffset = 0,
     sxCardSize = 524288, sxGenerationID = ''g'', sxLayoutChecksum = ''''\<rparr>"

definition card_backend :: "card_store backend" where
  "card_backend = \<lparr>fbSize = 525312, fbMetadata = [], fbMeta = [], fbExtents = [], fbSaves = [card_extent], fbLimit = 4,
     fbCache = [], fbClosed = False, fbStats = \<lparr>stSourceOpens = 0, stSourceReads = 0, stCacheHits = 0,
       stPeakOpenFiles = 0, stCachedFiles = 0, stCacheMisses = 0, stEvictions = 0\<rparr>,
     fbStore = Some (card_store_ops demo_config), fbFilesystems = [], fbReports = []\<rparr>"

lemma card_backend_ready:
  "disk_ready demo_config (mem_os sample_tree) (mem_content sample_tree) (card_backend, (), sample_store)"
  using sample_store_inv mem_os_honest
  by (simp add: disk_ready_def backend_inv_def backend_wf_def cache_ok_def cache_honest_def saves_served_def
      card_backend_def card_extent_def sx_end_def apart_def store_card_size_def sample_store_def demo_card_def demo_spec_def)

text \<open>A write over the end of the card, one before it, and one from it past the end of the disk.\<close>

theorem backend_write_refused_witness:
  "backend_write_at [1, 2] 524799 (card_backend, (), sample_store) =
     ((0, Some (Coded ''SAVE-WRITE-CROSSES-BOUNDARY'')), (card_backend, (), sample_store)) \<and>
   backend_write_at [1, 2] 511 (card_backend, (), sample_store) =
     ((0, Some (Coded ''SAVE-WRITE-OUTSIDE-EXTENT'')), (card_backend, (), sample_store)) \<and>
   backend_write_at (replicate 600 0) 524799 (card_backend, (), sample_store) =
     ((0, Some (Coded ''SAVE-WRITE-OUTSIDE-EXTENT'')), (card_backend, (), sample_store))"
proof -
  have rw: "\<not> backend_read_only card_backend" "fbSaves card_backend = [card_extent]" "fbSize card_backend = 525312"
    by (simp_all add: backend_read_only_def card_backend_def)
  have e: "sxVirtualOffset card_extent = 512" "sx_end card_extent = 524800"
    by (simp_all add: card_extent_def sx_end_def)
  show ?thesis
    using backend_write_refused [OF card_backend_ready, of "[1, 2]" 524799]
      backend_write_refused [OF card_backend_ready, of "[1, 2]" 511]
      backend_write_refused [OF card_backend_ready, of "replicate 600 0" 524799]
    by (simp add: rw e)
qed

lemma sample_write:
  "\<exists>s'. write_save_at demo_config ''individual:GALE01'' [9] 88 sample_store = ((1, None), s')"
proof -
  have sz: "soCardSize (scSpec demo_card) = 524288" by (simp add: demo_card_def demo_spec_def)
  have rec: "record_ok (soCardSize (scSpec demo_card)) (88, [9])" by (simp add: sz record_ok_def)
  obtain c' where "card_write demo_config [9] 88 demo_card = ((length [9 :: byte], None), c')"
    using card_write_journalled [OF demo_card_journalled rec] by (auto simp: demo_config_def)
  then show ?thesis by (simp add: write_save_at_def sample_store_def)
qed

theorem backend_write_visible_witness:
  "\<exists>st'. backend_write_at [9] 600 (card_backend, (), sample_store) = ((1, None), st') \<and>
     disk_byte_of (mem_content sample_tree) st' 600 = 9"
proof -
  obtain s' where s': "write_save_at demo_config ''individual:GALE01'' [9] 88 sample_store = ((1, None), s')"
    using sample_write by blast
  have "find_save [card_extent] 600 = Some card_extent"
    by (rule save_table.lookup_complete) (simp_all add: card_extent_def sx_end_def)
  then have w: "backend_write_at [9] 600 (card_backend, (), sample_store) = ((1, None), card_backend, (), s')"
    using s' by (simp add: backend_write_at_def card_backend_def card_store_ops_def card_extent_def sx_end_def)
  from backend_write_visible [OF card_backend_ready w] w show ?thesis by (auto simp: patch_def)
qed

end
