(* ===== verification/Vdisk_Read.thy ===== *)
theory Vdisk_Read
  imports Vdisk_Layout Block_Device
begin

text \<open>
  \<open>ReadAt\<close> of \<open>server/host-daemon/vdisk/vdisk.go\<close>, one iteration of its loop at a time:
  stored metadata, a generated FAT sector, an unmapped gap, padding, or a source range that
  is verified, opened, read and closed.  The reference is \<open>disk_byte\<close>, the byte at one
  position.  Metrics are off (\<open>d.metrics == nil\<close>); the code given to
  \<open>reportSourceFailure\<close>, which a timer may drop, is the third component of a result.
\<close>

definition find_mapped :: "disk_extent list \<Rightarrow> int \<Rightarrow> disk_extent option" where
  "find_mapped extents pos =
     (let index = sort_search (length extents)
            (\<lambda>i. exStart (extents ! i) + exLength (extents ! i) > pos)
      in if index < length extents \<and> exStart (extents ! index) \<le> pos
         then Some (extents ! index) else None)"

interpretation vdisk_extents: extent_table exStart ex_end find_mapped
  by unfold_locales (simp add: find_mapped_def ex_end_def)

definition vdisk_source_failure_code :: "go_err \<Rightarrow> string" where
  "vdisk_source_failure_code err =
     (if errors_Is err ErrPermission then ''SOURCE-PERMISSION-DENIED'' else ''SOURCE-READ-FAILED'')"

type_synonym read_step = "nat \<times> byte list \<times> go_err option \<times> string option"

definition read_source :: "'w os \<Rightarrow> disk_extent \<Rightarrow> int \<Rightarrow> nat \<Rightarrow> 'w \<Rightarrow> read_step \<times> 'w" where
  "read_source os e pos n w =
     (case verify_source os (exSource e) w of
        (Some err, w1) \<Rightarrow>
          ((n, [], Some err,
            Some (if \<not> errors_Is err ErrNotExist \<and> \<not> errors_Is err ErrPermission
                  then ''SOURCE-IDENTITY-CHANGED'' else vdisk_source_failure_code err)), w1)
      | (None, w1) \<Rightarrow>
          (case os_open os (srcPath (exSource e)) w1 of
             (Inl err, w2) \<Rightarrow> ((n, [], Some err, Some (vdisk_source_failure_code err)), w2)
           | (Inr f, w2) \<Rightarrow>
               (case read_at_full os f n (exSourceOffset e + pos - exStart e) [] w2 of
                  ((bs, readErr), w3) \<Rightarrow>
                    (case os_close os f w3 of
                       (closeErr, w4) \<Rightarrow>
                         (case readErr of
                            Some err \<Rightarrow> ((n, bs, Some err, Some (vdisk_source_failure_code err)), w4)
                          | None \<Rightarrow> ((n, bs, closeErr, None), w4))))))"

definition disk_step :: "'w os \<Rightarrow> disk \<Rightarrow> int \<Rightarrow> nat \<Rightarrow> 'w \<Rightarrow> read_step \<times> 'w" where
  "disk_step os d pos remaining w =
     (let sector = pos div sector_size; inSector = pos mod sector_size;
          toSectorEnd = nat (sector_size - inSector)
      in case map_of (dkMetadata d) sector of
           Some bs \<Rightarrow>
             (let n = min remaining toSectorEnd
              in ((n, slice bs (nat inSector) n, None, None), w))
         | None \<Rightarrow>
             (case fat_sector_index d sector of
                Some fatSector \<Rightarrow>
                  (let n = min remaining toSectorEnd
                   in if inSector = 0 \<and> int n = sector_size
                      then ((n, fill_fat_sector (dkFatChains d) n fatSector, None, None), w)
                      else ((n, slice (fill_fat_sector (dkFatChains d) (nat sector_size) fatSector)
                                  (nat inSector) n, None, None), w))
              | None \<Rightarrow>
                  (case find_mapped (dkExtents d) pos of
                     None \<Rightarrow> (let n = min remaining toSectorEnd in ((n, zeros n, None, None), w))
                   | Some e \<Rightarrow>
                       let available = exStart e + exLength e - pos;
                           n = (if int remaining > available then nat available else remaining)
                       in if exZero e then ((n, zeros n, None, None), w)
                          else read_source os e pos n w)))"

lemma read_source_count: "read_source os e pos n w = ((m, x), w') \<Longrightarrow> m = n"
  by (auto simp: read_source_def split: prod.splits option.splits sum.splits)

lemma disk_step_progress:
  assumes "disk_step os d pos remaining w = ((n, x), w')" "0 < remaining"
  shows "0 < n \<and> n \<le> remaining"
proof -
  have "0 < nat (sector_size - pos mod sector_size)" by simp
  moreover have "0 < exStart e + exLength e - pos" if "find_mapped (dkExtents d) pos = Some e" for e
    using vdisk_extents.lookup_sound(3) [OF that] by (simp add: ex_end_def)
  ultimately show ?thesis
    using assms
    by (auto simp: disk_step_def Let_def dest: read_source_count split: option.splits if_splits)
qed

function disk_read_loop ::
  "'w os \<Rightarrow> disk \<Rightarrow> int \<Rightarrow> nat \<Rightarrow> nat \<Rightarrow> byte list \<Rightarrow> 'w \<Rightarrow>
   (byte list \<times> go_err option \<times> string option) \<times> 'w" where
  "disk_read_loop os d off len done acc w =
     (if done < len
      then case disk_step os d (off + int done) (len - done) w of
             ((n, bs, Some err, report), w') \<Rightarrow> ((acc @ bs, Some err, report), w')
           | ((n, bs, None, report), w') \<Rightarrow> disk_read_loop os d off len (done + n) (acc @ bs) w'
      else ((acc, None, None), w))"
  by pat_completeness auto
termination
  by (relation "measure (\<lambda>(os, d, off, len, done, acc, w). len - done)")
    (auto dest!: disk_step_progress [OF sym])

declare disk_read_loop.simps [simp del]

definition disk_read_at ::
  "'w os \<Rightarrow> disk \<Rightarrow> nat \<Rightarrow> int \<Rightarrow> 'w \<Rightarrow> (byte list \<times> go_err option \<times> string option) \<times> 'w" where
  "disk_read_at os d len off w =
     (if off < 0 \<or> int len > dkSize d - off then (([], Some EOF, None), w)
      else disk_read_loop os d off len 0 [] w)"

text \<open>The byte at one position, \<open>content\<close> giving the bytes of the source files.\<close>

definition disk_byte :: "(string \<Rightarrow> byte list) \<Rightarrow> disk \<Rightarrow> int \<Rightarrow> byte" where
  "disk_byte content d pos =
     (case map_of (dkMetadata d) (pos div 512) of
        Some bs \<Rightarrow> bs ! nat (pos mod 512)
      | None \<Rightarrow>
          (case fat_sector_index d (pos div 512) of
             Some r \<Rightarrow> le_bytes 4 (fat_value (dkFatChains d) (nat r * 128 + nat (pos mod 512) div 4))
                         ! (nat (pos mod 512) mod 4)
           | None \<Rightarrow>
               (case find (\<lambda>e. exStart e \<le> pos \<and> pos < ex_end e) (dkExtents d) of
                  None \<Rightarrow> 0
                | Some e \<Rightarrow>
                    if exZero e then 0
                    else content (srcPath (exSource e)) ! nat (exSourceOffset e + (pos - exStart e)))))"

section \<open>One step reads the reference bytes\<close>

lemma fill_fat_sector_byte:
  assumes "chains_ok chs" "0 \<le> r" "(r + 1) * 128 < 2 ^ 32" "k < 512"
  shows "fill_fat_sector chs 512 r ! k =
    le_bytes 4 (fat_value chs (nat r * 128 + k div 4)) ! (k mod 4)"
proof -
  have j: "k div 4 < 128" using assms(4) by simp
  note e = fill_fat_sector_entry [OF assms(1-3) j]
  have "slice (fill_fat_sector chs 512 r) (4 * (k div 4)) 4 ! (k mod 4) =
      fill_fat_sector chs 512 r ! (4 * (k div 4) + k mod 4)"
    by (rule nth_slice) (use j e(2) in auto)
  moreover have "4 * (k div 4) + k mod 4 = k" by simp
  moreover have "slice (fill_fat_sector chs 512 r) (4 * (k div 4)) 4 =
      le_bytes 4 (fat_value chs (nat r * 128 + k div 4))"
    using slice_of_get_le [of "4 * (k div 4)" 4 "fill_fat_sector chs 512 r"] j e by simp
  ultimately show ?thesis by simp
qed

lemma same_sector:
  fixes pos :: int
  assumes "i < nat (512 - pos mod 512)"
  shows "(pos + int i) div 512 = pos div 512" "(pos + int i) mod 512 = pos mod 512 + int i"
proof -
  have "0 \<le> pos mod 512 + int i" "pos mod 512 + int i < 512" using assms by auto
  moreover have "pos + int i = 512 * (pos div 512) + (pos mod 512 + int i)" by simp
  ultimately show "(pos + int i) div 512 = pos div 512" "(pos + int i) mod 512 = pos mod 512 + int i"
    using int_div_pos_eq int_mod_pos_eq by blast+
qed

lemma disk_byte_extent:
  assumes "disk_wf d" "e \<in> set (dkExtents d)" "exStart e \<le> pos" "pos < ex_end e"
  shows "map_of (dkMetadata d) (pos div 512) = None" "fat_sector_index d (pos div 512) = None"
    "disk_byte content d pos = (if exZero e then 0
       else content (srcPath (exSource e)) ! nat (exSourceOffset e + (pos - exStart e)))"
proof -
  from assms(1) obtain base fin where c: "contig base (dkExtents d) fin" "base mod 512 = 0"
    "(dkFatStart d + 2 * dkFatSectors d) * 512 \<le> base"
    "\<forall>s \<in> dom (map_of (dkMetadata d)). s * 512 < base"
    by (auto simp: disk_wf_def)
  from contig_bounds [OF c(1)] assms(2,3) have pos: "base \<le> pos" by force
  with c(2) have sec: "base div 512 \<le> pos div 512" "base = base div 512 * 512"
    by (auto intro: zdiv_mono1)
  then have "base \<le> pos div 512 * 512" by linarith
  with c(3,4) show meta: "map_of (dkMetadata d) (pos div 512) = None"
    and fat: "fat_sector_index d (pos div 512) = None"
    by (force simp: fat_sector_index_def Let_def domIff split: if_splits)+
  have "find_mapped (dkExtents d) pos = Some e"
    by (rule vdisk_extents.lookup_complete [OF contig_ordered [OF c(1)] assms(2-4)])
  then have "find (\<lambda>e. exStart e \<le> pos \<and> pos < ex_end e) (dkExtents d) = Some e"
    using vdisk_extents.lookup_is_find [OF contig_ordered [OF c(1)]] by simp
  with meta fat show "disk_byte content d pos = (if exZero e then 0
       else content (srcPath (exSource e)) ! nat (exSourceOffset e + (pos - exStart e)))"
    by (simp add: disk_byte_def)
qed

lemma disk_byte_gap:
  assumes "disk_wf d" "map_of (dkMetadata d) (pos div 512) = None"
    "fat_sector_index d (pos div 512) = None" "find_mapped (dkExtents d) pos = None"
    "i < nat (512 - pos mod 512)"
  shows "disk_byte content d (pos + int i) = 0"
proof -
  from assms(1) obtain base fin where c: "contig base (dkExtents d) fin" "base mod 512 = 0"
    by (auto simp: disk_wf_def)
  note ord = contig_ordered [OF c(1)]
  have "\<not> (base \<le> pos \<and> pos < fin)"
    using contig_covers [OF c(1), of pos] assms(4) vdisk_extents.lookup_None_iff [OF ord] by blast
  moreover have "pos < base \<Longrightarrow> pos + int i < base"
  proof -
    assume "pos < base"
    moreover obtain b where "base = 512 * b" using c(2) by auto
    moreover obtain q r where "pos = 512 * q + r" "pos mod 512 = r" "0 \<le> r" "r < 512"
      by (metis div_mult_mod_eq mult.commute pos_mod_bound pos_mod_sign zero_less_numeral)
    ultimately have "512 * q + r < 512 * b" "int i < 512 - r" "pos = 512 * q + r" "base = 512 * b"
      "r < 512" "0 \<le> r"
      using assms(5) by auto
    moreover from this have "q < b" by linarith
    ultimately show "pos + int i < base" by linarith
  qed
  ultimately have out: "pos + int i < base \<or> fin \<le> pos + int i" by linarith
  then have "find (\<lambda>e. exStart e \<le> pos + int i \<and> pos + int i < ex_end e) (dkExtents d) = None"
    using contig_bounds [OF c(1)] by (force simp: find_None_iff)
  with assms(2,3) same_sector [OF assms(5)] show ?thesis by (simp add: disk_byte_def)
qed

lemma read_source_sound:
  assumes "honest_os os content" "0 \<le> exSourceOffset e" "exStart e \<le> pos"
    and "read_source os e pos n w = ((m, bs, err, rep), w')"
  shows "length bs \<le> n"
    and "bs = slice (content (srcPath (exSource e))) (nat (exSourceOffset e + (pos - exStart e))) (length bs)"
    and "err = None \<Longrightarrow> length bs = n"
proof -
  have off: "0 \<le> exSourceOffset e + pos - exStart e" using assms(2,3) by simp
  have eq: "exSourceOffset e + pos - exStart e = exSourceOffset e + (pos - exStart e)" by simp
  have full: "length bs \<le> n \<and>
      bs = slice (content (srcPath (exSource e))) (nat (exSourceOffset e + (pos - exStart e))) (length bs) \<and>
      (x = None \<longleftrightarrow> length bs = n)"
    if "os_open os (srcPath (exSource e)) w1 = (Inr f, w2)"
      "read_at_full os f n (exSourceOffset e + pos - exStart e) [] w2 = ((bs, x), w3)" for w1 f w2 x w3
  proof -
    have "honest_pread os f (content (srcPath (exSource e)))"
      using assms(1) that(1) unfolding honest_os_def by blast
    from read_at_full_honest [OF this off that(2)] show ?thesis unfolding eq by (simp add: slice_def)
  qed
  have "bs = [] \<and> err \<noteq> None \<or> (\<exists>w1 f w2 x w3. os_open os (srcPath (exSource e)) w1 = (Inr f, w2) \<and>
      read_at_full os f n (exSourceOffset e + pos - exStart e) [] w2 = ((bs, x), w3) \<and>
      (err = None \<longrightarrow> x = None))"
  proof (cases "bs = [] \<and> err \<noteq> None")
    case False
    obtain v w1 where v: "verify_source os (exSource e) w = (v, w1)" by (metis prod.exhaust)
    obtain o1 w2 where o1: "os_open os (srcPath (exSource e)) w1 = (o1, w2)" by (metis prod.exhaust)
    from False assms(4) v o1 obtain f where f: "v = None" "o1 = Inr f"
      by (auto simp: read_source_def split: option.splits sum.splits prod.splits)
    obtain bs1 x w3 where r: "read_at_full os f n (exSourceOffset e + pos - exStart e) [] w2 = ((bs1, x), w3)"
      by (metis prod.exhaust)
    obtain ce w4 where "os_close os f w3 = (ce, w4)" by (metis prod.exhaust)
    with assms(4) v o1 f r have "bs = bs1" "err = None \<longrightarrow> x = None"
      by (auto simp: read_source_def split: option.splits)
    with o1 f r show ?thesis by blast
  qed blast
  then show "length bs \<le> n"
    "bs = slice (content (srcPath (exSource e))) (nat (exSourceOffset e + (pos - exStart e))) (length bs)"
    "err = None \<Longrightarrow> length bs = n"
    using full by (force simp: slice_def, (elim disjE exE conjE, simp add: slice_def, blast dest: full)+)
qed

lemma disk_step_sound:
  assumes wf: "disk_wf d" and hon: "honest_os os content" and "0 \<le> pos" "0 < remaining"
    and step: "disk_step os d pos remaining w = ((n, bs, err, rep), w')"
  shows "length bs \<le> n \<and> bs = byte_range (disk_byte content d) pos (length bs) \<and>
    (err = None \<longrightarrow> length bs = n)"
proof -
  define k where "k = nat (512 - pos mod 512)"
  have k: "k \<le> 512" "nat (pos mod 512) + k = 512" by (simp_all add: k_def nat_diff_distrib')
  note same = same_sector [where pos = pos, folded k_def]
  have mod_i: "nat ((pos + int i) mod 512) = nat (pos mod 512) + i" if "i < k" for i
    using same(2) [OF that] by (simp add: nat_add_distrib)
  consider (meta) b where "map_of (dkMetadata d) (pos div 512) = Some b"
    | (fat) r where "map_of (dkMetadata d) (pos div 512) = None"
        "fat_sector_index d (pos div 512) = Some r"
    | (gap) "map_of (dkMetadata d) (pos div 512) = None" "fat_sector_index d (pos div 512) = None"
        "find_mapped (dkExtents d) pos = None"
    | (ext) e where "find_mapped (dkExtents d) pos = Some e"
        "map_of (dkMetadata d) (pos div 512) = None" "fat_sector_index d (pos div 512) = None"
    by (metis option.exhaust)
  then show ?thesis
  proof cases
    case meta
    from wf meta have len: "length b = 512" by (auto simp: disk_wf_def)
    from step meta have out: "n = min remaining k" "bs = slice b (nat (pos mod 512)) n" "err = None"
      by (auto simp: disk_step_def Let_def k_def)
    have lbs: "length bs = n" unfolding out(2) by (rule length_slice) (use len k out(1) in auto)
    have "bs = byte_range (disk_byte content d) pos n"
    proof (rule byte_range_eqI [OF lbs])
      fix i assume "i < n"
      with out(1) have i: "i < k" by simp
      with \<open>i < n\<close> out len k show "bs ! i = disk_byte content d (pos + int i)"
        by (simp add: disk_byte_def same(1) [OF i] mod_i [OF i] meta nth_slice)
    qed
    with lbs out(3) show ?thesis by simp
  next
    case fat
    from wf have ch: "chains_ok (dkFatChains d)" and big: "dkFatSectors d * 128 < 2 ^ 32"
      by (auto simp: disk_wf_def)
    from fat(2) have r: "0 \<le> r" "r < dkFatSectors d"
      by (auto simp: fat_sector_index_def Let_def split: if_splits)
    have r32: "(r + 1) * 128 < 2 ^ 32" using r big by simp
    let ?f = "fill_fat_sector (dkFatChains d) 512 r"
    have flen: "length ?f = 512" by (rule fill_fat_sector_entry(2) [OF ch r(1) r32, of 0]) simp
    have out: "n = min remaining k" "bs = slice ?f (nat (pos mod 512)) n" "err = None"
    proof -
      show "n = min remaining k" "err = None"
        using step fat by (auto simp: disk_step_def Let_def k_def split: if_splits)
      show "bs = slice ?f (nat (pos mod 512)) n"
        using step fat flen by (auto simp: disk_step_def Let_def k_def slice_def split: if_splits)
    qed
    have lbs: "length bs = n" unfolding out(2) by (rule length_slice) (use flen k out(1) in auto)
    have "bs = byte_range (disk_byte content d) pos n"
    proof (rule byte_range_eqI [OF lbs])
      fix i assume "i < n"
      with out(1) have i: "i < k" by simp
      have small: "nat (pos mod 512) + i < 512" using i k by simp
      have "bs ! i = ?f ! (nat (pos mod 512) + i)"
        using out \<open>i < n\<close> k flen by (simp add: nth_slice)
      also have "\<dots> = disk_byte content d (pos + int i)"
        using fill_fat_sector_byte [OF ch r(1) r32 small] fat
        by (simp add: disk_byte_def same(1) [OF i] mod_i [OF i])
      finally show "bs ! i = disk_byte content d (pos + int i)" .
    qed
    with lbs out(3) show ?thesis by simp
  next
    case gap
    from step gap have out: "n = min remaining k" "bs = zeros n" "err = None"
      by (auto simp: disk_step_def Let_def k_def)
    have "bs = byte_range (disk_byte content d) pos n"
      by (rule byte_range_eqI)
        (use out disk_byte_gap [OF wf gap, folded k_def] in auto)
    with out show ?thesis by simp
  next
    case ext
    note snd = vdisk_extents.lookup_sound [OF ext(1)]
    define avail where "avail = exStart e + exLength e - pos"
    define m where "m = (if int remaining > avail then nat avail else remaining)"
    have m: "pos + int m \<le> ex_end e" using snd(3) by (auto simp: m_def avail_def ex_end_def)
    have db: "disk_byte content d (pos + int i) = (if exZero e then 0
        else content (srcPath (exSource e)) ! (nat (exSourceOffset e + (pos - exStart e)) + i))"
      if "i < m" "\<not> exZero e \<longrightarrow> 0 \<le> exSourceOffset e" for i
    proof -
      have "exStart e \<le> pos + int i" "pos + int i < ex_end e" using snd m that(1) by auto
      note db = disk_byte_extent(3) [OF wf snd(1) this, of content]
      show ?thesis
      proof (cases "exZero e")
        case False
        have "exSourceOffset e + (pos + int i - exStart e) = (exSourceOffset e + (pos - exStart e)) + int i"
          by simp
        with db False that(2) snd(2) show ?thesis by (simp add: nat_add_distrib)
      qed (use db in simp)
    qed
    show ?thesis
    proof (cases "exZero e")
      case True
      from step ext True have out: "n = m" "bs = zeros n" "err = None"
        by (auto simp: disk_step_def Let_def m_def avail_def)
      have "bs = byte_range (disk_byte content d) pos n"
        by (rule byte_range_eqI) (use out db True in auto)
      with out show ?thesis by simp
    next
      case False
      from step ext False have rs: "read_source os e pos m w = ((n, bs, err, rep), w')"
        by (auto simp: disk_step_def Let_def m_def avail_def)
      have nm: "n = m" using read_source_count [OF rs] .
      have so: "0 \<le> exSourceOffset e" using wf snd(1) False by (auto simp: disk_wf_def)
      note rss = read_source_sound [OF hon so snd(2) rs]
      have "bs = byte_range (disk_byte content d) pos (length bs)"
      proof (rule byte_range_eqI [OF refl])
        fix i assume i: "i < length bs"
        let ?c = "content (srcPath (exSource e))" and ?o = "nat (exSourceOffset e + (pos - exStart e))"
        have "bs ! i = slice ?c ?o (length bs) ! i" using rss(2) by simp
        also have "\<dots> = ?c ! (?o + i)"
        proof -
          have "length bs = min (length bs) (length ?c - ?o)"
            using arg_cong [OF rss(2), of length] by (simp add: slice_def)
          with i show ?thesis by (simp add: slice_def)
        qed
        finally show "bs ! i = disk_byte content d (pos + int i)"
          using db [of i] i rss(1) False so by simp
      qed
      with rss nm show ?thesis by simp
    qed
  qed
qed

section \<open>The whole read\<close>

lemma disk_read_loop_sound:
  assumes "disk_wf d" "honest_os os content" "0 \<le> off"
  shows "disk_read_loop os d off len done acc w = ((bs, err, rep), w') \<Longrightarrow>
    length acc = done \<Longrightarrow> done \<le> len \<Longrightarrow> acc = byte_range (disk_byte content d) off done \<Longrightarrow>
    length bs \<le> len \<and> bs = byte_range (disk_byte content d) off (length bs) \<and>
    (err = None \<longrightarrow> length bs = len)"
  using assms
proof (induction os d off len "done" acc w rule: disk_read_loop.induct)
  case (1 os d off len "done" acc w)
  show ?case
  proof (cases "done < len")
    case False
    with "1.prems" show ?thesis by (auto simp: disk_read_loop.simps)
  next
    case True
    obtain n x e1 r1 w1 where st: "disk_step os d (off + int done) (len - done) w = ((n, x, e1, r1), w1)"
      by (metis prod.exhaust)
    from True have rem: "0 < len - done" by simp
    have pos: "0 \<le> off + int done" using "1.prems"(7) by simp
    note snd = disk_step_sound [OF "1.prems"(5,6) pos rem st] and prog = disk_step_progress [OF st rem]
    have acc': "acc @ x = byte_range (disk_byte content d) off (length (acc @ x))"
      using snd "1.prems"(2,4) by (metis byte_range_append length_append)
    show ?thesis
    proof (cases e1)
      case (Some e2)
      with "1.prems"(1,2) True st snd acc' prog show ?thesis by (auto simp: disk_read_loop.simps)
    next
      case None
      with "1.prems"(1) True st have
        rest: "disk_read_loop os d off len (done + n) (acc @ x) w1 = ((bs, err, rep), w')"
        by (simp add: disk_read_loop.simps [of os d off len "done" acc w])
      have len: "length (acc @ x) = done + n" using snd None "1.prems"(2) by simp
      show ?thesis
        by (rule "1.IH" [OF True st [symmetric] refl refl refl None rest len _ _ "1.prems"(5-7)])
          (use len acc' prog in auto)
    qed
  qed
qed

lemma disk_read_at_sound:
  assumes "disk_wf d" "honest_os os content" "disk_read_at os d len off w = ((bs, err, rep), w')"
  shows "length bs \<le> len \<and> bs = byte_range (disk_byte content d) off (length bs) \<and>
    (err = None \<longrightarrow> length bs = len \<and> 0 \<le> off \<and> off + int len \<le> dkSize d)"
proof (cases "off < 0 \<or> int len > dkSize d - off")
  case True
  with assms(3) show ?thesis by (auto simp: disk_read_at_def)
next
  case False
  then show ?thesis
    using disk_read_loop_sound [OF assms(1,2), of off len 0 "[]" w bs err rep w'] assms(3)
    by (auto simp: disk_read_at_def)
qed

text \<open>The disk as a device: its state carries the kernel and the world.\<close>

type_synonym 'w vdisk_state = "disk \<times> 'w os \<times> (string \<Rightarrow> byte list) \<times> 'w"

definition vdisk_size :: "'w vdisk_state \<Rightarrow> int" where
  "vdisk_size s = (case s of (d, os, c, w) \<Rightarrow> dkSize d)"

definition vdisk_read :: "nat \<Rightarrow> int \<Rightarrow> 'w vdisk_state \<Rightarrow> (byte list \<times> go_err option) \<times> 'w vdisk_state" where
  "vdisk_read n off s = (case s of (d, os, c, w) \<Rightarrow>
     (case disk_read_at os d n off w of ((bs, e, rep), w') \<Rightarrow> ((bs, e), (d, os, c, w'))))"

definition vdisk_inv :: "'w vdisk_state \<Rightarrow> bool" where
  "vdisk_inv s \<longleftrightarrow> (case s of (d, os, c, w) \<Rightarrow> disk_wf d \<and> honest_os os c)"

definition vdisk_bytes :: "'w vdisk_state \<Rightarrow> int \<Rightarrow> byte" where
  "vdisk_bytes s = (case s of (d, os, c, w) \<Rightarrow> disk_byte c d)"

interpretation vdisk_device: readable_device vdisk_size vdisk_read vdisk_inv vdisk_bytes
proof
  fix off n and s :: "'a vdisk_state"
  assume "off < 0 \<or> vdisk_size s - off < int n"
  then show "vdisk_read n off s = (([], Some EOF), s)"
    by (auto simp: vdisk_read_def vdisk_size_def disk_read_at_def split: prod.splits)
next
  fix s s' :: "'a vdisk_state" and off n bs e
  assume "vdisk_inv s" "vdisk_read n off s = ((bs, e), s')"
  then obtain d os c w w' rep where s: "s = (d, os, c, w)" "s' = (d, os, c, w')" "disk_wf d"
    "honest_os os c" "disk_read_at os d n off w = ((bs, e, rep), w')"
    by (cases s) (auto simp: vdisk_inv_def vdisk_read_def split: prod.splits)
  from disk_read_at_sound [OF s(3-5)] s
  show "length bs \<le> n \<and> bs = byte_range (vdisk_bytes s) off (length bs) \<and> (e = None \<longrightarrow> length bs = n) \<and>
      vdisk_inv s' \<and> vdisk_bytes s' = vdisk_bytes s \<and> vdisk_size s' = vdisk_size s"
    by (auto simp: vdisk_inv_def vdisk_bytes_def vdisk_size_def)
qed

section \<open>Reads that cannot fail\<close>

definition healthy_os :: "'w os \<Rightarrow> (string \<Rightarrow> byte list) \<Rightarrow> source set \<Rightarrow> bool" where
  "healthy_os os content srcs \<longleftrightarrow>
     (\<forall>s w. s \<in> srcs \<longrightarrow> fst (verify_source os s w) = None) \<and>
     (\<forall>s w. s \<in> srcs \<longrightarrow> (\<exists>h. fst (os_open os (srcPath s) w) = Inr h \<and>
        complete_pread os h (content (srcPath s)))) \<and>
     (\<forall>h w. fst (os_close os h w) = None) \<and>
     (\<forall>s. s \<in> srcs \<longrightarrow> srcLength s \<le> int (length (content (srcPath s))))"

definition disk_sources :: "disk \<Rightarrow> source set" where
  "disk_sources d = exSource ` set (filter (\<lambda>e. \<not> exZero e) (dkExtents d))"

lemma disk_step_healthy:
  assumes wf: "disk_wf d" and ok: "healthy_os os content (disk_sources d)"
    and "0 < remaining"
  shows "\<exists>n bs w'. disk_step os d pos remaining w = ((n, bs, None, None), w')"
proof (cases "map_of (dkMetadata d) (pos div 512) = None \<and> fat_sector_index d (pos div 512) = None \<and>
    (\<exists>e. find_mapped (dkExtents d) pos = Some e \<and> \<not> exZero e)")
  case False
  then show ?thesis by (auto simp: disk_step_def Let_def split: option.splits)
next
  case True
  then obtain e where e: "find_mapped (dkExtents d) pos = Some e" "\<not> exZero e" by blast
  note snd = vdisk_extents.lookup_sound [OF e(1)]
  have src: "exSource e \<in> disk_sources d" using snd(1) e(2) by (simp add: disk_sources_def)
  let ?c = "content (srcPath (exSource e))"
  define avail where "avail = exStart e + exLength e - pos"
  define n where "n = (if int remaining > avail then nat avail else remaining)"
  have n: "0 < n" "pos + int n \<le> ex_end e"
    using snd(3) assms(3) by (auto simp: n_def avail_def ex_end_def)
  from ok src obtain h where h: "fst (os_open os (srcPath (exSource e)) (snd (verify_source os (exSource e) w))) = Inr h"
    "complete_pread os h ?c" "srcLength (exSource e) \<le> int (length ?c)"
    unfolding healthy_os_def by meson
  have v: "fst (verify_source os (exSource e) w) = None"
    using ok src unfolding healthy_os_def by blast
  obtain w1 w2 where w: "verify_source os (exSource e) w = (None, w1)"
    "os_open os (srcPath (exSource e)) w1 = (Inr h, w2)"
    using v h(1) by (metis prod.collapse)
  have so: "0 \<le> exSourceOffset e" "exSourceOffset e + exLength e \<le> srcLength (exSource e)"
    using wf snd(1) e(2) by (auto simp: disk_wf_def)
  have off: "0 \<le> exSourceOffset e + pos - exStart e" using so(1) snd(2) by simp
  have "nat (exSourceOffset e + pos - exStart e) + n \<le> length ?c"
    using so n(2) h(3) off by (simp add: ex_end_def)
  from read_at_full_complete [OF h(2) off this n(1)] obtain bs w3 where
    r: "read_at_full os h n (exSourceOffset e + pos - exStart e) [] w2 = ((bs, None), w3)" by blast
  have "fst (os_close os h w3) = None" using ok by (simp add: healthy_os_def)
  then obtain w4 where "os_close os h w3 = (None, w4)" by (metis prod.collapse)
  with w r have "read_source os e pos n w = ((n, bs, None, None), w4)"
    by (simp add: read_source_def)
  with True e show ?thesis
    by (auto simp: disk_step_def Let_def n_def avail_def)
qed

lemma disk_read_loop_healthy:
  "disk_wf d \<Longrightarrow> healthy_os os content (disk_sources d) \<Longrightarrow>
   \<exists>bs w'. disk_read_loop os d off len done acc w = ((bs, None, None), w')"
proof (induction os d off len "done" acc w rule: disk_read_loop.induct)
  case (1 os d off len "done" acc w)
  show ?case
  proof (cases "done < len")
    case False
    then show ?thesis by (simp add: disk_read_loop.simps)
  next
    case True
    then have "0 < len - done" by simp
    from disk_step_healthy [OF "1.prems" this] obtain n bs w1 where
      st: "disk_step os d (off + int done) (len - done) w = ((n, bs, None, None), w1)" by blast
    have "\<exists>cs w'. disk_read_loop os d off len (done + n) (acc @ bs) w1 = ((cs, None, None), w')"
      by (rule "1.IH" [OF True st [symmetric] refl refl refl refl "1.prems"])
    with True st show ?thesis by (simp add: disk_read_loop.simps [of os d off len "done"])
  qed
qed

lemma disk_read_healthy:
  assumes "disk_wf d" "honest_os os content"
    and "healthy_os os content (disk_sources d)"
    and "0 \<le> off" "off + int len \<le> dkSize d"
  shows "\<exists>w'. disk_read_at os d len off w = ((byte_range (disk_byte content d) off len, None, None), w')"
proof -
  obtain bs w' where "disk_read_loop os d off len 0 [] w = ((bs, None, None), w')"
    using disk_read_loop_healthy [OF assms(1,3)] by blast
  then have r: "disk_read_at os d len off w = ((bs, None, None), w')"
    using assms(4,5) by (simp add: disk_read_at_def)
  from disk_read_at_sound [OF assms(1,2) r] r show ?thesis by auto
qed

section \<open>Properties\<close>

text \<open>
  C12.  \<open>ReadAt\<close> returns the reference bytes of a well-formed disk: whatever the kernel does between the
  identity check and the read, the bytes it delivers are a prefix of the range of
  \<open>disk_byte\<close>, and the whole range when it reports no error.
\<close>

theorem vdisk_read_refines:
  assumes "disk_wf d" "honest_os os content" "disk_read_at os d len off w = ((bs, err, rep), w')"
  shows "length bs \<le> len \<and> bs = byte_range (disk_byte content d) off (length bs) \<and>
    (err = None \<longrightarrow> length bs = len \<and> 0 \<le> off \<and> off + int len \<le> dkSize d)"
  by (rule disk_read_at_sound [OF assms])

definition demo_tree :: "(string \<times> file_info \<times> byte list) list" where
  "demo_tree = [(''/a'', \<lparr>fiRegular = True, fiIsDir = False, fiSymlink = False, fiSize = 6, fiModNano = 7000000000, fiSys = Some (1, 2)\<rparr>,
     [10, 11, 12, 13, 14, 15])]"

definition demo_small_source :: source where
  "demo_small_source = \<lparr>srcPath = ''/a'', srcOffset = 0, srcLength = 6, srcSize = 6, srcModUnix = 7000000000,
     srcFilesystemID = '''', srcDevice = 1, srcInode = 2\<rparr>"

definition demo_disk :: disk where
  "demo_disk = \<lparr>dkSize = 2560, dkSectorsPerCluster = 1, dkMetadata = [], dkFatStart = 1, dkFatSectors = 1,
     dkFatChains = demo_chains,
     dkExtents = [\<lparr>exStart = 1536, exLength = 5, exSource = demo_small_source, exSourceOffset = 1,
                    exZero = False\<rparr>,
                  \<lparr>exStart = 1541, exLength = 507, exSource = no_source, exSourceOffset = 0, exZero = True\<rparr>],
     dkSnapshot = empty_snapshot\<rparr>"

lemma demo_disk_wf: "disk_wf demo_disk"
  by (auto simp: disk_wf_def demo_disk_def demo_chains_ok demo_small_source_def
      intro!: exI [of _ "1536"] exI [of _ "2048"])

lemma demo_os_honest: "honest_os (mem_os demo_tree) (mem_content demo_tree)"
  by (rule mem_os_honest)

theorem vdisk_read_refines_witness:
  "fst (fst (disk_read_at (mem_os demo_tree) demo_disk 8 1534 ())) =
   byte_range (disk_byte (mem_content demo_tree) demo_disk) 1534
     (length (fst (fst (disk_read_at (mem_os demo_tree) demo_disk 8 1534 ()))))"
proof -
  obtain bs err rep w' where "disk_read_at (mem_os demo_tree) demo_disk 8 1534 () = ((bs, err, rep), w')"
    by (metis prod.exhaust)
  with vdisk_read_refines [OF demo_disk_wf demo_os_honest this] show ?thesis by simp
qed

text \<open>
  C24.  When the sources are intact and the kernel serves them, every read inside a well-formed
  disk returns the whole range and no error.
\<close>

theorem vdisk_read_succeeds:
  assumes "disk_wf d" "honest_os os content"
    and "healthy_os os content (disk_sources d)"
    and "0 \<le> off" "off + int len \<le> dkSize d"
  shows "\<exists>w'. disk_read_at os d len off w = ((byte_range (disk_byte content d) off len, None, None), w')"
  using assms by (rule disk_read_healthy)

lemma demo_healthy: "healthy_os (mem_os demo_tree) (mem_content demo_tree)
    (disk_sources demo_disk)"
proof -
  have "disk_sources demo_disk = {demo_small_source}"
    by (simp add: demo_disk_def disk_sources_def)
  then show ?thesis
    by (auto simp: healthy_os_def verify_source_def same_filesystem_def mem_os_def mem_content_def demo_tree_def
        demo_small_source_def Let_def complete_pread_def slice_def)
qed

theorem vdisk_read_succeeds_witness:
  "\<exists>w'. disk_read_at (mem_os demo_tree) demo_disk 8 1534 () =
    ((byte_range (disk_byte (mem_content demo_tree) demo_disk) 1534 8, None, None), w')"
  by (rule vdisk_read_succeeds [OF demo_disk_wf demo_os_honest demo_healthy])
    (simp_all add: demo_disk_def)

end
