(* ===== verification/Nbd.thy ===== *)
theory Nbd
  imports Block_Device
begin

text \<open>
  \<open>server/nbd-plugin/nbd.go\<close>: one session of the NBD server, from the greeting over option
  negotiation and STARTTLS to the request loop.  A connection is the bytes the client sends,
  in clear and under TLS, and the frames the server writes.  The outcome of the handshake
  (\<open>crypto/tls\<close> with a verified client certificate) is given by \<open>ncTLS\<close>: an error, or what the
  client then sends in the secured stream.  Metrics are off; an expired deadline is a read
  that fails with \<open>ncEnd\<close>, and the error that \<open>SetDeadline\<close> may report on a closed connection
  before the request loop is left out.
\<close>

section \<open>Protocol constants\<close>

abbreviation (input) nbd_magic :: nat where "nbd_magic \<equiv> 0x4e42444d41474943"
abbreviation (input) opt_magic :: nat where "opt_magic \<equiv> 0x49484156454f5054"
abbreviation (input) rep_magic :: nat where "rep_magic \<equiv> 0x0003e889045565a9"
abbreviation (input) request_magic :: nat where "request_magic \<equiv> 0x25609513"
abbreviation (input) reply_magic :: nat where "reply_magic \<equiv> 0x67446698"
abbreviation (input) opt_export_name :: nat where "opt_export_name \<equiv> 1"
abbreviation (input) opt_abort :: nat where "opt_abort \<equiv> 2"
abbreviation (input) opt_start_tls :: nat where "opt_start_tls \<equiv> 5"
abbreviation (input) opt_info :: nat where "opt_info \<equiv> 6"
abbreviation (input) opt_go :: nat where "opt_go \<equiv> 7"
abbreviation (input) rep_ack :: nat where "rep_ack \<equiv> 1"
abbreviation (input) rep_info :: nat where "rep_info \<equiv> 3"
abbreviation (input) rep_err_unsup :: nat where "rep_err_unsup \<equiv> 0x80000001"
abbreviation (input) cmd_read :: nat where "cmd_read \<equiv> 0"
abbreviation (input) cmd_write :: nat where "cmd_write \<equiv> 1"
abbreviation (input) cmd_disconnect :: nat where "cmd_disconnect \<equiv> 2"
abbreviation (input) cmd_flush :: nat where "cmd_flush \<equiv> 3"
abbreviation (input) cmd_trim :: nat where "cmd_trim \<equiv> 4"
abbreviation (input) cmd_write_zeroes :: nat where "cmd_write_zeroes \<equiv> 6"
abbreviation (input) err_perm :: nat where "err_perm \<equiv> 1"
abbreviation (input) err_io :: nat where "err_io \<equiv> 5"
abbreviation (input) err_invalid :: nat where "err_invalid \<equiv> 22"

section \<open>Server and connection\<close>

text \<open>
  \<open>svProvider\<close> and \<open>svAcquirer\<close> are what a call of the optional callbacks returns; the flag of
  the latter says whether there is a release callback.
\<close>

record 's nbd_server =
  svBackend :: "'s device option"
  svProvider :: "'s device option option"
  svAcquirer :: "(go_err + 's device option \<times> bool) option"
  svMutualTLS :: bool
  svExportName :: string
  svDeadline :: int
  svMaxRequest :: nat

record 's nbd_conn =
  ncInput :: "byte list"
  ncEnd :: go_err
  ncSecured :: bool
  ncTLS :: "go_err + byte list"
  ncOutput :: "(bool \<times> byte list) list"
  ncFaults :: "(nat \<times> go_err option) option list"
  ncDev :: 's

definition serve_config :: "'s nbd_server \<Rightarrow> go_err + 's nbd_server" where
  "serve_config srv =
     (if svBackend srv = None \<and> svProvider srv = None \<and> svAcquirer srv = None \<or> \<not> svMutualTLS srv
      then Inl (Msg ''backend and mutual TLS are required'')
      else Inr (srv\<lparr>svDeadline := if svDeadline srv = 0 then 30000000000 else svDeadline srv,
                    svMaxRequest := if svMaxRequest srv = 0 then 1048576 else svMaxRequest srv\<rparr>))"

section \<open>Reading and writing\<close>

text \<open>\<open>io.ReadFull\<close>.\<close>

definition conn_read :: "nat \<Rightarrow> 's nbd_conn \<Rightarrow> (go_err + byte list) \<times> 's nbd_conn" where
  "conn_read n c =
     (if n \<le> length (ncInput c)
      then (Inr (take n (ncInput c)), c\<lparr>ncInput := drop n (ncInput c)\<rparr>)
      else (Inl (if ncEnd c = EOF \<and> ncInput c \<noteq> [] then UnexpectedEOF else ncEnd c), c\<lparr>ncInput := []\<rparr>))"

text \<open>\<open>io.CopyN(io.Discard, conn, n)\<close>.\<close>

definition conn_discard :: "nat \<Rightarrow> 's nbd_conn \<Rightarrow> go_err option \<times> 's nbd_conn" where
  "conn_discard n c =
     (if n \<le> length (ncInput c) then (None, c\<lparr>ncInput := drop n (ncInput c)\<rparr>)
      else (Some (ncEnd c), c\<lparr>ncInput := []\<rparr>))"

text \<open>One \<open>Write\<close>: the bytes written and the error.\<close>

definition conn_write :: "byte list \<Rightarrow> 's nbd_conn \<Rightarrow> (nat \<times> go_err option) \<times> 's nbd_conn" where
  "conn_write bs c = (case ncFaults c of
     Some (k, e) # fs \<Rightarrow>
       ((min k (length bs), e), c\<lparr>ncFaults := fs, ncOutput := ncOutput c @ [(ncSecured c, take k bs)]\<rparr>)
   | None # fs \<Rightarrow> ((length bs, None), c\<lparr>ncFaults := fs, ncOutput := ncOutput c @ [(ncSecured c, bs)]\<rparr>)
   | [] \<Rightarrow> ((length bs, None), c\<lparr>ncOutput := ncOutput c @ [(ncSecured c, bs)]\<rparr>))"

definition write_all :: "byte list \<Rightarrow> 's nbd_conn \<Rightarrow> go_err option \<times> 's nbd_conn" where
  "write_all bs c = (case conn_write bs c of ((_, e), c1) \<Rightarrow> (e, c1))"

definition option_reply :: "nat \<Rightarrow> nat \<Rightarrow> byte list \<Rightarrow> byte list" where
  "option_reply option reply payload =
     be_bytes 8 rep_magic @ be_bytes 4 option @ be_bytes 4 reply @ be_bytes 4 (length payload) @ payload"

definition write_option_reply ::
  "nat \<Rightarrow> nat \<Rightarrow> byte list \<Rightarrow> 's nbd_conn \<Rightarrow> go_err option \<times> 's nbd_conn" where
  "write_option_reply option reply payload c = write_all (option_reply option reply payload) c"

definition parse_info_name :: "byte list \<Rightarrow> string option" where
  "parse_info_name payload =
     (if length payload < 4 then None
      else let n = get_be payload 0 4
           in if length payload < 4 + n + 2 then None else Some (map (\<lambda>b. char_of (unat b)) (slice payload 4 n)))"

section \<open>Requests\<close>

record nbd_request =
  rqMagic :: nat
  rqType :: nat
  rqHandle :: nat
  rqOffset :: nat
  rqLength :: nat

definition parse_request :: "byte list \<Rightarrow> nbd_request" where
  "parse_request h = \<lparr>rqMagic = get_be h 0 4, rqType = get_be h 4 4, rqHandle = get_be h 8 8,
     rqOffset = get_be h 16 8, rqLength = get_be h 24 4\<rparr>"

definition rq_command :: "nbd_request \<Rightarrow> nat" where
  "rq_command r = rqType r mod 65536"

definition bad_range :: "'s nbd_server \<Rightarrow> int \<Rightarrow> nbd_request \<Rightarrow> bool" where
  "bad_range srv sz r \<longleftrightarrow>
     rqLength r = 0 \<or> rqLength r > svMaxRequest srv \<or> rqOffset r > u64_of sz \<or>
     rqLength r > u64_of sz - rqOffset r"

text \<open>The code of an error with an \<open>ErrorCode\<close> method, as \<open>errors.As\<close> finds it.\<close>

primrec error_code :: "go_err \<Rightarrow> string option" where
  "error_code EOF = None"
| "error_code UnexpectedEOF = None"
| "error_code ErrClosed = None"
| "error_code ErrPermission = None"
| "error_code ErrNotExist = None"
| "error_code ErrNoProgress = None"
| "error_code ErrShortWrite = None"
| "error_code (Errno n) = None"
| "error_code (Msg s) = None"
| "error_code (Coded s) = Some s"
| "error_code (Wrap s e) = error_code e"

definition write_status :: "nat \<Rightarrow> nat \<times> go_err option \<Rightarrow> nat" where
  "write_status len res =
     (if snd res \<noteq> None \<or> fst res \<noteq> len
      then (case Option.bind (snd res) error_code of
              None \<Rightarrow> err_io
            | Some code \<Rightarrow> if code = ''SAVE-WRITE-OUTSIDE-EXTENT'' \<or> code = ''SAVE-WRITE-CROSSES-BOUNDARY''
                            then err_perm else err_io)
      else 0)"

definition do_read :: "'s nbd_server \<Rightarrow> 's device \<Rightarrow> nbd_request \<Rightarrow> 's nbd_conn \<Rightarrow> (nat \<times> byte list) \<times> 's nbd_conn" where
  "do_read srv dev r c =
     (if bad_range srv (dvSize dev (ncDev c)) r then ((err_invalid, []), c)
      else case dvReadAt dev (rqLength r) (int (rqOffset r)) (ncDev c) of
             ((bs, e), s1) \<Rightarrow>
               ((if e \<noteq> None \<or> length bs \<noteq> rqLength r then (err_io, []) else (0, bs)), c\<lparr>ncDev := s1\<rparr>))"

definition do_flush :: "'s device \<Rightarrow> bool \<Rightarrow> 's nbd_conn \<Rightarrow> (go_err + nat) \<times> 's nbd_conn" where
  "do_flush dev readOnly c =
     (if readOnly then (Inr 0, c)
      else case dvWriteSync dev of
             None \<Rightarrow> (Inl (Msg ''panic: interface conversion''), c)
           | Some (_, sync) \<Rightarrow>
               (case sync (ncDev c) of
                  (e, s1) \<Rightarrow> (Inr (if e \<noteq> None then err_io else 0), c\<lparr>ncDev := s1\<rparr>)))"

definition do_write :: "'s nbd_server \<Rightarrow> 's device \<Rightarrow> bool \<Rightarrow> nbd_request \<Rightarrow> 's nbd_conn \<Rightarrow> (go_err + nat) \<times> 's nbd_conn" where
  "do_write srv dev readOnly r c =
     (if bad_range srv (dvSize dev (ncDev c)) r
      then (if rqLength r \<le> svMaxRequest srv
            then (case conn_discard (rqLength r) c of
                    (Some err, c1) \<Rightarrow> (Inl err, c1)
                  | (None, c1) \<Rightarrow> (Inr err_invalid, c1))
            else (Inr err_invalid, c))
      else case conn_read (rqLength r) c of
             (Inl err, c1) \<Rightarrow> (Inl err, c1)
           | (Inr bs, c1) \<Rightarrow>
               if readOnly then (Inr err_perm, c1)
               else (case dvWriteSync dev of
                       None \<Rightarrow> (Inl (Msg ''panic: interface conversion''), c1)
                     | Some (writeAt, _) \<Rightarrow>
                         (case writeAt bs (int (rqOffset r)) (ncDev c1) of
                            (res, s1) \<Rightarrow> (Inr (write_status (length bs) res), c1\<lparr>ncDev := s1\<rparr>))))"

text \<open>The \<open>switch\<close> over the command: status and data of the reply, or the end of the session.\<close>

definition exec_request ::
  "'s nbd_server \<Rightarrow> 's device \<Rightarrow> bool \<Rightarrow> nbd_request \<Rightarrow> 's nbd_conn \<Rightarrow> (go_err + nat \<times> byte list) \<times> 's nbd_conn" where
  "exec_request srv dev readOnly r c =
     (let command = rq_command r
      in if command = cmd_read then (case do_read srv dev r c of (sd, c1) \<Rightarrow> (Inr sd, c1))
         else if command = cmd_flush then (case do_flush dev readOnly c of (x, c1) \<Rightarrow> (map_sum id (\<lambda>st. (st, [])) x, c1))
         else if command = cmd_write then (case do_write srv dev readOnly r c of (x, c1) \<Rightarrow> (map_sum id (\<lambda>st. (st, [])) x, c1))
         else if command = cmd_trim then (Inr (err_perm, []), c)
         else if command = cmd_write_zeroes
         then (Inr (if rqLength r > svMaxRequest srv then err_invalid else err_perm, []), c)
         else (Inr (err_invalid, []), c))"

definition reply_frame :: "nat \<Rightarrow> nat \<Rightarrow> byte list \<Rightarrow> byte list" where
  "reply_frame status handle data = be_bytes 4 reply_magic @ be_bytes 4 status @ be_bytes 8 handle @ data"

text \<open>How one round of a loop ends.\<close>

datatype 'a round = Again | Stop 'a

definition request_round ::
  "'s nbd_server \<Rightarrow> 's device \<Rightarrow> bool \<Rightarrow> 's nbd_conn \<Rightarrow> go_err option round \<times> 's nbd_conn" where
  "request_round srv dev readOnly c = (case conn_read 28 c of
     (Inl err, c1) \<Rightarrow> (Stop (Some err), c1)
   | (Inr h, c1) \<Rightarrow>
       (let r = parse_request h
        in if rqMagic r \<noteq> request_magic then (Stop (Some (Msg ''invalid request magic'')), c1)
           else if rq_command r = cmd_disconnect then (Stop None, c1)
           else case exec_request srv dev readOnly r c1 of
                  (Inl err, c2) \<Rightarrow> (Stop (Some err), c2)
                | (Inr (status, data), c2) \<Rightarrow>
                    if rq_command r = cmd_write \<and> rqLength r > svMaxRequest srv
                    then (Stop (Some (Msg ''oversized write request'')), c2)
                    else (let frame = reply_frame status (rqHandle r) data
                          in case conn_write frame c2 of
                               ((n, Some err), c3) \<Rightarrow> (Stop (Some err), c3)
                             | ((n, None), c3) \<Rightarrow>
                                 if n \<noteq> length frame then (Stop (Some ErrShortWrite), c3) else (Again, c3))))"

lemma conn_write_input: "conn_write bs c = (r, c1) \<Longrightarrow> ncInput c1 = ncInput c \<and> ncSecured c1 = ncSecured c \<and> ncDev c1 = ncDev c"
  by (auto simp: conn_write_def split: list.splits option.splits prod.splits)

lemma conn_read_input: "conn_read n c = (r, c1) \<Longrightarrow> length (ncInput c1) \<le> length (ncInput c)"
  by (auto simp: conn_read_def split: if_splits)

lemma exec_request_input: "exec_request srv dev ro r c = (x, c1) \<Longrightarrow> length (ncInput c1) \<le> length (ncInput c)"
  by (auto simp: exec_request_def Let_def do_read_def do_flush_def do_write_def conn_discard_def
      split: if_splits prod.splits sum.splits option.splits dest!: conn_read_input)

lemma request_round_progress:
  assumes "request_round srv dev ro c = (Again, c')"
  shows "length (ncInput c') < length (ncInput c)"
proof -
  obtain h c1 where "conn_read 28 c = (Inr h, c1)"
    using assms by (auto simp: request_round_def split: prod.splits sum.splits)
  then have c1: "length (ncInput c1) < length (ncInput c)" by (auto simp: conn_read_def split: if_splits)
  obtain x c2 where "exec_request srv dev ro (parse_request h) c1 = (x, c2)" by (metis prod.exhaust)
  with assms \<open>conn_read 28 c = (Inr h, c1)\<close> have "ncInput c' = ncInput c2"
    by (auto simp: request_round_def Let_def split: if_splits sum.splits prod.splits option.splits dest: conn_write_input)
  with exec_request_input [OF \<open>exec_request srv dev ro (parse_request h) c1 = (x, c2)\<close>] c1 show ?thesis by simp
qed

function transmission ::
  "'s nbd_server \<Rightarrow> 's device \<Rightarrow> bool \<Rightarrow> 's nbd_conn \<Rightarrow> go_err option \<times> 's nbd_conn" where
  "transmission srv dev readOnly c = (case request_round srv dev readOnly c of
     (Stop e, c1) \<Rightarrow> (e, c1)
   | (Again, c1) \<Rightarrow> transmission srv dev readOnly c1)"
  by pat_completeness auto
termination
  by (relation "measure (\<lambda>(srv, dev, ro, c). length (ncInput c))") (auto dest!: request_round_progress [OF sym])

declare transmission.simps [simp del]

section \<open>Negotiation\<close>

text \<open>Whether the session is over or an export was selected.\<close>

datatype negotiated = Ended "go_err option" | Selected

text \<open>Run a write, and end the session with its error, if any.\<close>

definition or_end :: "go_err option \<times> 's nbd_conn \<Rightarrow> ('s nbd_conn \<Rightarrow> negotiated round \<times> 's nbd_conn) \<Rightarrow>
    negotiated round \<times> 's nbd_conn" where
  "or_end res rest = (case res of (Some err, c) \<Rightarrow> (Stop (Ended (Some err)), c) | (None, c) \<Rightarrow> rest c)"

definition ascii_of :: "byte list \<Rightarrow> string" where
  "ascii_of bs = map (\<lambda>b. char_of (unat b)) bs"

definition info_payload :: "int \<Rightarrow> nat \<Rightarrow> byte list" where
  "info_payload sz flags = be_bytes 2 0 @ be_bytes 8 (u64_of sz) @ be_bytes 2 flags"

definition block_payload :: "nat \<Rightarrow> byte list" where
  "block_payload maxRequest = be_bytes 2 3 @ be_bytes 4 512 @ be_bytes 4 65536 @ be_bytes 4 maxRequest"

text \<open>An option in clear: only STARTTLS without a payload is answered with more than a refusal.\<close>

definition clear_option :: "nat \<Rightarrow> nat \<Rightarrow> 's nbd_conn \<Rightarrow> negotiated round \<times> 's nbd_conn" where
  "clear_option option len c =
     (if option \<noteq> opt_start_tls \<or> len \<noteq> 0
      then or_end (write_option_reply option rep_err_unsup [] c) (\<lambda>c. (Again, c))
      else or_end (write_option_reply option rep_ack [] c)
             (\<lambda>c. case ncTLS c of
                    Inl err \<Rightarrow> (Stop (Ended (Some err)), c)
                  | Inr plain \<Rightarrow> (Again, c\<lparr>ncSecured := True, ncInput := plain\<rparr>)))"

definition secured_option ::
  "'s nbd_server \<Rightarrow> 's device \<Rightarrow> nat \<Rightarrow> nat \<Rightarrow> byte list \<Rightarrow> 's nbd_conn \<Rightarrow> negotiated round \<times> 's nbd_conn" where
  "secured_option srv dev flags option payload c =
     (if option = opt_abort then (Stop (Ended None), snd (write_option_reply option rep_ack [] c))
      else if option = opt_export_name then
        (if ascii_of payload \<noteq> svExportName srv then (Stop (Ended (Some (Msg ''unknown export''))), c)
         else or_end (write_all (be_bytes 8 (u64_of (dvSize dev (ncDev c)))) c)
                (\<lambda>c. or_end (write_all (be_bytes 2 flags) c) (\<lambda>c. (Stop Selected, c))))
      else if option = opt_info \<or> option = opt_go then
        (if parse_info_name payload \<noteq> Some (svExportName srv)
         then or_end (write_option_reply option rep_err_unsup [] c) (\<lambda>c. (Again, c))
         else or_end (write_option_reply option rep_info (info_payload (dvSize dev (ncDev c)) flags) c)
                (\<lambda>c. or_end (write_option_reply option rep_info (block_payload (svMaxRequest srv)) c)
                  (\<lambda>c. or_end (write_option_reply option rep_ack [] c)
                    (\<lambda>c. (if option = opt_go then Stop Selected else Again, c)))))
      else or_end (write_option_reply option rep_err_unsup [] c) (\<lambda>c. (Again, c)))"

definition read_option :: "'s nbd_conn \<Rightarrow> (go_err + nat \<times> nat \<times> byte list) \<times> 's nbd_conn" where
  "read_option c = (case conn_read 8 c of
     (Inl err, c1) \<Rightarrow> (Inl err, c1)
   | (Inr magic, c1) \<Rightarrow>
       if be_val magic \<noteq> opt_magic then (Inl (Msg ''invalid option magic''), c1)
       else (case conn_read 4 c1 of
               (Inl err, c2) \<Rightarrow> (Inl err, c2)
             | (Inr option, c2) \<Rightarrow>
                 (case conn_read 4 c2 of
                    (Inl err, c3) \<Rightarrow> (Inl err, c3)
                  | (Inr len, c3) \<Rightarrow>
                      if be_val len > 65536 then (Inl (Msg ''option too large''), c3)
                      else (case conn_read (be_val len) c3 of
                              (Inl err, c4) \<Rightarrow> (Inl err, c4)
                            | (Inr payload, c4) \<Rightarrow> (Inr (be_val option, be_val len, payload), c4)))))"

definition option_round ::
  "'s nbd_server \<Rightarrow> 's device \<Rightarrow> nat \<Rightarrow> 's nbd_conn \<Rightarrow> negotiated round \<times> 's nbd_conn" where
  "option_round srv dev flags c = (case read_option c of
     (Inl err, c1) \<Rightarrow> (Stop (Ended (Some err)), c1)
   | (Inr (option, len, payload), c1) \<Rightarrow>
       if \<not> ncSecured c1 then clear_option option len c1
       else secured_option srv dev flags option payload c1)"

lemma conn_readD:
  "conn_read n c = (Inr bs, c1) \<Longrightarrow> n \<le> length (ncInput c) \<and> bs = take n (ncInput c) \<and>
     c1 = c\<lparr>ncInput := drop n (ncInput c)\<rparr>"
  by (auto simp: conn_read_def split: if_splits)

lemma conn_read_Inr:
  assumes "conn_read n c = (Inr bs, c1)"
  shows "length (ncInput c1) + n = length (ncInput c)" "ncSecured c1 = ncSecured c"
  using conn_readD [OF assms] by auto

lemma read_option_input:
  assumes "read_option c = (Inr x, c1)"
  shows "length (ncInput c1) < length (ncInput c)" "ncSecured c1 = ncSecured c"
proof -
  obtain m c2 where r2: "conn_read 8 c = (Inr m, c2)"
    using assms by (auto simp: read_option_def split: prod.splits sum.splits)
  obtain opt c3 where r3: "conn_read 4 c2 = (Inr opt, c3)"
    using assms r2 by (auto simp: read_option_def split: if_splits prod.splits sum.splits)
  obtain len c4 where r4: "conn_read 4 c3 = (Inr len, c4)"
    using assms r2 r3 by (auto simp: read_option_def split: if_splits prod.splits sum.splits)
  have r5: "\<exists>payload. conn_read (be_val len) c4 = (Inr payload, c1)"
    using assms r2 r3 r4 by (auto simp: read_option_def split: if_splits prod.splits sum.splits)
  then obtain payload where "conn_read (be_val len) c4 = (Inr payload, c1)" by blast
  note reads = conn_read_Inr [OF r2] conn_read_Inr [OF r3] conn_read_Inr [OF r4] conn_read_Inr [OF this]
  show "length (ncInput c1) < length (ncInput c)" using reads(1,3,5,7) by linarith
  show "ncSecured c1 = ncSecured c" using reads(2,4,6,8) by simp
qed

lemma write_option_reply_input:
  assumes "write_option_reply option reply payload c = (e, c1)"
  shows "ncInput c1 = ncInput c \<and> ncSecured c1 = ncSecured c \<and> ncDev c1 = ncDev c"
  using assms by (auto simp: write_option_reply_def write_all_def split: prod.splits dest: conn_write_input)

lemma or_end_Again:
  "or_end res rest = (Again, c') \<longleftrightarrow> (\<exists>c. res = (None, c) \<and> rest c = (Again, c'))"
  by (auto simp: or_end_def split: prod.splits option.splits)

lemma option_round_progress:
  assumes "option_round srv dev flags c = (Again, c')"
  shows "\<not> ncSecured c \<and> ncSecured c' \<or> ncSecured c' = ncSecured c \<and> length (ncInput c') < length (ncInput c)"
proof -
  obtain option len payload c1 where r: "read_option c = (Inr (option, len, payload), c1)"
    using assms by (auto simp: option_round_def split: prod.splits sum.splits)
  note in1 = read_option_input [OF r]
  show ?thesis
  proof (cases "ncSecured c1")
    case True
    then have "secured_option srv dev flags option payload c1 = (Again, c')" using assms r by (simp add: option_round_def)
    then have "ncInput c' = ncInput c1 \<and> ncSecured c' = ncSecured c1"
      by (auto simp: secured_option_def or_end_Again split: if_splits dest!: write_option_reply_input)
    with in1 show ?thesis by simp
  next
    case False
    then have "clear_option option len c1 = (Again, c')" using assms r by (simp add: option_round_def)
    then consider "ncInput c' = ncInput c1 \<and> ncSecured c' = ncSecured c1" | "ncSecured c'"
    proof (cases "option \<noteq> opt_start_tls \<or> len \<noteq> 0")
      case refused: False
      with \<open>clear_option option len c1 = (Again, c')\<close> obtain c2 where "(case ncTLS c2 of
          Inl err \<Rightarrow> (Stop (Ended (Some err)), c2) | Inr plain \<Rightarrow> (Again, c2\<lparr>ncSecured := True, ncInput := plain\<rparr>)) = (Again, c')"
        by (auto simp: clear_option_def or_end_Again)
      then have "ncSecured c'" by (cases "ncTLS c2") auto
      then show thesis by (rule that(2))
    qed (auto simp: clear_option_def or_end_Again dest!: write_option_reply_input)
    then show ?thesis using in1 False by cases auto
  qed
qed

function negotiation ::
  "'s nbd_server \<Rightarrow> 's device \<Rightarrow> nat \<Rightarrow> 's nbd_conn \<Rightarrow> negotiated \<times> 's nbd_conn" where
  "negotiation srv dev flags c = (case option_round srv dev flags c of
     (Stop r, c1) \<Rightarrow> (r, c1)
   | (Again, c1) \<Rightarrow> negotiation srv dev flags c1)"
  by pat_completeness auto
termination
  by (relation "measures [\<lambda>(srv, dev, fl, c). if ncSecured c then 0 else 1, \<lambda>(srv, dev, fl, c). length (ncInput c)]")
    (auto dest!: option_round_progress [OF sym])

declare negotiation.simps [simp del]

section \<open>A session\<close>

text \<open>The backend pinned for the session; the flag says that \<open>release\<close> runs when it ends.\<close>

definition session_backend :: "'s nbd_server \<Rightarrow> (go_err + 's device) \<times> bool" where
  "session_backend srv =
     (let pick = (\<lambda>d held. (case (case svProvider srv of None \<Rightarrow> d | Some p \<Rightarrow> p) of
                    None \<Rightarrow> Inl (Msg ''no published backend'') | Some dev \<Rightarrow> Inr dev, held))
      in case svAcquirer srv of
           None \<Rightarrow> pick (svBackend srv) False
         | Some (Inl err) \<Rightarrow> (Inl err, False)
         | Some (Inr (d, hasRelease)) \<Rightarrow>
             if \<not> hasRelease then (Inl (Msg ''backend acquirer returned no release callback''), False)
             else pick d True)"

definition transmission_flags :: "bool \<Rightarrow> nat" where
  "transmission_flags readOnly = (if readOnly then 7 else 5)"

definition run_session :: "'s nbd_server \<Rightarrow> 's device \<Rightarrow> 's nbd_conn \<Rightarrow> go_err option \<times> 's nbd_conn" where
  "run_session srv dev c =
     (let readOnly = (case dvReadOnly dev of None \<Rightarrow> True | Some f \<Rightarrow> f (ncDev c));
          flags = transmission_flags readOnly
      in if \<not> readOnly \<and> dvWriteSync dev = None
         then (Some (Msg ''writable backend lacks write and sync support''), c)
         else case write_all (be_bytes 8 nbd_magic) c of
                (Some err, c1) \<Rightarrow> (Some err, c1)
              | (None, c1) \<Rightarrow>
                  (case write_all (be_bytes 8 opt_magic) c1 of
                     (Some err, c2) \<Rightarrow> (Some err, c2)
                   | (None, c2) \<Rightarrow>
                       (case write_all (be_bytes 2 3) c2 of
                          (Some err, c3) \<Rightarrow> (Some err, c3)
                        | (None, c3) \<Rightarrow>
                            (case conn_read 4 c3 of
                               (Inl err, c4) \<Rightarrow> (Some err, c4)
                             | (Inr clientFlags, c4) \<Rightarrow>
                                 if even (be_val clientFlags)
                                 then (Some (Msg ''client did not request fixed-newstyle''), c4)
                                 else (case negotiation srv dev flags c4 of
                                         (Ended e, c5) \<Rightarrow> (e, c5)
                                       | (Selected, c5) \<Rightarrow> transmission srv dev readOnly c5)))))"

text \<open>\<open>handle\<close>: the error, the connection and whether the release callback ran.\<close>

definition handle_session :: "'s nbd_server \<Rightarrow> 's nbd_conn \<Rightarrow> (go_err option \<times> 's nbd_conn) \<times> bool" where
  "handle_session srv c =
     (case session_backend srv of
        (Inl err, held) \<Rightarrow> ((Some err, c), held)
      | (Inr dev, held) \<Rightarrow> (run_session srv dev c, held))"

end
