(* ===== verification/Nbd_Session.thy ===== *)
theory Nbd_Session
  imports Nbd
begin

text \<open>
  What a session of the NBD server does, for any device and any client: it touches the device
  only through calls inside the device and within the request limit, writes nothing on a
  read-only export, and sends nothing in clear but the greeting and empty option replies.
\<close>

section \<open>What a session calls\<close>

text \<open>
  \<open>P\<close> survives the calls a session may make: reads of one to \<open>MaxRequest\<close> bytes inside the
  device, and, unless the export is read-only, writes of such a range and syncs.
\<close>

definition survives_calls :: "'s nbd_server \<Rightarrow> 's device \<Rightarrow> bool \<Rightarrow> ('s \<Rightarrow> bool) \<Rightarrow> bool" where
  "survives_calls srv dev readOnly P \<longleftrightarrow>
     (\<forall>s. P s \<longrightarrow> 0 \<le> dvSize dev s \<and> dvSize dev s < 2 ^ 63) \<and>
     (\<forall>s n off. P s \<longrightarrow> 0 < n \<longrightarrow> n \<le> svMaxRequest srv \<longrightarrow> 0 \<le> off \<longrightarrow> off + int n \<le> dvSize dev s \<longrightarrow>
        P (snd (dvReadAt dev n off s))) \<and>
     (\<not> readOnly \<longrightarrow> (\<forall>writeAt sync. dvWriteSync dev = Some (writeAt, sync) \<longrightarrow>
        (\<forall>s bs off. P s \<longrightarrow> bs \<noteq> [] \<longrightarrow> length bs \<le> svMaxRequest srv \<longrightarrow> 0 \<le> off \<longrightarrow>
           off + int (length bs) \<le> dvSize dev s \<longrightarrow> P (snd (writeAt bs off s))) \<and>
        (\<forall>s. P s \<longrightarrow> P (snd (sync s)))))"

lemma good_range:
  assumes "\<not> bad_range srv sz r" "0 \<le> sz" "sz < 2 ^ 63"
  shows "0 < rqLength r" "rqLength r \<le> svMaxRequest srv" "int (rqOffset r) + int (rqLength r) \<le> sz"
  using assms by (auto simp: bad_range_def u64_of_id)

lemma conn_read_dev: "conn_read n c = (x, c1) \<Longrightarrow> ncDev c1 = ncDev c"
  by (auto simp: conn_read_def split: if_splits)

lemma conn_discard_dev: "conn_discard n c = (x, c1) \<Longrightarrow> ncDev c1 = ncDev c"
  by (auto simp: conn_discard_def split: if_splits)

lemma do_read_survives:
  assumes "survives_calls srv dev ro P" "P (ncDev c)" "do_read srv dev r c = (x, c1)"
  shows "P (ncDev c1)"
proof (cases "bad_range srv (dvSize dev (ncDev c)) r")
  case False
  have "0 \<le> dvSize dev (ncDev c)" "dvSize dev (ncDev c) < 2 ^ 63" using assms(1,2) by (simp_all add: survives_calls_def)
  note ok = good_range [OF False this]
  have "P (snd (dvReadAt dev (rqLength r) (int (rqOffset r)) (ncDev c)))"
    using assms(1,2) ok by (simp add: survives_calls_def)
  with False assms(3) show ?thesis by (auto simp: do_read_def split: prod.splits)
qed (use assms in \<open>simp add: do_read_def\<close>)

lemma do_flush_survives:
  assumes "survives_calls srv dev ro P" "P (ncDev c)" "do_flush dev ro c = (x, c1)"
  shows "P (ncDev c1)"
proof (cases "ro \<or> dvWriteSync dev = None")
  case False
  then obtain writeAt sync where d: "dvWriteSync dev = Some (writeAt, sync)" "\<not> ro" by auto
  then have "P (snd (sync (ncDev c)))" using assms(1,2) by (simp add: survives_calls_def)
  with d assms(3) show ?thesis by (auto simp: do_flush_def split: prod.splits)
qed (use assms in \<open>auto simp: do_flush_def split: if_splits\<close>)

lemma do_write_survives:
  assumes "survives_calls srv dev ro P" "P (ncDev c)" "do_write srv dev ro r c = (x, c1)"
  shows "P (ncDev c1)"
proof (cases "bad_range srv (dvSize dev (ncDev c)) r")
  case True
  with assms(2,3) show ?thesis
    by (auto simp: do_write_def split: if_splits prod.splits option.splits dest: conn_discard_dev)
next
  case False
  have "0 \<le> dvSize dev (ncDev c)" "dvSize dev (ncDev c) < 2 ^ 63" using assms(1,2) by (simp_all add: survives_calls_def)
  note ok = good_range [OF False this]
  obtain y c2 where rd: "conn_read (rqLength r) c = (y, c2)" by (metis prod.exhaust)
  show ?thesis
  proof (cases "isl y \<or> ro \<or> dvWriteSync dev = None")
    case True
    with False assms(2,3) rd conn_read_dev [OF rd] show ?thesis
      by (auto simp: do_write_def split: sum.splits if_splits option.splits)
  next
    case go: False
    then obtain bs writeAt sync where d: "y = Inr bs" "dvWriteSync dev = Some (writeAt, sync)" "\<not> ro"
      by (cases y) auto
    then have len: "length bs = rqLength r" using conn_readD rd by fastforce
    have "bs \<noteq> []" using len ok(1) by auto
    then have "P (snd (writeAt bs (int (rqOffset r)) (ncDev c)))"
      using assms(1,2) ok d len by (simp add: survives_calls_def)
    then have "P (snd (writeAt bs (int (rqOffset r)) (ncDev c2)))" using conn_read_dev [OF rd] by simp
    with d False rd assms(3) show ?thesis by (auto simp: do_write_def split: prod.splits)
  qed
qed

lemma exec_request_survives:
  assumes "survives_calls srv dev ro P" "P (ncDev c)" "exec_request srv dev ro r c = (x, c1)"
  shows "P (ncDev c1)"
  using assms(2,3) do_read_survives [OF assms(1,2), of r] do_flush_survives [OF assms(1,2)]
    do_write_survives [OF assms(1,2), of r]
  by (auto simp: exec_request_def Let_def split: if_splits prod.splits)

lemma conn_write_dev: "conn_write bs c = (x, c1) \<Longrightarrow> ncDev c1 = ncDev c"
  using conn_write_input by blast

lemma request_round_survives:
  assumes "survives_calls srv dev ro P" "P (ncDev c)" "request_round srv dev ro c = (x, c1)"
  shows "P (ncDev c1)"
proof -
  obtain y c2 where rd: "conn_read 28 c = (y, c2)" by (metis prod.exhaust)
  have c2: "P (ncDev c2)" using conn_read_dev [OF rd] assms(2) by simp
  show ?thesis
  proof (cases y)
    case (Inl e)
    with assms(3) rd c2 show ?thesis by (simp add: request_round_def)
  next
    case (Inr h)
    obtain z c3 where ex: "exec_request srv dev ro (parse_request h) c2 = (z, c3)" by (metis prod.exhaust)
    have "P (ncDev c3)" by (rule exec_request_survives [OF assms(1) c2 ex])
    with Inr assms(3) rd c2 ex show ?thesis
      by (auto simp: request_round_def Let_def split: if_splits sum.splits prod.splits option.splits
          dest!: conn_write_dev)
  qed
qed

lemma transmission_survives:
  "survives_calls srv dev ro P \<Longrightarrow> P (ncDev c) \<Longrightarrow> P (ncDev (snd (transmission srv dev ro c)))"
proof (induction srv dev ro c rule: transmission.induct)
  case (1 srv dev ro c)
  obtain x c1 where r: "request_round srv dev ro c = (x, c1)" by (metis prod.exhaust)
  have "P (ncDev c1)" by (rule request_round_survives [OF "1.prems" r])
  with "1.IH" "1.prems"(1) r show ?case by (subst transmission.simps) (auto split: round.split)
qed

section \<open>What a session sends in clear\<close>

text \<open>A frame, or the part of it that was written, that holds nothing of the export.\<close>

definition public_frame :: "byte list \<Rightarrow> bool" where
  "public_frame bs \<longleftrightarrow> (\<exists>k full. bs = take k full \<and>
     (full \<in> {be_bytes 8 nbd_magic, be_bytes 8 opt_magic, be_bytes 2 3} \<or>
      (\<exists>option. full = option_reply option rep_ack [] \<or> full = option_reply option rep_err_unsup [])))"

text \<open>
  The frames written so far are public or under TLS; before TLS the session has not touched the
  device, and it never leaves TLS.
\<close>

definition guarded :: "'s \<Rightarrow> (go_err + byte list) \<Rightarrow> 's nbd_conn \<Rightarrow> bool" where
  "guarded s0 tls c \<longleftrightarrow> (\<forall>(secret, bs) \<in> set (ncOutput c). secret \<or> public_frame bs) \<and>
     (\<not> ncSecured c \<longrightarrow> ncDev c = s0) \<and> ncTLS c = tls \<and> (isl tls \<longrightarrow> \<not> ncSecured c)"

lemma conn_write_guarded:
  assumes "guarded s0 tls c" "conn_write bs c = (r, c1)" "ncSecured c \<or> public_frame bs"
    "\<And>k. public_frame bs \<Longrightarrow> public_frame (take k bs)"
  shows "guarded s0 tls c1" "ncSecured c1 = ncSecured c"
proof -
  have "\<exists>k. ncOutput c1 = ncOutput c @ [(ncSecured c, take k bs)]"
    using assms(2) by (auto simp: conn_write_def split: list.splits option.splits prod.splits intro: exI [of _ "length bs"])
  moreover have "ncDev c1 = ncDev c \<and> ncTLS c1 = ncTLS c \<and> ncSecured c1 = ncSecured c"
    using assms(2) by (auto simp: conn_write_def split: list.splits option.splits prod.splits)
  ultimately show "guarded s0 tls c1" "ncSecured c1 = ncSecured c"
    using assms(1,3,4) by (auto simp: guarded_def)
qed

lemma public_take: "public_frame bs \<Longrightarrow> public_frame (take k bs)"
  unfolding public_frame_def by (metis take_take)

lemma public_full:
  "public_frame (be_bytes 8 nbd_magic)" "public_frame (be_bytes 8 opt_magic)" "public_frame (be_bytes 2 3)"
  "public_frame (option_reply option rep_ack [])" "public_frame (option_reply option rep_err_unsup [])"
  unfolding public_frame_def by (metis insertCI order.refl take_all)+

lemma write_all_guarded:
  assumes "guarded s0 tls c" "write_all bs c = (r, c1)" "ncSecured c \<or> public_frame bs"
  shows "guarded s0 tls c1 \<and> ncSecured c1 = ncSecured c"
proof -
  obtain n where "conn_write bs c = ((n, r), c1)" using assms(2) by (auto simp: write_all_def split: prod.splits)
  from conn_write_guarded [OF assms(1) this assms(3) public_take] show ?thesis by simp
qed

lemma or_end_guarded:
  assumes "or_end (write_all bs c) rest = (x, c')" "guarded s0 tls c" "ncSecured c \<or> public_frame bs"
    and "\<And>c1. guarded s0 tls c1 \<Longrightarrow> ncSecured c1 = ncSecured c \<Longrightarrow> rest c1 = (x, c') \<Longrightarrow> guarded s0 tls c'"
  shows "guarded s0 tls c'"
proof -
  obtain e c1 where w: "write_all bs c = (e, c1)" by (metis prod.exhaust)
  note g = write_all_guarded [OF assms(2) w assms(3)]
  show ?thesis
  proof (cases e)
    case None
    with assms(1) w have "rest c1 = (x, c')" by (simp add: or_end_def)
    with assms(4) g show ?thesis by blast
  next
    case (Some err)
    with assms(1) w g show ?thesis by (simp add: or_end_def)
  qed
qed

lemma conn_read_guarded: "conn_read n c = (x, c1) \<Longrightarrow> guarded s0 tls c \<Longrightarrow> guarded s0 tls c1 \<and> ncSecured c1 = ncSecured c"
  by (auto simp: conn_read_def guarded_def split: if_splits)

lemma read_option_guarded:
  assumes "read_option c = (x, c1)" "guarded s0 tls c"
  shows "guarded s0 tls c1 \<and> ncSecured c1 = ncSecured c"
proof -
  have "guarded s0 tls c \<and> ncSecured c = ncSecured c" using assms(2) by simp
  with assms show ?thesis
    by (auto simp: read_option_def split: if_splits sum.splits prod.splits dest!: conn_read_guarded)
qed

lemma clear_option_guarded:
  assumes "clear_option option len c = (x, c')" "guarded s0 tls c"
  shows "guarded s0 tls c'"
proof (cases "option \<noteq> opt_start_tls \<or> len \<noteq> 0")
  case True
  then have "or_end (write_all (option_reply option rep_err_unsup []) c) (\<lambda>c. (Again, c)) = (x, c')"
    using assms(1) by (auto simp: clear_option_def write_option_reply_def)
  from or_end_guarded [OF this assms(2)] public_full(5) show ?thesis by simp
next
  case False
  then have w: "or_end (write_all (option_reply option rep_ack []) c) (\<lambda>c. case ncTLS c of
      Inl err \<Rightarrow> (Stop (Ended (Some err)), c)
    | Inr plain \<Rightarrow> (Again, c\<lparr>ncSecured := True, ncInput := plain\<rparr>)) = (x, c')"
    using assms(1) by (simp add: clear_option_def write_option_reply_def)
  show ?thesis
  proof (rule or_end_guarded [OF w assms(2)])
    show "ncSecured c \<or> public_frame (option_reply option rep_ack [])" using public_full(4) by simp
  next
    fix c1 :: "'a nbd_conn"
    assume g: "guarded s0 tls c1" and r: "(case ncTLS c1 of Inl err \<Rightarrow> (Stop (Ended (Some err)), c1)
      | Inr plain \<Rightarrow> (Again, c1\<lparr>ncSecured := True, ncInput := plain\<rparr>)) = (x, c')"
    show "guarded s0 tls c'"
    proof (cases "ncTLS c1")
      case (Inl err)
      with r g show ?thesis by simp
    next
      case (Inr plain)
      then have "c' = c1\<lparr>ncSecured := True, ncInput := plain\<rparr>" using r by simp
      moreover have "tls = Inr plain" using g Inr by (simp add: guarded_def)
      ultimately show ?thesis using g by (simp add: guarded_def)
    qed
  qed
qed

lemma secured_option_guarded:
  assumes "secured_option srv dev flags option payload c = (x, c')" "guarded s0 tls c" "ncSecured c"
  shows "guarded s0 tls c'"
proof -
  obtain e c1 where w: "write_all (option_reply option rep_ack []) c = (e, c1)" by (metis prod.exhaust)
  have "guarded s0 tls c1" using write_all_guarded [OF assms(2) w] assms(3) by simp
  then show ?thesis
    using assms w unfolding secured_option_def write_option_reply_def
    by (auto split: if_splits elim!: or_end_guarded)
qed

lemma option_round_guarded:
  assumes "option_round srv dev flags c = (x, c')" "guarded s0 tls c"
  shows "guarded s0 tls c'"
proof -
  obtain y c1 where rd: "read_option c = (y, c1)" by (metis prod.exhaust)
  have c1: "guarded s0 tls c1" using read_option_guarded [OF rd assms(2)] by simp
  show ?thesis
  proof (cases y)
    case (Inl e)
    with assms(1) rd c1 show ?thesis by (simp add: option_round_def)
  next
    case (Inr b)
    with assms(1) rd c1 show ?thesis
      by (auto simp: option_round_def split: if_splits prod.splits
          intro: clear_option_guarded secured_option_guarded)
  qed
qed

lemma negotiation_guarded:
  "guarded s0 tls c \<Longrightarrow> guarded s0 tls (snd (negotiation srv dev flags c))"
proof (induction srv dev flags c rule: negotiation.induct)
  case (1 srv dev flags c)
  obtain x c1 where r: "option_round srv dev flags c = (x, c1)" by (metis prod.exhaust)
  have "guarded s0 tls c1" by (rule option_round_guarded [OF r "1.prems"])
  with "1.IH" r show ?case by (subst negotiation.simps) (auto split: round.split)
qed

lemma request_round_guarded:
  assumes "request_round srv dev ro c = (x, c')" "guarded s0 tls c" "ncSecured c"
  shows "guarded s0 tls c' \<and> ncSecured c'"
proof -
  have step: "guarded s0 tls c2 \<and> ncSecured c2"
    if "exec_request srv dev ro r c1 = (y, c2)" "guarded s0 tls c1" "ncSecured c1" for r c1 c2 y
  proof -
    have "ncOutput c2 = ncOutput c1 \<and> ncTLS c2 = ncTLS c1 \<and> ncSecured c2 = ncSecured c1"
      using that(1) by (auto simp: exec_request_def Let_def do_read_def do_flush_def do_write_def conn_discard_def
          conn_read_def split: if_splits prod.splits sum.splits option.splits)
    with that(2,3) show ?thesis by (simp add: guarded_def)
  qed
  have sent: "guarded s0 tls c2 \<and> ncSecured c2"
    if "conn_write bs c1 = (y, c2)" "guarded s0 tls c1" "ncSecured c1" for bs c1 c2 y
    using conn_write_guarded [OF that(2,1) disjI1 public_take] that(3) by simp
  obtain y c1 where rd: "conn_read 28 c = (y, c1)" by (metis prod.exhaust)
  note c1 = conn_read_guarded [OF rd assms(2)]
  show ?thesis
  proof (cases y)
    case (Inl e)
    with assms rd c1 show ?thesis by (simp add: request_round_def)
  next
    case (Inr h)
    obtain z c2 where ex: "exec_request srv dev ro (parse_request h) c1 = (z, c2)" by (metis prod.exhaust)
    have "guarded s0 tls c2 \<and> ncSecured c2" using step [OF ex] c1 assms(3) by simp
    with Inr assms rd c1 ex show ?thesis
      by (auto simp: request_round_def Let_def split: if_splits sum.splits prod.splits option.splits dest!: sent)
  qed
qed

lemma transmission_guarded:
  "guarded s0 tls c \<Longrightarrow> ncSecured c \<Longrightarrow> guarded s0 tls (snd (transmission srv dev ro c))"
proof (induction srv dev ro c rule: transmission.induct)
  case (1 srv dev ro c)
  obtain x c1 where r: "request_round srv dev ro c = (x, c1)" by (metis prod.exhaust)
  have "guarded s0 tls c1 \<and> ncSecured c1" by (rule request_round_guarded [OF r "1.prems"])
  with "1.IH" r show ?case by (subst transmission.simps) (auto split: round.split)
qed

text \<open>An export is selected only under TLS.\<close>

lemma or_end_cases:
  assumes "or_end (write_all bs c) rest = (x, c')"
  obtains e where "x = Stop (Ended e)" | c1 where "ncSecured c1 = ncSecured c" "rest c1 = (x, c')"
proof (cases "write_all bs c")
  case (Pair e c1)
  have "ncSecured c1 = ncSecured c"
    using Pair conn_write_input by (fastforce simp: write_all_def split: prod.splits)
  with that assms Pair show thesis by (cases e) (auto simp: or_end_def)
qed

lemma selected_secured:
  "negotiation srv dev flags c = (Selected, c') \<Longrightarrow> ncSecured c'"
proof (induction srv dev flags c rule: negotiation.induct)
  case (1 srv dev flags c)
  obtain x c1 where r: "option_round srv dev flags c = (x, c1)" by (metis prod.exhaust)
  show ?case
  proof (cases x)
    case Again
    with "1.IH" [OF r [symmetric] Again] "1.prems" r show ?thesis by (subst (asm) negotiation.simps) simp
  next
    case (Stop e)
    then have st: "option_round srv dev flags c = (Stop Selected, c')"
      using "1.prems" r by (subst (asm) negotiation.simps) simp
    obtain option len payload c2 where rd: "read_option c = (Inr (option, len, payload), c2)"
      using st by (auto simp: option_round_def split: prod.splits sum.splits)
    show ?thesis
    proof (cases "ncSecured c2")
      case False
      then have "clear_option option len c2 = (Stop Selected, c')" using st rd by (simp add: option_round_def)
      then have False
        by (auto simp: clear_option_def write_option_reply_def split: if_splits sum.splits elim!: or_end_cases)
      then show ?thesis ..
    next
      case True
      then have "secured_option srv dev flags option payload c2 = (Stop Selected, c')"
        using st rd by (simp add: option_round_def)
      with True show ?thesis
        by (auto simp: secured_option_def write_option_reply_def split: if_splits elim!: or_end_cases)
    qed
  qed
qed

section \<open>A whole session\<close>

text \<open>A fresh connection: nothing written, not secured.\<close>

definition fresh_conn :: "'s nbd_conn \<Rightarrow> bool" where
  "fresh_conn c \<longleftrightarrow> ncOutput c = [] \<and> \<not> ncSecured c"

lemma run_session_guarded:
  assumes "fresh_conn c"
  shows "guarded (ncDev c) (ncTLS c) (snd (run_session srv dev c))"
proof -
  let ?g = "\<lambda>c1. guarded (ncDev c) (ncTLS c) c1"
  have c0: "?g c" using assms by (simp add: fresh_conn_def guarded_def)
  have w: "?g c2" if "write_all bs c1 = (e, c2)" "?g c1" "public_frame bs" for bs e c1 c2
    using write_all_guarded [OF that(2,1)] that(3) by simp
  have r: "?g c2" if "conn_read n c1 = (x, c2)" "?g c1" for n x c1 c2
    using conn_read_guarded [OF that] by simp
  have n: "?g c2" if "negotiation srv dev flags c1 = (x, c2)" "?g c1" for flags x c1 c2
    using negotiation_guarded [OF that(2), of srv dev flags] that(1) by simp
  have t: "?g (snd (transmission srv dev ro c2))"
    if "negotiation srv dev flags c1 = (Selected, c2)" "?g c1" for flags ro c1 c2
    by (rule transmission_guarded [OF n [OF that] selected_secured [OF that(1)]])
  note p = public_full(1-3)
  obtain e1 c1 where 1: "write_all (be_bytes 8 nbd_magic) c = (e1, c1)" by (metis prod.exhaust)
  obtain e2 c2 where 2: "write_all (be_bytes 8 opt_magic) c1 = (e2, c2)" by (metis prod.exhaust)
  obtain e3 c3 where 3: "write_all (be_bytes 2 3) c2 = (e3, c3)" by (metis prod.exhaust)
  obtain x c4 where 4: "conn_read 4 c3 = (x, c4)" by (metis prod.exhaust)
  have g: "?g c1" "?g c2" "?g c3" "?g c4" using w [OF 1 c0 p(1)] w [OF 2 _ p(2)] w [OF 3 _ p(3)] r [OF 4] by auto
  have last: "?g (snd (case negotiation srv dev flags c4 of
      (Ended e, c5) \<Rightarrow> (e, c5) | (Selected, c5) \<Rightarrow> transmission srv dev ro c5))" for flags ro
  proof -
    obtain y c5 where y: "negotiation srv dev flags c4 = (y, c5)" by (metis prod.exhaust)
    show ?thesis using n [OF y g(4)] t [of flags c4 c5 ro] y g(4) by (cases y) auto
  qed
  show ?thesis using c0 g last 1 2 3 4
    unfolding run_session_def Let_def by (simp split: option.split sum.split)
qed

lemma write_all_dev: "write_all bs c = (e, c1) \<Longrightarrow> ncDev c1 = ncDev c"
  by (auto simp: write_all_def split: prod.splits dest: conn_write_dev)

lemma or_end_dev:
  assumes "or_end (write_all bs c) rest = (x, c')" "\<And>c1. rest c1 = (x, c') \<Longrightarrow> ncDev c' = ncDev c1"
  shows "ncDev c' = ncDev c"
proof (cases "write_all bs c")
  case (Pair e c1)
  with assms write_all_dev [OF Pair] show ?thesis by (cases e) (auto simp: or_end_def)
qed

lemma option_round_dev:
  assumes "option_round srv dev flags c = (x, c')"
  shows "ncDev c' = ncDev c"
proof -
  have rd: "ncDev c1 = ncDev c" if "read_option c = (y, c1)" for y c1
    using that by (auto simp: read_option_def split: if_splits sum.splits prod.splits dest!: conn_read_dev)
  have clear: "ncDev c2 = ncDev c1" if "clear_option option len c1 = (y, c2)" for option len c1 y c2
    using that by (auto simp: clear_option_def write_option_reply_def split: if_splits sum.splits elim!: or_end_dev)
  have sec: "ncDev c2 = ncDev c1" if s: "secured_option srv dev flags option payload c1 = (y, c2)" for option payload c1 y c2
  proof -
    obtain e c3 where "write_all (option_reply option rep_ack []) c1 = (e, c3)" by (metis prod.exhaust)
    with s write_all_dev [OF this] show ?thesis
      by (auto simp: secured_option_def write_option_reply_def split: if_splits elim!: or_end_dev)
  qed
  show ?thesis using assms
    by (auto simp: option_round_def split: sum.splits prod.splits if_splits dest!: rd clear sec)
qed

lemma negotiation_dev: "ncDev (snd (negotiation srv dev flags c)) = ncDev c"
proof (induction srv dev flags c rule: negotiation.induct)
  case (1 srv dev flags c)
  obtain x c1 where r: "option_round srv dev flags c = (x, c1)" by (metis prod.exhaust)
  with "1.IH" option_round_dev [OF r] show ?case by (subst negotiation.simps) (auto split: round.split)
qed

definition session_read_only :: "'s device \<Rightarrow> 's \<Rightarrow> bool" where
  "session_read_only dev s = (case dvReadOnly dev of None \<Rightarrow> True | Some f \<Rightarrow> f s)"

lemma run_session_survives:
  assumes "survives_calls srv dev (session_read_only dev (ncDev c)) P" "P (ncDev c)"
  shows "P (ncDev (snd (run_session srv dev c)))"
proof -
  obtain e1 c1 where 1: "write_all (be_bytes 8 nbd_magic) c = (e1, c1)" by (metis prod.exhaust)
  obtain e2 c2 where 2: "write_all (be_bytes 8 opt_magic) c1 = (e2, c2)" by (metis prod.exhaust)
  obtain e3 c3 where 3: "write_all (be_bytes 2 3) c2 = (e3, c3)" by (metis prod.exhaust)
  obtain x c4 where 4: "conn_read 4 c3 = (x, c4)" by (metis prod.exhaust)
  have d: "ncDev c1 = ncDev c" "ncDev c2 = ncDev c" "ncDev c3 = ncDev c" "ncDev c4 = ncDev c"
    using write_all_dev [OF 1] write_all_dev [OF 2] write_all_dev [OF 3] conn_read_dev [OF 4] by simp_all
  let ?ro = "session_read_only dev (ncDev c)"
  have last: "P (ncDev (snd (case negotiation srv dev flags c4 of
      (Ended e, c5) \<Rightarrow> (e, c5) | (Selected, c5) \<Rightarrow> transmission srv dev ?ro c5)))" for flags
  proof -
    obtain y c5 where y: "negotiation srv dev flags c4 = (y, c5)" by (metis prod.exhaust)
    have "P (ncDev c5)" using negotiation_dev [of srv dev flags c4] y d(4) assms(2) by simp
    with transmission_survives [OF assms(1) this] y show ?thesis by (cases y) auto
  qed
  show ?thesis using last d assms(2) 1 2 3 4
    unfolding run_session_def Let_def session_read_only_def [symmetric] by (simp split: option.split sum.split)
qed

section \<open>Properties\<close>

text \<open>
  C6.  Whatever the client does before or after STARTTLS, everything the session writes in clear
  is the greeting or an empty option reply (or a part of one, where a write was cut short), and
  when the TLS handshake fails the device has not been touched.
\<close>

theorem session_guards_export:
  assumes "fresh_conn c"
  shows "(\<forall>(secret, bs) \<in> set (ncOutput (snd (run_session srv dev c))). secret \<or> public_frame bs) \<and>
    (isl (ncTLS c) \<longrightarrow> ncDev (snd (run_session srv dev c)) = ncDev c)"
  using run_session_guarded [OF assms, of srv dev] unfolding guarded_def by blast

text \<open>
  C31.  A session keeps every property of the device that its allowed calls keep: reads of one to
  \<open>MaxRequest\<close> bytes inside the device and, on a writable export only, writes of such a range
  and syncs.  So no client makes a read-only export change, or reaches past its end.
\<close>

theorem session_calls_in_range:
  assumes "survives_calls srv dev (session_read_only dev (ncDev c)) P" "P (ncDev c)"
  shows "P (ncDev (snd (run_session srv dev c)))"
  by (rule run_session_survives [OF assms])

text \<open>A device of eight bytes that counts its reads, and a client that reads two of them.\<close>

definition tiny_device :: "(byte list \<times> nat) device" where
  "tiny_device = \<lparr>dvSize = (\<lambda>s. int (length (fst s))), dvReadOnly = None,
     dvReadAt = (\<lambda>n off s. if off < 0 \<or> int n > int (length (fst s)) - off then (([], Some EOF), s)
       else ((slice (fst s) (nat off) n, None), (fst s, Suc (snd s)))),
     dvWriteSync = None\<rparr>"

definition tiny_server :: "(byte list \<times> nat) nbd_server" where
  "tiny_server = \<lparr>svBackend = Some tiny_device, svProvider = None, svAcquirer = None, svMutualTLS = True,
     svExportName = ''a'', svDeadline = 0, svMaxRequest = 4\<rparr>"

definition option_request :: "nat \<Rightarrow> byte list \<Rightarrow> byte list" where
  "option_request option payload = be_bytes 8 opt_magic @ be_bytes 4 option @ be_bytes 4 (length payload) @ payload"

definition tiny_client :: "(byte list \<times> nat) nbd_conn" where
  "tiny_client = \<lparr>ncInput = be_bytes 4 1 @ option_request opt_start_tls [], ncEnd = EOF, ncSecured = False,
     ncTLS = Inl (Msg ''bad certificate''), ncOutput = [], ncFaults = [], ncDev = ([1, 2, 3, 4, 5, 6, 7, 8], 0)\<rparr>"

theorem session_guards_export_witness:
  "list_all (\<lambda>(secret, bs). secret \<or> public_frame bs) (ncOutput (snd (run_session tiny_server tiny_device tiny_client))) \<and>
   ncDev (snd (run_session tiny_server tiny_device tiny_client)) = ([1, 2, 3, 4, 5, 6, 7, 8], 0)"
proof -
  have "fresh_conn tiny_client" by (simp add: fresh_conn_def tiny_client_def)
  from session_guards_export [OF this, of tiny_server tiny_device] show ?thesis by (simp add: tiny_client_def list_all_iff)
qed

theorem session_calls_in_range_witness:
  "fst (ncDev (snd (run_session tiny_server tiny_device tiny_client))) = [1, 2, 3, 4, 5, 6, 7, 8]"
  by (rule session_calls_in_range [where P = "\<lambda>s. fst s = [1, 2, 3, 4, 5, 6, 7, 8]"])
    (auto simp: survives_calls_def tiny_device_def tiny_client_def session_read_only_def)

end
