(* ===== verification/Nbd_Requests.thy ===== *)
theory Nbd_Requests
  imports Nbd_Session
begin

text \<open>
  The request loop against an array of bytes: a client that sends a sequence of reads, writes
  and flushes to a writable device gets the replies that the array gives, in order, and the
  device ends with the bytes of the array.  In a read-only session over a device whose storage
  works the replies are fixed by the requests and the bytes of the device.
\<close>

section \<open>What the client sends\<close>

datatype nbd_command = Read nat nat | Write nat "byte list" | Flush

definition request_header :: "nat \<Rightarrow> nat \<Rightarrow> nat \<Rightarrow> nat \<Rightarrow> byte list" where
  "request_header command handle offset len =
     be_bytes 4 request_magic @ be_bytes 4 command @ be_bytes 8 handle @ be_bytes 8 offset @ be_bytes 4 len"

fun encode_command :: "nat \<times> nbd_command \<Rightarrow> byte list" where
  "encode_command (handle, Read off len) = request_header cmd_read handle off len"
| "encode_command (handle, Write off bs) = request_header cmd_write handle off (length bs) @ bs"
| "encode_command (handle, Flush) = request_header cmd_flush handle 0 0"

text \<open>The fields fit the header, and a write carries no more than the server accepts.\<close>

fun command_ok :: "nat \<Rightarrow> nat \<times> nbd_command \<Rightarrow> bool" where
  "command_ok maxRequest (handle, Read off len) \<longleftrightarrow> handle < 2 ^ 64 \<and> off < 2 ^ 64 \<and> len < 2 ^ 32"
| "command_ok maxRequest (handle, Write off bs) \<longleftrightarrow>
     handle < 2 ^ 64 \<and> off < 2 ^ 64 \<and> length bs \<le> maxRequest"
| "command_ok maxRequest (handle, Flush) \<longleftrightarrow> handle < 2 ^ 64"

section \<open>What the array answers\<close>

definition in_range :: "nat \<Rightarrow> int \<Rightarrow> nat \<Rightarrow> nat \<Rightarrow> bool" where
  "in_range maxRequest sz off len \<longleftrightarrow> 0 < len \<and> len \<le> maxRequest \<and> int off + int len \<le> sz"

text \<open>
  One command on the array \<open>f\<close>: the reply frame and the array after it.  A device may fail a
  good request, but then it says so and nothing has changed.
\<close>

inductive answers :: "nat \<Rightarrow> int \<Rightarrow> (int \<Rightarrow> byte) \<Rightarrow> nat \<times> nbd_command \<Rightarrow> byte list \<Rightarrow> (int \<Rightarrow> byte) \<Rightarrow> bool"
  for maxRequest sz where
  read_done: "in_range maxRequest sz off len \<Longrightarrow>
    answers maxRequest sz f (h, Read off len) (reply_frame 0 h (byte_range f (int off) len)) f"
| read_failed: "in_range maxRequest sz off len \<Longrightarrow>
    answers maxRequest sz f (h, Read off len) (reply_frame err_io h []) f"
| read_refused: "\<not> in_range maxRequest sz off len \<Longrightarrow>
    answers maxRequest sz f (h, Read off len) (reply_frame err_invalid h []) f"
| write_done: "in_range maxRequest sz off (length bs) \<Longrightarrow>
    answers maxRequest sz f (h, Write off bs) (reply_frame 0 h []) (patch f (int off) bs)"
| write_failed: "in_range maxRequest sz off (length bs) \<Longrightarrow> status \<in> {err_io, err_perm} \<Longrightarrow>
    answers maxRequest sz f (h, Write off bs) (reply_frame status h []) f"
| write_refused: "\<not> in_range maxRequest sz off (length bs) \<Longrightarrow>
    answers maxRequest sz f (h, Write off bs) (reply_frame err_invalid h []) f"
| flush_done: "status \<in> {0, err_io} \<Longrightarrow> answers maxRequest sz f (h, Flush) (reply_frame status h []) f"

inductive answers_all ::
  "nat \<Rightarrow> int \<Rightarrow> (int \<Rightarrow> byte) \<Rightarrow> (nat \<times> nbd_command) list \<Rightarrow> byte list list \<Rightarrow> (int \<Rightarrow> byte) \<Rightarrow> bool"
  for maxRequest sz where
  no_more: "answers_all maxRequest sz f [] [] f"
| one_more: "answers maxRequest sz f cmd frame f1 \<Longrightarrow> answers_all maxRequest sz f1 cmds frames f2 \<Longrightarrow>
    answers_all maxRequest sz f (cmd # cmds) (frame # frames) f2"

section \<open>Headers\<close>

lemma length_request_header [go_len, simp]: "length (request_header command handle offset len) = 28"
  by (simp add: request_header_def)

lemma parse_request_header:
  assumes "command < 2 ^ 32" "handle < 2 ^ 64" "offset < 2 ^ 64" "len < 2 ^ 32"
  shows "parse_request (request_header command handle offset len) =
    \<lparr>rqMagic = request_magic, rqType = command, rqHandle = handle, rqOffset = offset, rqLength = len\<rparr>"
proof -
  have "slice (request_header command handle offset len) 0 4 = be_bytes 4 request_magic"
    "slice (request_header command handle offset len) 4 4 = be_bytes 4 command"
    "slice (request_header command handle offset len) 8 8 = be_bytes 8 handle"
    "slice (request_header command handle offset len) 16 8 = be_bytes 8 offset"
    "slice (request_header command handle offset len) 24 4 = be_bytes 4 len"
    by (simp_all add: request_header_def slice_def)
  with assms show ?thesis by (simp add: parse_request_def get_be_def be_val_be_bytes)
qed

section \<open>One round\<close>

lemma bad_range_in_range:
  assumes "0 \<le> sz" "sz < 2 ^ 63"
  shows "bad_range srv sz \<lparr>rqMagic = m, rqType = t, rqHandle = h, rqOffset = off, rqLength = len\<rparr> \<longleftrightarrow>
    \<not> in_range (svMaxRequest srv) sz off len"
  using assms by (auto simp: bad_range_def in_range_def u64_of_id)

text \<open>A round on a connection that has not failed: header, command, reply.\<close>

lemma request_round_reply:
  assumes "ncInput c = request_header command h off len @ rest" "ncFaults c = []"
    and "command < 65536" "command \<noteq> cmd_disconnect" "h < 2 ^ 64" "off < 2 ^ 64" "len < 2 ^ 32"
    and "\<not> (command = cmd_write \<and> len > svMaxRequest srv)"
    and "exec_request srv dev ro \<lparr>rqMagic = request_magic, rqType = command, rqHandle = h, rqOffset = off, rqLength = len\<rparr>
      (c\<lparr>ncInput := rest\<rparr>) = (Inr (status, data), c2)"
    and "ncFaults c2 = []"
  shows "request_round srv dev ro c =
    (Again, c2\<lparr>ncOutput := ncOutput c2 @ [(ncSecured c2, reply_frame status h data)]\<rparr>)"
proof -
  have "conn_read 28 c = (Inr (request_header command h off len), c\<lparr>ncInput := rest\<rparr>)"
    using assms(1) by (simp add: conn_read_def)
  moreover have "parse_request (request_header command h off len) =
      \<lparr>rqMagic = request_magic, rqType = command, rqHandle = h, rqOffset = off, rqLength = len\<rparr>"
    using assms(3,5-7) by (intro parse_request_header) auto
  moreover have "conn_write (reply_frame status h data) c2 = ((length (reply_frame status h data), None),
      c2\<lparr>ncOutput := ncOutput c2 @ [(ncSecured c2, reply_frame status h data)]\<rparr>)"
    using assms(10) by (simp add: conn_write_def)
  ultimately show ?thesis
    using assms(3,4,8,9) by (auto simp: request_round_def Let_def rq_command_def)
qed

text \<open>A client that ends with a disconnect.\<close>

lemma transmission_ends:
  assumes "ncInput c = request_header cmd_disconnect h 0 0 @ rest" "h < 2 ^ 64"
  shows "transmission srv dev ro c = (None, c\<lparr>ncInput := rest\<rparr>)"
proof -
  have "conn_read 28 c = (Inr (request_header cmd_disconnect h 0 0), c\<lparr>ncInput := rest\<rparr>)"
    using assms(1) by (simp add: conn_read_def)
  then have "request_round srv dev ro c = (Stop None, c\<lparr>ncInput := rest\<rparr>)"
    using assms(2) parse_request_header [of cmd_disconnect h 0 0] by (simp add: request_round_def rq_command_def)
  then show ?thesis by (subst transmission.simps) simp
qed

text \<open>The part of the connection that a command leaves alone.\<close>

definition same_wire :: "'s nbd_conn \<Rightarrow> 's nbd_conn \<Rightarrow> bool" where
  "same_wire c c1 \<longleftrightarrow> ncFaults c1 = ncFaults c \<and> ncOutput c1 = ncOutput c \<and> ncSecured c1 = ncSecured c"

context writable_device
begin

definition serves :: "'s device \<Rightarrow> bool" where
  "serves dev \<longleftrightarrow> dvSize dev = sizeOf \<and> dvReadAt dev = readAt \<and> dvWriteSync dev = Some (writeAt, sync)"

definition exec_ok :: "'s nbd_server \<Rightarrow> 's device \<Rightarrow> nat \<times> nbd_command \<Rightarrow> nbd_request \<Rightarrow> byte list \<Rightarrow> 's nbd_conn \<Rightarrow> bool" where
  "exec_ok srv dev cmd r rest c \<longleftrightarrow> (\<exists>status data c2.
     exec_request srv dev False r c = (Inr (status, data), c2) \<and> same_wire c c2 \<and> ncInput c2 = rest \<and>
     inv (ncDev c2) \<and> sizeOf (ncDev c2) = sizeOf (ncDev c) \<and>
     answers (svMaxRequest srv) (sizeOf (ncDev c)) (bytes (ncDev c)) cmd (reply_frame status (fst cmd) data) (bytes (ncDev c2)))"

lemma exec_read:
  assumes "serves dev" "inv (ncDev c)" "0 \<le> sizeOf (ncDev c)" "sizeOf (ncDev c) < 2 ^ 63"
  shows "exec_ok srv dev (h, Read off len)
    \<lparr>rqMagic = request_magic, rqType = cmd_read, rqHandle = h, rqOffset = off, rqLength = len\<rparr> (ncInput c) c"
proof (cases "in_range (svMaxRequest srv) (sizeOf (ncDev c)) off len")
  case False
  then have "exec_request srv dev False
      \<lparr>rqMagic = request_magic, rqType = cmd_read, rqHandle = h, rqOffset = off, rqLength = len\<rparr> c =
    (Inr (err_invalid, []), c)"
    using bad_range_in_range [OF assms(3,4), of srv] assms(1) by (simp add: exec_request_def rq_command_def do_read_def serves_def)
  then show ?thesis using read_refused [OF False] assms(2) by (auto simp: exec_ok_def same_wire_def)
next
  case True
  obtain bs e s1 where rd: "readAt len (int off) (ncDev c) = ((bs, e), s1)" by (metis prod.exhaust)
  have "0 \<le> int off" "int len \<le> sizeOf (ncDev c) - int off" using True by (auto simp: in_range_def)
  note law = read_inside [OF assms(2) this rd]
  have "bs = byte_range (bytes (ncDev c)) (int off) len" if "e = None" using law that by metis
  then have "exec_request srv dev False
      \<lparr>rqMagic = request_magic, rqType = cmd_read, rqHandle = h, rqOffset = off, rqLength = len\<rparr> c =
    (Inr (if e = None then (0, byte_range (bytes (ncDev c)) (int off) len) else (err_io, [])), c\<lparr>ncDev := s1\<rparr>)"
    using True assms(1) rd law bad_range_in_range [OF assms(3,4), of srv]
    by (simp add: exec_request_def rq_command_def do_read_def serves_def)
  moreover have "same_wire c (c\<lparr>ncDev := s1\<rparr>)" by (simp add: same_wire_def)
  ultimately show ?thesis
    using law read_done [OF True] read_failed [OF True] unfolding exec_ok_def by (cases e) auto
qed

lemma exec_flush:
  assumes "serves dev" "inv (ncDev c)"
  shows "exec_ok srv dev (h, Flush)
    \<lparr>rqMagic = request_magic, rqType = cmd_flush, rqHandle = h, rqOffset = 0, rqLength = 0\<rparr> (ncInput c) c"
proof -
  obtain e s1 where "sync (ncDev c) = (e, s1)" by (metis prod.exhaust)
  with sync_law [OF assms(2) this] assms(1) show ?thesis
    by (auto simp: exec_ok_def exec_request_def rq_command_def do_flush_def serves_def same_wire_def intro: flush_done)
qed

lemma exec_write:
  assumes "serves dev" "inv (ncDev c)" "0 \<le> sizeOf (ncDev c)" "sizeOf (ncDev c) < 2 ^ 63"
    and "ncInput c = bs @ rest" "length bs \<le> svMaxRequest srv"
  shows "exec_ok srv dev (h, Write off bs)
    \<lparr>rqMagic = request_magic, rqType = cmd_write, rqHandle = h, rqOffset = off, rqLength = length bs\<rparr> rest c"
proof (cases "in_range (svMaxRequest srv) (sizeOf (ncDev c)) off (length bs)")
  case False
  then have "exec_request srv dev False
      \<lparr>rqMagic = request_magic, rqType = cmd_write, rqHandle = h, rqOffset = off, rqLength = length bs\<rparr> c =
    (Inr (err_invalid, []), c\<lparr>ncInput := rest\<rparr>)"
    using bad_range_in_range [OF assms(3,4), of srv] assms(1,5,6)
    by (simp add: exec_request_def rq_command_def do_write_def serves_def conn_discard_def)
  then show ?thesis using write_refused [OF False] assms(2) by (auto simp: exec_ok_def same_wire_def)
next
  case True
  obtain n e s1 where wr: "writeAt bs (int off) (ncDev c) = ((n, e), s1)" by (metis prod.exhaust)
  have "int off + int (length bs) \<le> sizeOf (ncDev c)" using True by (auto simp: in_range_def)
  note law = write_law [OF assms(2) this wr]
  have st: "write_status (length bs) (n, e) = 0 \<and> e = None \<or> write_status (length bs) (n, e) \<in> {err_io, err_perm} \<and> e \<noteq> None"
    using law by (cases e) (auto simp: write_status_def split: option.split)
  have "exec_request srv dev False
      \<lparr>rqMagic = request_magic, rqType = cmd_write, rqHandle = h, rqOffset = off, rqLength = length bs\<rparr> c =
    (Inr (write_status (length bs) (n, e), []), c\<lparr>ncInput := rest, ncDev := s1\<rparr>)"
    using True assms(1,5) wr bad_range_in_range [OF assms(3,4), of srv]
    by (simp add: exec_request_def rq_command_def do_write_def serves_def conn_read_def)
  moreover have "same_wire c (c\<lparr>ncInput := rest, ncDev := s1\<rparr>)" by (simp add: same_wire_def)
  ultimately show ?thesis
    using law st write_done [OF True] write_failed [OF True] unfolding exec_ok_def by (cases e) auto
qed

lemma request_step:
  assumes "serves dev" "inv (ncDev c)" "0 \<le> sizeOf (ncDev c)" "sizeOf (ncDev c) < 2 ^ 63"
    and "ncInput c = encode_command cmd @ rest" "command_ok (svMaxRequest srv) cmd" "ncFaults c = []"
    and "svMaxRequest srv < 2 ^ 32"
  shows "\<exists>frame c'. request_round srv dev False c = (Again, c') \<and> ncInput c' = rest \<and> ncFaults c' = [] \<and>
    ncSecured c' = ncSecured c \<and> ncOutput c' = ncOutput c @ [(ncSecured c, frame)] \<and>
    inv (ncDev c') \<and> sizeOf (ncDev c') = sizeOf (ncDev c) \<and>
    answers (svMaxRequest srv) (sizeOf (ncDev c)) (bytes (ncDev c)) cmd frame (bytes (ncDev c'))"
proof -
  have step: ?thesis if "ncInput c = request_header command (fst cmd) off len @ body" "exec_ok srv dev cmd
      \<lparr>rqMagic = request_magic, rqType = command, rqHandle = fst cmd, rqOffset = off, rqLength = len\<rparr> rest (c\<lparr>ncInput := body\<rparr>)"
    "command \<in> {cmd_read, cmd_write, cmd_flush}" "fst cmd < 2 ^ 64" "off < 2 ^ 64" "len < 2 ^ 32"
    "command = cmd_write \<Longrightarrow> len \<le> svMaxRequest srv" for command off len body
  proof -
    from that(2) obtain status data c2 where x: "exec_request srv dev False
        \<lparr>rqMagic = request_magic, rqType = command, rqHandle = fst cmd, rqOffset = off, rqLength = len\<rparr>
        (c\<lparr>ncInput := body\<rparr>) = (Inr (status, data), c2)" "same_wire c c2" "ncInput c2 = rest" "inv (ncDev c2)"
      "sizeOf (ncDev c2) = sizeOf (ncDev c)" "answers (svMaxRequest srv) (sizeOf (ncDev c)) (bytes (ncDev c)) cmd
        (reply_frame status (fst cmd) data) (bytes (ncDev c2))"
      by (auto simp: exec_ok_def same_wire_def)
    have "request_round srv dev False c =
        (Again, c2\<lparr>ncOutput := ncOutput c2 @ [(ncSecured c2, reply_frame status (fst cmd) data)]\<rparr>)"
      by (rule request_round_reply [OF that(1) assms(7) _ _ that(4-6) _ x(1)])
        (use that(3,7) x(2) assms(7) in \<open>auto simp: same_wire_def\<close>)
    with x show ?thesis using assms(7) by (auto simp: same_wire_def)
  qed
  obtain h k where cmd: "cmd = (h, k)" by (cases cmd)
  show ?thesis
  proof (cases k)
    case (Read off len)
    have "exec_ok srv dev cmd \<lparr>rqMagic = request_magic, rqType = cmd_read, rqHandle = fst cmd, rqOffset = off, rqLength = len\<rparr>
        rest (c\<lparr>ncInput := rest\<rparr>)"
      using exec_read [OF assms(1), of "c\<lparr>ncInput := rest\<rparr>" srv h off len] assms(2-4) by (simp add: cmd Read)
    note this [THEN step [rotated]]
    with assms(5,6) show ?thesis by (simp add: cmd Read)
  next
    case (Write off bs)
    have "exec_ok srv dev cmd \<lparr>rqMagic = request_magic, rqType = cmd_write, rqHandle = fst cmd, rqOffset = off, rqLength = length bs\<rparr>
        rest (c\<lparr>ncInput := bs @ rest\<rparr>)"
      using exec_write [OF assms(1), of "c\<lparr>ncInput := bs @ rest\<rparr>" bs rest srv h off] assms(2-6)
      by (simp add: cmd Write)
    note this [THEN step [rotated]]
    with assms(5,6,8) show ?thesis by (simp add: cmd Write)
  next
    case Flush
    have "exec_ok srv dev cmd \<lparr>rqMagic = request_magic, rqType = cmd_flush, rqHandle = fst cmd, rqOffset = 0, rqLength = 0\<rparr>
        rest (c\<lparr>ncInput := rest\<rparr>)"
      using exec_flush [OF assms(1), of "c\<lparr>ncInput := rest\<rparr>" srv h] assms(2) by (simp add: cmd Flush)
    note this [THEN step [rotated]]
    with assms(5,6) show ?thesis by (simp add: cmd Flush)
  qed
qed

lemma transmission_answers:
  assumes "serves dev" "inv (ncDev c)" "0 \<le> sizeOf (ncDev c)" "sizeOf (ncDev c) < 2 ^ 63"
    and "ncInput c = concat (map encode_command cmds) @ rest" "list_all (command_ok (svMaxRequest srv)) cmds"
    and "ncFaults c = []" "svMaxRequest srv < 2 ^ 32"
  shows "\<exists>frames c'. transmission srv dev False c = transmission srv dev False c' \<and> ncInput c' = rest \<and>
    ncFaults c' = [] \<and> ncOutput c' = ncOutput c @ map (Pair (ncSecured c)) frames \<and> inv (ncDev c') \<and>
    sizeOf (ncDev c') = sizeOf (ncDev c) \<and>
    answers_all (svMaxRequest srv) (sizeOf (ncDev c)) (bytes (ncDev c)) cmds frames (bytes (ncDev c'))"
  using assms(2-7)
proof (induction cmds arbitrary: c)
  case Nil
  then show ?case using answers_all.no_more by (intro exI [of _ "[]"] exI [of _ c]) simp
next
  case (Cons cmd cmds)
  have inp: "ncInput c = encode_command cmd @ (concat (map encode_command cmds) @ rest)"
    and ok: "command_ok (svMaxRequest srv) cmd" "list_all (command_ok (svMaxRequest srv)) cmds"
    using Cons.prems(4,5) by simp_all
  from request_step [OF assms(1) Cons.prems(1-3) inp ok(1) Cons.prems(6) assms(8)] obtain frame c1 where
    st: "request_round srv dev False c = (Again, c1)" "ncInput c1 = concat (map encode_command cmds) @ rest"
      "ncFaults c1 = []" "ncSecured c1 = ncSecured c" "ncOutput c1 = ncOutput c @ [(ncSecured c, frame)]"
      "inv (ncDev c1)" "sizeOf (ncDev c1) = sizeOf (ncDev c)"
    and a: "answers (svMaxRequest srv) (sizeOf (ncDev c)) (bytes (ncDev c)) cmd frame (bytes (ncDev c1))" by blast
  have "0 \<le> sizeOf (ncDev c1)" "sizeOf (ncDev c1) < 2 ^ 63" using st(7) Cons.prems(2,3) by simp_all
  from Cons.IH [OF st(6) this st(2) ok(2) st(3)] obtain frames c2 where
    rest: "transmission srv dev False c1 = transmission srv dev False c2" "ncInput c2 = rest" "ncFaults c2 = []"
      "ncOutput c2 = ncOutput c1 @ map (Pair (ncSecured c1)) frames" "inv (ncDev c2)" "sizeOf (ncDev c2) = sizeOf (ncDev c1)"
    and as: "answers_all (svMaxRequest srv) (sizeOf (ncDev c1)) (bytes (ncDev c1)) cmds frames (bytes (ncDev c2))"
    by blast
  have "transmission srv dev False c = transmission srv dev False c2"
    using st(1) rest(1) by (subst transmission.simps) simp
  moreover have "answers_all (svMaxRequest srv) (sizeOf (ncDev c)) (bytes (ncDev c)) (cmd # cmds) (frame # frames) (bytes (ncDev c2))"
    using a as st(7) answers_all.one_more by metis
  ultimately show ?case
    using rest(2-6) st(4,5,7) by (intro exI [of _ "frame # frames"] exI [of _ c2]) simp
qed

lemma session_answers:
  assumes "serves dev" "inv (ncDev c)" "0 \<le> sizeOf (ncDev c)" "sizeOf (ncDev c) < 2 ^ 63"
    and "ncInput c = concat (map encode_command cmds) @ request_header cmd_disconnect h 0 0 @ rest" "h < 2 ^ 64"
    and "list_all (command_ok (svMaxRequest srv)) cmds" "ncFaults c = []" "svMaxRequest srv < 2 ^ 32"
  shows "\<exists>frames c'. transmission srv dev False c = (None, c') \<and>
    ncOutput c' = ncOutput c @ map (Pair (ncSecured c)) frames \<and> inv (ncDev c') \<and>
    sizeOf (ncDev c') = sizeOf (ncDev c) \<and>
    answers_all (svMaxRequest srv) (sizeOf (ncDev c)) (bytes (ncDev c)) cmds frames (bytes (ncDev c'))"
proof -
  from transmission_answers [OF assms(1-5,7-9)] obtain frames c1 where
    t: "transmission srv dev False c = transmission srv dev False c1" "ncInput c1 = request_header cmd_disconnect h 0 0 @ rest"
      "ncOutput c1 = ncOutput c @ map (Pair (ncSecured c)) frames" "inv (ncDev c1)" "sizeOf (ncDev c1) = sizeOf (ncDev c)"
      "answers_all (svMaxRequest srv) (sizeOf (ncDev c)) (bytes (ncDev c)) cmds frames (bytes (ncDev c1))" by blast
  from t transmission_ends [OF t(2) assms(6), of srv dev False]
  show ?thesis by (intro exI [of _ frames] exI [of _ "c1\<lparr>ncInput := rest\<rparr>"]) simp
qed

end

section \<open>Read-only sessions\<close>

text \<open>A device whose storage works: a read inside it returns the whole range.\<close>

locale reliable_device = readable_device sizeOf readAt inv bytes
  for sizeOf :: "'s \<Rightarrow> int"
    and readAt :: "nat \<Rightarrow> int \<Rightarrow> 's \<Rightarrow> (byte list \<times> go_err option) \<times> 's"
    and inv :: "'s \<Rightarrow> bool"
    and bytes :: "'s \<Rightarrow> int \<Rightarrow> byte" +
  assumes read_whole: "inv s \<Longrightarrow> 0 \<le> off \<Longrightarrow> int n \<le> sizeOf s - off \<Longrightarrow>
      fst (readAt n off s) = (byte_range (bytes s) off n, None)"

text \<open>What a read-only session answers: the bytes of the array, and a refusal for every write.\<close>

fun read_only_reply :: "nat \<Rightarrow> int \<Rightarrow> (int \<Rightarrow> byte) \<Rightarrow> nat \<times> nbd_command \<Rightarrow> byte list" where
  "read_only_reply maxRequest sz f (h, Read off len) =
     (if in_range maxRequest sz off len then reply_frame 0 h (byte_range f (int off) len)
      else reply_frame err_invalid h [])"
| "read_only_reply maxRequest sz f (h, Write off bs) =
     (if in_range maxRequest sz off (length bs) then reply_frame err_perm h []
      else reply_frame err_invalid h [])"
| "read_only_reply maxRequest sz f (h, Flush) = reply_frame 0 h []"

context reliable_device
begin

definition offers :: "'s device \<Rightarrow> bool" where
  "offers dev \<longleftrightarrow> dvSize dev = sizeOf \<and> dvReadAt dev = readAt"

text \<open>A command executed: status and data of the reply, what is read of the input, the device.\<close>

definition replies :: "'s nbd_server \<Rightarrow> nat \<times> nbd_command \<Rightarrow> 's nbd_conn \<Rightarrow> byte list \<Rightarrow>
    (go_err + nat \<times> byte list) \<times> 's nbd_conn \<Rightarrow> bool" where
  "replies srv cmd c rest out \<longleftrightarrow> (\<exists>status data c2. out = (Inr (status, data), c2) \<and> same_wire c c2 \<and>
     ncInput c2 = rest \<and> inv (ncDev c2) \<and> bytes (ncDev c2) = bytes (ncDev c) \<and> sizeOf (ncDev c2) = sizeOf (ncDev c) \<and>
     reply_frame status (fst cmd) data = read_only_reply (svMaxRequest srv) (sizeOf (ncDev c)) (bytes (ncDev c)) cmd)"

lemma reply_read:
  assumes "offers dev" "inv (ncDev c)" "0 \<le> sizeOf (ncDev c)" "sizeOf (ncDev c) < 2 ^ 63"
  shows "replies srv (h, Read off len) c (ncInput c) (exec_request srv dev True
    \<lparr>rqMagic = request_magic, rqType = cmd_read, rqHandle = h, rqOffset = off, rqLength = len\<rparr> c)"
proof (cases "in_range (svMaxRequest srv) (sizeOf (ncDev c)) off len")
  case False
  then show ?thesis using bad_range_in_range [OF assms(3,4), of srv] assms(1,2)
    by (simp add: exec_request_def rq_command_def do_read_def offers_def replies_def same_wire_def)
next
  case True
  then have r: "0 \<le> int off" "int len \<le> sizeOf (ncDev c) - int off" by (auto simp: in_range_def)
  obtain s1 where rd: "readAt len (int off) (ncDev c) = ((byte_range (bytes (ncDev c)) (int off) len, None), s1)"
    using read_whole [OF assms(2) r] by (metis prod.collapse)
  from read_inside [OF assms(2) r rd] True rd bad_range_in_range [OF assms(3,4), of srv] assms(1) show ?thesis
    by (simp add: exec_request_def rq_command_def do_read_def offers_def replies_def same_wire_def)
qed

lemma reply_write:
  assumes "offers dev" "inv (ncDev c)" "0 \<le> sizeOf (ncDev c)" "sizeOf (ncDev c) < 2 ^ 63"
    and "ncInput c = bs @ rest" "length bs \<le> svMaxRequest srv"
  shows "replies srv (h, Write off bs) c rest (exec_request srv dev True
    \<lparr>rqMagic = request_magic, rqType = cmd_write, rqHandle = h, rqOffset = off, rqLength = length bs\<rparr> c)"
  using bad_range_in_range [OF assms(3,4), of srv] assms
  by (cases "in_range (svMaxRequest srv) (sizeOf (ncDev c)) off (length bs)")
    (simp_all add: exec_request_def rq_command_def do_write_def offers_def replies_def same_wire_def
      conn_read_def conn_discard_def)

lemma reply_flush:
  "inv (ncDev c) \<Longrightarrow> replies srv (h, Flush) c (ncInput c) (exec_request srv dev True
    \<lparr>rqMagic = request_magic, rqType = cmd_flush, rqHandle = h, rqOffset = 0, rqLength = 0\<rparr> c)"
  by (simp add: exec_request_def rq_command_def do_flush_def replies_def same_wire_def)

lemma read_only_round:
  assumes "offers dev" "inv (ncDev c)" "0 \<le> sizeOf (ncDev c)" "sizeOf (ncDev c) < 2 ^ 63"
    and "ncInput c = encode_command cmd @ rest" "command_ok (svMaxRequest srv) cmd" "ncFaults c = []"
    and "svMaxRequest srv < 2 ^ 32"
  shows "\<exists>c'. request_round srv dev True c = (Again, c') \<and> ncInput c' = rest \<and> ncFaults c' = [] \<and>
    ncSecured c' = ncSecured c \<and> inv (ncDev c') \<and> bytes (ncDev c') = bytes (ncDev c) \<and>
    sizeOf (ncDev c') = sizeOf (ncDev c) \<and> ncOutput c' = ncOutput c @
      [(ncSecured c, read_only_reply (svMaxRequest srv) (sizeOf (ncDev c)) (bytes (ncDev c)) cmd)]"
proof -
  have step: ?thesis if "ncInput c = request_header command (fst cmd) off len @ body"
      "replies srv cmd (c\<lparr>ncInput := body\<rparr>) rest (exec_request srv dev True
        \<lparr>rqMagic = request_magic, rqType = command, rqHandle = fst cmd, rqOffset = off, rqLength = len\<rparr> (c\<lparr>ncInput := body\<rparr>))"
      "command \<in> {cmd_read, cmd_write, cmd_flush}" "fst cmd < 2 ^ 64" "off < 2 ^ 64" "len < 2 ^ 32"
      "command = cmd_write \<Longrightarrow> len \<le> svMaxRequest srv" for command off len body
  proof -
    from that(2) obtain status data c2 where x: "exec_request srv dev True
        \<lparr>rqMagic = request_magic, rqType = command, rqHandle = fst cmd, rqOffset = off, rqLength = len\<rparr>
        (c\<lparr>ncInput := body\<rparr>) = (Inr (status, data), c2)"
      "same_wire c c2" "ncInput c2 = rest" "inv (ncDev c2)" "bytes (ncDev c2) = bytes (ncDev c)"
      "sizeOf (ncDev c2) = sizeOf (ncDev c)" "reply_frame status (fst cmd) data =
        read_only_reply (svMaxRequest srv) (sizeOf (ncDev c)) (bytes (ncDev c)) cmd"
      by (auto simp: replies_def same_wire_def)
    have "request_round srv dev True c =
        (Again, c2\<lparr>ncOutput := ncOutput c2 @ [(ncSecured c2, reply_frame status (fst cmd) data)]\<rparr>)"
      by (rule request_round_reply [OF that(1) assms(7) _ _ that(4-6) _ x(1)])
        (use that(3,7) x(2) assms(7) in \<open>auto simp: same_wire_def\<close>)
    with x assms(7) show ?thesis by (auto simp: same_wire_def)
  qed
  obtain h k where cmd: "cmd = (h, k)" by (cases cmd)
  show ?thesis
  proof (cases k)
    case (Read off len)
    have "replies srv cmd (c\<lparr>ncInput := rest\<rparr>) rest (exec_request srv dev True
        \<lparr>rqMagic = request_magic, rqType = cmd_read, rqHandle = fst cmd, rqOffset = off, rqLength = len\<rparr> (c\<lparr>ncInput := rest\<rparr>))"
      using reply_read [OF assms(1), of "c\<lparr>ncInput := rest\<rparr>" srv h off len] assms(2-4) by (simp add: cmd Read)
    note this [THEN step [rotated]]
    with assms(5,6) show ?thesis by (simp add: cmd Read)
  next
    case (Write off bs)
    have "replies srv cmd (c\<lparr>ncInput := bs @ rest\<rparr>) rest (exec_request srv dev True
        \<lparr>rqMagic = request_magic, rqType = cmd_write, rqHandle = fst cmd, rqOffset = off, rqLength = length bs\<rparr>
        (c\<lparr>ncInput := bs @ rest\<rparr>))"
      using reply_write [OF assms(1), of "c\<lparr>ncInput := bs @ rest\<rparr>" bs rest srv h off] assms(2-4,6)
      by (simp add: cmd Write replies_def same_wire_def)
    note this [THEN step [rotated]]
    with assms(5,6,8) show ?thesis by (simp add: cmd Write)
  next
    case Flush
    have "replies srv cmd (c\<lparr>ncInput := rest\<rparr>) rest (exec_request srv dev True
        \<lparr>rqMagic = request_magic, rqType = cmd_flush, rqHandle = fst cmd, rqOffset = 0, rqLength = 0\<rparr> (c\<lparr>ncInput := rest\<rparr>))"
      using reply_flush [of "c\<lparr>ncInput := rest\<rparr>" srv h dev] assms(2) by (simp add: cmd Flush)
    note this [THEN step [rotated]]
    with assms(5,6) show ?thesis by (simp add: cmd Flush)
  qed
qed

lemma read_only_session:
  assumes "offers dev" "h < 2 ^ 64" "svMaxRequest srv < 2 ^ 32"
  shows "inv (ncDev c) \<Longrightarrow> 0 \<le> sizeOf (ncDev c) \<Longrightarrow> sizeOf (ncDev c) < 2 ^ 63 \<Longrightarrow>
    ncInput c = concat (map encode_command cmds) @ request_header cmd_disconnect h 0 0 @ rest \<Longrightarrow>
    list_all (command_ok (svMaxRequest srv)) cmds \<Longrightarrow> ncFaults c = [] \<Longrightarrow>
    \<exists>c'. transmission srv dev True c = (None, c') \<and> inv (ncDev c') \<and> bytes (ncDev c') = bytes (ncDev c) \<and>
      sizeOf (ncDev c') = sizeOf (ncDev c) \<and> ncOutput c' = ncOutput c @ map (\<lambda>cmd.
        (ncSecured c, read_only_reply (svMaxRequest srv) (sizeOf (ncDev c)) (bytes (ncDev c)) cmd)) cmds"
proof (induction cmds arbitrary: c)
  case Nil
  then show ?case using transmission_ends [of c h rest srv dev True] assms(2) by simp
next
  case (Cons cmd cmds)
  have inp: "ncInput c = encode_command cmd @ (concat (map encode_command cmds) @ request_header cmd_disconnect h 0 0 @ rest)"
    and ok: "command_ok (svMaxRequest srv) cmd" "list_all (command_ok (svMaxRequest srv)) cmds"
    using Cons.prems(4,5) by simp_all
  from read_only_round [OF assms(1) Cons.prems(1-3) inp ok(1) Cons.prems(6) assms(3)] obtain c1 where
    st: "request_round srv dev True c = (Again, c1)"
      "ncInput c1 = concat (map encode_command cmds) @ request_header cmd_disconnect h 0 0 @ rest"
      "ncFaults c1 = []" "ncSecured c1 = ncSecured c" "inv (ncDev c1)" "bytes (ncDev c1) = bytes (ncDev c)"
      "sizeOf (ncDev c1) = sizeOf (ncDev c)" "ncOutput c1 = ncOutput c @
        [(ncSecured c, read_only_reply (svMaxRequest srv) (sizeOf (ncDev c)) (bytes (ncDev c)) cmd)]" by blast
  have "0 \<le> sizeOf (ncDev c1)" "sizeOf (ncDev c1) < 2 ^ 63" using st(7) Cons.prems(2,3) by simp_all
  from Cons.IH [OF st(5) this st(2) ok(2) st(3)] st show ?case
    by (subst transmission.simps) auto
qed

end

end
