(* ===== verification/Export_Disks.thy ===== *)
theory Export_Disks
  imports Fat_Disk Vdisk_Read Nbd_Requests
begin

text \<open>
  The two disks behind the NBD server.  The GameCube disk provides the interface of a writable
  device, the Wii disk that of a reliable one while its sources are intact, and the theorems about sessions carry over: what
  a client reads and writes over the wire are the bytes of the source files and memory cards.
\<close>

section \<open>The disks as devices\<close>

text \<open>A read that never returned would be the error; \<open>disk_read_ok\<close> shows that it does return.\<close>

definition fat_read_at ::
  "'w os \<Rightarrow> nat \<Rightarrow> int \<Rightarrow> ('w, card_store) bstate \<Rightarrow> (byte list \<times> go_err option) \<times> ('w, card_store) bstate" where
  "fat_read_at os len off st = (case backend_read_at os len off st of
     None \<Rightarrow> (([], Some (Msg ''read does not return'')), st) | Some r \<Rightarrow> r)"

definition fat_device :: "'w os \<Rightarrow> ('w, card_store) bstate device" where
  "fat_device os = \<lparr>dvSize = (\<lambda>st. fbSize (fst st)), dvReadOnly = Some (\<lambda>st. backend_read_only (fst st)),
     dvReadAt = fat_read_at os, dvWriteSync = Some (backend_write_at, backend_sync)\<rparr>"

definition wii_device :: "'w vdisk_state device" where
  "wii_device = \<lparr>dvSize = vdisk_size, dvReadOnly = None, dvReadAt = vdisk_read, dvWriteSync = None\<rparr>"

lemma disk_sync_ok:
  assumes "disk_ready cfg os content st" "backend_sync st = (e, st')"
  shows "disk_ready cfg os content st' \<and> fst st' = fst st \<and> disk_byte_of content st' = disk_byte_of content st"
proof -
  have inv: "backend_inv (store_inv cfg) store_card_size os content st" using assms(1) by (simp add: disk_ready_def)
  have "ssSync store = store_sync cfg" if "fbStore (fst st) = Some store" for store
    using assms(1) that by (auto simp: disk_ready_def card_store_ops_def)
  note w = card_store.backend_sync_sound [OF inv this assms(2)]
  have "fst st' = fst st" "disk_byte_of content st' = disk_byte_of content st" using w by (auto simp: disk_byte_of_def)
  with w assms(1) show ?thesis by (auto simp: disk_ready_def)
qed

lemma disk_write_failed:
  assumes "disk_ready cfg os content st" "backend_write_at bs off st = ((n, Some e), st')"
  shows "st' = st"
proof -
  have inv: "backend_inv (store_inv cfg) store_card_size os content st" using assms(1) by (simp add: disk_ready_def)
  show ?thesis by (rule card_store.backend_write_failed [OF inv disk_ready_served [OF assms(1)] assms(2)])
qed

interpretation fat_disk: writable_device "\<lambda>st. fbSize (fst st)" "fat_read_at os" "disk_ready cfg os content"
  "disk_byte_of content" backend_write_at backend_sync
proof unfold_locales
  fix off n and st :: "('a, card_store) bstate"
  assume "off < 0 \<or> fbSize (fst st) - off < int n"
  then show "fat_read_at os n off st = (([], Some EOF), st)" by (simp add: fat_read_at_def backend_read_at_def)
next
  fix st st' :: "('a, card_store) bstate" and off n bs e
  assume a: "disk_ready cfg os content st" "0 \<le> off" "int n \<le> fbSize (fst st) - off" "fat_read_at os n off st = ((bs, e), st')"
  have r: "off + int n \<le> fbSize (fst st)" using a(3) by simp
  from disk_read_ok [OF a(1,2) r] obtain cs x st2 where "backend_read_at os n off st = Some ((cs, x), st2)"
    "length cs \<le> n" "cs = byte_range (disk_byte_of content st) off (length cs)" "x = None \<longrightarrow> length cs = n"
    "disk_ready cfg os content st2" "disk_byte_of content st2 = disk_byte_of content st" "fbSize (fst st2) = fbSize (fst st)"
    by blast
  with a(4) show "length bs \<le> n \<and> bs = byte_range (disk_byte_of content st) off (length bs) \<and> (e = None \<longrightarrow> length bs = n) \<and>
      disk_ready cfg os content st' \<and> disk_byte_of content st' = disk_byte_of content st \<and> fbSize (fst st') = fbSize (fst st)"
    by (simp add: fat_read_at_def)
next
  fix st st' :: "('a, card_store) bstate" and off n bs e
  assume a: "disk_ready cfg os content st" "backend_write_at bs off st = ((n, e), st')"
  show "disk_ready cfg os content st' \<and> fbSize (fst st') = fbSize (fst st) \<and> (e = None \<longrightarrow> n = length bs) \<and>
      disk_byte_of content st' = (if e = None then patch (disk_byte_of content st) off bs else disk_byte_of content st)"
  proof (cases e)
    case None
    with disk_write_ok [OF a(1)] a(2) show ?thesis by auto
  next
    case (Some x)
    with a(2) have "st' = st" using disk_write_failed [OF a(1)] by blast
    with Some a(1) show ?thesis by simp
  qed
next
  fix st st' :: "('a, card_store) bstate" and e
  assume "disk_ready cfg os content st" "backend_sync st = (e, st')"
  from disk_sync_ok [OF this] show "disk_ready cfg os content st' \<and> fbSize (fst st') = fbSize (fst st) \<and>
      disk_byte_of content st' = disk_byte_of content st" by simp
qed

lemma fat_device_serves: "fat_disk.serves os (fat_device os)"
  by (simp add: fat_disk.serves_def fat_device_def)

text \<open>The Wii disk while its sources are intact: every read inside it succeeds.\<close>

definition vdisk_healthy :: "'w vdisk_state \<Rightarrow> bool" where
  "vdisk_healthy s \<longleftrightarrow> vdisk_inv s \<and> (case s of (d, os, c, w) \<Rightarrow> healthy_os os c (disk_sources d))"

interpretation wii_disk: reliable_device vdisk_size vdisk_read vdisk_healthy vdisk_bytes
proof unfold_locales
  fix off n and s :: "'a vdisk_state"
  assume "off < 0 \<or> vdisk_size s - off < int n"
  then show "vdisk_read n off s = (([], Some EOF), s)" by (rule vdisk_device.read_outside)
next
  fix s s' :: "'a vdisk_state" and off n bs e
  assume a: "vdisk_healthy s" "0 \<le> off" "int n \<le> vdisk_size s - off" "vdisk_read n off s = ((bs, e), s')"
  have "vdisk_healthy s'"
    using a(1,4) vdisk_device.read_inside [OF _ a(2-4)]
    by (cases s) (auto simp: vdisk_healthy_def vdisk_read_def split: prod.splits)
  with vdisk_device.read_inside [OF _ a(2-4)] a(1)
  show "length bs \<le> n \<and> bs = byte_range (vdisk_bytes s) off (length bs) \<and> (e = None \<longrightarrow> length bs = n) \<and>
      vdisk_healthy s' \<and> vdisk_bytes s' = vdisk_bytes s \<and> vdisk_size s' = vdisk_size s"
    by (simp add: vdisk_healthy_def)
next
  fix s :: "'a vdisk_state" and off n
  assume a: "vdisk_healthy s" "0 \<le> off" "int n \<le> vdisk_size s - off"
  obtain d os c w where s: "s = (d, os, c, w)" by (cases s)
  have "off + int n \<le> dkSize d" using a(3) by (simp add: s vdisk_size_def)
  with a(1,2) disk_read_healthy [of d os c off n w] show "fst (vdisk_read n off s) = (byte_range (vdisk_bytes s) off n, None)"
    by (auto simp: s vdisk_healthy_def vdisk_inv_def vdisk_read_def vdisk_bytes_def)
qed

lemma wii_device_offers: "wii_disk.offers wii_device"
  by (simp add: wii_disk.offers_def wii_device_def)

section \<open>Properties\<close>

text \<open>
  C3.  The GameCube export behaves as an array of bytes: any sequence of reads, writes and
  flushes that a client sends, and then a disconnect, is answered in order by what the array of
  its metadata, source files and memory cards gives, and leaves the disk ready with the bytes
  of that array.  A request that fails says so and has changed nothing.
\<close>

theorem gamecube_export_is_array:
  assumes "disk_ready cfg os content (ncDev c)" "0 \<le> fbSize (fst (ncDev c))" "fbSize (fst (ncDev c)) < 2 ^ 63"
    and "ncInput c = concat (map encode_command cmds) @ request_header cmd_disconnect h 0 0 @ rest" "h < 2 ^ 64"
    and "list_all (command_ok (svMaxRequest srv)) cmds" "ncFaults c = []" "svMaxRequest srv < 2 ^ 32"
  shows "\<exists>frames c'. transmission srv (fat_device os) False c = (None, c') \<and>
    ncOutput c' = ncOutput c @ map (Pair (ncSecured c)) frames \<and> disk_ready cfg os content (ncDev c') \<and>
    fbSize (fst (ncDev c')) = fbSize (fst (ncDev c)) \<and>
    answers_all (svMaxRequest srv) (fbSize (fst (ncDev c))) (disk_byte_of content (ncDev c)) cmds frames
      (disk_byte_of content (ncDev c'))"
  by (rule fat_disk.session_answers [OF fat_device_serves assms])

text \<open>
  C30.  While the sources are intact and the kernel serves them, the read-only session of the Wii
  export answers any sequence of reads, writes and flushes, and then a disconnect, with exactly
  the replies of an unchanging array: a read inside the disk gets the bytes of its metadata and
  sources, a write inside it is refused for want of permission and its payload skipped, a
  request that is empty, too long or not inside the disk is invalid, and the disk is as before.
  The fields of a request fit its header, a write carries no more than the limit of the server,
  that limit fits 32 bits and the size of the disk 63, and the connection takes every reply.
\<close>

theorem wii_export_serves_array:
  assumes "vdisk_healthy (ncDev c)" "0 \<le> vdisk_size (ncDev c)" "vdisk_size (ncDev c) < 2 ^ 63"
    and "ncInput c = concat (map encode_command cmds) @ request_header cmd_disconnect h 0 0 @ rest" "h < 2 ^ 64"
    and "list_all (command_ok (svMaxRequest srv)) cmds" "ncFaults c = []" "svMaxRequest srv < 2 ^ 32"
  shows "\<exists>c'. transmission srv wii_device (session_read_only wii_device (ncDev c)) c = (None, c') \<and>
    vdisk_healthy (ncDev c') \<and> vdisk_bytes (ncDev c') = vdisk_bytes (ncDev c) \<and>
    vdisk_size (ncDev c') = vdisk_size (ncDev c) \<and>
    ncOutput c' = ncOutput c @ map (\<lambda>cmd. (ncSecured c,
      read_only_reply (svMaxRequest srv) (vdisk_size (ncDev c)) (vdisk_bytes (ncDev c)) cmd)) cmds"
proof -
  have "session_read_only wii_device (ncDev c)" by (simp add: session_read_only_def wii_device_def)
  with wii_disk.read_only_session [OF wii_device_offers assms(5,8,1-4,6,7)] show ?thesis by simp
qed

definition card_server :: "(unit, card_store) bstate nbd_server" where
  "card_server = \<lparr>svBackend = Some (fat_device (mem_os sample_tree)), svProvider = None, svAcquirer = None,
     svMutualTLS = True, svExportName = ''wiibridge'', svDeadline = 0, svMaxRequest = 1048576\<rparr>"

definition card_client :: "(unit, card_store) bstate nbd_conn" where
  "card_client = \<lparr>ncInput = concat (map encode_command [(7, Write 600 [9]), (8, Read 600 1), (9, Flush)]) @
       request_header cmd_disconnect 1 0 0, ncEnd = EOF, ncSecured = True, ncTLS = Inr [], ncOutput = [],
     ncFaults = [], ncDev = (card_backend, (), sample_store)\<rparr>"

theorem gamecube_export_is_array_witness:
  "\<exists>frames c'. transmission card_server (fat_device (mem_os sample_tree)) False card_client = (None, c') \<and>
     ncOutput c' = map (Pair True) frames \<and>
     answers_all 1048576 525312 (disk_byte_of (mem_content sample_tree) (card_backend, (), sample_store))
       [(7, Write 600 [9]), (8, Read 600 1), (9, Flush)] frames (disk_byte_of (mem_content sample_tree) (ncDev c'))"
proof -
  have "disk_ready demo_config (mem_os sample_tree) (mem_content sample_tree) (ncDev card_client)"
    using card_backend_ready by (simp add: card_client_def)
  from gamecube_export_is_array [OF this, of "[(7, Write 600 [9]), (8, Read 600 1), (9, Flush)]" 1 "[]" card_server]
  show ?thesis by (force simp: card_client_def card_server_def card_backend_def)
qed

definition wii_client :: "unit vdisk_state nbd_conn" where
  "wii_client = \<lparr>ncInput = concat (map encode_command
       [(7, Write 600 [9]), (8, Read 1534 8), (9, Read 2560 1), (10, Flush)]) @ request_header cmd_disconnect 1 0 0,
     ncEnd = EOF, ncSecured = True, ncTLS = Inr [], ncOutput = [], ncFaults = [],
     ncDev = (demo_disk, mem_os demo_tree, mem_content demo_tree, ())\<rparr>"

definition wii_server :: "unit vdisk_state nbd_server" where
  "wii_server = \<lparr>svBackend = Some wii_device, svProvider = None, svAcquirer = None,
     svMutualTLS = True, svExportName = ''wii'', svDeadline = 0, svMaxRequest = 1048576\<rparr>"

theorem wii_export_serves_array_witness:
  "\<exists>c'. transmission wii_server wii_device True wii_client = (None, c') \<and>
     ncOutput c' = map (Pair True) [reply_frame err_perm 7 [],
       reply_frame 0 8 (byte_range (disk_byte (mem_content demo_tree) demo_disk) 1534 8),
       reply_frame err_invalid 9 [], reply_frame 0 10 []]"
proof -
  have dev: "ncDev wii_client = (demo_disk, mem_os demo_tree, mem_content demo_tree, ())" by (simp add: wii_client_def)
  have ok: "vdisk_healthy (ncDev wii_client)"
    using demo_disk_wf demo_os_honest demo_healthy by (simp add: dev vdisk_healthy_def vdisk_inv_def)
  have sz: "vdisk_size (ncDev wii_client) = 2560" by (simp add: dev vdisk_size_def demo_disk_def)
  have ro: "session_read_only wii_device (ncDev wii_client)" by (simp add: session_read_only_def wii_device_def)
  have bytes: "vdisk_bytes (ncDev wii_client) = disk_byte (mem_content demo_tree) demo_disk"
    by (simp add: dev vdisk_bytes_def)
  have wire: "ncInput wii_client = concat (map encode_command
      [(7, Write 600 [9]), (8, Read 1534 8), (9, Read 2560 1), (10, Flush)]) @ request_header cmd_disconnect 1 0 0 @ []"
    "ncFaults wii_client = []" "ncOutput wii_client = []" "ncSecured wii_client" "svMaxRequest wii_server = 1048576"
    by (simp_all add: wii_client_def wii_server_def)
  have "\<exists>c'. transmission wii_server wii_device (session_read_only wii_device (ncDev wii_client)) wii_client = (None, c') \<and>
    vdisk_healthy (ncDev c') \<and> vdisk_bytes (ncDev c') = vdisk_bytes (ncDev wii_client) \<and>
    vdisk_size (ncDev c') = vdisk_size (ncDev wii_client) \<and>
    ncOutput c' = ncOutput wii_client @ map (\<lambda>cmd. (ncSecured wii_client,
      read_only_reply (svMaxRequest wii_server) (vdisk_size (ncDev wii_client)) (vdisk_bytes (ncDev wii_client)) cmd))
      [(7, Write 600 [9]), (8, Read 1534 8), (9, Read 2560 1), (10, Flush)]"
    by (rule wii_export_serves_array [OF ok _ _ wire(1)]) (simp_all add: sz wire)
  then show ?thesis using ro wire(3-5) by (auto simp: sz bytes in_range_def)
qed

end
