(* ===== verification/Gc_Disc.thy ===== *)
theory Gc_Disc
  imports Go_Std Save_Objects Block_Device Host_OS
begin

text \<open>
  One GameCube disc image (\<open>gamecube/scanner.go\<close>): the reader that expands a CISO file, the
  checks of the disc header and of the filesystem table, and the description of the disc they
  give.  A reader is an \<open>io.ReaderAt\<close>: it returns the bytes it put into the buffer and an error,
  and \<open>honest_reader\<close> states the contract of \<open>io.ReaderAt\<close> over a file's contents.
\<close>

section \<open>Readers\<close>

type_synonym 'w reader = "nat \<Rightarrow> int \<Rightarrow> 'w \<Rightarrow> (byte list \<times> go_err option) \<times> 'w"

definition honest_reader :: "'w reader \<Rightarrow> byte list \<Rightarrow> bool" where
  "honest_reader rd file \<longleftrightarrow>
     (\<forall>n off w bs e w'. 0 \<le> off \<longrightarrow> rd n off w = ((bs, e), w') \<longrightarrow>
        length bs \<le> n \<and> bs = slice file (nat off) (length bs) \<and> (e = None \<longrightarrow> length bs = n))"

text \<open>A reader that never fails inside the file.\<close>

definition steady_reader :: "'w reader \<Rightarrow> byte list \<Rightarrow> bool" where
  "steady_reader rd file \<longleftrightarrow> honest_reader rd file \<and>
     (\<forall>n off w. 0 \<le> off \<longrightarrow> nat off + n \<le> length file \<longrightarrow> snd (fst (rd n off w)) = None)"

section \<open>CISO files\<close>

abbreviation (input) ciso_header :: int where "ciso_header \<equiv> 32768"
abbreviation (input) ciso_block :: int where "ciso_block \<equiv> 2097152"
abbreviation (input) ciso_map_size :: nat where "ciso_map_size \<equiv> 1024"

record ciso_reader =
  crMap :: "byte list"
  crSize :: int

definition new_ciso_reader :: "'w reader \<Rightarrow> int \<Rightarrow> 'w \<Rightarrow> (go_err + ciso_reader) \<times> 'w" where
  "new_ciso_reader rd physicalSize w = (case rd (nat ciso_header) 0 w of
     ((_, Some _), w1) \<Rightarrow> (Inl (Msg ''truncated CISO header''), w1)
   | ((header, None), w1) \<Rightarrow>
       (if take 4 header \<noteq> bytes_of ''CISO'' \<or> get_le header 4 4 \<noteq> nat ciso_block
        then Inl (Msg ''unsupported CISO geometry; Nintendont requires 2 MiB blocks'')
        else let m = slice header 8 ciso_map_size; present = int (length (filter (\<lambda>b. b \<noteq> 0) m))
             in if present = 0 \<or> ciso_header + present * ciso_block > physicalSize
                then Inl (Msg ''truncated or invalid CISO block map'')
                else Inr \<lparr>crMap = m, crSize = physicalSize\<rparr>, w1))"

fun last_mapped :: "byte list \<Rightarrow> nat \<Rightarrow> int" where
  "last_mapped m 0 = 0"
| "last_mapped m (Suc i) = (if m ! i \<noteq> 0 then int (i + 1) * ciso_block else last_mapped m i)"

definition ciso_logical_size :: "ciso_reader \<Rightarrow> int" where
  "ciso_logical_size c = last_mapped (crMap c) (length (crMap c))"

definition physical_index :: "byte list \<Rightarrow> nat \<Rightarrow> int" where
  "physical_index m block = int (length (filter (\<lambda>b. b \<noteq> 0) (take block m)))"

text \<open>One iteration of the loop of \<open>ReadAt\<close>: \<open>remaining\<close> bytes at \<open>position\<close>.\<close>

definition ciso_step ::
  "'w reader \<Rightarrow> ciso_reader \<Rightarrow> int \<Rightarrow> nat \<Rightarrow> 'w \<Rightarrow> (byte list \<times> go_err option) \<times> 'w" where
  "ciso_step rd c position remaining w =
     (let block = nat (position div ciso_block);
          inBlock = position mod ciso_block;
          available = ciso_block - inBlock;
          len = (if int remaining > available then nat available else remaining)
      in if crMap c ! block = 0 then ((zeros len, None), w)
         else rd len (ciso_header + physical_index (crMap c) block * ciso_block + inBlock) w)"

partial_function (option) ciso_loop ::
  "'w reader \<Rightarrow> ciso_reader \<Rightarrow> int \<Rightarrow> nat \<Rightarrow> byte list \<Rightarrow> 'w \<Rightarrow> ((byte list \<times> go_err option) \<times> 'w) option" where
  "ciso_loop rd c off len acc w =
     (if length acc < len \<and> off + int (length acc) < ciso_logical_size c
      then (case ciso_step rd c (off + int (length acc)) (len - length acc) w of
              ((bs, e), w1) \<Rightarrow>
                (if e = None then ciso_loop rd c off len (acc @ bs) w1
                 else Some ((acc @ bs, e), w1)))
      else Some ((acc, if length acc \<noteq> len then Some EOF else None), w))"

definition ciso_read_at ::
  "'w reader \<Rightarrow> ciso_reader \<Rightarrow> nat \<Rightarrow> int \<Rightarrow> 'w \<Rightarrow> ((byte list \<times> go_err option) \<times> 'w) option" where
  "ciso_read_at rd c len off w =
     (if off < 0 \<or> off \<ge> ciso_logical_size c then Some (([], Some EOF), w)
      else ciso_loop rd c off len [] w)"

section \<open>Header and filesystem table\<close>

abbreviation (input) gamecube_magic :: nat where "gamecube_magic \<equiv> 0xc2339f3d"
abbreviation (input) header_size :: int where "header_size \<equiv> 1088"
abbreviation (input) max_disc_size :: int where "max_disc_size \<equiv> 2147483648"

definition string_of :: "byte list \<Rightarrow> string" where
  "string_of bs = map (\<lambda>b. char_of (unat b)) bs"

definition validate_header :: "byte list \<Rightarrow> go_err + string" where
  "validate_header header =
     (if length header < 256 then Inl (Msg ''truncated GameCube header'')
      else let i = string_of (take 6 header)
           in if \<not> valid_id i then Inl (Msg ''invalid GameCube game ID'')
              else if get_be header 28 4 \<noteq> gamecube_magic then Inl (Msg ''invalid GameCube magic'')
              else if unat (header ! 6) > 1 then Inl (Msg ''unsupported disc number'')
              else Inr i)"

definition read_and_validate_header :: "'w reader \<Rightarrow> int \<Rightarrow> 'w \<Rightarrow> (go_err + byte list) \<times> 'w" where
  "read_and_validate_header rd logicalSize w = (case rd (nat header_size) 0 w of
     ((_, Some err), w1) \<Rightarrow> (Inl (Wrap ''truncated GameCube header'' err), w1)
   | ((header, None), w1) \<Rightarrow>
       (case validate_header header of
          Inl err \<Rightarrow> Inl err
        | Inr _ \<Rightarrow> if logicalSize < header_size \<or> logicalSize > max_disc_size
                   then Inl (Msg ''invalid logical disc size'') else Inr header, w1))"

definition validate_fst :: "'w reader \<Rightarrow> byte list \<Rightarrow> int \<Rightarrow> 'w \<Rightarrow> go_err option \<times> 'w" where
  "validate_fst rd header logicalSize w =
     (let off = int (get_be header 1060 4); sz = int (get_be header 1064 4)
      in if off < header_size \<or> sz < 12 \<or> off > logicalSize \<or> sz > logicalSize - off
         then (Some (Msg ''invalid or unreadable filesystem table''), w)
         else case rd 12 off w of
                ((_, Some err), w1) \<Rightarrow> (Some (Wrap ''unreadable filesystem table'' err), w1)
              | ((root, None), w1) \<Rightarrow>
                  (if root ! 0 \<noteq> 1 then Some (Msg ''filesystem table root is not a directory'')
                   else let entries = get_be root 8 4
                        in if entries = 0 \<or> int entries * 12 > sz
                           then Some (Msg ''invalid filesystem table entry count'') else None, w1))"

section \<open>The disc\<close>

record gc_disc =
  dcID :: string
  dcTitle :: string
  dcRegion :: string
  dcRevision :: nat
  dcNumber :: nat
  dcSourcePath :: string
  dcFormat :: string
  dcLogicalSize :: int
  dcPhysicalSize :: int
  dcSHA256 :: string
  dcValidation :: string

definition disc_region :: "char \<Rightarrow> string" where
  "disc_region code =
     (if code \<in> set ''EN'' then ''NTSC-U''
      else if code = CHR ''J'' then ''NTSC-J''
      else if code \<in> set ''KQT'' then ''NTSC-K''
      else if code \<in> set ''PDFHILMRSUVXY'' then ''PAL''
      else ''Unknown'')"

text \<open>\<open>strings.ToValidUTF8\<close>: a run of invalid bytes becomes one replacement.\<close>

function valid_utf8_from :: "bool \<Rightarrow> nat list \<Rightarrow> string \<Rightarrow> nat list" where
  "valid_utf8_from invalid bs replacement =
     (if bs = [] then []
      else case decode_rune bs of (r, width) \<Rightarrow>
        (if r = 0xfffd \<and> width = 1
         then (if invalid then [] else map code_of replacement) @ valid_utf8_from True (drop 1 bs) replacement
         else take width bs @ valid_utf8_from False (drop width bs) replacement))"
  by pat_completeness auto
termination
  by (relation "measure (\<lambda>(i, bs, r). length bs)")
    (auto, (metis decode_rune_width diff_less length_greater_0_conv snd_conv)+)

declare valid_utf8_from.simps [simp del]

definition to_valid_utf8 :: "string \<Rightarrow> string \<Rightarrow> string" where
  "to_valid_utf8 s replacement = map char_of (valid_utf8_from False (map code_of s) replacement)"

definition trim_right :: "byte list \<Rightarrow> byte list \<Rightarrow> byte list" where
  "trim_right cutset bs = rev (dropWhile (\<lambda>b. b \<in> set cutset) (rev bs))"

definition disc_from_header ::
  "byte list \<Rightarrow> string \<Rightarrow> string \<Rightarrow> int \<Rightarrow> int \<Rightarrow> string \<Rightarrow> gc_disc" where
  "disc_from_header header path format logical physical hash =
     (let title = to_valid_utf8 (string_of (trim_right [0, 32] (slice header 32 64))) ''?'';
          i = string_of (take 6 header)
      in \<lparr>dcID = i, dcTitle = (if title = '''' then i else title), dcRegion = disc_region (i ! 3),
          dcRevision = unat (header ! 7), dcNumber = unat (header ! 6), dcSourcePath = path,
          dcFormat = format, dcLogicalSize = logical, dcPhysicalSize = physical, dcSHA256 = hash,
          dcValidation = ''valid''\<rparr>)"

text \<open>The body of \<open>inspectImage\<close> once the file is open: which reader is used, and the checks.\<close>

definition disc_checks ::
  "(nat \<Rightarrow> int \<Rightarrow> 'w \<Rightarrow> ((byte list \<times> go_err option) \<times> 'w) option) \<Rightarrow> string \<Rightarrow> string \<Rightarrow> int \<Rightarrow> int \<Rightarrow> 'w \<Rightarrow>
   (go_err + gc_disc) \<times> 'w" where
  "disc_checks rd path format logical physical w =
     (let rd' = (\<lambda>n off w. case rd n off w of None \<Rightarrow> (([], Some (Msg ''read does not return'')), w) | Some r \<Rightarrow> r)
      in case read_and_validate_header rd' logical w of
           (Inl err, w1) \<Rightarrow> (Inl err, w1)
         | (Inr header, w1) \<Rightarrow>
             (case validate_fst rd' header logical w1 of
                (Some err, w2) \<Rightarrow> (Inl err, w2)
              | (None, w2) \<Rightarrow> (Inr (disc_from_header header path format logical physical ''''), w2)))"

definition inspect_opened :: "'w reader \<Rightarrow> string \<Rightarrow> string \<Rightarrow> int \<Rightarrow> 'w \<Rightarrow> (go_err + gc_disc) \<times> 'w" where
  "inspect_opened rd path ext physical w =
     (if ext = ''.ciso'' \<or> ext = ''.cso''
      then (case new_ciso_reader rd physical w of
              (Inl err, w1) \<Rightarrow> (Inl err, w1)
            | (Inr c, w1) \<Rightarrow> disc_checks (ciso_read_at rd c) path ''ciso'' (ciso_logical_size c) physical w1)
      else disc_checks (\<lambda>n off w. Some (rd n off w)) path
             (if take 1 ext = ''.'' then drop 1 ext else ext) physical physical w)"

definition inspect_image :: "(go_err + file_info) \<Rightarrow> (go_err + 'w reader) \<Rightarrow> string \<Rightarrow> string \<Rightarrow> 'w \<Rightarrow> (go_err + gc_disc) \<times> 'w" where
  "inspect_image info opened path ext w = (case info of
     Inl err \<Rightarrow> (Inl err, w)
   | Inr i \<Rightarrow>
       if \<not> fiRegular i then (Inl (Msg ''source is not a regular file''), w)
       else if fiSize i < header_size \<or> fiSize i > max_disc_size
       then (Inl (Msg ''impossible or truncated disc size''), w)
       else (case opened of Inl err \<Rightarrow> (Inl err, w) | Inr rd \<Rightarrow> inspect_opened rd path ext (fiSize i) w))"

section \<open>The expanded disc\<close>

definition ciso_byte :: "byte list \<Rightarrow> byte list \<Rightarrow> int \<Rightarrow> byte" where
  "ciso_byte m file pos =
     (if m ! nat (pos div ciso_block) = 0 then 0
      else file ! nat (ciso_header + physical_index m (nat (pos div ciso_block)) * ciso_block + pos mod ciso_block))"

lemma last_mapped_bound:
  assumes "int p < last_mapped m i"
  shows "p div 2097152 < i"
  using assms
proof (induction m i rule: last_mapped.induct)
  case (2 m i)
  then show ?case by (auto split: if_splits)
qed simp

lemma last_mapped_block: "last_mapped m i mod ciso_block = 0"
  by (induction m i rule: last_mapped.induct) auto

lemma last_mapped_nonneg: "0 \<le> last_mapped m i"
  by (induction m i rule: last_mapped.induct) auto

text \<open>A position in the disc has its block in the map, and the block ends inside the disc.\<close>

lemma ciso_position:
  assumes "0 \<le> pos" "pos < ciso_logical_size c"
  shows "nat (pos div ciso_block) < length (crMap c)" "pos + (ciso_block - pos mod ciso_block) \<le> ciso_logical_size c"
proof -
  have "nat pos div 2097152 < length (crMap c)"
    using last_mapped_bound [of "nat pos"] assms by (simp add: ciso_logical_size_def)
  then show "nat (pos div ciso_block) < length (crMap c)" using assms(1) by (simp add: nat_div_distrib)
  obtain k where k: "ciso_logical_size c = ciso_block * k"
    using last_mapped_block by (auto simp: ciso_logical_size_def mod_eq_0_iff_dvd dvd_def)
  define q r where "q = pos div ciso_block" and "r = pos mod ciso_block"
  have pos_eq: "pos = q * ciso_block + r" by (simp add: q_def r_def)
  have "q < k" using assms(2) k unfolding q_def by (simp add: div_less_iff_less_mult mult.commute)
  then show "pos + (ciso_block - pos mod ciso_block) \<le> ciso_logical_size c"
    using pos_eq unfolding k r_def [symmetric] by linarith
qed

lemma byte_range_zeros: "(\<And>i. i < n \<Longrightarrow> f (off + int i) = 0) \<Longrightarrow> zeros n = byte_range f off n"
  by (rule byte_range_eqI) auto

lemma block_of_offset:
  fixes pos :: int
  assumes "0 \<le> i" "i < ciso_block - pos mod ciso_block"
  shows "(pos + i) div ciso_block = pos div ciso_block" "(pos + i) mod ciso_block = pos mod ciso_block + i"
proof -
  have e: "pos + i = ciso_block * (pos div ciso_block) + (pos mod ciso_block + i)" by simp
  have "0 \<le> pos mod ciso_block + i" "pos mod ciso_block + i < ciso_block" using assms by simp_all
  then show "(pos + i) div ciso_block = pos div ciso_block" "(pos + i) mod ciso_block = pos mod ciso_block + i"
    using int_div_pos_eq [OF e] int_mod_pos_eq [OF e] by simp_all
qed

lemma ciso_step_sound:
  assumes rd: "honest_reader rd file" and pos: "0 \<le> pos" "pos < ciso_logical_size c" and n: "0 < n"
    and st: "ciso_step rd c pos n w = ((bs, e), w')"
  shows "length bs \<le> n \<and> pos + int (length bs) \<le> ciso_logical_size c \<and>
    bs = byte_range (ciso_byte (crMap c) file) pos (length bs) \<and> (e = None \<longrightarrow> bs \<noteq> [])"
proof -
  let ?m = "crMap c" and ?b = "nat (pos div ciso_block)" and ?in = "pos mod ciso_block"
  define len where "len = (if int n > ciso_block - ?in then nat (ciso_block - ?in) else n)"
  have inb: "0 \<le> ?in" "?in < ciso_block" by simp_all
  have len: "0 < len" "len \<le> n" "int len \<le> ciso_block - ?in" using n inb by (auto simp: len_def)
  note room = ciso_position(2) [OF pos]
  have blk: "(pos + int i) div ciso_block = pos div ciso_block" "(pos + int i) mod ciso_block = ?in + int i" if "i < len" for i
    using block_of_offset [of "int i" pos] that len(3) by simp_all
  show ?thesis
  proof (cases "?m ! ?b = 0")
    case True
    with st have "bs = zeros len" "e = None" by (simp_all add: ciso_step_def Let_def len_def)
    moreover have "zeros len = byte_range (ciso_byte ?m file) pos len"
      by (rule byte_range_zeros) (use True blk in \<open>simp add: ciso_byte_def\<close>)
    moreover have "zeros len \<noteq> []" using len(1) by simp
    ultimately show ?thesis using len room by simp
  next
    case False
    let ?at = "ciso_header + physical_index ?m ?b * ciso_block + ?in"
    have at: "0 \<le> ?at" using inb by (simp add: physical_index_def)
    have "rd len ?at w = ((bs, e), w')" using st False by (simp add: ciso_step_def Let_def len_def)
    with rd at have law: "length bs \<le> len" "bs = slice file (nat ?at) (length bs)" "e = None \<longrightarrow> length bs = len"
      unfolding honest_reader_def by blast+
    have fits: "nat ?at + length bs \<le> length file \<or> bs = []"
    proof -
      have "length bs \<le> length file - nat ?at" using arg_cong [OF law(2), of length] by (simp add: slice_def) (metis min.cobounded1)
      then show ?thesis by (cases bs) auto
    qed
    have "bs = byte_range (ciso_byte ?m file) pos (length bs)"
    proof (rule byte_range_eqI [OF refl])
      fix i assume i: "i < length bs"
      then have "i < len" using law(1) by simp
      note b = blk [OF this]
      have "bs ! i = file ! (nat ?at + i)"
        using i fits law(2) by (metis empty_iff list.set(1) list.size(3) not_less_zero nth_slice)
      also have "nat ?at + i = nat (ciso_header + physical_index ?m ?b * ciso_block + (pos + int i) mod ciso_block)"
      proof -
        have "nat ?at + i = nat (?at + int i)" using at by linarith
        then show ?thesis by (simp only: b(2) add.assoc)
      qed
      finally show "bs ! i = ciso_byte ?m file (pos + int i)" using False b(1) by (simp add: ciso_byte_def)
    qed
    with law len room show ?thesis by auto
  qed
qed

lemma ciso_loop_sound:
  assumes rd: "honest_reader rd file" and off: "0 \<le> off"
  shows "length acc \<le> len \<Longrightarrow> off + int (length acc) \<le> ciso_logical_size c \<Longrightarrow>
    acc = byte_range (ciso_byte (crMap c) file) off (length acc) \<Longrightarrow>
    \<exists>bs e w'. ciso_loop rd c off len acc w = Some ((bs, e), w') \<and> length bs \<le> len \<and>
      bs = byte_range (ciso_byte (crMap c) file) off (length bs) \<and> off + int (length bs) \<le> ciso_logical_size c \<and>
      (e = None \<longrightarrow> length bs = len)"
proof (induction "len - length acc" arbitrary: acc w rule: less_induct)
  case less
  show ?case
  proof (cases "length acc < len \<and> off + int (length acc) < ciso_logical_size c")
    case False
    with less.prems show ?thesis by (subst ciso_loop.simps) auto
  next
    case True
    let ?pos = "off + int (length acc)"
    obtain bs e w1 where st: "ciso_step rd c ?pos (len - length acc) w = ((bs, e), w1)" by (metis prod.exhaust)
    have "0 \<le> ?pos" "?pos < ciso_logical_size c" "0 < len - length acc" using True off by simp_all
    note s = ciso_step_sound [OF rd this st]
    have acc': "acc @ bs = byte_range (ciso_byte (crMap c) file) off (length (acc @ bs))"
      using s less.prems(3) by (metis byte_range_append length_append)
    have bnd: "length (acc @ bs) \<le> len" "off + int (length (acc @ bs)) \<le> ciso_logical_size c" using s True by auto
    show ?thesis
    proof (cases e)
      case (Some err)
      with True st acc' bnd show ?thesis by (subst ciso_loop.simps) auto
    next
      case None
      then have "len - length (acc @ bs) < len - length acc" using s True by (cases bs) auto
      note rest = less.hyps [OF this bnd acc', of w1]
      have "ciso_loop rd c off len acc w = ciso_loop rd c off len (acc @ bs) w1"
        using True st None by (subst ciso_loop.simps) simp
      with rest show ?thesis by (simp only:)
    qed
  qed
qed

lemma ciso_read_sound:
  assumes "honest_reader rd file"
  shows "\<exists>bs e w'. ciso_read_at rd c len off w = Some ((bs, e), w') \<and> length bs \<le> len \<and>
    bs = byte_range (ciso_byte (crMap c) file) off (length bs) \<and>
    (e = None \<longrightarrow> length bs = len \<and> 0 \<le> off \<and> off + int len \<le> ciso_logical_size c)"
proof (cases "off < 0 \<or> off \<ge> ciso_logical_size c")
  case True
  then show ?thesis by (simp add: ciso_read_at_def)
next
  case False
  from ciso_loop_sound [OF assms, of off "[]" len c w] False show ?thesis
    by (fastforce simp: ciso_read_at_def)
qed

text \<open>A CISO file that \<open>newCISOReader\<close> accepts holds every mapped block.\<close>

lemma physical_index_less:
  assumes "b < length m" "m ! b \<noteq> 0"
  shows "physical_index m b + 1 \<le> int (length (filter (\<lambda>b. b \<noteq> 0) m))"
proof -
  have "m = take b m @ m ! b # drop (Suc b) m" using assms(1) by (simp add: id_take_nth_drop)
  from arg_cong [OF this, of "\<lambda>xs. length (filter (\<lambda>b. b \<noteq> 0) xs)"]
  have "length (filter (\<lambda>b. b \<noteq> 0) m) =
      length (filter (\<lambda>b. b \<noteq> 0) (take b m)) + Suc (length (filter (\<lambda>b. b \<noteq> 0) (drop (Suc b) m)))"
    using assms(2) by simp
  then show ?thesis by (simp add: physical_index_def)
qed

lemma new_ciso_readerD:
  assumes "new_ciso_reader rd sz w = (Inr c, w')" "honest_reader rd file"
  shows "length (crMap c) = 1024" "crSize c = sz" "0 < ciso_logical_size c"
    "ciso_header + int (length (filter (\<lambda>b. b \<noteq> 0) (crMap c))) * ciso_block \<le> sz"
proof -
  obtain header w1 where rd: "rd (nat ciso_header) 0 w = ((header, None), w1)"
    using assms(1) by (auto simp: new_ciso_reader_def split: prod.splits option.splits)
  then have "length header = 32768" using assms(2) by (fastforce simp: honest_reader_def)
  moreover have c: "crMap c = slice header 8 1024" "crSize c = sz"
    "filter (\<lambda>b. b \<noteq> 0) (crMap c) \<noteq> []"
    "ciso_header + int (length (filter (\<lambda>b. b \<noteq> 0) (crMap c))) * ciso_block \<le> sz"
    using assms(1) rd by (auto simp: new_ciso_reader_def Let_def split: if_splits)
  ultimately show len: "length (crMap c) = 1024" "crSize c = sz"
    "ciso_header + int (length (filter (\<lambda>b. b \<noteq> 0) (crMap c))) * ciso_block \<le> sz" by simp_all
  obtain i where i: "i < length (crMap c)" "crMap c ! i \<noteq> 0"
    using c(3) by (auto simp: filter_empty_conv in_set_conv_nth)
  have "i < n \<Longrightarrow> crMap c ! i \<noteq> 0 \<Longrightarrow> 0 < last_mapped (crMap c) n" for n
    by (induction n) (auto simp: less_Suc_eq)
  with i show "0 < ciso_logical_size c" by (simp add: ciso_logical_size_def)
qed

lemma ciso_step_steady:
  assumes "steady_reader rd file" "0 \<le> pos" "pos < ciso_logical_size c"
    and "ciso_header + int (length (filter (\<lambda>b. b \<noteq> 0) (crMap c))) * ciso_block \<le> int (length file)"
  shows "snd (fst (ciso_step rd c pos n w)) = None"
proof (cases "crMap c ! nat (pos div ciso_block) = 0")
  case True
  then show ?thesis by (simp add: ciso_step_def Let_def)
next
  case False
  let ?b = "nat (pos div ciso_block)" and ?in = "pos mod ciso_block"
  define len where "len = (if int n > ciso_block - ?in then nat (ciso_block - ?in) else n)"
  have inb: "0 \<le> ?in" "?in < ciso_block" by simp_all
  then have len: "int len + ?in \<le> ciso_block" by (auto simp: len_def)
  have idx: "physical_index (crMap c) ?b + 1 \<le> int (length (filter (\<lambda>b. b \<noteq> 0) (crMap c)))"
    by (rule physical_index_less [OF ciso_position(1) [OF assms(2,3)] False])
  define at where "at = ciso_header + physical_index (crMap c) ?b * ciso_block + ?in"
  have at: "0 \<le> at" using inb by (simp add: physical_index_def at_def)
  have "(physical_index (crMap c) ?b + 1) * ciso_block \<le>
      int (length (filter (\<lambda>b. b \<noteq> 0) (crMap c))) * ciso_block" by (rule mult_right_mono [OF idx]) simp
  then have "physical_index (crMap c) ?b * ciso_block + ciso_block \<le>
      int (length (filter (\<lambda>b. b \<noteq> 0) (crMap c))) * ciso_block" by (simp add: distrib_right)
  with len assms(4) have "at + int len \<le> int (length file)" unfolding at_def by simp
  with at have "nat at + len \<le> length file" by linarith
  with assms(1) at have "snd (fst (rd len at w)) = None" by (auto simp: steady_reader_def)
  with False show ?thesis by (simp add: ciso_step_def Let_def len_def at_def)
qed

lemma ciso_loop_steady:
  assumes rd: "steady_reader rd file" and off: "0 \<le> off" "off + int len \<le> ciso_logical_size c"
    and held: "ciso_header + int (length (filter (\<lambda>b. b \<noteq> 0) (crMap c))) * ciso_block \<le> int (length file)"
  shows "length acc \<le> len \<Longrightarrow> \<exists>bs w'. ciso_loop rd c off len acc w = Some ((bs, None), w')"
proof (induction "len - length acc" arbitrary: acc w rule: less_induct)
  case less
  have honest: "honest_reader rd file" using rd by (simp add: steady_reader_def)
  show ?case
  proof (cases "length acc < len")
    case False
    with less.prems show ?thesis by (subst ciso_loop.simps) simp
  next
    case True
    let ?pos = "off + int (length acc)"
    have pos: "0 \<le> ?pos" "?pos < ciso_logical_size c" "0 < len - length acc" using True off by simp_all
    obtain bs w1 where st: "ciso_step rd c ?pos (len - length acc) w = ((bs, None), w1)"
      using ciso_step_steady [OF rd pos(1,2) held, of "len - length acc" w] by (metis prod.collapse)
    note s = ciso_step_sound [OF honest pos st]
    have b: "length bs \<le> len - length acc" "bs \<noteq> []" using s by blast+
    then have "len - length (acc @ bs) < len - length acc" "length (acc @ bs) \<le> len"
      using True by (cases bs, simp, simp)+
    note rest = less.hyps [OF this, of w1]
    have "ciso_loop rd c off len acc w = ciso_loop rd c off len (acc @ bs) w1"
      using True pos(2) st by (subst ciso_loop.simps) simp
    with rest show ?thesis by (simp only:)
  qed
qed

section \<open>Accepted discs\<close>

definition disc_ok :: "gc_disc \<Rightarrow> bool" where
  "disc_ok d \<longleftrightarrow> valid_id (dcID d) \<and> dcTitle d \<noteq> '''' \<and> dcRegion d = disc_region (dcID d ! 3) \<and>
     dcRevision d < 256 \<and> dcNumber d \<le> 1 \<and> header_size \<le> dcLogicalSize d \<and> dcLogicalSize d \<le> max_disc_size \<and>
     dcValidation d = ''valid''"

lemma disc_from_header_ok:
  assumes "validate_header header = Inr i" "header_size \<le> logical" "logical \<le> max_disc_size"
  shows "disc_ok (disc_from_header header path format logical physical hash)"
proof -
  have v: "valid_id (string_of (take 6 header))" "unat (header ! 6) \<le> 1"
    using assms(1) by (auto simp: validate_header_def Let_def split: if_splits)
  then have "string_of (take 6 header) \<noteq> ''''" by (auto simp: valid_id_def)
  with v assms(2,3) show ?thesis
    using unsigned_less [where ?'b = 8 and w = "header ! 7" and ?'a = nat] by (simp add: disc_ok_def disc_from_header_def Let_def)
qed

lemma disc_checks_ok:
  assumes "disc_checks rd path format logical physical w = (Inr d, w')"
  shows "disc_ok d \<and> dcSourcePath d = path \<and> dcFormat d = format \<and> dcLogicalSize d = logical \<and> dcPhysicalSize d = physical"
proof -
  define rd' where "rd' = (\<lambda>n off w. case rd n off w of None \<Rightarrow> (([], Some (Msg ''read does not return'')), w) | Some r \<Rightarrow> r)"
  obtain header w1 where h: "read_and_validate_header rd' logical w = (Inr header, w1)"
    using assms unfolding disc_checks_def Let_def rd'_def [symmetric] by (auto split: prod.splits sum.splits)
  then have d: "d = disc_from_header header path format logical physical ''''"
    using assms unfolding disc_checks_def Let_def rd'_def [symmetric] by (auto split: prod.splits option.splits)
  from h obtain i where "validate_header header = Inr i" "header_size \<le> logical" "logical \<le> max_disc_size"
    by (auto simp: read_and_validate_header_def split: prod.splits option.splits sum.splits if_splits)
  from disc_from_header_ok [OF this, of path format physical "''''"] d show ?thesis
    by (simp add: disc_from_header_def Let_def)
qed

lemma inspect_image_disc:
  assumes "inspect_image info opened path ext w = (Inr d, w')"
  shows "disc_ok d \<and> dcSourcePath d = path"
  using assms by (auto simp: inspect_image_def inspect_opened_def split: sum.splits if_splits prod.splits dest: disc_checks_ok)

section \<open>Properties\<close>

text \<open>
  C32.  Reading a CISO file that \<open>newCISOReader\<close> accepted gives the expanded disc: whatever the
  file reader does, \<open>ReadAt\<close> returns, and what it returns is a prefix of the range, all of it
  when it reports no error.  When the file reader does not fail, a read that starts and ends
  inside the disc is complete.
\<close>

theorem ciso_read_refines:
  assumes "new_ciso_reader rd physical w0 = (Inr c, w1)" "honest_reader rd file"
  shows "(\<exists>bs e w'. ciso_read_at rd c len off w = Some ((bs, e), w') \<and> length bs \<le> len \<and>
      bs = byte_range (ciso_byte (crMap c) file) off (length bs) \<and>
      (e = None \<longrightarrow> length bs = len \<and> 0 \<le> off \<and> off + int len \<le> ciso_logical_size c)) \<and>
    (steady_reader rd file \<and> physical \<le> int (length file) \<and> 0 \<le> off \<and> off < ciso_logical_size c \<and>
      off + int len \<le> ciso_logical_size c \<longrightarrow>
      (\<exists>w'. ciso_read_at rd c len off w = Some ((byte_range (ciso_byte (crMap c) file) off len, None), w')))"
proof (intro conjI impI)
  note sound = ciso_read_sound [OF assms(2), of c len off w]
  from sound show "\<exists>bs e w'. ciso_read_at rd c len off w = Some ((bs, e), w') \<and> length bs \<le> len \<and>
      bs = byte_range (ciso_byte (crMap c) file) off (length bs) \<and>
      (e = None \<longrightarrow> length bs = len \<and> 0 \<le> off \<and> off + int len \<le> ciso_logical_size c)" .
  assume a: "steady_reader rd file \<and> physical \<le> int (length file) \<and> 0 \<le> off \<and> off < ciso_logical_size c \<and>
      off + int len \<le> ciso_logical_size c"
  have "ciso_header + int (length (filter (\<lambda>b. b \<noteq> 0) (crMap c))) * ciso_block \<le> int (length file)"
    using new_ciso_readerD(4) [OF assms] a by linarith
  from ciso_loop_steady [OF _ _ _ this, of rd off len "[]" w] a obtain bs w' where
    "ciso_read_at rd c len off w = Some ((bs, None), w')" by (auto simp: ciso_read_at_def)
  with sound show "\<exists>w'. ciso_read_at rd c len off w = Some ((byte_range (ciso_byte (crMap c) file) off len, None), w')"
    by auto
qed

text \<open>A CISO file with its second block present, and its reader.\<close>

definition tiny_ciso :: "byte list" where
  "tiny_ciso = bytes_of ''CISO'' @ le_bytes 4 (nat ciso_block) @ [0, 1] @ zeros 32758 @ replicate (nat ciso_block) 7"

definition list_reader :: "byte list \<Rightarrow> unit reader" where
  "list_reader file n off w =
     (let bs = take n (drop (nat off) file) in ((bs, if length bs = n then None else Some EOF), w))"

lemma list_reader_steady: "steady_reader (list_reader file) file"
proof -
  have "take n (drop k c) = take (min (length c - k) n) (drop k c)" for n k and c :: "byte list"
    by (metis length_drop min.commute take_all_iff take_take nle_le min_def)
  then show ?thesis by (auto simp: steady_reader_def honest_reader_def list_reader_def Let_def slice_def)
qed

lemma list_reader_honest: "honest_reader (list_reader file) file"
  using list_reader_steady by (simp add: steady_reader_def)

lemma tiny_ciso_reader:
  "new_ciso_reader (list_reader tiny_ciso) 2129920 () = (Inr \<lparr>crMap = [0, 1] @ zeros 1022, crSize = 2129920\<rparr>, ())"
proof -
  have "take 32768 tiny_ciso = bytes_of ''CISO'' @ le_bytes 4 2097152 @ [0, 1] @ zeros 32758"
    by (simp add: tiny_ciso_def)
  moreover have "slice (bytes_of ''CISO'' @ le_bytes 4 2097152 @ [0, 1] @ zeros 32758) 8 1024 = [0, 1] @ zeros 1022"
    by (simp add: slice_def take_Cons' min_def)
  moreover have "get_le (bytes_of ''CISO'' @ le_bytes 4 2097152 @ [0, 1] @ zeros 32758) 4 4 = 2097152"
    by (simp add: get_le_def slice_def le_val_le_bytes)
  ultimately show ?thesis
    by (simp add: new_ciso_reader_def list_reader_def Let_def)
qed

theorem ciso_read_refines_witness:
  "\<exists>bs e w'. ciso_read_at (list_reader tiny_ciso) \<lparr>crMap = [0, 1] @ zeros 1022, crSize = 2129920\<rparr> 16 2097144 () =
       Some ((bs, e), w') \<and>
     bs = byte_range (ciso_byte ([0, 1] @ zeros 1022) tiny_ciso) 2097144 (length bs)"
  using ciso_read_refines [OF tiny_ciso_reader list_reader_honest, of 16 2097144 "()"] by auto

text \<open>
  Every disc that \<open>inspectImage\<close> accepts is well formed: a six-character ID of capitals
  and digits, a title, the region of its ID, a disc number 0 or 1, and a logical size between
  that of the header and 2 GiB.
\<close>

lemma inspected_disc_ok:
  assumes "inspect_image info opened path ext w = (Inr d, w')"
  shows "disc_ok d \<and> dcSourcePath d = path"
  by (rule inspect_image_disc [OF assms])

definition tiny_disc :: "byte list" where
  "tiny_disc = bytes_of ''GALE01'' @ [0, 2] @ zeros 20 @ be_bytes 4 gamecube_magic @ bytes_of ''Demo'' @ zeros 1024 @
     be_bytes 4 1088 @ be_bytes 4 12 @ zeros 20 @ [1] @ zeros 7 @ be_bytes 4 1"

lemma string_of_bytes_of: "string_of (bytes_of s) = s"
proof -
  have "unat (of_char c :: byte) = of_char c" for c
  proof -
    have e: "(of_char c :: byte) = of_nat (of_char c)" by (rule of_nat_of_char [symmetric])
    have "unat (of_char c :: byte) = of_char c mod 256"
      by (subst e, subst unsigned_of_nat) (simp add: take_bit_eq_mod)
    then show ?thesis by simp
  qed
  then show ?thesis by (simp add: string_of_def bytes_of_def comp_def)
qed

definition tiny_header :: "byte list" where
  "tiny_header = bytes_of ''GALE01'' @ [0, 2] @ zeros 20 @ be_bytes 4 gamecube_magic @ bytes_of ''Demo'' @ zeros 1024 @
     be_bytes 4 1088 @ be_bytes 4 12 @ zeros 20"

lemma tiny_header_valid: "validate_header tiny_header = Inr ''GALE01''"
proof -
  have i: "string_of (take 6 tiny_header) = ''GALE01''"
  proof -
    have "take 6 tiny_header = bytes_of ''GALE01''" by (simp add: tiny_header_def)
    then show ?thesis by (simp add: string_of_bytes_of)
  qed
  have m: "get_be tiny_header 28 4 = gamecube_magic"
    by (simp add: tiny_header_def get_be_def slice_def be_val_be_bytes)
  have "tiny_header ! 6 = 0" "length tiny_header = 1088" by (simp_all add: tiny_header_def nth_append)
  with i m show ?thesis
    by (simp add: validate_header_def valid_id_def is_upper_def is_digit_def code_of_def)
qed

lemma tiny_disc_inspected:
  "\<exists>d. inspect_image (Inr \<lparr>fiRegular = True, fiIsDir = False, fiSymlink = False, fiSize = 1100, fiModNano = 0, fiSys = None\<rparr>)
     (Inr (list_reader tiny_disc)) ''/g/a.iso'' ''.iso'' () = (Inr d, ())"
proof -
  let ?rd = "list_reader tiny_disc"
  have "take 1088 tiny_disc = tiny_header" "length tiny_disc = 1100" "length tiny_header = 1088" by (simp_all add: tiny_disc_def tiny_header_def)
  then have r1: "list_reader tiny_disc 1088 0 () = ((tiny_header, None), ())" by (simp add: list_reader_def Let_def)
  have "take 12 (drop 1088 tiny_disc) = [1] @ zeros 7 @ be_bytes 4 1" by (simp add: tiny_disc_def)
  then have r2: "list_reader tiny_disc 12 1088 () = (([1] @ zeros 7 @ be_bytes 4 1, None), ())"
    by (simp add: list_reader_def Let_def)
  have f: "get_be tiny_header 1060 4 = 1088" "get_be tiny_header 1064 4 = 12"
    by (simp_all add: tiny_header_def get_be_def slice_def be_val_be_bytes)
  have cnt: "get_be ([1] @ zeros 7 @ be_bytes 4 1) 8 4 = 1"
    by (simp add: get_be_def slice_def be_val_be_bytes)
  have 1: "read_and_validate_header ?rd 1100 () = (Inr tiny_header, ())"
    using r1 by (simp add: read_and_validate_header_def tiny_header_valid)
  have 2: "validate_fst ?rd tiny_header 1100 () = (None, ())"
    using r2 cnt by (simp add: validate_fst_def f Let_def)
  have dc: "disc_checks (\<lambda>n off w. Some (list_reader tiny_disc n off w)) ''/g/a.iso'' ''iso'' 1100 1100 () =
      (Inr (disc_from_header tiny_header ''/g/a.iso'' ''iso'' 1100 1100 ''''), ())"
    unfolding disc_checks_def Let_def option.case by (simp only: 1 2 prod.case sum.case option.case)
  have ext: "''.iso'' \<noteq> ''.ciso''" "''.iso'' \<noteq> ''.cso''" "take 1 ''.iso'' = ''.''" "drop 1 ''.iso'' = ''iso''" by simp_all
  have "inspect_opened (list_reader tiny_disc) ''/g/a.iso'' ''.iso'' 1100 () =
      (Inr (disc_from_header tiny_header ''/g/a.iso'' ''iso'' 1100 1100 ''''), ())"
    by (simp only: inspect_opened_def ext if_True if_False simp_thms dc)
  moreover have "\<not> (1100 < header_size \<or> 1100 > max_disc_size)" by simp
  ultimately have "inspect_image (Inr \<lparr>fiRegular = True, fiIsDir = False, fiSymlink = False, fiSize = 1100, fiModNano = 0, fiSys = None\<rparr>)
      (Inr (list_reader tiny_disc)) ''/g/a.iso'' ''.iso'' () =
    (Inr (disc_from_header tiny_header ''/g/a.iso'' ''iso'' 1100 1100 ''''), ())"
    by (simp only: inspect_image_def sum.case file_info.simps if_False simp_thms not_True_eq_False)
  then show ?thesis by blast
qed

lemma inspected_disc_exists:
  "\<exists>d. disc_ok d \<and> dcSourcePath d = ''/g/a.iso''"
proof -
  obtain d where d: "inspect_image (Inr \<lparr>fiRegular = True, fiIsDir = False, fiSymlink = False, fiSize = 1100, fiModNano = 0, fiSys = None\<rparr>)
     (Inr (list_reader tiny_disc)) ''/g/a.iso'' ''.iso'' () = (Inr d, ())" using tiny_disc_inspected by (rule exE)
  note inspected_disc_ok [OF d]
  then show ?thesis by (rule exI [of _ d])
qed

end
