(* ===== verification/Gc_Pair.thy ===== *)
theory Gc_Pair
  imports Gc_Disc "HOL-Library.Multiset" "HOL-Library.Product_Lexorder"
begin

text \<open>
  \<open>pair\<close> of \<open>gamecube/scanner.go\<close>: the discs of a scan become games, one for each ID and
  revision with a first disc and no disc number twice.  The discs are grouped in the sorted
  order, so the groups and their discs come out in it.
\<close>

section \<open>Grouping\<close>

record gc_game =
  ggID :: string
  ggTitle :: string
  ggRegion :: string
  ggRevision :: nat
  ggDiscCount :: nat
  ggFormat :: string
  ggValidation :: string
  ggDiscs :: "gc_disc list"
  ggAvailability :: string

record rejection =
  rjPath :: string
  rjReason :: string

definition disc_order :: "gc_disc \<Rightarrow> string \<times> nat \<times> nat \<times> string" where
  "disc_order d = (dcID d, dcRevision d, dcNumber d, dcSourcePath d)"

definition disc_key :: "gc_disc \<Rightarrow> string \<times> nat" where
  "disc_key d = (dcID d, dcRevision d)"

text \<open>The loop over one group: the first disc of each number, the duplicates, and \<open>valid\<close>.\<close>

fun by_number ::
  "gc_disc list \<Rightarrow> (nat \<times> gc_disc) list \<Rightarrow> rejection list \<Rightarrow> bool \<Rightarrow> (nat \<times> gc_disc) list \<times> rejection list \<times> bool" where
  "by_number [] found rejected valid = (found, rejected, valid)"
| "by_number (d # ds) found rejected valid =
     (case map_of found (dcNumber d) of
        Some previous \<Rightarrow>
          by_number ds found (rejected @ [\<lparr>rjPath = dcSourcePath d,
            rjReason = ''duplicate disc number also at '' @ dcSourcePath previous\<rparr>]) False
      | None \<Rightarrow> by_number ds ((dcNumber d, d) # found) rejected valid)"

definition game_of :: "gc_disc \<Rightarrow> gc_disc list \<Rightarrow> gc_game" where
  "game_of first ordered = \<lparr>ggID = dcID first, ggTitle = dcTitle first, ggRegion = dcRegion first,
     ggRevision = dcRevision first, ggDiscCount = length ordered,
     ggFormat = (if length ordered = 2 \<and> dcFormat (ordered ! 1) \<noteq> dcFormat first then ''mixed'' else dcFormat first),
     ggValidation = ''valid'', ggDiscs = ordered, ggAvailability = ''''\<rparr>"

definition pair_group :: "gc_disc list \<Rightarrow> gc_game list \<times> rejection list" where
  "pair_group ds = (case by_number ds [] [] True of (found, rejected, valid) \<Rightarrow>
     (case map_of found 0 of
        None \<Rightarrow> ([], rejected @ map (\<lambda>d. \<lparr>rjPath = dcSourcePath d, rjReason = ''disc two has no matching disc one''\<rparr>) ds)
      | Some first \<Rightarrow>
          if \<not> valid then ([], rejected)
          else (case map_of found 1 of
                  None \<Rightarrow> ([game_of first [first]], rejected)
                | Some second \<Rightarrow>
                    if dcID second \<noteq> dcID first \<or> dcRegion second \<noteq> dcRegion first \<or> dcRevision second \<noteq> dcRevision first
                    then ([], rejected @ [\<lparr>rjPath = dcSourcePath second, rjReason = ''disc two metadata mismatch''\<rparr>])
                    else ([game_of first [first, second]], rejected))))"

definition pair_discs :: "gc_disc list \<Rightarrow> gc_game list \<times> rejection list" where
  "pair_discs discs0 =
     (let discs = sort_slice disc_order discs0;
          keys = sort_slice id (remdups (map disc_key discs));
          results = map (\<lambda>k. pair_group (filter (\<lambda>d. disc_key d = k) discs)) keys
      in (concat (map fst results), concat (map snd results)))"

section \<open>One group\<close>

lemma by_number_valid:
  "by_number ds found rejected valid = (f, r, v) \<Longrightarrow> distinct (map fst found) \<Longrightarrow>
   (v \<longleftrightarrow> valid \<and> distinct (map dcNumber ds) \<and> set (map dcNumber ds) \<inter> set (map fst found) = {}) \<and>
   (v \<longrightarrow> map_of f n = (case map_of found n of Some d \<Rightarrow> Some d | None \<Rightarrow> find (\<lambda>d. dcNumber d = n) ds))"
proof (induction ds found rejected valid rule: by_number.induct)
  case (2 d ds found rejected valid)
  show ?case
  proof (cases "map_of found (dcNumber d)")
    case None
    then have new: "dcNumber d \<notin> set (map fst found)" by (simp add: map_of_eq_None_iff)
    with "2.IH"(1) [OF None] "2.prems" None show ?thesis by (auto split: option.splits)
  next
    case (Some p)
    then have "dcNumber d \<in> set (map fst found)" by (force dest: map_of_SomeD)
    with "2.IH"(2) [OF Some] "2.prems" Some show ?thesis by auto
  qed
qed (auto split: option.split)

definition game_ok :: "gc_game \<Rightarrow> bool" where
  "game_ok g \<longleftrightarrow> list_all disc_ok (ggDiscs g) \<and> map dcNumber (ggDiscs g) \<in> {[0], [0, 1]} \<and>
     list_all (\<lambda>d. disc_key d = (ggID g, ggRevision g) \<and> dcRegion d = ggRegion g) (ggDiscs g) \<and>
     valid_id (ggID g) \<and> ggTitle g \<noteq> '''' \<and> ggDiscCount g = length (ggDiscs g)"

text \<open>A group of valid discs of one key is a game exactly if it has a first disc and no number twice.\<close>

lemma find_number:
  "distinct (map dcNumber ds) \<Longrightarrow> find (\<lambda>d. dcNumber d = n) ds = Some d \<longleftrightarrow> d \<in> set ds \<and> dcNumber d = n"
  by (induction ds) auto

lemma group_discs:
  assumes "distinct (map dcNumber ds)" "list_all disc_ok ds" "find (\<lambda>d. dcNumber d = 0) ds = Some first"
  shows "set ds = set (first # (case find (\<lambda>d. dcNumber d = 1) ds of None \<Rightarrow> [] | Some second \<Rightarrow> [second]))"
proof -
  have "dcNumber d = 0 \<or> dcNumber d = 1" if "d \<in> set ds" for d
    using assms(2) that by (auto simp: list_all_iff disc_ok_def le_Suc_eq)
  then show ?thesis
    using find_number [OF assms(1), of 0] find_number [OF assms(1), of 1] assms(3)
    by (auto split: option.split simp: find_None_iff) metis+
qed

lemma pair_group_game:
  assumes "list_all disc_ok ds" "list_all (\<lambda>d. disc_key d = k) ds"
  shows "(fst (pair_group ds) = [] \<or> (\<exists>g. fst (pair_group ds) = [g] \<and> game_ok g \<and> (ggID g, ggRevision g) = k \<and> set (ggDiscs g) = set ds)) \<and>
    (fst (pair_group ds) \<noteq> [] \<longleftrightarrow> distinct (map dcNumber ds) \<and> 0 \<in> set (map dcNumber ds))"
proof -
  obtain f r v where b: "by_number ds [] [] True = (f, r, v)" by (metis prod.exhaust)
  note valid = by_number_valid [OF b]
  have v: "v \<longleftrightarrow> distinct (map dcNumber ds)" using valid by simp
  show ?thesis
  proof (cases v)
    case False
    with b v show ?thesis by (auto simp: pair_group_def split: option.split)
  next
    case True
    have f: "map_of f n = find (\<lambda>d. dcNumber d = n) ds" for n using valid [of n] True by simp
    show ?thesis
    proof (cases "find (\<lambda>d. dcNumber d = 0) ds")
      case None
      then have "0 \<notin> set (map dcNumber ds)" by (auto simp: find_None_iff)
      with b f None True show ?thesis by (simp add: pair_group_def)
    next
      case (Some first)
      have dist: "distinct (map dcNumber ds)" using v True by simp
      note in1 = find_number [OF dist, THEN iffD1]
      have first: "first \<in> set ds" "dcNumber first = 0" using in1 [OF Some] by simp_all
      have same: "dcID d = fst k \<and> dcRevision d = snd k \<and> dcRegion d = disc_region (fst k ! 3) \<and> disc_ok d" if "d \<in> set ds" for d
        using assms that by (auto simp: list_all_iff disc_key_def disc_ok_def)
      note all = group_discs [OF dist assms(1) Some]
      have zero: "0 \<in> set (map dcNumber ds)" using first by force
      show ?thesis
      proof (cases "find (\<lambda>d. dcNumber d = 1) ds")
        case None
        then have g: "fst (pair_group ds) = [game_of first [first]]" using b f Some True by (simp add: pair_group_def)
        have "set ds = {first}" using all None by simp
        with g first same [OF first(1)] dist zero show ?thesis
          by (auto simp: game_of_def game_ok_def disc_key_def disc_ok_def)
      next
        case (Some second)
        have second: "second \<in> set ds" "dcNumber second = 1" using in1 [OF Some] by simp_all
        have g: "fst (pair_group ds) = [game_of first [first, second]]"
          using b f Some \<open>find (\<lambda>d. dcNumber d = 0) ds = Some first\<close> True same [OF first(1)] same [OF second(1)]
          by (simp add: pair_group_def)
        have "set ds = {first, second}" using all Some by simp
        with g first second same [OF first(1)] same [OF second(1)] dist zero show ?thesis
          by (auto simp: game_of_def game_ok_def disc_key_def disc_ok_def)
      qed
    qed
  qed
qed

section \<open>All groups\<close>

definition group_of :: "gc_disc list \<Rightarrow> string \<times> nat \<Rightarrow> gc_disc list" where
  "group_of discs k = filter (\<lambda>d. disc_key d = k) discs"

definition complete_group :: "gc_disc list \<Rightarrow> bool" where
  "complete_group ds \<longleftrightarrow> distinct (map dcNumber ds) \<and> 0 \<in> set (map dcNumber ds)"

lemma complete_group_mset: "mset xs = mset ys \<Longrightarrow> complete_group xs = complete_group ys"
  unfolding complete_group_def by (metis mset_eq_imp_distinct_iff mset_eq_setD mset_map)

lemma games_sorted:
  assumes "sorted_wrt (<) (ks :: 'k :: linorder list)" "\<And>k g. k \<in> set ks \<Longrightarrow> g \<in> set (f k) \<Longrightarrow> key g = k"
    "\<And>k. k \<in> set ks \<Longrightarrow> length (f k) \<le> 1"
  shows "sorted_wrt (<) (map key (concat (map f ks)))"
  using assms
proof (induction ks)
  case (Cons k ks)
  have rest: "sorted_wrt (<) (map key (concat (map f ks)))" using Cons by simp
  have later: "k < x" if "x \<in> set (map key (concat (map f ks)))" for x
    using that Cons.prems(1,2) by fastforce
  consider "f k = []" | g where "f k = [g]" "key g = k"
    using Cons.prems(2,3) [of k] by (cases "f k") auto
  then show ?case by cases (use rest later in auto)
qed simp

lemma pair_discs_ok:
  assumes "list_all disc_ok discs" "pair_discs discs = (games, rejected)"
  shows "list_all game_ok games" "sorted_wrt (<) (map (\<lambda>g. (ggID g, ggRevision g)) games)"
    "g \<in> set games \<Longrightarrow> set (ggDiscs g) = set (group_of discs (ggID g, ggRevision g))"
    "d \<in> set discs \<Longrightarrow> (\<exists>g \<in> set games. d \<in> set (ggDiscs g)) \<longleftrightarrow> complete_group (group_of discs (disc_key d))"
proof -
  define ds where "ds = sort_slice disc_order discs"
  define keys where "keys = sort_slice id (remdups (map disc_key ds))"
  have m: "mset ds = mset discs" by (simp add: ds_def sort_slice_def)
  have games: "games = concat (map (\<lambda>k. fst (pair_group (group_of ds k))) keys)"
    using assms(2) by (simp add: pair_discs_def Let_def ds_def keys_def group_of_def comp_def)
  have "sorted keys" "distinct keys" unfolding keys_def using sorted_sort_slice [of id] by (simp_all add: sort_slice_def)
  then have keys: "sorted_wrt (<) keys" by (simp add: strict_sorted_iff)
  have key_set: "set keys = disc_key ` set discs" using mset_eq_setD [OF m] by (simp add: keys_def)
  have grp: "mset (group_of ds k) = mset (group_of discs k)" for k by (simp add: group_of_def mset_filter m)
  have ok: "list_all disc_ok (group_of ds k)" "list_all (\<lambda>d. disc_key d = k) (group_of ds k)" for k
    using assms(1) mset_eq_setD [OF m] by (auto simp: group_of_def list_all_iff)
  note one = pair_group_game [OF ok]
  have key: "(ggID g, ggRevision g) = k \<and> game_ok g \<and> set (ggDiscs g) = set (group_of discs k)"
    if g: "g \<in> set (fst (pair_group (group_of ds k)))" for g k
  proof -
    from g have "fst (pair_group (group_of ds k)) \<noteq> []" by force
    with conjunct1 [OF one [of k]] obtain g' where g': "fst (pair_group (group_of ds k)) = [g']"
      "game_ok g'" "(ggID g', ggRevision g') = k" "set (ggDiscs g') = set (group_of ds k)" by blast
    from g g'(1) have "g' = g" by simp
    with g'(2-4) mset_eq_setD [OF grp, of k] show ?thesis by simp
  qed
  show "list_all game_ok games" using key by (auto simp: games list_all_iff)
  show "sorted_wrt (<) (map (\<lambda>g. (ggID g, ggRevision g)) games)" unfolding games
  proof (rule games_sorted [OF keys])
    show "length (fst (pair_group (group_of ds k))) \<le> 1" for k using one [of k] by auto
  qed (use key in blast)
  show "set (ggDiscs g) = set (group_of discs (ggID g, ggRevision g))" if "g \<in> set games"
    using that key by (fastforce simp: games)
  assume d: "d \<in> set discs"
  have full: "fst (pair_group (group_of ds k)) \<noteq> [] \<longleftrightarrow> complete_group (group_of discs k)" for k
    using one [of k] complete_group_mset [OF grp, of k] by (simp add: complete_group_def)
  have mem: "d \<in> set (group_of discs k) \<longleftrightarrow> k = disc_key d" for k using d by (auto simp: group_of_def)
  show "(\<exists>g \<in> set games. d \<in> set (ggDiscs g)) \<longleftrightarrow> complete_group (group_of discs (disc_key d))"
  proof
    assume "\<exists>g \<in> set games. d \<in> set (ggDiscs g)"
    then obtain g k where g: "g \<in> set (fst (pair_group (group_of ds k)))" "d \<in> set (ggDiscs g)" by (auto simp: games)
    then have "k = disc_key d" using key [OF g(1)] mem by simp
    with g(1) have "fst (pair_group (group_of ds (disc_key d))) \<noteq> []" by force
    with full show "complete_group (group_of discs (disc_key d))" by blast
  next
    assume "complete_group (group_of discs (disc_key d))"
    then obtain g where g: "g \<in> set (fst (pair_group (group_of ds (disc_key d))))" using full by (metis hd_in_set)
    then have "d \<in> set (ggDiscs g)" using key mem by auto
    with g d key_set show "\<exists>g \<in> set games. d \<in> set (ggDiscs g)" by (auto simp: games)
  qed
qed

section \<open>Property\<close>

text \<open>
  C33.  Pairing valid discs gives well-typed games, strictly sorted by ID and revision: one or two
  discs, numbered 0 and 1, all of the ID, revision and region of the game.  A game holds all discs
  of its ID and revision, and a disc is in a game exactly if its group has a first disc and no
  disc number twice.
\<close>

theorem pair_discs_typed:
  assumes "list_all disc_ok discs" "pair_discs discs = (games, rejected)"
  shows "list_all game_ok games \<and> sorted_wrt (<) (map (\<lambda>g. (ggID g, ggRevision g)) games) \<and>
    (\<forall>g \<in> set games. set (ggDiscs g) = set (group_of discs (ggID g, ggRevision g))) \<and>
    (\<forall>d \<in> set discs. (\<exists>g \<in> set games. d \<in> set (ggDiscs g)) \<longleftrightarrow> complete_group (group_of discs (disc_key d)))"
  using pair_discs_ok [OF assms] by blast

definition demo_disc :: "nat \<Rightarrow> string \<Rightarrow> gc_disc" where
  "demo_disc n path = \<lparr>dcID = ''GALE01'', dcTitle = ''Demo'', dcRegion = ''NTSC-U'', dcRevision = 2, dcNumber = n,
     dcSourcePath = path, dcFormat = ''iso'', dcLogicalSize = 2000, dcPhysicalSize = 2000, dcSHA256 = '''',
     dcValidation = ''valid''\<rparr>"

theorem pair_discs_typed_witness:
  "\<exists>g \<in> set (fst (pair_discs [demo_disc 1 ''/b'', demo_disc 0 ''/a''])). game_ok g"
proof -
  let ?ds = "[demo_disc 1 ''/b'', demo_disc 0 ''/a'']"
  have "list_all disc_ok ?ds"
    by (simp add: demo_disc_def disc_ok_def valid_id_def is_upper_def is_digit_def code_of_def disc_region_def)
  note all = pair_discs_typed [OF this, of "fst (pair_discs ?ds)" "snd (pair_discs ?ds)", OF prod.collapse [symmetric]]
  have "demo_disc 0 ''/a'' \<in> set ?ds" by simp
  with all have t: "list_all game_ok (fst (pair_discs ?ds))"
    "(\<exists>g \<in> set (fst (pair_discs ?ds)). demo_disc 0 ''/a'' \<in> set (ggDiscs g)) \<longleftrightarrow>
       complete_group (group_of ?ds (disc_key (demo_disc 0 ''/a'')))" by blast+
  have "complete_group (group_of ?ds (disc_key (demo_disc 0 ''/a'')))"
    by (simp add: complete_group_def group_of_def disc_key_def demo_disc_def)
  with t(2) obtain g where "g \<in> set (fst (pair_discs ?ds))" by blast
  with t(1) show ?thesis by (auto simp only: list_all_iff)
qed

end
