(* ===== verification/Compat.thy ===== *)
theory Compat
  imports Go_Std Save_Objects "HOL-Library.Monad_Syntax"
begin

text \<open>
  \<open>shared/compat/compat.go\<close>: the descriptors by which host and firmware present themselves, what
  an operation requires, and \<open>Evaluate\<close>, whose result authorizes an operation or blocks it.
  The wall clock is an argument; a zero \<open>time.Time\<close> is \<open>None\<close>.
\<close>

section \<open>Constants\<close>

abbreviation (input) schema_version :: int where "schema_version \<equiv> 1"
abbreviation (input) protocol_min :: int where "protocol_min \<equiv> 1"
abbreviation (input) protocol_max :: int where "protocol_max \<equiv> 1"
abbreviation (input) cap_wii_read_only :: string where "cap_wii_read_only \<equiv> ''wii-read-only-export-v1''"
abbreviation (input) cap_gamecube_schema2 :: string where "cap_gamecube_schema2 \<equiv> ''gamecube-schema2-no-copy-v1''"
abbreviation (input) cap_physical_card :: string where "cap_physical_card \<equiv> ''gamecube-physical-memory-card-v1''"
abbreviation (input) cap_save_overlay :: string where "cap_save_overlay \<equiv> ''gamecube-save-overlay-v1''"
abbreviation (input) cap_safe_switching :: string where "cap_safe_switching \<equiv> ''safe-platform-switching-v1''"
abbreviation (input) cap_usb_detach :: string where "cap_usb_detach \<equiv> ''usb-detach-v1''"
abbreviation (input) cap_usb_attach :: string where "cap_usb_attach \<equiv> ''usb-attach-v1''"
abbreviation (input) cap_nbd_connect :: string where "cap_nbd_connect \<equiv> ''nbd-connect-v1''"
abbreviation (input) cap_nbd_disconnect :: string where "cap_nbd_disconnect \<equiv> ''nbd-disconnect-v1''"
abbreviation (input) cap_automatic_switching :: string where "cap_automatic_switching \<equiv> ''automatic-platform-switching-v1''"
abbreviation (input) cap_startup_readiness :: string where "cap_startup_readiness \<equiv> ''startup-readiness-v1''"
abbreviation (input) cap_reboot :: string where "cap_reboot \<equiv> ''firmware-reboot-v1''"
abbreviation (input) cap_shutdown :: string where "cap_shutdown \<equiv> ''firmware-shutdown-v1''"
abbreviation (input) cap_diagnostic_status :: string where "cap_diagnostic_status \<equiv> ''diagnostic-status-v1''"
abbreviation (input) cap_runtime_metrics :: string where "cap_runtime_metrics \<equiv> ''runtime-metrics-v1''"
abbreviation (input) cap_source_offline :: string where "cap_source_offline \<equiv> ''source-offline-status-v1''"
abbreviation (input) cap_stable_identity :: string where "cap_stable_identity \<equiv> ''stable-source-identity-v1''"
abbreviation (input) cap_separate_paths :: string where "cap_separate_paths \<equiv> ''separate-library-paths-v1''"
abbreviation (input) cap_exact_fsinfo :: string where "cap_exact_fsinfo \<equiv> ''wii-fat32-exact-fsinfo-split-v1''"

section \<open>Standard library: RFC 3339\<close>

text \<open>
  Whether \<open>time.Parse(time.RFC3339, s)\<close> succeeds.  As in Go the hour may have one digit, a
  fraction may follow the seconds after a dot or a comma, and the range of the zone is
  inclusive.
\<close>

definition num_val :: "string \<Rightarrow> nat" where
  "num_val s = foldl (\<lambda>n c. 10 * n + (code_of c - 48)) 0 s"

text \<open>A number of \<open>n\<close> digits with the rest of the text.\<close>

definition fixed_num :: "nat \<Rightarrow> string \<Rightarrow> (nat \<times> string) option" where
  "fixed_num n s = (if n \<le> length s \<and> list_all is_digit (take n s) then Some (num_val (take n s), drop n s) else None)"

definition hour_num :: "string \<Rightarrow> (nat \<times> string) option" where
  "hour_num s = (case fixed_num 2 s of Some r \<Rightarrow> Some r | None \<Rightarrow> fixed_num 1 s)"

definition literal :: "char \<Rightarrow> string \<Rightarrow> string option" where
  "literal c s = (case s of [] \<Rightarrow> None | x # xs \<Rightarrow> if x = c then Some xs else None)"

definition skip_fraction :: "string \<Rightarrow> string" where
  "skip_fraction s = (case s of
     p # d # rest \<Rightarrow> if (p = CHR ''.'' \<or> p = CHR '','') \<and> is_digit d then dropWhile is_digit (d # rest) else s
   | _ \<Rightarrow> s)"

definition zone_ok :: "string \<Rightarrow> bool" where
  "zone_ok s \<longleftrightarrow> s = ''Z'' \<or>
     (length s = 6 \<and> (s ! 0 = CHR ''+'' \<or> s ! 0 = CHR ''-'') \<and> s ! 3 = CHR '':'' \<and>
      (case (fixed_num 2 (drop 1 s), fixed_num 2 (drop 4 s)) of
         (Some (h, _), Some (m, _)) \<Rightarrow> h \<le> 24 \<and> m \<le> 60 | _ \<Rightarrow> False))"

definition days_in :: "nat \<Rightarrow> nat \<Rightarrow> nat" where
  "days_in month year =
     (if month = 2 then (if year mod 4 = 0 \<and> (year mod 100 \<noteq> 0 \<or> year mod 400 = 0) then 29 else 28)
      else if month \<in> {4, 6, 9, 11} then 30 else 31)"

definition rfc3339 :: "string \<Rightarrow> bool" where
  "rfc3339 s \<longleftrightarrow> do {
     (year, s) \<leftarrow> fixed_num 4 s; s \<leftarrow> literal (CHR ''-'') s;
     (month, s) \<leftarrow> fixed_num 2 s; s \<leftarrow> literal (CHR ''-'') s;
     (day, s) \<leftarrow> fixed_num 2 s; s \<leftarrow> literal (CHR ''T'') s;
     (hour, s) \<leftarrow> hour_num s; s \<leftarrow> literal (CHR '':'') s;
     (minute, s) \<leftarrow> fixed_num 2 s; s \<leftarrow> literal (CHR '':'') s;
     (sec, s) \<leftarrow> fixed_num 2 s;
     Some (1 \<le> month \<and> month \<le> 12 \<and> 1 \<le> day \<and> day \<le> days_in month year \<and> hour < 24 \<and>
       minute < 60 \<and> sec < 60 \<and> zone_ok (skip_fraction s))
   } = Some True"

section \<open>Descriptors\<close>

record descriptor =
  dsSchemaVersion :: int
  dsProtocolMin :: int
  dsProtocolMax :: int
  dsProductVersion :: string
  dsRevision :: string
  dsBuildTime :: string
  dsBuildDirty :: bool
  dsPlatform :: string
  dsBoard :: string
  dsDeviceID :: string
  dsCapabilities :: "string list"

definition zero_descriptor :: descriptor where
  "zero_descriptor = \<lparr>dsSchemaVersion = 0, dsProtocolMin = 0, dsProtocolMax = 0, dsProductVersion = '''',
     dsRevision = '''', dsBuildTime = '''', dsBuildDirty = False, dsPlatform = '''', dsBoard = '''', dsDeviceID = '''',
     dsCapabilities = []\<rparr>"

definition lower_alnum :: "char \<Rightarrow> bool" where
  "lower_alnum c \<longleftrightarrow> is_lower c \<or> is_digit c"

text \<open>The pattern: words joined by hyphens, and a last one \<open>v\<close> with a number that does not start with 0.\<close>

definition capability_pattern :: "string \<Rightarrow> bool" where
  "capability_pattern s \<longleftrightarrow>
     (let parts = split_on (CHR ''-'') s; version = last parts
      in 2 \<le> length parts \<and> list_all (\<lambda>p. p \<noteq> '''' \<and> list_all lower_alnum p) (butlast parts) \<and>
         (case version of
            v # n # rest \<Rightarrow> v = CHR ''v'' \<and> is_digit n \<and> n \<noteq> CHR ''0'' \<and> list_all is_digit rest
          | _ \<Rightarrow> False))"

fun check_capabilities :: "string list \<Rightarrow> string list \<Rightarrow> string option" where
  "check_capabilities [] seen = None"
| "check_capabilities (c # cs) seen =
     (if \<not> capability_pattern c then Some ''malformed compatibility capability''
      else if c \<in> set seen then Some ''duplicate compatibility capability''
      else check_capabilities cs (c # seen))"

text \<open>The text of the error, if any.\<close>

definition descriptor_validate :: "descriptor \<Rightarrow> string \<Rightarrow> string option" where
  "descriptor_validate d expectedPlatform =
     (if dsSchemaVersion d \<noteq> schema_version
      then Some (''unsupported compatibility descriptor schema '' @ show_int (dsSchemaVersion d))
      else if dsProtocolMin d < 1 \<or> dsProtocolMax d < dsProtocolMin d
      then Some ''invalid compatibility protocol range''
      else if dsProductVersion d = '''' \<or> length (dsProductVersion d) > 64 \<or>
              dsRevision d = '''' \<or> length (dsRevision d) > 128 \<or>
              dsBuildTime d = '''' \<or> length (dsBuildTime d) > 64
      then Some ''incomplete compatibility build identity''
      else if dsBuildTime d \<noteq> ''unknown'' \<and> \<not> rfc3339 (dsBuildTime d)
      then Some ''compatibility build time is not RFC3339''
      else if expectedPlatform \<noteq> '''' \<and> dsPlatform d \<noteq> expectedPlatform
      then Some ''unexpected compatibility descriptor platform''
      else if dsPlatform d \<noteq> ''host'' \<and> dsPlatform d \<noteq> ''firmware''
      then Some ''invalid compatibility descriptor platform''
      else if dsPlatform d = ''firmware'' \<and> (dsBoard d = '''' \<or> length (dsBoard d) > 128)
      then Some ''firmware descriptor has no board identity''
      else check_capabilities (dsCapabilities d) [])"

definition new_descriptor ::
  "string \<Rightarrow> string \<Rightarrow> string \<Rightarrow> string \<Rightarrow> string \<Rightarrow> string \<Rightarrow> string list \<Rightarrow> descriptor" where
  "new_descriptor platform board deviceID productVersion revision buildTime capabilities =
     \<lparr>dsSchemaVersion = schema_version, dsProtocolMin = protocol_min, dsProtocolMax = protocol_max,
      dsProductVersion = productVersion, dsRevision = revision, dsBuildTime = buildTime, dsBuildDirty = False,
      dsPlatform = platform, dsBoard = board, dsDeviceID = deviceID, dsCapabilities = sort_slice id capabilities\<rparr>"

definition host_capabilities :: "string list" where
  "host_capabilities =
     [cap_diagnostic_status, cap_physical_card, cap_save_overlay, cap_gamecube_schema2, cap_runtime_metrics,
      cap_source_offline, cap_separate_paths, cap_startup_readiness, cap_exact_fsinfo, cap_wii_read_only,
      cap_stable_identity]"

definition firmware_capabilities :: "string list" where
  "firmware_capabilities =
     [cap_automatic_switching, cap_diagnostic_status, cap_reboot, cap_shutdown, cap_physical_card, cap_save_overlay,
      cap_gamecube_schema2, cap_nbd_connect, cap_nbd_disconnect, cap_runtime_metrics, cap_safe_switching,
      cap_usb_attach, cap_usb_detach, cap_wii_read_only]"

section \<open>Requirements\<close>

datatype compat_state = StateCompatible | StateCompatibleWithWarnings | StateBlocked | StateUnreachable | StateUnknown

datatype operation =
    OperationStatus | OperationWiiConnect | OperationGameCubePhysical | OperationGameCubeEmulated
  | OperationUSBDetach | OperationUSBAttach | OperationNBDDisconnect | OperationSafeDisconnect
  | OperationAutomaticSwitch | OperationReboot | OperationShutdown | OperationPerformanceMetrics
  | OtherOperation string

text \<open>The required and the optional capabilities.\<close>

fun requirements_for :: "operation \<Rightarrow> string list \<times> string list" where
  "requirements_for OperationWiiConnect = ([cap_wii_read_only, cap_nbd_connect, cap_usb_attach], [])"
| "requirements_for OperationGameCubePhysical =
     ([cap_gamecube_schema2, cap_physical_card, cap_safe_switching, cap_nbd_connect, cap_usb_attach], [])"
| "requirements_for OperationGameCubeEmulated =
     ([cap_gamecube_schema2, cap_save_overlay, cap_safe_switching, cap_nbd_connect, cap_usb_attach], [])"
| "requirements_for OperationUSBDetach = ([cap_usb_detach], [])"
| "requirements_for OperationUSBAttach = ([cap_usb_attach], [])"
| "requirements_for OperationNBDDisconnect = ([cap_nbd_disconnect], [])"
| "requirements_for OperationSafeDisconnect = ([cap_usb_detach, cap_nbd_disconnect], [])"
| "requirements_for OperationAutomaticSwitch =
     ([cap_automatic_switching, cap_safe_switching, cap_usb_detach, cap_nbd_disconnect, cap_nbd_connect, cap_usb_attach], [])"
| "requirements_for OperationReboot = ([cap_reboot], [])"
| "requirements_for OperationShutdown = ([cap_shutdown], [])"
| "requirements_for OperationPerformanceMetrics = ([], [cap_runtime_metrics])"
| "requirements_for _ = ([cap_diagnostic_status], [cap_runtime_metrics])"

section \<open>Results\<close>

datatype severity = SeverityInfo | SeverityWarning | SeverityError | SeverityCritical

record contract_error =
  ceCode :: string
  ceComponent :: string
  ceSeverity :: severity
  ceMessage :: string
  ceRetryable :: bool
  ceTimestamp :: int

definition contract_new :: "int \<Rightarrow> string \<Rightarrow> string \<Rightarrow> severity \<Rightarrow> string \<Rightarrow> bool \<Rightarrow> contract_error" where
  "contract_new clock code component severity message retryable =
     \<lparr>ceCode = code, ceComponent = component, ceSeverity = severity, ceMessage = message,
      ceRetryable = retryable, ceTimestamp = clock\<rparr>"

definition compat_error :: "int \<Rightarrow> string \<Rightarrow> string \<Rightarrow> string \<Rightarrow> bool \<Rightarrow> contract_error" where
  "compat_error clock code component message retryable =
     contract_new clock code component SeverityError message retryable"

record compat_result =
  crStatus :: compat_state
  crCheckedAt :: "int option"
  crHost :: descriptor
  crFirmware :: descriptor
  crProtocol :: "int option"
  crOperation :: operation
  crRequired :: "string list"
  crMissing :: "string list"
  crWarnings :: "contract_error list"
  crErrors :: "contract_error list"

record evaluate_options =
  eoOperation :: operation
  eoExpectedBoard :: string
  eoExpectedDeviceID :: string
  eoBoardSupported :: "bool option"
  eoAdditionalRequired :: "string list"
  eoNow :: "int option"

definition block_result :: "contract_error \<Rightarrow> compat_result \<Rightarrow> compat_result" where
  "block_result err r = r\<lparr>crStatus := StateBlocked, crErrors := crErrors r @ [err]\<rparr>"

definition block_if :: "bool \<Rightarrow> contract_error \<Rightarrow> compat_result \<Rightarrow> compat_result" where
  "block_if b err r = (if b then block_result err r else r)"

definition join_strings :: "string \<Rightarrow> string list \<Rightarrow> string" where
  "join_strings sep xs = (case xs of [] \<Rightarrow> '''' | x # rest \<Rightarrow> x @ concat (map (\<lambda>y. sep @ y) rest))"

definition check_identity :: "int \<Rightarrow> descriptor \<Rightarrow> evaluate_options \<Rightarrow> compat_result \<Rightarrow> compat_result" where
  "check_identity clock firmware opts r =
     block_if (eoExpectedDeviceID opts \<noteq> '''' \<and> dsDeviceID firmware \<noteq> eoExpectedDeviceID opts)
       (compat_error clock ''COMPAT-DEVICE-IDENTITY-MISMATCH'' ''firmware''
         ''Connected firmware device identity does not match the pinned device.'' False)
     (block_if (eoBoardSupported opts = Some False)
       (compat_error clock ''COMPAT-BOARD-UNSUPPORTED'' ''firmware''
         ''The connected firmware reports an unsupported board.'' False)
     (block_if (eoExpectedBoard opts \<noteq> '''' \<and> dsBoard firmware \<noteq> eoExpectedBoard opts)
       (compat_error clock ''COMPAT-DEVICE-IDENTITY-MISMATCH'' ''firmware''
         ''Connected firmware board identity does not match the configured device.'' False) r))"

definition check_protocol :: "int \<Rightarrow> descriptor \<Rightarrow> descriptor \<Rightarrow> compat_result \<Rightarrow> compat_result" where
  "check_protocol clock host firmware r =
     (let minimum = max (dsProtocolMin host) (dsProtocolMin firmware);
          maximum = min (dsProtocolMax host) (dsProtocolMax firmware)
      in if minimum > maximum
         then block_result (compat_error clock ''COMPAT-PROTOCOL-NO-OVERLAP'' ''protocol''
                ''Host and firmware protocol ranges do not overlap.'' False) r
         else r\<lparr>crProtocol := Some maximum\<rparr>)"

definition check_required :: "int \<Rightarrow> string list \<Rightarrow> descriptor \<Rightarrow> compat_result \<Rightarrow> compat_result" where
  "check_required clock required firmware r =
     (let missing = sort_slice id (filter (\<lambda>c. c \<notin> set (dsCapabilities firmware)) required);
          r1 = r\<lparr>crMissing := missing\<rparr>
      in block_if (missing \<noteq> []) (compat_error clock ''COMPAT-CAPABILITY-MISSING'' ''firmware''
           (''Connected firmware is missing required capability: '' @ join_strings '', '' missing @ ''.'') False) r1)"

definition check_optional :: "int \<Rightarrow> string list \<Rightarrow> descriptor \<Rightarrow> compat_result \<Rightarrow> compat_result" where
  "check_optional clock optional firmware r =
     r\<lparr>crWarnings := crWarnings r @ map (\<lambda>c. compat_error clock ''COMPAT-CAPABILITY-MISSING'' ''firmware''
         (''Optional firmware capability is unavailable: '' @ c @ ''.'') True)
       (filter (\<lambda>c. c \<notin> set (dsCapabilities firmware)) optional)\<rparr>"

definition warn_status :: "compat_result \<Rightarrow> compat_result" where
  "warn_status r = (if crStatus r = StateCompatible \<and> crWarnings r \<noteq> []
     then r\<lparr>crStatus := StateCompatibleWithWarnings\<rparr> else r)"

definition evaluate :: "int \<Rightarrow> descriptor \<Rightarrow> descriptor \<Rightarrow> evaluate_options \<Rightarrow> compat_result" where
  "evaluate clock host firmware opts =
     (let now = (case eoNow opts of None \<Rightarrow> clock | Some t \<Rightarrow> t);
          required = fst (requirements_for (eoOperation opts)) @ eoAdditionalRequired opts;
          optional = snd (requirements_for (eoOperation opts));
          r = \<lparr>crStatus = StateCompatible, crCheckedAt = Some now, crHost = host, crFirmware = firmware,
               crProtocol = None, crOperation = eoOperation opts, crRequired = sort_slice id required, crMissing = [],
               crWarnings = [], crErrors = []\<rparr>
      in case descriptor_validate host ''host'' of
           Some msg \<Rightarrow> block_result (compat_error clock ''COMPAT-DESCRIPTOR-MALFORMED'' ''host'' msg False) r
         | None \<Rightarrow>
             (case descriptor_validate firmware ''firmware'' of
                Some msg \<Rightarrow> block_result (compat_error clock ''COMPAT-DESCRIPTOR-MALFORMED'' ''firmware'' msg False) r
              | None \<Rightarrow>
                  warn_status (check_optional clock optional firmware
                    (check_required clock required firmware
                      (check_protocol clock host firmware (check_identity clock firmware opts r))))))"

definition mark_cached_stale :: "int \<Rightarrow> compat_result \<Rightarrow> int option \<Rightarrow> int \<Rightarrow> compat_result" where
  "mark_cached_stale clock r now0 maximumAge0 =
     (let now = (case now0 of None \<Rightarrow> clock | Some t \<Rightarrow> t);
          maximumAge = (if maximumAge0 \<le> 0 then 30000000000 else maximumAge0)
      in case crCheckedAt r of
           None \<Rightarrow> r
         | Some checked \<Rightarrow>
             if now - checked \<le> maximumAge then r
             else let r1 = r\<lparr>crWarnings := crWarnings r @ [contract_new clock ''COMPAT-STATUS-STALE'' ''compatibility''
                        SeverityWarning
                        ''The displayed compatibility result is stale and cannot authorize an operation.'' True]\<rparr>
                  in if crStatus r1 = StateCompatible then r1\<lparr>crStatus := StateCompatibleWithWarnings\<rparr> else r1)"

definition unreachable :: "int \<Rightarrow> descriptor \<Rightarrow> operation \<Rightarrow> string \<Rightarrow> compat_result" where
  "unreachable clock host op message =
     \<lparr>crStatus = StateUnreachable, crCheckedAt = Some clock, crHost = host, crFirmware = zero_descriptor, crProtocol = None,
      crOperation = op, crRequired = [], crMissing = [], crWarnings = [],
      crErrors = [compat_error clock ''COMPAT-FIRMWARE-UNREACHABLE'' ''firmware'' message True]\<rparr>"

section \<open>What a result says\<close>

text \<open>The contract: when the operation may go ahead.\<close>

definition authorized :: "descriptor \<Rightarrow> descriptor \<Rightarrow> evaluate_options \<Rightarrow> bool" where
  "authorized host firmware opts \<longleftrightarrow>
     descriptor_validate host ''host'' = None \<and> descriptor_validate firmware ''firmware'' = None \<and>
     (eoExpectedBoard opts = '''' \<or> dsBoard firmware = eoExpectedBoard opts) \<and>
     (eoExpectedDeviceID opts = '''' \<or> dsDeviceID firmware = eoExpectedDeviceID opts) \<and>
     eoBoardSupported opts \<noteq> Some False \<and>
     (\<exists>v. dsProtocolMin host \<le> v \<and> v \<le> dsProtocolMax host \<and> dsProtocolMin firmware \<le> v \<and> v \<le> dsProtocolMax firmware) \<and>
     set (fst (requirements_for (eoOperation opts)) @ eoAdditionalRequired opts) \<subseteq> set (dsCapabilities firmware)"

text \<open>A result of \<open>Evaluate\<close> is well typed.\<close>

definition result_ok :: "compat_result \<Rightarrow> bool" where
  "result_ok r \<longleftrightarrow> crStatus r \<in> {StateCompatible, StateCompatibleWithWarnings, StateBlocked} \<and>
     (crStatus r = StateBlocked \<longleftrightarrow> crErrors r \<noteq> []) \<and>
     (crStatus r = StateCompatible \<longleftrightarrow> crErrors r = [] \<and> crWarnings r = []) \<and>
     list_all (\<lambda>e. ceSeverity e = SeverityError \<and> \<not> ceRetryable e) (crErrors r) \<and>
     list_all (\<lambda>e. ceRetryable e) (crWarnings r) \<and>
     sorted (crRequired r) \<and> sorted (crMissing r) \<and> set (crMissing r) \<subseteq> set (crRequired r) \<and>
     (crErrors r = [] \<longrightarrow> crProtocol r \<noteq> None \<and> crMissing r = [])"

text \<open>Before the warnings: the status tells whether there is an error, and every error is final.\<close>

definition typed :: "compat_result \<Rightarrow> bool" where
  "typed r \<longleftrightarrow> crStatus r = (if crErrors r = [] then StateCompatible else StateBlocked) \<and> crWarnings r = [] \<and>
     list_all (\<lambda>e. ceSeverity e = SeverityError \<and> \<not> ceRetryable e) (crErrors r)"

lemma block_if_typed: "typed r \<Longrightarrow> ceSeverity e = SeverityError \<Longrightarrow> \<not> ceRetryable e \<Longrightarrow> typed (block_if b e r)"
  by (auto simp: typed_def block_if_def block_result_def)

lemma block_if_simps [simp]:
  "crErrors (block_if b e r) = [] \<longleftrightarrow> \<not> b \<and> crErrors r = []"
  "crRequired (block_if b e r) = crRequired r" "crMissing (block_if b e r) = crMissing r"
  "crProtocol (block_if b e r) = crProtocol r" "crWarnings (block_if b e r) = crWarnings r"
  by (simp_all add: block_if_def block_result_def)

lemma compat_error_simps [simp]:
  "ceSeverity (compat_error clock code component message retryable) = SeverityError"
  "ceRetryable (compat_error clock code component message retryable) = retryable"
  by (simp_all add: compat_error_def contract_new_def)

lemma check_identity_simps:
  "typed r \<Longrightarrow> typed (check_identity clock firmware opts r)"
  "crErrors (check_identity clock firmware opts r) = [] \<longleftrightarrow> crErrors r = [] \<and>
     (eoExpectedBoard opts = '''' \<or> dsBoard firmware = eoExpectedBoard opts) \<and>
     (eoExpectedDeviceID opts = '''' \<or> dsDeviceID firmware = eoExpectedDeviceID opts) \<and> eoBoardSupported opts \<noteq> Some False"
  "crRequired (check_identity clock firmware opts r) = crRequired r" "crMissing (check_identity clock firmware opts r) = crMissing r"
  by (auto simp: check_identity_def block_if_typed)

definition overlap :: "descriptor \<Rightarrow> descriptor \<Rightarrow> bool" where
  "overlap host firmware \<longleftrightarrow>
     (\<exists>v. dsProtocolMin host \<le> v \<and> v \<le> dsProtocolMax host \<and> dsProtocolMin firmware \<le> v \<and> v \<le> dsProtocolMax firmware)"

lemma overlap_iff:
  "overlap host firmware \<longleftrightarrow>
     max (dsProtocolMin host) (dsProtocolMin firmware) \<le> min (dsProtocolMax host) (dsProtocolMax firmware)"
  unfolding overlap_def by (auto intro!: exI [of _ "min (dsProtocolMax host) (dsProtocolMax firmware)"])

lemma check_protocol_simps:
  "typed r \<Longrightarrow> typed (check_protocol clock host firmware r)"
  "crErrors (check_protocol clock host firmware r) = [] \<longleftrightarrow> crErrors r = [] \<and> overlap host firmware"
  "crErrors (check_protocol clock host firmware r) = [] \<Longrightarrow>
     crProtocol (check_protocol clock host firmware r) = Some (min (dsProtocolMax host) (dsProtocolMax firmware))"
  "crRequired (check_protocol clock host firmware r) = crRequired r" "crMissing (check_protocol clock host firmware r) = crMissing r"
proof -
  have "overlap host firmware \<longleftrightarrow> \<not> max (dsProtocolMin host) (dsProtocolMin firmware) > min (dsProtocolMax host) (dsProtocolMax firmware)"
    using overlap_iff [of host firmware] by linarith
  then have eq: "check_protocol clock host firmware r =
    (if overlap host firmware then r\<lparr>crProtocol := Some (min (dsProtocolMax host) (dsProtocolMax firmware))\<rparr>
     else block_result (compat_error clock ''COMPAT-PROTOCOL-NO-OVERLAP'' ''protocol''
       ''Host and firmware protocol ranges do not overlap.'' False) r)" by (simp add: check_protocol_def Let_def)
  show "typed r \<Longrightarrow> typed (check_protocol clock host firmware r)"
    unfolding eq by (simp add: typed_def block_result_def)
  show "crErrors (check_protocol clock host firmware r) = [] \<longleftrightarrow> crErrors r = [] \<and> overlap host firmware"
    "crRequired (check_protocol clock host firmware r) = crRequired r" "crMissing (check_protocol clock host firmware r) = crMissing r"
    unfolding eq by (simp_all add: block_result_def)
  show "crErrors (check_protocol clock host firmware r) = [] \<Longrightarrow>
     crProtocol (check_protocol clock host firmware r) = Some (min (dsProtocolMax host) (dsProtocolMax firmware))"
    unfolding eq by (simp add: block_result_def split: if_splits)
qed

lemma sort_slice_empty [simp]: "sort_slice f xs = [] \<longleftrightarrow> xs = []"
  by (simp add: sort_slice_def flip: set_empty)

lemma check_required_simps:
  "typed r \<Longrightarrow> typed (check_required clock required firmware r)"
  "crErrors (check_required clock required firmware r) = [] \<longleftrightarrow> crErrors r = [] \<and> set required \<subseteq> set (dsCapabilities firmware)"
  "crMissing (check_required clock required firmware r) = sort_slice id (filter (\<lambda>c. c \<notin> set (dsCapabilities firmware)) required)"
  "crRequired (check_required clock required firmware r) = crRequired r"
  "crProtocol (check_required clock required firmware r) = crProtocol r"
  by (auto simp: check_required_def Let_def filter_empty_conv typed_def block_if_def block_result_def)

lemma check_optional_simps [simp]:
  "crErrors (check_optional clock optional firmware r) = crErrors r" "crStatus (check_optional clock optional firmware r) = crStatus r"
  "crMissing (check_optional clock optional firmware r) = crMissing r" "crRequired (check_optional clock optional firmware r) = crRequired r"
  "crProtocol (check_optional clock optional firmware r) = crProtocol r"
  by (simp_all add: check_optional_def)

lemma warn_status_simps [simp]:
  "crErrors (warn_status r) = crErrors r" "crMissing (warn_status r) = crMissing r" "crRequired (warn_status r) = crRequired r"
  "crProtocol (warn_status r) = crProtocol r" "crWarnings (warn_status r) = crWarnings r"
  by (simp_all add: warn_status_def)

lemma optional_warnings: "typed r \<Longrightarrow> list_all (\<lambda>e. ceRetryable e) (crWarnings (check_optional clock optional firmware r))"
  by (simp add: typed_def check_optional_def list_all_iff)

text \<open>What the three checks leave when both descriptors are valid.\<close>

definition checked :: "int \<Rightarrow> descriptor \<Rightarrow> descriptor \<Rightarrow> evaluate_options \<Rightarrow> compat_result \<Rightarrow> compat_result" where
  "checked clock host firmware opts r =
     check_required clock (fst (requirements_for (eoOperation opts)) @ eoAdditionalRequired opts) firmware
       (check_protocol clock host firmware (check_identity clock firmware opts r))"

lemma checked_ok:
  assumes "typed r" "crErrors r = []" "crRequired r = sort_slice id (fst (requirements_for (eoOperation opts)) @ eoAdditionalRequired opts)"
  shows "result_ok (warn_status (check_optional clock optional firmware (checked clock host firmware opts r)))"
proof -
  let ?r = "checked clock host firmware opts r"
  have t: "typed ?r" unfolding checked_def
    by (intro check_required_simps(1) check_protocol_simps(1) check_identity_simps(1) assms(1))
  have parts: "sorted (crRequired ?r)" "sorted (crMissing ?r)" "set (crMissing ?r) \<subseteq> set (crRequired ?r)"
    using sorted_sort_slice [of id]
    by (auto simp: checked_def check_required_simps check_protocol_simps check_identity_simps assms(3) sort_slice_def)
  have "crProtocol ?r \<noteq> None \<and> crMissing ?r = []" if e: "crErrors ?r = []"
  proof -
    have r1: "crErrors (check_protocol clock host firmware (check_identity clock firmware opts r)) = []"
      and sub: "set (fst (requirements_for (eoOperation opts)) @ eoAdditionalRequired opts) \<subseteq> set (dsCapabilities firmware)"
      using e unfolding checked_def check_required_simps(2) by auto
    have "crMissing ?r = []" unfolding checked_def check_required_simps(3) using sub by (auto simp: filter_empty_conv)
    then show ?thesis unfolding checked_def check_required_simps(5) check_protocol_simps(3) [OF r1] by simp
  qed
  with parts t optional_warnings [OF t, of clock optional firmware] show ?thesis
    by (auto simp: result_ok_def warn_status_def typed_def)
qed

lemma evaluate_ok: "result_ok (evaluate clock host firmware opts)"
proof -
  let ?req = "fst (requirements_for (eoOperation opts)) @ eoAdditionalRequired opts"
  define r where "r = \<lparr>crStatus = StateCompatible,
     crCheckedAt = Some (case eoNow opts of None \<Rightarrow> clock | Some t \<Rightarrow> t), crHost = host, crFirmware = firmware,
     crProtocol = None, crOperation = eoOperation opts, crRequired = sort_slice id ?req, crMissing = [],
     crWarnings = [], crErrors = []\<rparr>"
  have r: "typed r" "crErrors r = []" "crRequired r = sort_slice id ?req" by (simp_all add: r_def typed_def)
  have blocked: "result_ok (block_result (compat_error clock code part msg False) r)" for code part msg
    using sorted_sort_slice [of id ?req] by (simp add: result_ok_def block_result_def r_def)
  show ?thesis
  proof (cases "descriptor_validate host ''host''")
    case (Some msg)
    then show ?thesis unfolding evaluate_def Let_def r_def [symmetric] by (simp only: option.case blocked)
  next
    case valid: None
    show ?thesis
    proof (cases "descriptor_validate firmware ''firmware''")
      case (Some msg)
      then show ?thesis unfolding evaluate_def Let_def r_def [symmetric] valid by (simp only: option.case blocked)
    next
      case None
      then show ?thesis unfolding evaluate_def Let_def r_def [symmetric] valid checked_def [symmetric]
        by (simp only: option.case checked_ok [OF r])
    qed
  qed
qed

lemma evaluate_authorizes:
  "crErrors (evaluate clock host firmware opts) = [] \<longleftrightarrow> authorized host firmware opts"
  unfolding evaluate_def Let_def
  by (auto simp: check_required_simps check_protocol_simps check_identity_simps authorized_def overlap_def
      block_result_def split: option.split)

section \<open>Properties\<close>

text \<open>
  C34.  \<open>Evaluate\<close> lets an operation through, with or without warnings, exactly when both
  descriptors are valid, the board and the device are the expected ones and supported, some
  protocol version is spoken by both sides, and the firmware has every required capability;
  otherwise it blocks.
\<close>

theorem evaluate_authorizes_exactly:
  "crStatus (evaluate clock host firmware opts) \<in> {StateCompatible, StateCompatibleWithWarnings} \<longleftrightarrow>
   authorized host firmware opts"
  using evaluate_ok [of clock host firmware opts] evaluate_authorizes [of clock host firmware opts]
  by (auto simp: result_ok_def)

text \<open>
  C35.  Every result of \<open>Evaluate\<close> is well typed: it is blocked exactly if it holds an error, and
  compatible exactly if it holds neither errors nor warnings; errors are final and warnings
  retryable; the missing capabilities are among the required ones, both sorted; a result
  without errors has negotiated a protocol and misses nothing.
\<close>

theorem evaluate_result_typed: "result_ok (evaluate clock host firmware opts)"
  by (rule evaluate_ok)

end
