(* ===== verification/Ram_Cache.thy ===== *)
theory Ram_Cache
  imports Prelude
begin

text \<open>
  \<open>pi/controller/cache/cache.go\<close>: the bounded read-through cache.  The elements of the
  \<open>container/list\<close> are identified by numbers, so that the map from keys to elements and the list
  in order of use are the two structures of the code; the invariant says that they agree.  The
  mutex makes each call one atomic step.
\<close>

section \<open>State\<close>

record cache_key =
  ckSnapshot :: string
  ckOffset :: int
  ckLength :: int
  ckVersion :: nat

record lru_element =
  leID :: nat
  leKey :: cache_key
  leData :: "byte list"

record ram_cache =
  rcMaxBytes :: int
  rcBytes :: int
  rcItems :: "cache_key \<Rightarrow> nat option"
  rcLru :: "lru_element list"
  rcFresh :: nat

definition new_cache :: "int \<Rightarrow> ram_cache" where
  "new_cache maxBytes = \<lparr>rcMaxBytes = (if maxBytes < 0 then 0 else maxBytes), rcBytes = 0, rcItems = Map.empty,
     rcLru = [], rcFresh = 0\<rparr>"

definition element :: "nat \<Rightarrow> ram_cache \<Rightarrow> lru_element option" where
  "element i c = find (\<lambda>e. leID e = i) (rcLru c)"

text \<open>\<open>remove\<close>; a nil element is \<open>None\<close>.\<close>

definition cache_remove :: "lru_element option \<Rightarrow> ram_cache \<Rightarrow> ram_cache" where
  "cache_remove el c = (case el of None \<Rightarrow> c
   | Some item \<Rightarrow> c\<lparr>rcItems := (rcItems c)(leKey item := None), rcBytes := rcBytes c - int (length (leData item)),
       rcLru := filter (\<lambda>e. leID e \<noteq> leID item) (rcLru c)\<rparr>)"

definition lru_back :: "ram_cache \<Rightarrow> lru_element option" where
  "lru_back c = (if rcLru c = [] then None else Some (last (rcLru c)))"

partial_function (option) evict_loop :: "ram_cache \<Rightarrow> ram_cache option" where
  "evict_loop c = (if rcBytes c > rcMaxBytes c then evict_loop (cache_remove (lru_back c) c) else Some c)"

definition push_front :: "cache_key \<Rightarrow> byte list \<Rightarrow> ram_cache \<Rightarrow> ram_cache" where
  "push_front k v c = c\<lparr>rcLru := \<lparr>leID = rcFresh c, leKey = k, leData = v\<rparr> # rcLru c,
     rcItems := (rcItems c)(k \<mapsto> rcFresh c), rcFresh := rcFresh c + 1, rcBytes := rcBytes c + int (length v)\<rparr>"

definition cache_put :: "cache_key \<Rightarrow> byte list \<Rightarrow> ram_cache \<Rightarrow> ram_cache option" where
  "cache_put k v c =
     (if int (length v) > rcMaxBytes c \<or> ckLength k \<noteq> int (length v) then Some c
      else let c1 = (case rcItems c k of Some old \<Rightarrow> cache_remove (element old c) c | None \<Rightarrow> c)
           in evict_loop (push_front k v c1))"

definition move_to_front :: "lru_element \<Rightarrow> ram_cache \<Rightarrow> ram_cache" where
  "move_to_front e c = c\<lparr>rcLru := e # filter (\<lambda>x. leID x \<noteq> leID e) (rcLru c)\<rparr>"

definition cache_get :: "cache_key \<Rightarrow> ram_cache \<Rightarrow> byte list option \<times> ram_cache" where
  "cache_get k c = (case Option.bind (rcItems c k) (\<lambda>i. element i c) of
     None \<Rightarrow> (None, c)
   | Some e \<Rightarrow> (Some (leData e), move_to_front e c))"

definition cache_clear :: "ram_cache \<Rightarrow> ram_cache" where
  "cache_clear c = c\<lparr>rcItems := Map.empty, rcLru := [], rcBytes := 0\<rparr>"

section \<open>The invariant\<close>

definition total_bytes :: "lru_element list \<Rightarrow> int" where
  "total_bytes es = (\<Sum>e \<leftarrow> es. int (length (leData e)))"

text \<open>Everything but the limit, which \<open>Put\<close> exceeds for a moment.\<close>

definition linked :: "ram_cache \<Rightarrow> bool" where
  "linked c \<longleftrightarrow> distinct (map leID (rcLru c)) \<and> distinct (map leKey (rcLru c)) \<and>
     (\<forall>k i. rcItems c k = Some i \<longleftrightarrow> (\<exists>e \<in> set (rcLru c). leID e = i \<and> leKey e = k)) \<and>
     (\<forall>e \<in> set (rcLru c). leID e < rcFresh c \<and> ckLength (leKey e) = int (length (leData e))) \<and>
     rcBytes c = total_bytes (rcLru c) \<and> 0 \<le> rcMaxBytes c"

definition cache_inv :: "ram_cache \<Rightarrow> bool" where
  "cache_inv c \<longleftrightarrow> linked c \<and> rcBytes c \<le> rcMaxBytes c"

text \<open>The contents, as a map.\<close>

definition contents :: "ram_cache \<Rightarrow> cache_key \<Rightarrow> byte list option" where
  "contents c k = map_option leData (find (\<lambda>e. leKey e = k) (rcLru c))"

lemma total_bytes_simps [simp]:
  "total_bytes [] = 0" "total_bytes (e # es) = int (length (leData e)) + total_bytes es"
  by (simp_all add: total_bytes_def)

lemma total_bytes_nonneg: "0 \<le> total_bytes es"
  by (induction es) auto

lemma find_unique:
  "distinct (map f xs) \<Longrightarrow> x \<in> set xs \<Longrightarrow> find (\<lambda>y. f y = f x) xs = Some x"
  by (induction xs) auto

lemma find_SomeD: "find P xs = Some x \<Longrightarrow> x \<in> set xs \<and> P x"
  by (induction xs) (auto split: if_splits)

lemma element_Some: "linked c \<Longrightarrow> e \<in> set (rcLru c) \<Longrightarrow> element (leID e) c = Some e"
  unfolding element_def by (rule find_unique) (auto simp: linked_def)

lemma total_bytes_filter:
  "distinct (map leID es) \<Longrightarrow> e \<in> set es \<Longrightarrow>
   total_bytes (filter (\<lambda>x. leID x \<noteq> leID e) es) = total_bytes es - int (length (leData e))"
proof (induction es)
  case (Cons x es)
  show ?case
  proof (cases "x = e")
    case True
    then have "filter (\<lambda>x. leID x \<noteq> leID e) es = es" using Cons.prems(1) by (intro filter_True) (auto simp: image_iff)
    with True show ?thesis by simp
  next
    case False
    then have "e \<in> set es" "leID x \<noteq> leID e" using Cons.prems by force+
    with Cons show ?thesis by simp
  qed
qed simp

lemma same_element:
  assumes "linked c" "x \<in> set (rcLru c)" "e \<in> set (rcLru c)"
  shows "leID x = leID e \<longleftrightarrow> x = e" "leKey x = leKey e \<longleftrightarrow> x = e"
  using assms inj_on_eq_iff [of leID "set (rcLru c)"] inj_on_eq_iff [of leKey "set (rcLru c)"]
  by (auto simp: linked_def distinct_map)

lemma remove_linked:
  assumes "linked c" "e \<in> set (rcLru c)"
  shows "linked (cache_remove (Some e) c)"
    "rcBytes (cache_remove (Some e) c) = rcBytes c - int (length (leData e))"
    "contents (cache_remove (Some e) c) = (contents c)(leKey e := None)"
    "set (rcLru (cache_remove (Some e) c)) = set (rcLru c) - {e}"
proof -
  note same = same_element [OF assms(1) _ assms(2)]
  have lru: "rcLru (cache_remove (Some e) c) = filter (\<lambda>x. leID x \<noteq> leID e) (rcLru c)"
    and items: "rcItems (cache_remove (Some e) c) = (rcItems c)(leKey e := None)"
    and rest: "rcMaxBytes (cache_remove (Some e) c) = rcMaxBytes c" "rcFresh (cache_remove (Some e) c) = rcFresh c"
    by (simp_all add: cache_remove_def)
  show bytes: "rcBytes (cache_remove (Some e) c) = rcBytes c - int (length (leData e))" by (simp add: cache_remove_def)
  show set: "set (rcLru (cache_remove (Some e) c)) = set (rcLru c) - {e}" using same by (auto simp: lru)
  show "linked (cache_remove (Some e) c)"
    using assms same total_bytes_filter [of "rcLru c" e]
    unfolding linked_def bytes items rest set by (auto simp: lru distinct_map_filter)
  show "contents (cache_remove (Some e) c) = (contents c)(leKey e := None)"
  proof
    fix k
    show "contents (cache_remove (Some e) c) k = ((contents c)(leKey e := None)) k"
    proof (cases "k = leKey e")
      case True
      have "\<not> (\<exists>x \<in> set (rcLru c) - {e}. leKey x = k)" using same True by auto
      then have "find (\<lambda>x. leKey x = k) (rcLru (cache_remove (Some e) c)) = None"
        unfolding find_None_iff set by blast
      with True show ?thesis by (simp add: contents_def)
    next
      case False
      have "find (\<lambda>x. leKey x = k) (filter (\<lambda>x. leID x \<noteq> leID e) xs) = find (\<lambda>x. leKey x = k) xs"
        if "set xs \<subseteq> set (rcLru c)" for xs
        using that same False by (induction xs) auto
      with False show ?thesis by (simp add: contents_def lru)
    qed
  qed
qed

lemma push_linked:
  assumes "linked c" "\<forall>e \<in> set (rcLru c). leKey e \<noteq> k" "ckLength k = int (length v)"
  shows "linked (push_front k v c)" "contents (push_front k v c) = (contents c)(k \<mapsto> v)"
    "rcBytes (push_front k v c) = rcBytes c + int (length v)" "rcMaxBytes (push_front k v c) = rcMaxBytes c"
proof -
  have new: "\<forall>e \<in> set (rcLru c). leID e \<noteq> rcFresh c" using assms(1) by (auto simp: linked_def)
  show "linked (push_front k v c)"
    using assms new unfolding linked_def push_front_def by (auto simp: image_iff)
  show "contents (push_front k v c) = (contents c)(k \<mapsto> v)" by (auto simp: contents_def push_front_def)
  show "rcBytes (push_front k v c) = rcBytes c + int (length v)" "rcMaxBytes (push_front k v c) = rcMaxBytes c"
    by (simp_all add: push_front_def)
qed

text \<open>The eviction ends, forgets keys but changes no value, and spares the newest element.\<close>

lemma evict_sound:
  "linked c \<Longrightarrow> \<exists>c'. evict_loop c = Some c' \<and> cache_inv c' \<and> contents c' \<subseteq>\<^sub>m contents c \<and> rcMaxBytes c' = rcMaxBytes c \<and>
     (\<forall>e es. rcLru c = e # es \<longrightarrow> int (length (leData e)) \<le> rcMaxBytes c \<longrightarrow> contents c' (leKey e) = Some (leData e))"
proof (induction "length (rcLru c)" arbitrary: c rule: less_induct)
  case less
  show ?case
  proof (cases "rcBytes c > rcMaxBytes c")
    case False
    then have "evict_loop c = Some c" by (subst evict_loop.simps) simp
    with False less.prems show ?thesis by (auto simp: cache_inv_def contents_def)
  next
    case True
    then have "rcLru c \<noteq> []" using less.prems by (auto simp: linked_def)
    define b where "b = last (rcLru c)"
    have b: "b \<in> set (rcLru c)" "lru_back c = Some b" using \<open>rcLru c \<noteq> []\<close> by (simp_all add: b_def lru_back_def)
    let ?c = "cache_remove (Some b) c"
    note rm = remove_linked [OF less.prems b(1)]
    have lru: "rcLru ?c = filter (\<lambda>x. leID x \<noteq> leID b) (rcLru c)" by (simp add: cache_remove_def)
    have "length (rcLru ?c) < length (rcLru c)" unfolding lru by (rule length_filter_less [OF b(1)]) simp
    from less.hyps [OF this rm(1)] obtain c' where c': "evict_loop ?c = Some c'" "cache_inv c'"
      "contents c' \<subseteq>\<^sub>m contents ?c" "rcMaxBytes c' = rcMaxBytes ?c"
      "\<forall>e es. rcLru ?c = e # es \<longrightarrow> int (length (leData e)) \<le> rcMaxBytes ?c \<longrightarrow> contents c' (leKey e) = Some (leData e)"
      by blast
    have max: "rcMaxBytes ?c = rcMaxBytes c" by (simp add: cache_remove_def)
    have ev: "evict_loop c = Some c'" using True b(2) c'(1) by (subst evict_loop.simps) simp
    have sub: "contents c' \<subseteq>\<^sub>m contents c" using c'(3) unfolding rm(3) by (auto simp: map_le_def split: if_splits)
    have "contents c' (leKey e) = Some (leData e)" if e: "rcLru c = e # es" "int (length (leData e)) \<le> rcMaxBytes c" for e es
    proof -
      have "es \<noteq> []"
      proof
        assume "es = []"
        then have "rcBytes c = int (length (leData e))" using less.prems e(1) by (simp add: linked_def)
        with True e(2) show False by simp
      qed
      then have "b \<in> set es" using e(1) by (simp add: b_def)
      then have "leID e \<noteq> leID b" using less.prems e(1) by (force simp: linked_def)
      then have "rcLru ?c = e # filter (\<lambda>x. leID x \<noteq> leID b) es" by (simp add: lru e(1))
      with c'(5) e(2) max show ?thesis by simp
    qed
    with ev c'(2,4) sub max show ?thesis by auto
  qed
qed

lemma put_sound:
  assumes "cache_inv c"
  shows "\<exists>c'. cache_put k v c = Some c' \<and> cache_inv c' \<and> rcMaxBytes c' = rcMaxBytes c \<and>
    (if int (length v) > rcMaxBytes c \<or> ckLength k \<noteq> int (length v) then c' = c
     else contents c' \<subseteq>\<^sub>m (contents c)(k \<mapsto> v) \<and> contents c' k = Some v)"
proof (cases "int (length v) > rcMaxBytes c \<or> ckLength k \<noteq> int (length v)")
  case True
  with assms show ?thesis by (simp add: cache_put_def)
next
  case False
  have l: "linked c" using assms by (simp add: cache_inv_def)
  define c1 where "c1 = (case rcItems c k of Some old \<Rightarrow> cache_remove (element old c) c | None \<Rightarrow> c)"
  have c1: "linked c1 \<and> (\<forall>e \<in> set (rcLru c1). leKey e \<noteq> k) \<and> contents c1 = (contents c)(k := None) \<and> rcMaxBytes c1 = rcMaxBytes c"
  proof (cases "rcItems c k")
    case None
    then have no: "\<forall>e \<in> set (rcLru c). leKey e \<noteq> k" using l unfolding linked_def by (metis option.distinct(1))
    then have "find (\<lambda>e. leKey e = k) (rcLru c) = None" by (simp add: find_None_iff)
    then have "contents c = (contents c)(k := None)" by (simp add: contents_def fun_upd_idem)
    with l no None show ?thesis by (simp add: c1_def)
  next
    case (Some old)
    then obtain e where e: "e \<in> set (rcLru c)" "leID e = old" "leKey e = k" using l unfolding linked_def by blast
    then have "c1 = cache_remove (Some e) c" using Some element_Some [OF l e(1)] by (simp add: c1_def)
    with remove_linked [OF l e(1)] same_element(2) [OF l _ e(1)] e(3) show ?thesis
      by (auto simp: cache_remove_def)
  qed
  then have parts: "linked c1" "\<forall>e \<in> set (rcLru c1). leKey e \<noteq> k" "contents c1 = (contents c)(k := None)"
    "rcMaxBytes c1 = rcMaxBytes c" by blast+
  from False have len: "ckLength k = int (length v)" "int (length v) \<le> rcMaxBytes c" by simp_all
  note push = push_linked [OF parts(1,2) len(1)]
  obtain c' where c': "evict_loop (push_front k v c1) = Some c'" "cache_inv c'"
    "contents c' \<subseteq>\<^sub>m contents (push_front k v c1)" "rcMaxBytes c' = rcMaxBytes (push_front k v c1)"
    "\<forall>e es. rcLru (push_front k v c1) = e # es \<longrightarrow> int (length (leData e)) \<le> rcMaxBytes (push_front k v c1) \<longrightarrow>
       contents c' (leKey e) = Some (leData e)"
    using evict_sound [OF push(1)] by blast
  have "contents c' k = Some v" using c'(5) len(2) parts(4) push(4) by (simp add: push_front_def)
  moreover have "contents c' \<subseteq>\<^sub>m (contents c)(k \<mapsto> v)" using c'(3) unfolding push(2) parts(3) by simp
  ultimately show ?thesis using c'(1,2,4) push(4) parts(4) False by (simp add: cache_put_def c1_def)
qed

lemma get_sound:
  assumes "cache_inv c"
  shows "fst (cache_get k c) = contents c k" "cache_inv (snd (cache_get k c))" "contents (snd (cache_get k c)) = contents c"
    "rcMaxBytes (snd (cache_get k c)) = rcMaxBytes c"
proof -
  have l: "linked c" using assms by (simp add: cache_inv_def)
  have both: "fst (cache_get k c) = contents c k \<and> cache_inv (snd (cache_get k c)) \<and> contents (snd (cache_get k c)) = contents c \<and>
    rcMaxBytes (snd (cache_get k c)) = rcMaxBytes c"
  proof (cases "rcItems c k")
    case None
    then have "\<forall>e \<in> set (rcLru c). leKey e \<noteq> k" using l unfolding linked_def by (metis option.distinct(1))
    then have "find (\<lambda>e. leKey e = k) (rcLru c) = None" by (simp add: find_None_iff)
    with None assms show ?thesis by (simp add: cache_get_def contents_def)
  next
    case (Some i)
    then obtain e where e: "e \<in> set (rcLru c)" "leID e = i" "leKey e = k" using l unfolding linked_def by blast
    note same = same_element [OF l _ e(1)]
    let ?c = "move_to_front e c" and ?rest = "filter (\<lambda>x. leID x \<noteq> leID e) (rcLru c)"
    have get: "cache_get k c = (Some (leData e), ?c)" using Some e element_Some [OF l e(1)] by (simp add: cache_get_def)
    have found: "find (\<lambda>x. leKey x = leKey e) (rcLru c) = Some e" by (rule find_unique) (use l e in \<open>auto simp: linked_def\<close>)
    have set: "set (rcLru ?c) = set (rcLru c)" using same(1) e(1) by (auto simp: move_to_front_def)
    have "distinct (map leID (rcLru ?c))" "distinct (map leKey (rcLru ?c))"
    proof -
      have "leKey x \<noteq> leKey e" if "x \<in> set (rcLru c)" "leID x \<noteq> leID e" for x
        using same(2) [OF that(1)] that(2) by auto
      then have "leKey e \<notin> leKey ` set ?rest" by force
      then show "distinct (map leID (rcLru ?c))" "distinct (map leKey (rcLru ?c))"
        using l by (auto simp: move_to_front_def linked_def distinct_map_filter)
    qed
    moreover have "total_bytes (rcLru ?c) = total_bytes (rcLru c)"
      using total_bytes_filter [of "rcLru c" e] l e(1) by (simp add: move_to_front_def linked_def)
    moreover have "rcItems ?c = rcItems c" "rcBytes ?c = rcBytes c" "rcMaxBytes ?c = rcMaxBytes c" "rcFresh ?c = rcFresh c"
      by (simp_all add: move_to_front_def)
    ultimately have inv: "cache_inv ?c" using assms unfolding cache_inv_def linked_def set by simp
    have "find (\<lambda>x. leKey x = j) (rcLru ?c) = find (\<lambda>x. leKey x = j) (rcLru c)" for j
    proof (cases "leKey e = j")
      case True
      with found show ?thesis by (simp add: move_to_front_def)
    next
      case False
      have "find (\<lambda>x. leKey x = j) (filter (\<lambda>x. leID x \<noteq> leID e) xs) = find (\<lambda>x. leKey x = j) xs"
        if "set xs \<subseteq> set (rcLru c)" for xs
        using that same False by (induction xs) auto
      with False show ?thesis by (simp add: move_to_front_def)
    qed
    then have "contents ?c = contents c" by (simp add: contents_def [abs_def])
    with get inv found e(3) show ?thesis by (simp add: contents_def) (simp add: move_to_front_def)
  qed
  then show "fst (cache_get k c) = contents c k" "cache_inv (snd (cache_get k c))" "contents (snd (cache_get k c)) = contents c"
    "rcMaxBytes (snd (cache_get k c)) = rcMaxBytes c" by simp_all
qed

section \<open>Runs\<close>

datatype cache_op = Put cache_key "byte list" | Get cache_key | Clear

fun cache_run :: "cache_op list \<Rightarrow> ram_cache \<Rightarrow> ram_cache option" where
  "cache_run [] c = Some c"
| "cache_run (Put k v # ops) c = Option.bind (cache_put k v c) (cache_run ops)"
| "cache_run (Get k # ops) c = cache_run ops (snd (cache_get k c))"
| "cache_run (Clear # ops) c = cache_run ops (cache_clear c)"

text \<open>What a map without a limit would hold: the last value put since the last clear.\<close>

fun last_put :: "int \<Rightarrow> cache_op list \<Rightarrow> (cache_key \<Rightarrow> byte list option) \<Rightarrow> cache_key \<Rightarrow> byte list option" where
  "last_put limit [] m = m"
| "last_put limit (Put k v # ops) m =
     last_put limit ops (if int (length v) > limit \<or> ckLength k \<noteq> int (length v) then m else m(k \<mapsto> v))"
| "last_put limit (Get k # ops) m = last_put limit ops m"
| "last_put limit (Clear # ops) m = last_put limit ops Map.empty"

lemma run_sound:
  "cache_inv c \<Longrightarrow> contents c \<subseteq>\<^sub>m m \<Longrightarrow> \<exists>c'. cache_run ops c = Some c' \<and> cache_inv c' \<and>
     contents c' \<subseteq>\<^sub>m last_put (rcMaxBytes c) ops m \<and> rcMaxBytes c' = rcMaxBytes c"
proof (induction ops arbitrary: c m)
  case (Cons op ops)
  show ?case
  proof (cases op)
    case (Put k v)
    obtain c1 where c1: "cache_put k v c = Some c1" "cache_inv c1" "rcMaxBytes c1 = rcMaxBytes c"
      "if int (length v) > rcMaxBytes c \<or> ckLength k \<noteq> int (length v) then c1 = c
       else contents c1 \<subseteq>\<^sub>m (contents c)(k \<mapsto> v) \<and> contents c1 k = Some v"
      using put_sound [OF Cons.prems(1)] by blast
    have "contents c1 \<subseteq>\<^sub>m (if int (length v) > rcMaxBytes c \<or> ckLength k \<noteq> int (length v) then m else m(k \<mapsto> v))"
    proof (cases "int (length v) > rcMaxBytes c \<or> ckLength k \<noteq> int (length v)")
      case False
      have "(contents c)(k \<mapsto> v) \<subseteq>\<^sub>m m(k \<mapsto> v)" by (rule map_le_upd [OF Cons.prems(2)])
      with False c1(4) map_le_trans show ?thesis by auto
    qed (use c1(4) Cons.prems(2) in simp)
    from Cons.IH [OF c1(2) this] c1(1,3) show ?thesis by (auto simp: Put)
  next
    case (Get k)
    have "contents (snd (cache_get k c)) \<subseteq>\<^sub>m m" using get_sound(3) [OF Cons.prems(1)] Cons.prems(2) by simp
    from Cons.IH [OF get_sound(2) [OF Cons.prems(1)] this] get_sound(4) [OF Cons.prems(1), of k] show ?thesis by (simp add: Get)
  next
    case Clear
    have "cache_inv (cache_clear c)" "contents (cache_clear c) \<subseteq>\<^sub>m Map.empty"
      using Cons.prems(1) by (auto simp: cache_inv_def linked_def cache_clear_def contents_def map_le_def)
    from Cons.IH [OF this] show ?thesis by (simp add: Clear cache_clear_def)
  qed
qed auto

lemma new_cache_inv: "cache_inv (new_cache limit)"
  by (simp add: new_cache_def cache_inv_def linked_def)

section \<open>Property\<close>

text \<open>
  C36.  After any sequence of calls from \<open>New\<close> the cache has returned from each of them, holds at
  most its limit of bytes, its map and its list agree, and what \<open>Get\<close> returns for a key is the
  value last put under it since the last \<open>Clear\<close>; a value that was just accepted is there.
\<close>

theorem ram_cache_invariant:
  "\<exists>c. cache_run ops (new_cache limit) = Some c \<and> cache_inv c \<and>
     (\<forall>k v. fst (cache_get k c) = Some v \<longrightarrow> last_put (rcMaxBytes c) ops Map.empty k = Some v) \<and>
     (\<forall>k v. int (length v) \<le> rcMaxBytes c \<longrightarrow> ckLength k = int (length v) \<longrightarrow>
        (\<exists>c'. cache_put k v c = Some c' \<and> fst (cache_get k c') = Some v))"
proof -
  have "contents (new_cache limit) \<subseteq>\<^sub>m Map.empty" by (simp add: new_cache_def contents_def map_le_def)
  from run_sound [OF new_cache_inv this, of ops] obtain c where c: "cache_run ops (new_cache limit) = Some c" "cache_inv c"
    "contents c \<subseteq>\<^sub>m last_put (rcMaxBytes (new_cache limit)) ops Map.empty" "rcMaxBytes c = rcMaxBytes (new_cache limit)" by blast
  have "last_put (rcMaxBytes c) ops Map.empty k = Some v" if "fst (cache_get k c) = Some v" for k v
    using that get_sound(1) [OF c(2), of k] c(3,4) by (metis domI map_le_def)
  moreover have "\<exists>c'. cache_put k v c = Some c' \<and> fst (cache_get k c') = Some v"
    if "int (length v) \<le> rcMaxBytes c" "ckLength k = int (length v)" for k v
    using put_sound [OF c(2), of k v] that get_sound(1) by fastforce
  ultimately show ?thesis using c(1,2) by blast
qed

definition demo_key :: cache_key where
  "demo_key = \<lparr>ckSnapshot = ''s'', ckOffset = 0, ckLength = 2, ckVersion = 1\<rparr>"

theorem ram_cache_invariant_witness:
  "\<exists>c. cache_run [Put demo_key [1, 2], Get demo_key, Put demo_key [3, 4]] (new_cache 3) = Some c \<and> cache_inv c"
  using ram_cache_invariant [of "[Put demo_key [1, 2], Get demo_key, Put demo_key [3, 4]]" 3] by blast

end
