(* ===== verification/Auth_Manager.thy ===== *)
theory Auth_Manager
  imports Go_Std
begin

text \<open>
  \<open>server/host-daemon/auth/manager.go\<close>: browser sessions and the administrator's password.  The
  clock and the random bytes are arguments of the calls, and the key derivation
  (\<open>golang.org/x/crypto/argon2\<close>) is a parameter.  The password file is what \<open>os.ReadFile\<close> and
  \<open>json.Unmarshal\<close> give: an error or a record.  \<open>save\<close> runs with a list of outcomes of its
  calls on the file system.
\<close>

section \<open>Standard library: base64 without padding\<close>

definition std_alphabet :: string where
  "std_alphabet = ''ABCDEFGHIJKLMNOPQRSTUVWXYZabcdefghijklmnopqrstuvwxyz0123456789+/''"

definition url_alphabet :: string where
  "url_alphabet = ''ABCDEFGHIJKLMNOPQRSTUVWXYZabcdefghijklmnopqrstuvwxyz0123456789-_''"

fun sextets :: "nat list \<Rightarrow> nat list" where
  "sextets [] = []"
| "sextets [a] = [a div 4, a mod 4 * 16]"
| "sextets [a, b] = [a div 4, a mod 4 * 16 + b div 16, b mod 16 * 4]"
| "sextets (a # b # c # rest) =
     [a div 4, a mod 4 * 16 + b div 16, b mod 16 * 4 + c div 64, c mod 64] @ sextets rest"

fun octets :: "nat list \<Rightarrow> nat list option" where
  "octets [] = Some []"
| "octets [w] = None"
| "octets [w, x] = Some [w * 4 + x div 16]"
| "octets [w, x, y] = Some [w * 4 + x div 16, x mod 16 * 16 + y div 4]"
| "octets (w # x # y # z # rest) =
     map_option (\<lambda>bs. [w * 4 + x div 16, x mod 16 * 16 + y div 4, y mod 4 * 64 + z] @ bs) (octets rest)"

definition raw_encode :: "string \<Rightarrow> byte list \<Rightarrow> string" where
  "raw_encode alphabet bs = map ((!) alphabet) (sextets (map unat bs))"

definition sextet_of :: "string \<Rightarrow> char \<Rightarrow> nat option" where
  "sextet_of alphabet c = (let i = length (takeWhile (\<lambda>d. d \<noteq> c) alphabet) in if i < 64 then Some i else None)"

text \<open>Line breaks are skipped; the unused bits of the last character are not looked at.\<close>

definition raw_decode :: "string \<Rightarrow> string \<Rightarrow> byte list option" where
  "raw_decode alphabet s =
     (let digits = map (sextet_of alphabet) (filter (\<lambda>c. c \<noteq> CHR 0x0A \<and> c \<noteq> CHR 0x0D) s)
      in if None \<in> set digits then None else map_option (map word_of_nat) (octets (map the digits)))"

lemma sextets_bound: "\<forall>b \<in> set bs. b < 256 \<Longrightarrow> \<forall>x \<in> set (sextets bs). x < 64"
  by (induction bs rule: sextets.induct) (auto simp: div_less_iff_less_mult intro: order_less_le_trans)

lemma sextet_pair: "a < 256 \<Longrightarrow> b < 256 \<Longrightarrow> (a mod 4 * 16 + b div 16) div 16 = a mod 4 \<and> (a mod 4 * 16 + b div 16) mod 16 = (b :: nat) div 16"
  by (simp add: div_less_iff_less_mult div_mult_self3 mod_mult_self3)

lemma sextet_pair4: "b < 256 \<Longrightarrow> c < 256 \<Longrightarrow> (b mod 16 * 4 + c div 64) div 4 = b mod 16 \<and> (b mod 16 * 4 + c div 64) mod 4 = (c :: nat) div 64"
  by (simp add: div_less_iff_less_mult div_mult_self3 mod_mult_self3)

lemma octets_sextets: "\<forall>b \<in> set bs. b < 256 \<Longrightarrow> octets (sextets bs) = Some bs"
proof (induction bs rule: sextets.induct)
  case (4 a b c rest)
  then have "a < 256" "b < 256" "c < 256" by simp_all
  then show ?case using 4 sextet_pair [of a b] sextet_pair4 [of b c] by simp
next
  case (3 a b)
  then show ?case using sextet_pair [of a b] by simp
qed auto

lemma sextet_of_nth:
  assumes "distinct alphabet" "length alphabet = 64" "x < 64"
  shows "sextet_of alphabet (alphabet ! x) = Some x"
proof -
  have "takeWhile (\<lambda>d. d \<noteq> alphabet ! x) alphabet = take x alphabet"
    using assms by (intro takeWhile_eq_take_P_nth) (auto simp: nth_eq_iff_index_eq)
  then show ?thesis using assms by (simp add: sextet_of_def Let_def)
qed

lemma raw_roundtrip:
  assumes "distinct alphabet" "length alphabet = 64" "CHR 0x0A \<notin> set alphabet" "CHR 0x0D \<notin> set alphabet"
  shows "raw_decode alphabet (raw_encode alphabet bs) = Some bs"
proof -
  have b: "\<forall>b \<in> set (map unat bs). b < 256"
    using unsigned_less [where ?'b = 8 and ?'a = nat] by auto
  note x = sextets_bound [OF this]
  have in_set: "alphabet ! i \<in> set alphabet" if "i < 64" for i using that assms(2) by simp
  have keep: "filter (\<lambda>c. c \<noteq> CHR 0x0A \<and> c \<noteq> CHR 0x0D) (raw_encode alphabet bs) = raw_encode alphabet bs"
  proof (rule filter_True)
    have "c \<in> set alphabet" if "c \<in> set (raw_encode alphabet bs)" for c using that x in_set by (auto simp: raw_encode_def)
    with assms(3,4) show "\<forall>c \<in> set (raw_encode alphabet bs). c \<noteq> CHR 0x0A \<and> c \<noteq> CHR 0x0D" by blast
  qed
  have digits: "map (sextet_of alphabet) (raw_encode alphabet bs) = map Some (sextets (map unat bs))"
    using x sextet_of_nth [OF assms(1,2)] by (auto simp: raw_encode_def)
  show ?thesis
    unfolding raw_decode_def Let_def keep digits using octets_sextets [OF b] by (auto simp: comp_def)
qed

lemma std_roundtrip: "raw_decode std_alphabet (raw_encode std_alphabet bs) = Some bs"
  by (rule raw_roundtrip) (simp_all add: std_alphabet_def)

section \<open>State\<close>

record password_record =
  prSchema :: int
  prSalt :: string
  prHash :: string
  prTime :: nat
  prMemory :: nat
  prThreads :: nat
  prKeyLen :: nat

record session =
  snID :: string
  snCSRF :: string
  snExpires :: int
  snPasswordChange :: bool

record auth_manager =
  amUsername :: string
  amBootstrap :: string
  amTTL :: int
  amSessions :: "(string \<times> session) list"
  amFile :: "go_err + password_record"

type_synonym idkey = "string \<Rightarrow> byte list \<Rightarrow> nat \<Rightarrow> nat \<Rightarrow> nat \<Rightarrow> nat \<Rightarrow> byte list"

abbreviation (input) argon_time :: nat where "argon_time \<equiv> 3"
abbreviation (input) argon_memory :: nat where "argon_memory \<equiv> 65536"
abbreviation (input) argon_threads :: nat where "argon_threads \<equiv> 2"
abbreviation (input) argon_key_length :: nat where "argon_key_length \<equiv> 32"

text \<open>\<open>mkdir\<close> and \<open>chmod\<close> are what the two calls return; \<open>stored\<close> is the password file.\<close>

definition new_manager_auth ::
  "string \<Rightarrow> string \<Rightarrow> int \<Rightarrow> go_err option \<Rightarrow> go_err option \<Rightarrow> (go_err + password_record) \<Rightarrow> go_err + auth_manager" where
  "new_manager_auth username bootstrap ttl mkdir chmod stored =
     (if username = '''' \<or> length bootstrap < 8 then Inl (Msg ''invalid browser bootstrap credentials'')
      else if ttl \<le> 0 \<or> ttl > 7 * 24 * 3600000000000 then Inl (Msg ''invalid browser session lifetime'')
      else case mkdir of Some err \<Rightarrow> Inl err
      | None \<Rightarrow> (case chmod of Some err \<Rightarrow> Inl err
        | None \<Rightarrow> Inr \<lparr>amUsername = username, amBootstrap = bootstrap, amTTL = ttl, amSessions = [], amFile = stored\<rparr>))"

section \<open>Sessions\<close>

definition random_token :: "(go_err + byte list) \<Rightarrow> go_err + string" where
  "random_token r = map_sum id (raw_encode url_alphabet) r"

definition expire_locked :: "int \<Rightarrow> auth_manager \<Rightarrow> auth_manager" where
  "expire_locked now m = m\<lparr>amSessions := filter (\<lambda>(i, s). now < snExpires s) (amSessions m)\<rparr>"

text \<open>The two random reads, and the times of the two calls of the clock.\<close>

definition new_session ::
  "bool \<Rightarrow> (go_err + byte list) \<Rightarrow> (go_err + byte list) \<Rightarrow> int \<Rightarrow> int \<Rightarrow> auth_manager \<Rightarrow> (go_err + session) \<times> auth_manager" where
  "new_session force r1 r2 now1 now2 m = (case random_token r1 of
     Inl err \<Rightarrow> (Inl err, m)
   | Inr i \<Rightarrow>
       (case random_token r2 of
          Inl err \<Rightarrow> (Inl err, m)
        | Inr csrf \<Rightarrow>
            (let m1 = expire_locked now1 m;
                 s = \<lparr>snID = i, snCSRF = csrf, snExpires = now2 + amTTL m1, snPasswordChange = force\<rparr>
             in (Inr s, m1\<lparr>amSessions := AList.update i s (amSessions m1)\<rparr>))))"

definition validate_session :: "string \<Rightarrow> int \<Rightarrow> auth_manager \<Rightarrow> session option \<times> auth_manager" where
  "validate_session i now m = (let m1 = expire_locked now m in (map_of (amSessions m1) i, m1))"

definition logout :: "string \<Rightarrow> auth_manager \<Rightarrow> auth_manager" where
  "logout i m = m\<lparr>amSessions := AList.delete i (amSessions m)\<rparr>"

section \<open>The password\<close>

definition load_password :: "auth_manager \<Rightarrow> go_err + password_record" where
  "load_password m = (case amFile m of
     Inl err \<Rightarrow> Inl err
   | Inr r \<Rightarrow>
       if prSchema r \<noteq> 1 \<or> prTime r = 0 \<or> prMemory r < 8192 \<or> prThreads r = 0 \<or> prKeyLen r < 16
       then Inl (Msg ''invalid browser password record'') else Inr r)"

text \<open>Whether the password is right, and whether it is the bootstrap password.\<close>

definition authenticate :: "idkey \<Rightarrow> string \<Rightarrow> string \<Rightarrow> auth_manager \<Rightarrow> bool \<times> bool" where
  "authenticate key username password m =
     (if username \<noteq> amUsername m then (False, False)
      else case load_password m of
        Inl err \<Rightarrow>
          if errors_Is err ErrNotExist then (password = amBootstrap m, password = amBootstrap m) else (False, False)
      | Inr r \<Rightarrow>
          (case raw_decode std_alphabet (prSalt r) of
             None \<Rightarrow> (False, False)
           | Some salt \<Rightarrow>
               (case raw_decode std_alphabet (prHash r) of
                  None \<Rightarrow> (False, False)
                | Some expected \<Rightarrow>
                    (key password salt (prTime r) (prMemory r) (prThreads r) (prKeyLen r) = expected, False))))"

record save_outcomes =
  svCreate :: "go_err option"
  svChmod :: "go_err option"
  svWrite :: "go_err option"
  svSync :: "go_err option"
  svCloseTemp :: "go_err option"
  svRename :: "go_err option"
  svOpenDir :: "go_err option"
  svSyncDir :: "go_err option"

definition or_else :: "go_err option \<Rightarrow> go_err option \<Rightarrow> go_err option" where
  "or_else a b = (case a of Some e \<Rightarrow> Some e | None \<Rightarrow> b)"

definition save_password :: "password_record \<Rightarrow> save_outcomes \<Rightarrow> auth_manager \<Rightarrow> go_err option \<times> auth_manager" where
  "save_password r os m =
     (case svCreate os of Some err \<Rightarrow> (Some err, m)
      | None \<Rightarrow>
          (case or_else (or_else (or_else (svChmod os) (svWrite os)) (svSync os)) (svCloseTemp os) of
             Some err \<Rightarrow> (Some err, m)
           | None \<Rightarrow>
               (case svRename os of Some err \<Rightarrow> (Some err, m)
                | None \<Rightarrow>
                    (let m1 = m\<lparr>amFile := Inr r\<rparr>
                     in case svOpenDir os of Some err \<Rightarrow> (Some err, m1) | None \<Rightarrow> (svSyncDir os, m1)))))"

definition change_password ::
  "idkey \<Rightarrow> string \<Rightarrow> string \<Rightarrow> string \<Rightarrow> int \<Rightarrow> (go_err + byte list) \<Rightarrow> save_outcomes \<Rightarrow> auth_manager \<Rightarrow>
   go_err option \<times> auth_manager" where
  "change_password key sessionID current nextPassword now salt0 os m =
     (if length nextPassword < 12 then (Some (Msg ''new password must contain at least 12 characters''), m)
      else case validate_session sessionID now m of
        (None, m1) \<Rightarrow> (Some (Msg ''session expired''), m1)
      | (Some s, m1) \<Rightarrow>
          if \<not> fst (authenticate key (amUsername m1) current m1)
          then (Some (Msg ''current password is incorrect''), m1)
          else (case salt0 of
                  Inl err \<Rightarrow> (Some err, m1)
                | Inr salt \<Rightarrow>
                    (case save_password
                       \<lparr>prSchema = 1, prSalt = raw_encode std_alphabet salt,
                        prHash = raw_encode std_alphabet
                          (key nextPassword salt argon_time argon_memory argon_threads argon_key_length),
                        prTime = argon_time, prMemory = argon_memory, prThreads = argon_threads,
                        prKeyLen = argon_key_length\<rparr> os m1 of
                       (Some err, m2) \<Rightarrow> (Some err, m2)
                     | (None, m2) \<Rightarrow> (None, m2\<lparr>amSessions := []\<rparr>))))"

section \<open>What a session is worth\<close>

text \<open>
  Calls with their times, and the sessions that a table without lazy expiry would hold: one for
  each \<open>NewSession\<close> that is neither logged out nor older than a password change.
\<close>

datatype auth_event =
    NewSession bool "byte list" "byte list" int
  | Validate string int
  | Logout string
  | ChangePassword string string string int "byte list" save_outcomes

fun event_time :: "auth_event \<Rightarrow> int option" where
  "event_time (NewSession force r1 r2 t) = Some t"
| "event_time (Validate i t) = Some t"
| "event_time (Logout i) = None"
| "event_time (ChangePassword i a b t salt os) = Some t"

fun auth_step :: "idkey \<Rightarrow> auth_event \<Rightarrow> auth_manager \<Rightarrow> auth_manager" where
  "auth_step key (NewSession force r1 r2 t) m = snd (new_session force (Inr r1) (Inr r2) t t m)"
| "auth_step key (Validate i t) m = snd (validate_session i t m)"
| "auth_step key (Logout i) m = logout i m"
| "auth_step key (ChangePassword i a b t salt os) m = snd (change_password key i a b t (Inr salt) os m)"

text \<open>Whether a change of the password went through.\<close>

fun password_changed :: "idkey \<Rightarrow> auth_event \<Rightarrow> auth_manager \<Rightarrow> bool" where
  "password_changed key (ChangePassword i a b t salt os) m = (fst (change_password key i a b t (Inr salt) os m) = None)"
| "password_changed key _ m = False"

fun issued :: "idkey \<Rightarrow> auth_event list \<Rightarrow> auth_manager \<Rightarrow> (string \<Rightarrow> session option) \<Rightarrow> string \<Rightarrow> session option" where
  "issued key [] m tab = tab"
| "issued key (ev # evs) m tab = issued key evs (auth_step key ev m)
     (case ev of
        NewSession force r1 r2 t \<Rightarrow>
          tab(raw_encode url_alphabet r1 \<mapsto> \<lparr>snID = raw_encode url_alphabet r1, snCSRF = raw_encode url_alphabet r2,
            snExpires = t + amTTL m, snPasswordChange = force\<rparr>)
      | Logout i \<Rightarrow> tab(i := None)
      | Validate i t \<Rightarrow> tab
      | ChangePassword i a b t salt os \<Rightarrow> if password_changed key ev m then Map.empty else tab)"

fun run_auth :: "idkey \<Rightarrow> auth_event list \<Rightarrow> auth_manager \<Rightarrow> auth_manager" where
  "run_auth key [] m = m"
| "run_auth key (ev # evs) m = run_auth key evs (auth_step key ev m)"

text \<open>The calls are in the order of time, from \<open>t0\<close> on.\<close>

fun in_order :: "int \<Rightarrow> auth_event list \<Rightarrow> bool" where
  "in_order t0 [] = True"
| "in_order t0 (ev # evs) = (case event_time ev of None \<Rightarrow> in_order t0 evs | Some t \<Rightarrow> t0 \<le> t \<and> in_order t evs)"

fun end_time :: "int \<Rightarrow> auth_event list \<Rightarrow> int" where
  "end_time t0 [] = t0"
| "end_time t0 (ev # evs) = end_time (case event_time ev of None \<Rightarrow> t0 | Some t \<Rightarrow> t) evs"

text \<open>At time \<open>t\<close> the table holds the issued sessions, less some that have expired.\<close>

definition table_of :: "int \<Rightarrow> auth_manager \<Rightarrow> (string \<Rightarrow> session option) \<Rightarrow> bool" where
  "table_of t m tab \<longleftrightarrow> distinct (map fst (amSessions m)) \<and>
     (\<forall>i. map_of (amSessions m) i = tab i \<or>
          map_of (amSessions m) i = None \<and> (\<exists>s. tab i = Some s \<and> snExpires s \<le> t))"

lemma map_of_filter_val:
  "distinct (map fst xs) \<Longrightarrow> map_of (filter (\<lambda>(i, s). P s) xs) i =
     (case map_of xs i of None \<Rightarrow> None | Some s \<Rightarrow> if P s then Some s else None)"
proof (induction xs)
  case (Cons x xs)
  obtain j s where x: "x = (j, s)" by (cases x)
  have "map_of xs j = None" using Cons.prems by (simp add: x map_of_eq_None_iff)
  with Cons show ?case by (auto simp: x split: option.split)
qed simp

lemma expire_table:
  assumes "table_of t m tab" "t \<le> now"
  shows "table_of now (expire_locked now m) tab"
    "map_of (amSessions (expire_locked now m)) i = (case tab i of Some s \<Rightarrow> if now < snExpires s then Some s else None | None \<Rightarrow> None)"
proof -
  have d: "distinct (map fst (amSessions m))" using assms(1) by (simp add: table_of_def)
  then have d2: "distinct (map fst (amSessions (expire_locked now m)))"
    by (simp add: expire_locked_def distinct_map_filter)
  have look: "map_of (amSessions (expire_locked now m)) i =
      (case tab i of Some s \<Rightarrow> if now < snExpires s then Some s else None | None \<Rightarrow> None)" for i
  proof -
    have "map_of (amSessions (expire_locked now m)) i = (case map_of (amSessions m) i of None \<Rightarrow> None
        | Some s \<Rightarrow> if now < snExpires s then Some s else None)"
      unfolding expire_locked_def using map_of_filter_val [OF d] by simp
    moreover have "map_of (amSessions m) i = tab i \<or> map_of (amSessions m) i = None \<and> (\<exists>s. tab i = Some s \<and> snExpires s \<le> t)"
      using assms(1) by (simp add: table_of_def)
    ultimately show ?thesis using assms(2) by (cases "tab i"; cases "map_of (amSessions m) i") auto
  qed
  show "map_of (amSessions (expire_locked now m)) i = (case tab i of Some s \<Rightarrow> if now < snExpires s then Some s else None | None \<Rightarrow> None)"
    by (rule look)
  show "table_of now (expire_locked now m) tab" using d2 look by (auto simp: table_of_def split: option.split)
qed

lemma expire_keeps [simp]:
  "amTTL (expire_locked now m) = amTTL m" "amUsername (expire_locked now m) = amUsername m"
  "amBootstrap (expire_locked now m) = amBootstrap m" "amFile (expire_locked now m) = amFile m"
  by (simp_all add: expire_locked_def)

lemma save_sessions: "amSessions (snd (save_password r os m)) = amSessions m"
  by (auto simp: save_password_def Let_def split: option.split)

lemma change_table:
  assumes "table_of t m tab" "t \<le> now"
  shows "table_of now (snd (change_password key i a b now salt os m))
    (if fst (change_password key i a b now salt os m) = None then Map.empty else tab)"
proof -
  note e = expire_table(1) [OF assms]
  have keep: "table_of now m tab" using assms by (force simp: table_of_def)
  have saved: "table_of now (snd (save_password r os (expire_locked now m))) tab" for r
    using e by (simp add: table_of_def save_sessions)
  show ?thesis
  proof (cases "length b < 12")
    case True
    with keep show ?thesis by (simp add: change_password_def)
  next
    case False
    obtain v m1 where v: "validate_session i now m = (v, m1)" by (metis prod.exhaust)
    then have m1: "m1 = expire_locked now m" by (auto simp: validate_session_def Let_def)
    show ?thesis
      using False e saved v unfolding change_password_def m1
      by (auto split: option.split sum.split prod.split simp: table_of_def) (metis snd_conv)+
  qed
qed

lemma step_table:
  assumes "table_of t m tab" "case event_time ev of None \<Rightarrow> True | Some now \<Rightarrow> t \<le> now"
  shows "table_of (case event_time ev of None \<Rightarrow> t | Some now \<Rightarrow> now) (auth_step key ev m)
    (case ev of
        NewSession force r1 r2 now \<Rightarrow>
          tab(raw_encode url_alphabet r1 \<mapsto> \<lparr>snID = raw_encode url_alphabet r1, snCSRF = raw_encode url_alphabet r2,
            snExpires = now + amTTL m, snPasswordChange = force\<rparr>)
      | Logout i \<Rightarrow> tab(i := None)
      | Validate i now \<Rightarrow> tab
      | ChangePassword i a b now salt os \<Rightarrow> if password_changed key ev m then Map.empty else tab)"
proof (cases ev)
  case (NewSession force r1 r2 now)
  have e: "table_of now (expire_locked now m) tab" using expire_table(1) [OF assms(1)] assms(2) by (simp add: NewSession)
  then show ?thesis
    by (auto simp: NewSession new_session_def random_token_def Let_def table_of_def update_conv' distinct_update)
next
  case (Validate i now)
  with expire_table(1) [OF assms(1), of now] assms(2) show ?thesis by (simp add: validate_session_def Let_def)
next
  case (Logout i)
  with assms(1) show ?thesis by (auto simp: table_of_def logout_def delete_conv' distinct_delete)
next
  case (ChangePassword i a b now salt os)
  with change_table [OF assms(1), of now key i a b "Inr salt" os] assms(2) show ?thesis by simp
qed

lemma run_table:
  "table_of t m tab \<Longrightarrow> in_order t evs \<Longrightarrow> table_of (end_time t evs) (run_auth key evs m) (issued key evs m tab)"
proof (induction evs arbitrary: t m tab)
  case (Cons ev evs)
  let ?t = "case event_time ev of None \<Rightarrow> t | Some now \<Rightarrow> now"
  have le: "case event_time ev of None \<Rightarrow> True | Some now \<Rightarrow> t \<le> now" and rest: "in_order ?t evs"
    using Cons.prems(2) by (auto split: option.splits)
  from Cons.IH [OF step_table [OF Cons.prems(1) le] rest] show ?case by simp
qed simp

section \<open>Properties\<close>

text \<open>
  C37.  After any calls in the order of time on a fresh manager, \<open>Validate\<close> accepts an ID exactly
  if a session was issued under it whose lifetime has not ended, that was not logged out, and
  after which no password change went through; and it returns that session.
\<close>

theorem sessions_valid_exactly:
  assumes "new_manager_auth username bootstrap ttl mkdir chmod stored = Inr m" "in_order t0 evs" "end_time t0 evs \<le> now"
  shows "fst (validate_session i now (run_auth key evs m)) =
    (case issued key evs m Map.empty i of Some s \<Rightarrow> if now < snExpires s then Some s else None | None \<Rightarrow> None)"
proof -
  have "amSessions m = []" using assms(1) by (auto simp: new_manager_auth_def split: if_splits option.splits)
  then have "table_of t0 m Map.empty" by (simp add: table_of_def)
  from expire_table(2) [OF run_table [OF this assms(2)] assms(3)] show ?thesis
    by (simp add: validate_session_def Let_def)
qed

text \<open>
  C38.  A password change that reports success takes the new password: from then on it, and no
  password with another key, is accepted, the bootstrap password no longer as such, and every
  session is closed.  It needed a live session and the current password.
\<close>

theorem password_change_takes_effect:
  assumes "change_password key i current nextPassword now (Inr salt) os m = (None, m')"
  shows "12 \<le> length nextPassword \<and> fst (validate_session i now m) \<noteq> None \<and>
    fst (authenticate key (amUsername m) current m) \<and> amSessions m' = [] \<and> amUsername m' = amUsername m \<and>
    (\<forall>p. authenticate key (amUsername m) p m' =
       (key p salt argon_time argon_memory argon_threads argon_key_length =
        key nextPassword salt argon_time argon_memory argon_threads argon_key_length, False))"
proof -
  define r where "r = \<lparr>prSchema = 1, prSalt = raw_encode std_alphabet salt,
    prHash = raw_encode std_alphabet (key nextPassword salt argon_time argon_memory argon_threads argon_key_length),
    prTime = argon_time, prMemory = argon_memory, prThreads = argon_threads, prKeyLen = argon_key_length\<rparr>"
  define m1 where "m1 = expire_locked now m"
  have v: "validate_session i now m = (map_of (amSessions m1) i, m1)" by (simp add: validate_session_def Let_def m1_def)
  from assms obtain s m2 where s: "12 \<le> length nextPassword" "map_of (amSessions m1) i = Some s"
    "fst (authenticate key (amUsername m1) current m1)" "save_password r os m1 = (None, m2)" "m' = m2\<lparr>amSessions := []\<rparr>"
    unfolding change_password_def v r_def by (auto split: if_splits option.splits prod.splits)
  from s(4) have m2: "m2 = m1\<lparr>amFile := Inr r\<rparr>" by (auto simp: save_password_def Let_def split: option.splits)
  have same: "authenticate key (amUsername m1) current m1 = authenticate key (amUsername m) current m"
    unfolding m1_def authenticate_def load_password_def expire_keeps ..
  have "load_password m' = Inr r" by (simp add: s(5) m2 load_password_def r_def)
  then have "authenticate key (amUsername m) p m' =
      (key p salt argon_time argon_memory argon_threads argon_key_length =
       key nextPassword salt argon_time argon_memory argon_threads argon_key_length, False)" for p
    by (simp add: authenticate_def s(5) m2 m1_def std_roundtrip r_def)
  with s same v show ?thesis by (simp add: m2 m1_def)
qed

definition demo_manager :: auth_manager where
  "demo_manager = \<lparr>amUsername = ''admin'', amBootstrap = ''bootstrap1'', amTTL = 100,
     amSessions = [], amFile = Inl ErrNotExist\<rparr>"

definition plain_key :: idkey where
  "plain_key password salt t m p k = bytes_of password @ salt"

definition calm_save :: save_outcomes where
  "calm_save = \<lparr>svCreate = None, svChmod = None, svWrite = None, svSync = None, svCloseTemp = None, svRename = None,
     svOpenDir = None, svSyncDir = None\<rparr>"

theorem sessions_valid_exactly_witness:
  "fst (validate_session (raw_encode url_alphabet [1]) 50
     (run_auth plain_key [NewSession False [1] [2] 0, NewSession True [3] [4] 10, Logout (raw_encode url_alphabet [3])] demo_manager)) =
   Some \<lparr>snID = raw_encode url_alphabet [1], snCSRF = raw_encode url_alphabet [2], snExpires = 100, snPasswordChange = False\<rparr>"
proof -
  have m: "new_manager_auth ''admin'' ''bootstrap1'' 100 None None (Inl ErrNotExist) = Inr demo_manager"
    by (simp add: new_manager_auth_def demo_manager_def)
  have "raw_encode url_alphabet [1] \<noteq> raw_encode url_alphabet [3]" by (simp add: raw_encode_def url_alphabet_def)
  with sessions_valid_exactly [OF m, of 0
      "[NewSession False [1] [2] 0, NewSession True [3] [4] 10, Logout (raw_encode url_alphabet [3])]" 50
      "raw_encode url_alphabet [1]" plain_key]
  show ?thesis by (simp add: demo_manager_def new_session_def Let_def random_token_def logout_def)
qed

theorem password_change_takes_effect_witness:
  "\<exists>m'. change_password plain_key ''s'' ''bootstrap1'' ''a new password'' 5 (Inr [1, 2]) calm_save
       (demo_manager\<lparr>amSessions := [(''s'', \<lparr>snID = ''s'', snCSRF = ''c'', snExpires = 9, snPasswordChange = True\<rparr>)]\<rparr>) = (None, m') \<and>
     fst (authenticate plain_key ''admin'' ''a new password'' m')"
proof -
  let ?m = "demo_manager\<lparr>amSessions := [(''s'', \<lparr>snID = ''s'', snCSRF = ''c'', snExpires = 9, snPasswordChange = True\<rparr>)]\<rparr>"
  obtain m' where m': "change_password plain_key ''s'' ''bootstrap1'' ''a new password'' 5 (Inr [1, 2]) calm_save ?m = (None, m')"
    by (simp add: change_password_def validate_session_def expire_locked_def Let_def authenticate_def load_password_def
        demo_manager_def save_password_def calm_save_def or_else_def)
  from password_change_takes_effect [OF m'] have "fst (authenticate plain_key (amUsername ?m) ''a new password'' m')" by simp
  with m' show ?thesis by (auto simp: demo_manager_def)
qed

end
