(* ===== verification/Fat_Accepted.thy ===== *)
theory Fat_Accepted
  imports Fat_Build
begin

text \<open>
  What a successful \<open>Build\<close> of \<open>fat32virtual/layout.go\<close> says of its input: the files were valid, so
  the theorems about valid input apply, and the file map of the layout tells where each file lies.
\<close>

section \<open>The extents of the placed files\<close>

definition source_at :: "fat_file \<Rightarrow> fat_extent" where
  "source_at f = \<lparr>feVirtualOffset = ffVirtualOffset f, feLength = ffLogicalSize f,
     feSourcePath = ffSourcePath f, feSourceOffset = ffSourceOffset f, feSourceSize = ffSourceSize f,
     feIdentity = ffIdentity f, feReadOnly = True\<rparr>"

definition save_at :: "fat_file \<Rightarrow> save_extent" where
  "save_at f = \<lparr>sxVirtualOffset = ffVirtualOffset f, sxLength = ffLogicalSize f,
     sxSaveObjectID = ffSaveObjectID f, sxCardOffset = ffCardOffset f, sxCardSize = ffCardSize f,
     sxGenerationID = ffGenerationID f, sxLayoutChecksum = ''''\<rparr>"

definition accepted_file :: "fat_extent list \<Rightarrow> save_extent list \<Rightarrow> fat_file \<Rightarrow> bool" where
  "accepted_file srcs svs f \<longleftrightarrow>
     (if ffWritable f
      then ffSaveObjectID f \<noteq> '''' \<and> 0 < ffCardSize f \<and> ffLogicalSize f = ffCardSize f \<and>
           ffCardOffset f = 0 \<and> ffSourcePath f = '''' \<and> save_at f \<in> set svs
      else ffSourcePath f \<noteq> '''' \<and> source_at f \<in> set srcs)"

lemma accepted_file_mono:
  "accepted_file srcs svs f \<Longrightarrow> set srcs \<subseteq> set srcs' \<Longrightarrow> set svs \<subseteq> set svs' \<Longrightarrow> accepted_file srcs' svs' f"
  by (auto simp: accepted_file_def split: if_splits)

lemma file_extents_accepts:
  "file_extents_of ds fs files srcs svs = Inr (files', srcs', svs') \<Longrightarrow> list_all2 placed files0 files \<Longrightarrow>
   distinct (map fst fs) \<Longrightarrow> list_all (\<lambda>i. i < length files) (map fst fs) \<Longrightarrow>
   list_all2 placed files0 files' \<and> set srcs \<subseteq> set srcs' \<and> set svs \<subseteq> set svs' \<and>
   map sxSaveObjectID svs' = map sxSaveObjectID svs @
     map (\<lambda>i. ffSaveObjectID (files0 ! i)) (filter (\<lambda>i. ffWritable (files0 ! i)) (map fst fs)) \<and>
   (\<forall>i. i \<notin> set (map fst fs) \<longrightarrow> files' ! i = files ! i) \<and>
   list_all (\<lambda>i. accepted_file srcs' svs' (files' ! i)) (map fst fs)"
proof (induction ds fs files srcs svs rule: file_extents_of.induct)
  case (1 ds files srcs svs)
  then show ?case by simp
next
  case (2 ds i first fs files srcs svs)
  define f where "f = place_file (cluster_offset ds first) (files ! i)"
  have i: "i < length files" "i < length files0" using "2.prems"(4) list_all2_lengthD [OF "2.prems"(2)] by auto
  have "placed (files0 ! i) (files ! i)" using "2.prems"(2) i by (simp add: list_all2_nthD)
  then have pf: "placed (files0 ! i) f" by (simp add: f_def place_file_def placed_update)
  have l2: "list_all2 placed files0 (files[i := f])"
    using "2.prems"(2) pf by (metis list_all2_update_cong list_update_id)
  have same: "ffWritable f = ffWritable (files0 ! i)" "ffSaveObjectID f = ffSaveObjectID (files0 ! i)"
    using placed_same [OF pf] by (simp_all add: save_of_def)
  have more: "distinct (map fst fs)" "list_all (\<lambda>j. j < length (files[i := f])) (map fst fs)" "i \<notin> set (map fst fs)"
    using "2.prems"(3,4) by simp_all
  have "cluster_offset ds first = ffVirtualOffset f" by (simp add: f_def place_file_def)
  then have at: "save_of ds first f = save_at f" "source_of ds first f = source_at f"
    by (simp_all add: save_of_def save_at_def source_of_def source_at_def)
  show ?case
  proof (cases "ffWritable f")
    case True
    have ok: "\<not> (ffSaveObjectID f = '''' \<or> ffCardSize f \<le> 0 \<or> ffLogicalSize f \<noteq> ffCardSize f \<or>
        ffCardOffset f < 0 \<or> ffCardOffset f > ffCardSize f - ffLogicalSize f \<or> ffSourcePath f \<noteq> '''')"
      using "2.prems"(1) True by (auto simp: Let_def f_def [symmetric] split: if_splits)
    have run: "file_extents_of ds fs (files[i := f]) srcs (svs @ [save_of ds first f]) = Inr (files', srcs', svs')"
      using "2.prems"(1) True ok by (simp add: Let_def f_def [symmetric] save_of_def)
    note ih = "2.IH"(1) [OF refl f_def refl True ok, folded save_of_def, OF run l2 more(1,2), unfolded at]
    have "files' ! i = f" using ih more(3) i by simp
    moreover have "accepted_file srcs' svs' f" using True ok ih by (auto simp: accepted_file_def)
    ultimately show ?thesis using ih True same more(3) by (auto simp: save_at_def nth_list_update split: if_splits)
  next
    case False
    have ok: "ffSourcePath f \<noteq> ''''"
      using "2.prems"(1) False by (auto simp: Let_def f_def [symmetric] split: if_splits)
    have run: "file_extents_of ds fs (files[i := f]) (srcs @ [source_of ds first f]) svs = Inr (files', srcs', svs')"
      using "2.prems"(1) False ok by (simp add: Let_def f_def [symmetric] source_of_def)
    note ih = "2.IH"(2) [OF refl f_def refl False ok, folded source_of_def, OF run l2 more(1,2), unfolded at]
    have "files' ! i = f" using ih more(3) i by simp
    moreover have "accepted_file srcs' svs' f" using False ok ih by (auto simp: accepted_file_def)
    ultimately show ?thesis using ih False same more(3) by (auto simp: nth_list_update split: if_splits)
  qed
qed

section \<open>A built layout\<close>

definition file_located :: "fat_layout \<Rightarrow> fat_file \<Rightarrow> bool" where
  "file_located l f \<longleftrightarrow>
     (if ffWritable f then (save_at f)\<lparr>sxLayoutChecksum := flLayoutChecksum l\<rparr> \<in> set (flSaveExtents l)
      else source_at f \<in> set (flSourceExtents l))"

lemma fat_chains_from_length: "fat_chains_from counts st = (firsts, st') \<Longrightarrow> length firsts = length counts"
  by (induction counts st arbitrary: firsts st' rule: fat_chains_from.induct) (auto split: prod.splits)

lemma check_saves_distinct:
  "check_saves sz svs seen = None \<Longrightarrow> distinct (map sxSaveObjectID svs) \<and> set (map sxSaveObjectID svs) \<inter> set seen = {}"
  by (induction sz svs seen rule: check_saves.induct) (auto split: if_splits)

lemma accepted_file_ok:
  assumes "accepted_file srcs svs f" "0 \<le> ffLogicalSize f" "ffLogicalSize f \<le> 4294967295"
    "list_all (source_range_ok sz) srcs"
  shows "file_ok f"
  using assms by (fastforce simp: accepted_file_def file_ok_def source_range_ok_def source_at_def list_all_iff split: if_splits)

lemma fat_build_tree_accepts:
  assumes "fat_build_tree sz label identity files root = Inr (l, md)"
    and "mset (file_indices root) = mset [0..<length files]"
  shows "list_all file_ok files \<and> distinct (map ffSaveObjectID (filter ffWritable files)) \<and>
    \<not> isl (fat_fit sz (int (sum_list (dir_counts root @ file_counts files root)))) \<and>
    list_all2 placed files (flFiles l) \<and> list_all (file_located l) (flFiles l)"
proof -
  let ?counts = "dir_counts root @ file_counts files root"
  have sizes: "\<not> list_ex (\<lambda>i. ffLogicalSize (files ! i) < 0 \<or> ffLogicalSize (files ! i) > 4294967295) (file_indices root)"
    using assms(1) by (auto simp: fat_build_tree_def split: if_splits)
  then obtain av F fd where fit: "fat_fit sz (int (sum_list ?counts)) = Inr (av, F, fd)"
    using assms(1) by (cases "fat_fit sz (int (sum_list ?counts))") (auto simp: fat_build_tree_def Let_def)
  obtain firsts nx fat where ch: "fat_chains_from ?counts (2, empty_fat F) = (firsts, nx, fat)" by (metis prod_cases3)
  obtain ds files' srcs svs g store where
    fe: "file_extents_of ds (file_firsts root firsts) files [] [] = Inr (files', srcs, svs)"
    and fin: "finish_layout sz g store (files', srcs, svs) = Inr (l, md)"
    using assms(1) sizes fit ch
    by (auto simp: fat_build_tree_def Let_def split: sum.splits)
  have len: "length firsts = length ?counts" by (rule fat_chains_from_length [OF ch])
  have ix: "map fst (file_firsts root firsts) = file_indices root"
    using len by (simp add: file_firsts_def dir_counts_def file_counts_def)
  have set_ix: "set (file_indices root) = {0..<length files}" and dist: "distinct (file_indices root)"
    using assms(2) mset_eq_setD mset_eq_imp_distinct_iff by fastforce+
  have "list_all2 placed files files" by (simp add: list.rel_refl placed_refl)
  note acc = file_extents_accepts [OF fe this, unfolded ix, OF dist]
  have "list_all (\<lambda>i. i < length files) (file_indices root)" using set_ix by (simp add: list_all_iff)
  note acc = acc [OF this]
  have ranges: "validate_ranges sz (sort_slice mxVirtualOffset (snd store)) (sort_slice feVirtualOffset srcs) (sort_slice sxVirtualOffset svs) = None"
    and l: "flFiles l = files'" "flSourceExtents l = sort_slice feVirtualOffset srcs"
      "flSaveExtents l = map (\<lambda>s. s\<lparr>sxLayoutChecksum := flLayoutChecksum l\<rparr>) (sort_slice sxVirtualOffset svs)"
    using fin by (auto simp: finish_layout_def Let_def split: prod.splits option.splits)
  have len': "length files' = length files" using acc list_all2_lengthD by fastforce
  have all: "accepted_file srcs svs (files' ! i)" if "i < length files" for i
    using acc that set_ix by (auto simp: list_all_iff)
  have located: "list_all (file_located l) files'"
    using all len' by (auto simp: list_all_length file_located_def accepted_file_def l split: if_splits)
  have srcs: "list_all (source_range_ok sz) srcs"
    using ranges by (auto simp: validate_ranges_def list_all_iff split: if_splits)
  have ok: "list_all file_ok files"
  proof (unfold list_all_length, intro allI impI)
    fix i assume i: "i < length files"
    have pl: "placed (files ! i) (files' ! i)" using acc i by (simp add: list_all2_nthD)
    then have sz: "ffLogicalSize (files' ! i) = ffLogicalSize (files ! i)" using placed_same(1) [of _ _ 0 0] by (metis fat_extent.select_convs(2) source_of_def)
    have "0 \<le> ffLogicalSize (files ! i) \<and> ffLogicalSize (files ! i) \<le> 4294967295"
      using sizes i set_ix by (force simp: list_ex_iff)
    with accepted_file_ok [OF all [OF i] _ _ srcs] sz placed_same(3) [OF pl] show "file_ok (files ! i)" by simp
  qed
  have "check_saves sz (sort_slice sxVirtualOffset svs) [] = None"
    using ranges by (auto simp: validate_ranges_def split: if_splits option.splits)
  then have "distinct (map sxSaveObjectID (sort_slice sxVirtualOffset svs))" using check_saves_distinct by blast
  then have "distinct (map sxSaveObjectID svs)"
    using mset_eq_imp_distinct_iff [of "map sxSaveObjectID (sort_slice sxVirtualOffset svs)" "map sxSaveObjectID svs"]
    by (simp add: sort_slice_def)
  then have d: "distinct (map (\<lambda>i. ffSaveObjectID (files ! i)) (filter (\<lambda>i. ffWritable (files ! i)) (file_indices root)))"
    using acc by simp
  have "mset (map (\<lambda>i. ffSaveObjectID (files ! i)) (filter (\<lambda>i. ffWritable (files ! i)) (file_indices root))) =
      mset (map (\<lambda>i. ffSaveObjectID (files ! i)) (filter (\<lambda>i. ffWritable (files ! i)) [0..<length files]))"
    using assms(2) by (simp only: mset_map mset_filter)
  also have "map (\<lambda>i. ffSaveObjectID (files ! i)) (filter (\<lambda>i. ffWritable (files ! i)) [0..<length files]) =
      map ffSaveObjectID (filter ffWritable files)"
  proof -
    have "filter ffWritable files = map ((!) files) (filter (\<lambda>i. ffWritable (files ! i)) [0..<length files])"
      using filter_map [of ffWritable "(!) files" "[0..<length files]"] by (simp add: map_nth comp_def)
    then show ?thesis by (simp add: comp_def)
  qed
  finally have "mset (map (\<lambda>i. ffSaveObjectID (files ! i)) (filter (\<lambda>i. ffWritable (files ! i)) (file_indices root))) =
      mset (map ffSaveObjectID (filter ffWritable files))" .
  from mset_eq_imp_distinct_iff [OF this] d have unique: "distinct (map ffSaveObjectID (filter ffWritable files))" by simp
  have fits: "\<not> isl (fat_fit sz (int (sum_list ?counts)))" using fit by simp
  have same: "list_all2 placed files files'" using acc by simp
  show ?thesis unfolding l(1) using ok unique fits same located by (intro conjI)
qed

lemma fat_build_accepts:
  assumes "fat_build sz label identity files0 = Inr (l, md)"
  shows "\<exists>files root. build_input sz files0 files root \<and> list_all2 placed files (flFiles l) \<and>
    list_all (file_located l) (flFiles l) \<and> mset files = mset files0"
proof -
  define files where "files = sort_slice (\<lambda>f. to_lower (ffVirtualPath f)) files0"
  have c: "1064960 < sz" "sz mod 512 = 0" "sz div 512 \<le> 4294967295" "files0 \<noteq> []"
    using assms by (auto simp: fat_build_def split: if_splits)
  with assms obtain tree where tree: "make_tree files = Inr tree"
    "fat_build_tree sz label identity files (assign_short_names tree) = Inr (l, md)"
    by (auto simp: fat_build_def files_def Let_def split: sum.splits)
  note a = fat_build_tree_accepts [OF tree(2) tree_files [OF tree(1)]]
  have "build_input sz files0 files (assign_short_names tree)"
    using c tree(1) a unfolding build_input_def files_def by (simp add: sort_slice_files)
  then show ?thesis using a by (auto simp: files_def sort_slice_def)
qed

end
