(* ===== verification/Lib_Config.thy ===== *)
theory Lib_Config
  imports Gc_Pair Fat_Layout
begin

text \<open>
  The configuration of the GameCube library and the pure parts of its builder, from
  \<open>gamecube/library.go\<close> and \<open>gamecube/volume.go\<close>: the checks on a configuration, the size of the
  virtual disk, the directory a title gets, and the fingerprint of a catalog.
\<close>

section \<open>Configuration\<close>

record library_config =
  lcHeadroomPercent :: int
  lcSaveReserveMiB :: int
  lcMaxVolumeGiB :: int
  lcMode :: memory_card_mode
  lcRetention :: int
  lcSourceRoot :: string
  lcSavesRoot :: string
  lcCardSize :: int
  lcAutoCreateCards :: bool
  lcSharedCardName :: string
  lcMaxSaveBackups :: int
  lcApplication :: string

abbreviation (input) library_schema :: int where "library_schema \<equiv> 2"
abbreviation (input) validation_receipt_schema :: int where "validation_receipt_schema \<equiv> 1"
abbreviation (input) library_minimum_size :: int where "library_minimum_size \<equiv> 8589934592"
abbreviation (input) library_alignment :: int where "library_alignment \<equiv> 1073741824"
abbreviation (input) library_metadata_reserve :: int where "library_metadata_reserve \<equiv> 268435456"
abbreviation (input) fat32_maximum_file_size :: int where "fat32_maximum_file_size \<equiv> 4294967295"
abbreviation (input) max_int64 :: int where "max_int64 \<equiv> 9223372036854775807"

definition default_library_config :: library_config where
  "default_library_config = \<lparr>lcHeadroomPercent = 5, lcSaveReserveMiB = 1024, lcMaxVolumeGiB = 0,
     lcMode = MemoryCardPhysical, lcRetention = 2, lcSourceRoot = '''', lcSavesRoot = '''',
     lcCardSize = 16777216, lcAutoCreateCards = True, lcSharedCardName = '''',
     lcMaxSaveBackups = 5, lcApplication = ''''\<rparr>"

definition config_validate :: "library_config \<Rightarrow> go_err option" where
  "config_validate c =
     (if lcHeadroomPercent c < 0 \<or> lcHeadroomPercent c > 100
      then Some (Msg ''GameCube headroom percent must be between 0 and 100'')
      else if lcSaveReserveMiB c < 0 \<or> lcSaveReserveMiB c > max_int64 div 2 ^ 20
      then Some (Msg ''invalid GameCube save reserve'')
      else if lcMaxVolumeGiB c < 0 \<or> lcMaxVolumeGiB c > max_int64 div 2 ^ 30
      then Some (Msg ''invalid GameCube maximum volume'')
      else if lcMode c = MemoryCardEmulated
      then Some (Msg ''legacy copied-volume emulated mode is unavailable; select emulated-individual or emulated-shared'')
      else if lcMode c \<noteq> MemoryCardPhysical \<and> \<not> is_library_emulated (lcMode c)
      then Some (Msg ''invalid GameCube library memory-card mode'')
      else if is_library_emulated (lcMode c) \<and> lcSavesRoot c = ''''
      then Some (Msg ''GameCube emulated mode requires managed save storage'')
      else if is_library_emulated (lcMode c) \<and> \<not> supported_save_card_size (lcCardSize c)
      then Some (Msg ''GameCube memory-card size is unsupported'')
      else if is_library_emulated (lcMode c) \<and> lcMode c = MemoryCardEmulatedShared \<and>
              \<not> shared_card_pattern (lcSharedCardName c)
      then Some (Msg ''GameCube shared memory-card selection is invalid'')
      else if lcMaxSaveBackups c < 1 \<or> lcMaxSaveBackups c > 100
      then Some (Msg ''GameCube save backup retention must be between 1 and 100'')
      else if lcRetention c < 1 \<or> lcRetention c > 20
      then Some (Msg ''GameCube generation retention must be between 1 and 20'')
      else None)"

section \<open>The size of the disk\<close>

text \<open>Every operation of \<open>int64\<close> that could leave its range is wrapped.\<close>

definition calculate_library_size :: "int \<Rightarrow> library_config \<Rightarrow> go_err + int" where
  "calculate_library_size payloadBytes config =
     (case config_validate config of
        Some err \<Rightarrow> Inl err
      | None \<Rightarrow>
          if payloadBytes < 0 then Inl (Msg ''negative GameCube payload size'')
          else if payloadBytes > max_int64 div 100 then Inl (Msg ''GameCube library size overflow'')
          else
            let headroom = go_quot (i64 (payloadBytes * lcHeadroomPercent config)) 100;
                saveReserve = i64 (lcSaveReserveMiB config * 2 ^ 20)
            in if payloadBytes > i64 (max_int64 - headroom) \<or>
                  i64 (payloadBytes + headroom) > i64 (i64 (max_int64 - saveReserve) - library_metadata_reserve)
               then Inl (Msg ''GameCube library size overflow'')
               else
                 let sum0 = i64 (i64 (i64 (payloadBytes + headroom) + saveReserve) + library_metadata_reserve);
                     sum1 = max sum0 library_minimum_size
                 in if sum1 > i64 (max_int64 - (library_alignment - 1))
                    then Inl (Msg ''GameCube library size overflow'')
                    else
                      let aligned = i64 (i64 (sum1 + library_alignment - 1) div library_alignment * library_alignment)
                      in if aligned div vsector > 4294967295
                         then Inl (Msg ''GameCube library exceeds MBR/FAT32 capacity'')
                         else if lcMaxVolumeGiB config > 0 \<and> aligned > i64 (lcMaxVolumeGiB config * 2 ^ 30)
                         then Inl (Msg (''GameCube library requires '' @ show_int (aligned div 2 ^ 30) @
                           '' GiB; configured maximum is '' @ show_int (lcMaxVolumeGiB config) @ '' GiB''))
                         else Inr aligned)"

text \<open>What the disk must hold: the payload with its headroom, the save reserve and the metadata.\<close>

definition library_need :: "int \<Rightarrow> library_config \<Rightarrow> int" where
  "library_need payload c = payload + payload * lcHeadroomPercent c div 100 +
     lcSaveReserveMiB c * 1048576 + library_metadata_reserve"

definition gib_ceiling :: "int \<Rightarrow> int" where
  "gib_ceiling n = (n + 1073741823) div 1073741824 * 1073741824"

lemma calculate_library_size_exact:
  "calculate_library_size payload c = Inr sz \<longleftrightarrow>
     config_validate c = None \<and> 0 \<le> payload \<and> sz = gib_ceiling (max (library_need payload c) library_minimum_size) \<and>
     sz div 512 \<le> 4294967295 \<and> (lcMaxVolumeGiB c = 0 \<or> sz \<le> lcMaxVolumeGiB c * 1073741824)"
proof (cases "config_validate c = None \<and> 0 \<le> payload")
  case False
  then show ?thesis by (auto simp: calculate_library_size_def split: option.splits)
next
  case True
  define h where "h = payload * lcHeadroomPercent c div 100"
  define r where "r = lcSaveReserveMiB c * 1048576"
  define g where "g = lcMaxVolumeGiB c"
  have cv: "0 \<le> lcHeadroomPercent c" "lcHeadroomPercent c \<le> 100" "0 \<le> r" "r \<le> 9223372036853727232"
    "0 \<le> g" "g \<le> 8589934591"
    using True by (auto simp: config_validate_def r_def g_def split: if_splits)
  have pc: "0 \<le> payload * lcHeadroomPercent c" "payload * lcHeadroomPercent c \<le> payload * 100"
    using True cv(1,2) by (auto intro: mult_left_mono)
  have h: "0 \<le> h" "h \<le> payload" using pc by (auto simp: h_def)
  have need: "library_need payload c = payload + h + r + 268435456" by (simp add: library_need_def h_def r_def)
  define m where "m = max (payload + h + r + 268435456) 8589934592"
  have m0: "8589934592 \<le> m" by (simp add: m_def)
  have ids: "i64 (payload * lcHeadroomPercent c) = payload * lcHeadroomPercent c"
    "go_quot (payload * lcHeadroomPercent c) 100 = h" "i64 (lcSaveReserveMiB c * 1048576) = r"
    "i64 (9223372036854775807 - h) = 9223372036854775807 - h" "i64 (payload + h) = payload + h"
    "i64 (9223372036854775807 - r) = 9223372036854775807 - r"
    "i64 (9223372036586340351 - r) = 9223372036586340351 - r"
    "i64 9223372035781033984 = 9223372035781033984" "\<not> 9223372036854775807 - h < payload"
    if "payload \<le> 92233720368547758"
  proof -
    have b: "payload * lcHeadroomPercent c \<le> 9223372036854775800" using pc that by linarith
    show "i64 (payload * lcHeadroomPercent c) = payload * lcHeadroomPercent c"
      by (rule i64_id_bounds) (use pc b in auto)
    show "go_quot (payload * lcHeadroomPercent c) 100 = h" using pc(1) by (simp add: go_quot_def h_def)
    show "i64 (lcSaveReserveMiB c * 1048576) = r" unfolding r_def [symmetric]
      by (rule i64_id_bounds) (use cv in auto)
    show "i64 (9223372036854775807 - h) = 9223372036854775807 - h" "i64 (payload + h) = payload + h"
      "i64 (9223372036854775807 - r) = 9223372036854775807 - r"
      "i64 (9223372036586340351 - r) = 9223372036586340351 - r" "i64 9223372035781033984 = 9223372035781033984"
      by (rule i64_id_bounds; use that h cv True in linarith)+
    show "\<not> 9223372036854775807 - h < payload" using h that by linarith
  qed
  have sums: "i64 (payload + h + r) = payload + h + r"
    "i64 (payload + h + r + 268435456) = payload + h + r + 268435456"
    if "payload \<le> 92233720368547758" "payload + h \<le> 9223372036586340351 - r"
    by (rule i64_id_bounds; use that h cv True in linarith)+
  have up: "m \<le> gib_ceiling m" "gib_ceiling m \<le> m + 1073741823" by (auto simp: gib_ceiling_def)
  show ?thesis
  proof (cases "payload \<le> 92233720368547758 \<and> payload + h \<le> 9223372036586340351 - r \<and>
      m \<le> 9223372035781033984")
    case wide: False
    then have big: "2199023255552 \<le> m" using h cv(3,4) by (auto simp: m_def)
    then have "\<not> gib_ceiling m div 512 \<le> 4294967295" using up(1) by linarith
    moreover have "calculate_library_size payload c = Inl (Msg ''GameCube library size overflow'')"
    proof (cases "payload \<le> 92233720368547758")
      case False
      with True show ?thesis by (simp add: calculate_library_size_def)
    next
      case p: True
      show ?thesis
      proof (cases "payload + h \<le> 9223372036586340351 - r")
        case over: False
        with True p show ?thesis by (simp add: calculate_library_size_def ids [OF p] Let_def)
      next
        case fits: True
        with wide p have "\<not> m \<le> 9223372035781033984" by simp
        with True p fits show ?thesis
          by (simp add: calculate_library_size_def ids [OF p] sums [OF p fits] Let_def m_def [symmetric])
      qed
    qed
    ultimately show ?thesis unfolding need m_def [symmetric] by auto
  next
    case small: True
    then have p: "payload \<le> 92233720368547758" and fits: "payload + h \<le> 9223372036586340351 - r" by auto
    have m: "i64 (1073741823 + m) = 1073741823 + m"
      using small m0 by (intro i64_id_bounds) auto
    have gib: "(1073741823 + m) div 1073741824 * 1073741824 = gib_ceiling m" by (simp add: gib_ceiling_def add.commute)
    have al: "i64 (gib_ceiling m) = gib_ceiling m" using up small m0 by (intro i64_id_bounds) auto
    have mx: "i64 (g * 1073741824) = g * 1073741824" using cv(5,6) by (intro i64_id_bounds) auto
    show ?thesis
      using True p fits small cv(5)
      by (auto simp: calculate_library_size_def ids [OF p] sums [OF p fits] Let_def m_def [symmetric] need
          m gib al mx g_def [symmetric])
  qed
qed

section \<open>Titles and directories\<close>

text \<open>\<open>strings.Contains\<close>, and \<open>strings.TrimSpace\<close> with the encodings of Unicode's white space.\<close>

fun contains_sub :: "string \<Rightarrow> string \<Rightarrow> bool" where
  "contains_sub sub [] \<longleftrightarrow> sub = []"
| "contains_sub sub (c # s) \<longleftrightarrow> take (length sub) (c # s) = sub \<or> contains_sub sub s"

definition space_encodings :: "string list" where
  "space_encodings = map (map char_of) ([[9], [10], [11], [12], [13], [32], [0xC2, 0x85], [0xC2, 0xA0],
     [0xE1, 0x9A, 0x80], [0xE2, 0x80, 0xA8], [0xE2, 0x80, 0xA9], [0xE2, 0x80, 0xAF], [0xE2, 0x81, 0x9F],
     [0xE3, 0x80, 0x80]] @ map (\<lambda>b. [0xE2, 0x80, b]) [0x80..<0x8B :: nat])"

function trim_prefixes :: "string list \<Rightarrow> string \<Rightarrow> string" where
  "trim_prefixes es s =
     (case find (\<lambda>e. e \<noteq> [] \<and> take (length e) s = e) es of
        None \<Rightarrow> s
      | Some e \<Rightarrow> trim_prefixes es (drop (length e) s))"
  by pat_completeness auto
termination
proof (relation "measure (\<lambda>(es, s). length s)")
  fix es s e
  assume "find (\<lambda>e. e \<noteq> [] \<and> take (length e) s = e) es = Some e"
  then have "e \<noteq> []" "take (length e) s = e" by (auto simp: find_Some_iff)
  then have "s \<noteq> []" by auto
  with \<open>e \<noteq> []\<close> show "((es, drop (length e) s), es, s) \<in> measure (\<lambda>(es, s). length s)" by simp
qed simp

declare trim_prefixes.simps [simp del]

definition trim_space :: "string \<Rightarrow> string" where
  "trim_space s = rev (trim_prefixes (map rev space_encodings) (rev (trim_prefixes space_encodings s)))"

definition unsafe_fat_char :: "char \<Rightarrow> bool" where
  "unsafe_fat_char c \<longleftrightarrow> c \<in> set ''<>:\"/|?*'' \<or> code_of c = 92 \<or> code_of c < 32"

definition volume_title :: "gc_game \<Rightarrow> string" where
  "volume_title g =
     (let t1 = trim_space (map (\<lambda>c. if unsafe_fat_char c then CHR ''_'' else c) (ggTitle g));
          t2 = rev (dropWhile (\<lambda>c. c = CHR ''.'' \<or> c = CHR '' '') (rev t1));
          t3 = (if t2 = '''' then ggID g else t2)
      in take 180 t3 @ '' ['' @ ggID g @ '']'')"

definition runtime_name :: "gc_disc \<Rightarrow> bool \<Rightarrow> string" where
  "runtime_name disc second =
     (if second then ''disc2'' else ''game'') @ (if dcFormat disc = ''ciso'' then ''.ciso'' else ''.iso'')"

definition reserved_names :: "string list" where
  "reserved_names = [''CON'', ''PRN'', ''AUX'', ''NUL''] @
     map (\<lambda>d. ''COM'' @ show_nat d) [1..<10] @ map (\<lambda>d. ''LPT'' @ show_nat d) [1..<10]"

definition library_output_dir :: "gc_game \<Rightarrow> go_err + string" where
  "library_output_dir g =
     (if ggID g = '''' \<or> contains_sub ''../'' (ggTitle g) \<or> contains_sub (''..'' @ [char_of (92 :: nat)]) (ggTitle g)
      then Inl (Msg ''unsafe GameCube title path'')
      else
        let title = volume_title g @
              (if ggRevision g > 0 then '' [Rev '' @ show_nat (ggRevision g) @ '']'' else '''');
            base = trim_space (hd (split_on (CHR '' '') title));
            safe = (if to_upper base \<in> set reserved_names then CHR ''_'' # title else title)
        in if \<not> contains_sub (''['' @ ggID g @ '']'') safe
           then Inl (Msg ''GameCube output directory lacks game ID'')
           else Inr safe)"

section \<open>Fingerprints\<close>

definition hash_bytes :: "byte list \<Rightarrow> string" where
  "hash_bytes bs = hex_lower (sha256 bs)"

definition catalog_fingerprint :: "gc_game list \<Rightarrow> string" where
  "catalog_fingerprint games =
     hash_bytes (concat (map (\<lambda>g.
       bytes_of (ggID g) @ [0] @ bytes_of (show_nat (ggRevision g)) @ [0] @ bytes_of (ggTitle g) @
       concat (map (\<lambda>d. [0] @ bytes_of (show_nat (dcNumber d)) @ [0] @ bytes_of (dcFormat d) @ [0] @
         bytes_of (show_int (dcPhysicalSize d)) @ [0] @ bytes_of (dcSHA256 d)) (ggDiscs g))) games))"

definition mode_text :: "memory_card_mode \<Rightarrow> string" where
  "mode_text mode = (case mode of
     MemoryCardPhysical \<Rightarrow> ''physical'' | MemoryCardEmulated \<Rightarrow> ''emulated''
   | MemoryCardEmulatedIndividual \<Rightarrow> ''emulated-individual''
   | MemoryCardEmulatedShared \<Rightarrow> ''emulated-shared'' | OtherMode s \<Rightarrow> s)"

definition library_fingerprint :: "library_config \<Rightarrow> gc_game list \<Rightarrow> string" where
  "library_fingerprint config games =
     (if lcMode config = MemoryCardPhysical then catalog_fingerprint games
      else hash_bytes (bytes_of (catalog_fingerprint games) @ [0] @ bytes_of (mode_text (lcMode config)) @ [0] @
        bytes_of (show_int (lcCardSize config)) @ [0] @ bytes_of (lcSharedCardName config) @ [0] @
        bytes_of (show_int save_overlay_format_version)))"

section \<open>Properties\<close>

text \<open>
  C39. \<open>calculateLibrarySize\<close> accepts a payload exactly when the configuration is valid, the payload
  is not negative, and the size it needs (payload, headroom, save reserve and metadata, at least
  8 GiB, rounded up to whole GiB) has at most \<open>2 ^ 32 - 1\<close> sectors and stays within the
  configured maximum; the result is that size.  The checks for an overflow of \<open>int64\<close> never refuse
  another payload, and no intermediate sum wraps around.
\<close>

theorem library_size_exact:
  "calculate_library_size payload c = Inr sz \<longleftrightarrow>
     config_validate c = None \<and> 0 \<le> payload \<and> sz = gib_ceiling (max (library_need payload c) library_minimum_size) \<and>
     sz div 512 \<le> 4294967295 \<and> (lcMaxVolumeGiB c = 0 \<or> sz \<le> lcMaxVolumeGiB c * 1073741824)"
  by (rule calculate_library_size_exact)

end
