(* ===== verification/Lib_Sources.thy ===== *)
theory Lib_Sources
  imports Lib_Config Fat_Backend
begin

text \<open>
  The source files of a GameCube library: hashing, identities and the map from discs to virtual
  files, from \<open>gamecube/library.go\<close>, \<open>gamecube/scanner.go\<close> and \<open>gamecube/volume.go\<close>.  The calls
  of the standard library that walk, resolve and copy are operations of the kernel record; a
  context is the call \<open>ctx.Err\<close>, which may change its answer from one call to the next.
\<close>

section \<open>Sequences of calls that may fail\<close>

type_synonym ('w, 'a) call = "'w \<Rightarrow> (go_err + 'a) \<times> 'w"

definition tries :: "('w, 'a) call \<Rightarrow> ('a \<Rightarrow> ('w, 'b) call) \<Rightarrow> ('w, 'b) call" where
  "tries m f w = (case m w of (Inl err, w1) \<Rightarrow> (Inl err, w1) | (Inr x, w1) \<Rightarrow> f x w1)"

definition answer :: "'a \<Rightarrow> ('w, 'a) call" where
  "answer x w = (Inr x, w)"

definition refuse :: "go_err \<Rightarrow> ('w, 'a) call" where
  "refuse err w = (Inl err, w)"

definition unless_err :: "go_err option \<Rightarrow> ('w, unit) call" where
  "unless_err e w = (case e of None \<Rightarrow> (Inr (), w) | Some err \<Rightarrow> (Inl err, w))"

definition must :: "('w \<Rightarrow> go_err option \<times> 'w) \<Rightarrow> ('w, unit) call" where
  "must c w = (case c w of (None, w1) \<Rightarrow> (Inr (), w1) | (Some err, w1) \<Rightarrow> (Inl err, w1))"

text \<open>\<open>fmt.Errorf\<close> with \<open>%w\<close>.\<close>

definition wrapping :: "string \<Rightarrow> ('w, 'a) call \<Rightarrow> ('w, 'a) call" where
  "wrapping s m w = (case m w of (Inl err, w1) \<Rightarrow> (Inl (Wrap s err), w1) | (Inr x, w1) \<Rightarrow> (Inr x, w1))"

fun tries_each :: "('a \<Rightarrow> ('w, 'b) call) \<Rightarrow> 'a list \<Rightarrow> ('w, 'b list) call" where
  "tries_each f [] = answer []"
| "tries_each f (x # xs) = tries (f x) (\<lambda>y. tries (tries_each f xs) (\<lambda>ys. answer (y # ys)))"

lemma tries_Inr [simp]:
  "tries m f w = (Inr y, w') \<longleftrightarrow> (\<exists>x w1. m w = (Inr x, w1) \<and> f x w1 = (Inr y, w'))"
  by (auto simp: tries_def split: prod.splits sum.splits)

lemma answer_Inr [simp]: "answer x w = (Inr y, w') \<longleftrightarrow> y = x \<and> w' = w"
  by (auto simp: answer_def)

lemma refuse_Inr [simp]: "refuse err w \<noteq> (Inr y, w')"
  by (simp add: refuse_def)

lemma unless_err_Inr [simp]: "unless_err e w = (Inr u, w') \<longleftrightarrow> e = None \<and> w' = w"
  by (auto simp: unless_err_def split: option.splits)

lemma must_Inr [simp]: "must c w = (Inr u, w') \<longleftrightarrow> c w = (None, w')"
  by (auto simp: must_def split: option.splits prod.splits)

lemma wrapping_Inr [simp]: "wrapping s m w = (Inr y, w') \<longleftrightarrow> m w = (Inr y, w')"
  by (auto simp: wrapping_def split: prod.splits sum.splits)

lemma tries_step [simp]: "m w = (Inr x, w1) \<Longrightarrow> tries m f w = f x w1"
  by (simp add: tries_def)

section \<open>The kernel\<close>

datatype entry_type = EntryRegular | EntryDir | EntrySymlink | EntrySpecial

text \<open>
  What \<open>filepath.WalkDir\<close> gives its callback: a path, the type of the entry and the error of the
  walk.  \<open>loCopy\<close> is \<open>io.Copy\<close> from an open file to its end, \<open>loEval\<close> is \<open>filepath.EvalSymlinks\<close>,
  and \<open>loCwd\<close> the working directory that \<open>filepath.Abs\<close> puts before a relative path.
\<close>

record walk_entry =
  wePath :: string
  weType :: entry_type
  weErr :: "go_err option"

record 'w lib_os =
  loOS :: "'w os"
  loEval :: "string \<Rightarrow> ('w, string) call"
  loCwd :: "('w, string) call"
  loCopy :: "nat \<Rightarrow> 'w \<Rightarrow> (byte list \<times> go_err option) \<times> 'w"
  loWalk :: "string \<Rightarrow> 'w \<Rightarrow> walk_entry list \<times> 'w"

type_synonym 'w ctx_check = "'w \<Rightarrow> go_err option \<times> 'w"

definition background :: "'w ctx_check" where
  "background w = (None, w)"

definition filepath_abs :: "'w lib_os \<Rightarrow> string \<Rightarrow> ('w, string) call" where
  "filepath_abs os p =
     (if take 1 p = ''/'' then answer (path_clean p)
      else tries (loCwd os) (\<lambda>cwd. answer (path_clean (cwd @ CHR ''/'' # p))))"

definition trusted_root :: "'w lib_os \<Rightarrow> string \<Rightarrow> ('w, string) call" where
  "trusted_root os root = tries (loEval os root) (filepath_abs os)"

text \<open>
  \<open>filepath.Rel\<close> from one clean path to another fails when only one of them is absolute; it goes
  up exactly when the components of the first are no prefix of those of the second.
\<close>

definition path_parts :: "string \<Rightarrow> string list" where
  "path_parts p = filter (\<lambda>s. s \<noteq> '''' \<and> s \<noteq> ''.'') (split_on (CHR ''/'') p)"

definition within_root :: "string \<Rightarrow> string \<Rightarrow> go_err option" where
  "within_root root path =
     (let clean = path_clean path; rp = path_parts root; pp = path_parts clean
      in if (take 1 root = ''/'') = (take 1 clean = ''/'') \<and> take (length rp) pp = rp
         then None else Some (Msg ''path escapes library root''))"

section \<open>Hashing\<close>

definition hash_file_context :: "'w lib_os \<Rightarrow> 'w ctx_check \<Rightarrow> string \<Rightarrow> ('w, string) call" where
  "hash_file_context os ctx path =
     tries (must ctx) (\<lambda>_.
     tries (os_open (loOS os) path) (\<lambda>h w.
       (case loCopy os h w of
          ((bs, Some err), w1) \<Rightarrow> (Inl err, snd (os_close (loOS os) h w1))
        | ((bs, None), w1) \<Rightarrow>
            (case ctx w1 of
               (Some err, w2) \<Rightarrow> (Inl err, snd (os_close (loOS os) h w2))
             | (None, w2) \<Rightarrow> (Inr (hash_bytes bs), snd (os_close (loOS os) h w2))))))"

text \<open>The callback of \<open>hashTree\<close>: the regular files below the root, in the order of the walk.\<close>

fun tree_files :: "'w ctx_check \<Rightarrow> string \<Rightarrow> walk_entry list \<Rightarrow> ('w, string list) call" where
  "tree_files ctx root [] = answer []"
| "tree_files ctx root (e # es) =
     tries (must ctx) (\<lambda>_.
       case weErr e of
         Some err \<Rightarrow> refuse err
       | None \<Rightarrow>
           if wePath e = root then tree_files ctx root es
           else (case weType e of
                   EntrySymlink \<Rightarrow> refuse (Msg ''symlink forbidden in extracted FST'')
                 | EntrySpecial \<Rightarrow> refuse (Msg ''special file forbidden in extracted FST'')
                 | EntryDir \<Rightarrow> tree_files ctx root es
                 | EntryRegular \<Rightarrow> tries (tree_files ctx root es) (\<lambda>ps. answer (wePath e # ps))))"

text \<open>\<open>filepath.Rel\<close> from a directory to a path below it.\<close>

definition rel_path :: "string \<Rightarrow> string \<Rightarrow> string" where
  "rel_path root p = join_slash (drop (length (path_parts root)) (path_parts p))"

definition hash_tree_file :: "'w lib_os \<Rightarrow> 'w ctx_check \<Rightarrow> string \<Rightarrow> string \<Rightarrow> ('w, byte list \<times> int) call" where
  "hash_tree_file os ctx root path =
     tries (must ctx) (\<lambda>_.
     tries (os_lstat (loOS os) path) (\<lambda>info.
     tries (os_open (loOS os) path) (\<lambda>h w.
       (case loCopy os h w of
          ((bs, copyErr), w1) \<Rightarrow>
            (case os_close (loOS os) h w1 of
               (closeErr, w2) \<Rightarrow>
                 (case copyErr of
                    Some err \<Rightarrow> (Inl err, w2)
                  | None \<Rightarrow> (case closeErr of
                        Some err \<Rightarrow> (Inl err, w2)
                      | None \<Rightarrow> (Inr (bytes_of (rel_path root path) @ [0] @
                                   bytes_of (show_int (fiSize info)) @ [0] @ bs, fiSize info), w2))))))))"

definition hash_tree_context :: "'w lib_os \<Rightarrow> 'w ctx_check \<Rightarrow> string \<Rightarrow> ('w, string \<times> int) call" where
  "hash_tree_context os ctx root w =
     (case loWalk os root w of
        (es, w1) \<Rightarrow>
          tries (tree_files ctx root es) (\<lambda>paths.
          tries (tries_each (hash_tree_file os ctx root) (sort_slice id paths)) (\<lambda>parts.
          tries (must ctx) (\<lambda>_.
            answer (hash_bytes (concat (map fst parts)), sum_list (map snd parts))))) w1)"

definition hash_game_disc :: "'w lib_os \<Rightarrow> 'w ctx_check \<Rightarrow> gc_disc \<Rightarrow> ('w, gc_disc) call" where
  "hash_game_disc os ctx disc =
     tries (must ctx) (\<lambda>_.
       if dcSHA256 disc \<noteq> '''' then answer disc
       else tries (wrapping (''hash disc '' @ show_nat (dcNumber disc + 1))
                     (if dcFormat disc = ''fst''
                      then tries (hash_tree_context os ctx (dcSourcePath disc)) (\<lambda>r. answer (fst r))
                      else hash_file_context os ctx (dcSourcePath disc)))
              (\<lambda>digest. answer (disc\<lparr>dcSHA256 := digest\<rparr>)))"

definition hash_game_sources :: "'w lib_os \<Rightarrow> 'w ctx_check \<Rightarrow> gc_game \<Rightarrow> ('w, gc_game) call" where
  "hash_game_sources os ctx g =
     tries (tries_each (hash_game_disc os ctx) (ggDiscs g)) (\<lambda>ds. answer (g\<lparr>ggDiscs := ds\<rparr>))"

section \<open>Identities\<close>

definition source_identity :: "'w lib_os \<Rightarrow> string \<Rightarrow> string \<Rightarrow> ('w, fat_identity) call" where
  "source_identity os path digest =
     tries (os_lstat (loOS os) path) (\<lambda>info.
       if \<not> fiRegular info \<or> fiSymlink info
       then refuse (Msg ''GameCube source is not a regular file'')
       else tries (get_filesystem_id (loOS os) path) (\<lambda>fsid.
         answer \<lparr>idFilesystemID = fsid, idSize = fiSize info, idModTime = fiModNano info,
           idDevice = fst (case fiSys info of None \<Rightarrow> (0, 0) | Some s \<Rightarrow> s),
           idInode = snd (case fiSys info of None \<Rightarrow> (0, 0) | Some s \<Rightarrow> s), idSHA256 = digest\<rparr>))"

definition same_source_identity :: "fat_identity \<Rightarrow> fat_identity \<Rightarrow> bool" where
  "same_source_identity expected actual \<longleftrightarrow>
     idSize expected = idSize actual \<and> idModTime expected = idModTime actual \<and>
     idInode expected = idInode actual \<and>
     same_filesystem (idFilesystemID expected) (idDevice expected) (idFilesystemID actual) (idDevice actual)"

definition validate_disc_source :: "'w lib_os \<Rightarrow> string \<Rightarrow> gc_disc \<Rightarrow> ('w, unit) call" where
  "validate_disc_source os root disc =
     tries (unless_err (within_root root (dcSourcePath disc))) (\<lambda>_.
     tries (os_lstat (loOS os) (dcSourcePath disc)) (\<lambda>info.
       if dcFormat disc = ''fst''
       then if \<not> fiIsDir info \<or> fiSymlink info
            then refuse (Msg ''invalid extracted FST source root'') else answer ()
       else if \<not> fiRegular info \<or> fiSymlink info \<or> fiSize info \<noteq> dcPhysicalSize disc
       then refuse (Msg ''GameCube source size or type changed'') else answer ()))"

section \<open>From discs to virtual files\<close>

definition library_formats :: "string list" where
  "library_formats = [''iso'', ''gcm'', ''ciso'', ''fst'']"

text \<open>The checks of \<open>build\<close> on one title before its sources are hashed.\<close>

definition check_title :: "gc_game \<Rightarrow> go_err option" where
  "check_title g =
     (if ggValidation g \<noteq> ''valid'' \<or> ggDiscs g = [] \<or> length (ggDiscs g) > 2
      then Some (Msg (ggID g @ '' is not a validated one- or two-disc title''))
      else if ggDiscCount g \<noteq> length (ggDiscs g)
      then Some (Msg (ggID g @ '' has an incomplete disc set''))
      else if list_ex (\<lambda>(i, d). dcNumber d \<noteq> i \<or> dcID d \<noteq> ggID g \<or> dcRevision d \<noteq> ggRevision g \<or>
                dcValidation d \<noteq> ''valid'' \<or> dcFormat d \<notin> set library_formats) (enumerate 0 (ggDiscs g))
      then Some (Msg (ggID g @ '' has inconsistent disc metadata''))
      else None)"

definition zero_identity :: fat_identity where
  "zero_identity = \<lparr>idFilesystemID = '''', idSize = 0, idModTime = 0, idDevice = 0, idInode = 0, idSHA256 = ''''\<rparr>"

definition zero_file :: fat_file where
  "zero_file = \<lparr>ffVirtualPath = '''', ffVirtualOffset = 0, ffLogicalSize = 0, ffAllocatedSize = 0,
     ffSourcePath = '''', ffSourceOffset = 0, ffSourceSize = 0, ffIdentity = zero_identity, ffGameID = '''',
     ffRevision = 0, ffDiscNumber = 0, ffFormat = '''', ffFSTRoot = '''', ffFSTTreeSHA256 = '''',
     ffWritable = False, ffSaveObjectID = '''', ffCardOffset = 0, ffCardSize = 0, ffGenerationID = ''''\<rparr>"

definition fst_file ::
  "'w lib_os \<Rightarrow> 'w ctx_check \<Rightarrow> string \<Rightarrow> string \<Rightarrow> gc_disc \<Rightarrow> gc_game \<Rightarrow> walk_entry \<Rightarrow> ('w, fat_file list) call" where
  "fst_file os ctx fstRoot output disc g e =
     tries (must ctx) (\<lambda>_.
       case weErr e of
         Some err \<Rightarrow> refuse err
       | None \<Rightarrow>
           if wePath e = fstRoot then answer []
           else if weType e = EntrySymlink then refuse (Msg ''symlink forbidden in extracted FST'')
           else if weType e = EntryDir then answer []
           else if weType e \<noteq> EntryRegular then refuse (Msg ''special file forbidden in extracted FST'')
           else
             tries (unless_err (within_root fstRoot (wePath e))) (\<lambda>_.
             tries (os_lstat (loOS os) (wePath e)) (\<lambda>info.
               if fiSize info > fat32_maximum_file_size
               then refuse (Msg (''extracted FST file '' @ last (path_parts (wePath e)) @ '' exceeds the FAT32 file limit''))
               else
                 tries (hash_file_context os ctx (wePath e)) (\<lambda>digest.
                 tries (source_identity os (wePath e) digest) (\<lambda>identity.
                   answer [zero_file\<lparr>ffVirtualPath := output @ CHR ''/'' # rel_path fstRoot (wePath e),
                     ffSourcePath := wePath e, ffLogicalSize := fiSize info, ffSourceSize := fiSize info,
                     ffIdentity := identity, ffGameID := ggID g, ffRevision := ggRevision g,
                     ffDiscNumber := dcNumber disc, ffFormat := ''fst'', ffFSTRoot := fstRoot,
                     ffFSTTreeSHA256 := dcSHA256 disc\<rparr>])))))"

definition map_fst ::
  "'w lib_os \<Rightarrow> 'w ctx_check \<Rightarrow> string \<Rightarrow> string \<Rightarrow> gc_disc \<Rightarrow> gc_game \<Rightarrow> ('w, fat_file list) call" where
  "map_fst os ctx root output disc g =
     tries (trusted_root os (dcSourcePath disc)) (\<lambda>fstRoot.
     tries (unless_err (within_root root fstRoot)) (\<lambda>_ w.
       (case loWalk os fstRoot w of
          (es, w1) \<Rightarrow>
            tries (tries_each (fst_file os ctx fstRoot output disc g) es)
              (\<lambda>fss. answer (sort_slice ffVirtualPath (concat fss))) w1)))"

definition map_disc ::
  "'w lib_os \<Rightarrow> 'w ctx_check \<Rightarrow> string \<Rightarrow> string \<Rightarrow> gc_game \<Rightarrow> nat \<times> gc_disc \<Rightarrow> ('w, fat_file list) call" where
  "map_disc os ctx root outputDir g d =
     (case d of (index, disc) \<Rightarrow>
       tries (must ctx) (\<lambda>_.
         if dcFormat disc = ''fst''
         then if length (ggDiscs g) \<noteq> 1
              then refuse (Msg ''two-disc extracted FST sets are unsupported'')
              else map_fst os ctx root outputDir disc g
         else tries (source_identity os (dcSourcePath disc) (dcSHA256 disc)) (\<lambda>identity.
           answer [zero_file\<lparr>ffVirtualPath := outputDir @ CHR ''/'' # runtime_name disc (index = 1),
             ffSourcePath := dcSourcePath disc, ffLogicalSize := dcPhysicalSize disc,
             ffSourceSize := dcPhysicalSize disc, ffIdentity := identity, ffGameID := ggID g,
             ffRevision := ggRevision g, ffDiscNumber := dcNumber disc, ffFormat := dcFormat disc\<rparr>])))"

record library_title =
  ltTitle :: string
  ltID :: string
  ltRevision :: nat
  ltRegion :: string
  ltFormat :: string
  ltDiscCount :: nat
  ltOutputDir :: string
  ltPreparedID :: string

fun add_paths :: "fat_file list \<Rightarrow> string list \<Rightarrow> go_err + string list" where
  "add_paths [] seen = Inr seen"
| "add_paths (f # fs) seen =
     (let key = to_lower (ffVirtualPath f)
      in if key \<in> set seen then Inl (Msg (''duplicate case-insensitive FAT path '' @ ffVirtualPath f))
         else add_paths fs (key # seen))"

definition map_title ::
  "'w lib_os \<Rightarrow> 'w ctx_check \<Rightarrow> string \<Rightarrow> gc_game \<Rightarrow> ('w, fat_file list \<times> library_title) call" where
  "map_title os ctx root g =
     (case library_output_dir g of
        Inl err \<Rightarrow> refuse err
      | Inr output \<Rightarrow>
          let outputDir = ''/games/'' @ output
          in tries (tries_each (map_disc os ctx root outputDir g) (enumerate 0 (ggDiscs g))) (\<lambda>fss.
               answer (concat fss,
                 \<lparr>ltTitle = ggTitle g, ltID = ggID g, ltRevision = ggRevision g, ltRegion = ggRegion g,
                  ltFormat = ggFormat g, ltDiscCount = length (ggDiscs g), ltOutputDir = outputDir,
                  ltPreparedID = hash_bytes (concat (map (\<lambda>d. bytes_of (dcSHA256 d)) (ggDiscs g)))\<rparr>)))"

fun map_files ::
  "'w lib_os \<Rightarrow> 'w ctx_check \<Rightarrow> string \<Rightarrow> gc_game list \<Rightarrow> string list \<Rightarrow> ('w, fat_file list \<times> library_title list) call" where
  "map_files os ctx root [] seen = answer ([], [])"
| "map_files os ctx root (g # gs) seen =
     tries (map_title os ctx root g) (\<lambda>(files, title).
       case add_paths files seen of
         Inl err \<Rightarrow> refuse err
       | Inr seen' \<Rightarrow>
           tries (map_files os ctx root gs seen') (\<lambda>(files', titles).
             answer (files @ files', title # titles)))"

end
