(* ===== verification/Lib_World.thy ===== *)
theory Lib_World
  imports Lib_Sources
begin

text \<open>
  The managed storage of the GameCube library (\<open>gamecube/library.go\<close>): generations with their
  documents, the pointer to the active one, and the file calls of the package.  A path is the
  list of the components of an absolute, clean path.  A document is its bytes together with the
  value that \<open>json.Unmarshal\<close> finds in them; a document the library writes decodes to the value
  written, which holds for text in UTF-8.  As in \<open>Save_World\<close>, every call takes its outcome from a
  list, and \<open>lwSeen\<close> collects every state of the files, so that a crash at any moment leaves one
  of them.  The sources, and with them the contexts, live in a world of their own.
\<close>

section \<open>Documents\<close>

type_synonym mpath = "string list"

record library_manifest =
  mfSchema :: int
  mfGenerationID :: string
  mfCreated :: int
  mfVolumeSize :: int
  mfFilesystem :: string
  mfGeometry :: fat_geometry
  mfClusterSize :: int
  mfMode :: memory_card_mode
  mfReadOnly :: bool
  mfTitleCount :: nat
  mfDiscCount :: nat
  mfMappedFileCount :: nat
  mfMappedExtentCount :: nat
  mfCatalogFingerprint :: string
  mfMetadataHash :: string
  mfExtentMapHash :: string
  mfLayoutPath :: mpath
  mfMetadataPath :: mpath
  mfLibraryRoot :: string
  mfTitles :: "library_title list"
  mfFiles :: "fat_file list"
  mfComplete :: bool
  mfSaveOverlayVersion :: int
  mfSaveObjects :: "save_object list"
  mfSaveExtentCount :: nat
  mfSaveExtentHash :: string
  mfLayoutChecksum :: string
  mfMaxSaveBackups :: int
  mfApplication :: string

record validation_receipt =
  vrFilesystemIDs :: "(string \<times> string) list"
  vrSchema :: int
  vrValidatorSchema :: int
  vrGenerationID :: string
  vrCatalogFingerprint :: string
  vrSourceIdentitySetHash :: string
  vrCompleted :: "int option"
  vrResult :: string

datatype json_value =
    LayoutJson fat_layout | ChecksumsJson int "(string \<times> string) list" | ManifestJson library_manifest
  | ReceiptJson validation_receipt | PointerJson int string

record document =
  doText :: "byte list"
  doValue :: "json_value option"

record 'w lib_world =
  lwFiles :: "mpath \<Rightarrow> document option"
  lwGens :: "string list"
  lwFaults :: "(go_err \<times> nat) option list"
  lwSeen :: "(mpath \<Rightarrow> document option) list"
  lwSrc :: 'w

section \<open>Calls\<close>

text \<open>A call about the sources.\<close>

definition on_src :: "('w, 'a) call \<Rightarrow> ('w lib_world, 'a) call" where
  "on_src m lw = (case m (lwSrc lw) of (r, w') \<Rightarrow> (r, lw\<lparr>lwSrc := w'\<rparr>))"

definition ctx_src :: "'w ctx_check \<Rightarrow> 'w lib_world ctx_check" where
  "ctx_src ctx lw = (case ctx (lwSrc lw) of (e, w') \<Rightarrow> (e, lw\<lparr>lwSrc := w'\<rparr>))"

definition lw_fault :: "'w lib_world \<Rightarrow> (go_err \<times> nat) option \<times> 'w lib_world" where
  "lw_fault lw = (case lwFaults lw of [] \<Rightarrow> (None, lw) | f # fs \<Rightarrow> (f, lw\<lparr>lwFaults := fs\<rparr>))"

definition lw_set :: "(mpath \<Rightarrow> document option) \<Rightarrow> 'w lib_world \<Rightarrow> 'w lib_world" where
  "lw_set files lw = lw\<lparr>lwFiles := files, lwSeen := files # lwSeen lw\<rparr>"

definition ms_nop :: "'w lib_world \<Rightarrow> go_err option \<times> 'w lib_world" where
  "ms_nop lw = (case lw_fault lw of (f, lw1) \<Rightarrow> (map_option fst f, lw1))"

definition ms_lookup :: "mpath \<Rightarrow> ('w lib_world, document) call" where
  "ms_lookup p lw = (case lw_fault lw of
     (Some (err, _), lw1) \<Rightarrow> (Inl err, lw1)
   | (None, lw1) \<Rightarrow> ((case lwFiles lw1 p of None \<Rightarrow> Inl ErrNotExist | Some d \<Rightarrow> Inr d), lw1))"

text \<open>
  \<open>os.WriteFile\<close> opens and truncates, writes and closes: a fault of count 0 is that of the open, a
  fault of count \<open>k + 1\<close> leaves \<open>k\<close> bytes.  A file cut before its last byte decodes to nothing.
\<close>

definition torn :: "nat \<Rightarrow> document \<Rightarrow> document" where
  "torn k d = (if k < length (doText d) then \<lparr>doText = take k (doText d), doValue = None\<rparr> else d)"

definition ms_write_file :: "mpath \<Rightarrow> document \<Rightarrow> 'w lib_world \<Rightarrow> go_err option \<times> 'w lib_world" where
  "ms_write_file p d lw = (case lw_fault lw of
     (Some (err, 0), lw1) \<Rightarrow> (Some err, lw1)
   | (f, lw1) \<Rightarrow>
       (let count = (case f of None \<Rightarrow> length (doText d) | Some (_, k) \<Rightarrow> min (k - 1) (length (doText d)));
            states = map (\<lambda>k. (lwFiles lw1)(p := Some (torn k d))) [0..<Suc count]
        in (map_option fst f, lw1\<lparr>lwFiles := last states, lwSeen := rev states @ lwSeen lw1\<rparr>)))"

definition ms_remove :: "mpath \<Rightarrow> 'w lib_world \<Rightarrow> go_err option \<times> 'w lib_world" where
  "ms_remove p lw = (case lw_fault lw of
     (Some (err, _), lw1) \<Rightarrow> (Some err, lw1)
   | (None, lw1) \<Rightarrow>
       if lwFiles lw1 p = None then (Some ErrNotExist, lw1)
       else (None, lw_set ((lwFiles lw1)(p := None)) lw1))"

definition ms_rename :: "mpath \<Rightarrow> mpath \<Rightarrow> 'w lib_world \<Rightarrow> go_err option \<times> 'w lib_world" where
  "ms_rename a b lw = (case lw_fault lw of
     (Some (err, _), lw1) \<Rightarrow> (Some err, lw1)
   | (None, lw1) \<Rightarrow>
       (case lwFiles lw1 a of
          None \<Rightarrow> (Some ErrNotExist, lw1)
        | Some d \<Rightarrow> (None, lw_set ((lwFiles lw1)(b := Some d, a := None)) lw1)))"

text \<open>Directories of generations: \<open>Mkdir\<close>, \<open>RemoveAll\<close> (at once) and \<open>Rename\<close>.\<close>

definition generation_dir :: "mpath \<Rightarrow> string \<Rightarrow> mpath" where
  "generation_dir root g = root @ ''generations'' # (if g = ''.'' then [] else [g])"

text \<open>The directory of an entry that \<open>ReadDir\<close> or \<open>Mkdir\<close> names: never \<open>.\<close>, so the path is clean.\<close>

definition entry_dir :: "mpath \<Rightarrow> string \<Rightarrow> mpath" where
  "entry_dir root g = root @ [''generations'', g]"

definition below :: "mpath \<Rightarrow> mpath \<Rightarrow> bool" where
  "below d p \<longleftrightarrow> take (length d) p = d \<and> length d < length p"

definition ms_mkdir_gen :: "string \<Rightarrow> 'w lib_world \<Rightarrow> go_err option \<times> 'w lib_world" where
  "ms_mkdir_gen g lw = (case lw_fault lw of
     (Some (err, _), lw1) \<Rightarrow> (Some err, lw1)
   | (None, lw1) \<Rightarrow>
       if g \<in> set (lwGens lw1) then (Some (Msg ''file exists''), lw1)
       else (None, lw1\<lparr>lwGens := lwGens lw1 @ [g]\<rparr>))"

definition ms_remove_gen :: "mpath \<Rightarrow> string \<Rightarrow> 'w lib_world \<Rightarrow> go_err option \<times> 'w lib_world" where
  "ms_remove_gen root g lw = (case lw_fault lw of
     (Some (err, _), lw1) \<Rightarrow> (Some err, lw1)
   | (None, lw1) \<Rightarrow>
       (None, lw_set (\<lambda>p. if below (entry_dir root g) p then None else lwFiles lw1 p)
                (lw1\<lparr>lwGens := filter (\<lambda>x. x \<noteq> g) (lwGens lw1)\<rparr>)))"

definition ms_rename_gen :: "mpath \<Rightarrow> string \<Rightarrow> string \<Rightarrow> 'w lib_world \<Rightarrow> go_err option \<times> 'w lib_world" where
  "ms_rename_gen root a b lw = (case lw_fault lw of
     (Some (err, _), lw1) \<Rightarrow> (Some err, lw1)
   | (None, lw1) \<Rightarrow>
       if a \<notin> set (lwGens lw1) then (Some ErrNotExist, lw1)
       else if b \<in> set (lwGens lw1) then (Some (Msg ''file exists''), lw1)
       else
         let da = entry_dir root a; db = entry_dir root b
         in (None, lw_set (\<lambda>p. if below db p then lwFiles lw1 (da @ drop (length db) p)
                          else if below da p then None else lwFiles lw1 p)
               (lw1\<lparr>lwGens := filter (\<lambda>x. x \<noteq> a) (lwGens lw1) @ [b]\<rparr>)))"

definition quietly :: "('w lib_world \<Rightarrow> go_err option \<times> 'w lib_world) \<Rightarrow> 'w lib_world \<Rightarrow> 'w lib_world" where
  "quietly c lw = snd (c lw)"

text \<open>
  \<open>promote\<close> and \<open>persistValidationReceipt\<close>: a temporary file is created, written, synced and closed,
  renamed to the target, and the directory synced; a deferred \<open>Remove\<close> takes the temporary name.
\<close>

definition err_and :: "('w \<Rightarrow> go_err option \<times> 'w) \<Rightarrow> ('w \<Rightarrow> go_err option \<times> 'w) \<Rightarrow> 'w \<Rightarrow> go_err option \<times> 'w" where
  "err_and c1 c2 w = (case c1 w of (Some err, w1) \<Rightarrow> (Some err, w1) | (None, w1) \<Rightarrow> c2 w1)"

definition err_also :: "('w \<Rightarrow> go_err option \<times> 'w) \<Rightarrow> ('w \<Rightarrow> go_err option \<times> 'w) \<Rightarrow> 'w \<Rightarrow> go_err option \<times> 'w" where
  "err_also c1 c2 w = (case c1 w of (e1, w1) \<Rightarrow> (case c2 w1 of (e2, w2) \<Rightarrow>
     ((case e1 of Some err \<Rightarrow> Some err | None \<Rightarrow> e2), w2)))"

definition replace_file ::
  "mpath \<Rightarrow> mpath \<Rightarrow> document \<Rightarrow> ('w lib_world \<Rightarrow> go_err option \<times> 'w lib_world) \<Rightarrow>
   'w lib_world \<Rightarrow> go_err option \<times> 'w lib_world" where
  "replace_file tmp target d prepare lw =
     (case ms_write_file tmp \<lparr>doText = [], doValue = None\<rparr> lw of
        (Some err, lw1) \<Rightarrow> (Some err, lw1)
      | (None, lw1) \<Rightarrow>
          (case err_and (err_also (err_and prepare (err_and (ms_write_file tmp d) ms_nop)) ms_nop)
                  (err_and (ms_rename tmp target) ms_nop) lw1 of
             (e, lw2) \<Rightarrow> (e, quietly (ms_remove tmp) lw2)))"

end
