(* ===== verification/Lib_Manifest.thy ===== *)
theory Lib_Manifest
  imports Lib_World
begin

text \<open>
  Validation of a library generation, from \<open>gamecube/library.go\<close>: the checks on a manifest, its
  layout, its checksums and its sources, and the receipt of a deep validation.  The progress
  callback is left out.
\<close>

section \<open>Managed files\<close>

definition safe_generation_id :: "string \<Rightarrow> bool" where
  "safe_generation_id s \<longleftrightarrow> s \<noteq> '''' \<and> \<not> contains_sub ''..'' s \<and>
     CHR ''/'' \<notin> set s \<and> char_of (92 :: nat) \<notin> set s"

definition read_managed_file :: "mpath \<Rightarrow> mpath \<Rightarrow> ('w lib_world, document) call" where
  "read_managed_file root p lw =
     (if \<not> below root p then (Inl (Msg ''GameCube generation file escapes managed storage''), lw)
      else case ms_lookup p lw of
             (Inl _, lw1) \<Rightarrow> (Inl (Msg ''invalid GameCube generation file''), lw1)
           | (Inr _, lw1) \<Rightarrow> ms_lookup p lw1)"

definition load_library_manifest :: "mpath \<Rightarrow> mpath \<Rightarrow> ('w lib_world, library_manifest) call" where
  "load_library_manifest root p lw =
     (if \<not> below root p then (Inl (Msg ''GameCube library manifest escapes managed storage''), lw)
      else case ms_lookup p lw of
             (Inl _, lw1) \<Rightarrow> (Inl (Msg ''invalid GameCube library manifest''), lw1)
           | (Inr _, lw1) \<Rightarrow>
               tries (ms_lookup p) (\<lambda>d.
                 case doValue d of Some (ManifestJson m) \<Rightarrow> answer m
                 | _ \<Rightarrow> refuse (Msg ''unexpected end of JSON input'')) lw1)"

definition active_manifest :: "mpath \<Rightarrow> ('w lib_world, library_manifest) call" where
  "active_manifest root =
     tries (ms_lookup (root @ [''active.json''])) (\<lambda>d.
       case doValue d of
         Some (PointerJson schema g) \<Rightarrow>
           if schema \<noteq> library_schema \<or> \<not> safe_generation_id g
           then refuse (Msg ''invalid GameCube active-generation pointer'')
           else load_library_manifest root (generation_dir root g @ [''manifest.json''])
       | _ \<Rightarrow> refuse (Msg ''unexpected end of JSON input''))"

section \<open>Receipts\<close>

definition err_source_unavailable :: go_err where
  "err_source_unavailable = Coded ''GameCube source unavailable''"

definition err_source_changed :: go_err where
  "err_source_changed = Coded ''GameCube source identity changed''"

definition source_identity_set_hash :: "library_manifest \<Rightarrow> string" where
  "source_identity_set_hash m =
     (let sep = [0]; nl = [10]; num = (\<lambda>i. bytes_of (show_int i)); nnum = (\<lambda>n. bytes_of (show_nat n));
          line = (\<lambda>f. let i = ffIdentity f in
            bytes_of (ffVirtualPath f) @ sep @ bytes_of (ffSourcePath f) @ sep @ num (idSize i) @ sep @
            num (idModTime i) @ sep @ nnum (idDevice i) @ sep @ nnum (idInode i) @ sep @
            bytes_of (idSHA256 i) @ nl @
            (if idFilesystemID i \<noteq> '''' then bytes_of ''filesystem-id'' @ sep @ bytes_of (idFilesystemID i) @ nl
             else []))
      in hash_bytes (concat (map line
           (filter (\<lambda>f. \<not> ffWritable f) (sort_slice ffVirtualPath (mfFiles m))))))"

definition validation_receipt_path :: "library_manifest \<Rightarrow> mpath" where
  "validation_receipt_path m = butlast (mfLayoutPath m) @ [''validation.json'']"

definition supplemental_allowed :: "library_manifest \<Rightarrow> string list" where
  "supplemental_allowed m = map ffSourcePath
     (filter (\<lambda>f. \<not> ffWritable f \<and> idFilesystemID (ffIdentity f) = '''') (mfFiles m))"

definition supplement_ok :: "library_manifest \<Rightarrow> string \<times> string \<Rightarrow> bool" where
  "supplement_ok m e \<longleftrightarrow> fst e \<in> set (supplemental_allowed m) \<and> snd e \<noteq> ''''"

definition receipt_matches :: "library_manifest \<Rightarrow> validation_receipt \<Rightarrow> bool" where
  "receipt_matches m r \<longleftrightarrow>
     vrSchema r = validation_receipt_schema \<and> vrValidatorSchema r = library_schema \<and>
     vrGenerationID r = mfGenerationID m \<and> vrCatalogFingerprint r = mfCatalogFingerprint m \<and>
     vrSourceIdentitySetHash r = source_identity_set_hash m \<and> vrResult r = ''validated'' \<and>
     vrCompleted r \<noteq> None"

definition read_validation_receipt :: "mpath \<Rightarrow> library_manifest \<Rightarrow> ('w lib_world, validation_receipt) call" where
  "read_validation_receipt root m lw =
     (case read_managed_file root (validation_receipt_path m) lw of
        (Inl _, lw1) \<Rightarrow> (Inl (Msg ''GameCube deep validation receipt is unavailable''), lw1)
      | (Inr d, lw1) \<Rightarrow>
          (case doValue d of
             Some (ReceiptJson r) \<Rightarrow>
               if \<not> receipt_matches m r
               then (Inl (Msg ''GameCube deep validation receipt is stale''), lw1)
               else if \<not> list_all (supplement_ok m) (vrFilesystemIDs r)
               then (Inl (Msg ''GameCube filesystem identity receipt is invalid''), lw1)
               else (Inr r, lw1)
           | _ \<Rightarrow> (Inl (Msg ''GameCube deep validation receipt is stale''), lw1)))"

definition supplied :: "(string \<times> string) list \<Rightarrow> fat_file \<Rightarrow> fat_identity" where
  "supplied known f =
     (if idFilesystemID (ffIdentity f) = ''''
      then (ffIdentity f)\<lparr>idFilesystemID := (case map_of known (ffSourcePath f) of None \<Rightarrow> '''' | Some i \<Rightarrow> i)\<rparr>
      else ffIdentity f)"

fun collect_legacy_filesystems ::
  "'w lib_os \<Rightarrow> (string \<times> string) list \<Rightarrow> fat_file list \<Rightarrow> (string \<times> string) list \<Rightarrow> ('w, (string \<times> string) list) call" where
  "collect_legacy_filesystems os known [] found = answer found"
| "collect_legacy_filesystems os known (f # fs) found =
     (if ffWritable f then collect_legacy_filesystems os known fs found
      else tries (source_identity os (ffSourcePath f) (idSHA256 (ffIdentity f))) (\<lambda>actual.
        if \<not> same_source_identity (supplied known f) actual then refuse err_source_changed
        else collect_legacy_filesystems os known fs
               (if idFilesystemID (ffIdentity f) = '''' \<and> idFilesystemID actual \<noteq> ''''
                then AList.update (ffSourcePath f) (idFilesystemID actual) found else found)))"

definition document_of :: "(json_value \<Rightarrow> byte list) \<Rightarrow> json_value \<Rightarrow> document" where
  "document_of text v = \<lparr>doText = text v @ [10], doValue = Some v\<rparr>"

definition persist_validation_receipt ::
  "(json_value \<Rightarrow> byte list) \<Rightarrow> mpath \<Rightarrow> library_manifest \<Rightarrow> validation_receipt \<Rightarrow>
   'w lib_world \<Rightarrow> go_err option \<times> 'w lib_world" where
  "persist_validation_receipt text root m r lw =
     (let path = validation_receipt_path m
      in if \<not> below root path then (Some (Msg ''GameCube validation receipt escapes managed storage''), lw)
         else replace_file (butlast path @ [''.validation-tmp'']) path (document_of text (ReceiptJson r))
                (\<lambda>w. (None, w)) lw)"

definition prior_filesystems :: "mpath \<Rightarrow> library_manifest \<Rightarrow> 'w lib_world \<Rightarrow> (string \<times> string) list \<times> 'w lib_world" where
  "prior_filesystems root m lw = (case read_validation_receipt root m lw of
     (Inl _, lw1) \<Rightarrow> ([], lw1) | (Inr r, lw1) \<Rightarrow> (vrFilesystemIDs r, lw1))"

definition write_validation_receipt ::
  "(json_value \<Rightarrow> byte list) \<Rightarrow> 'w lib_os \<Rightarrow> int \<Rightarrow> mpath \<Rightarrow> library_manifest \<Rightarrow>
   'w lib_world \<Rightarrow> go_err option \<times> 'w lib_world" where
  "write_validation_receipt text os now root m lw =
     (case prior_filesystems root m lw of
        (known, lw1) \<Rightarrow>
          (case on_src (collect_legacy_filesystems os known (mfFiles m) []) lw1 of
             (Inl err, lw2) \<Rightarrow> (Some err, lw2)
           | (Inr identities, lw2) \<Rightarrow>
               persist_validation_receipt text root m
                 \<lparr>vrFilesystemIDs = identities, vrSchema = validation_receipt_schema,
                  vrValidatorSchema = library_schema, vrGenerationID = mfGenerationID m,
                  vrCatalogFingerprint = mfCatalogFingerprint m,
                  vrSourceIdentitySetHash = source_identity_set_hash m, vrCompleted = Some now,
                  vrResult = ''validated''\<rparr> lw2))"

text \<open>\<open>reflect.DeepEqual\<close> of two maps.\<close>

definition same_map :: "('k \<times> 'v) list \<Rightarrow> ('k \<times> 'v) list \<Rightarrow> bool" where
  "same_map xs ys \<longleftrightarrow> list_all (\<lambda>k. map_of xs k = map_of ys k) (map fst (xs @ ys))"

definition upgrade_validation_receipt ::
  "(json_value \<Rightarrow> byte list) \<Rightarrow> 'w lib_os \<Rightarrow> mpath \<Rightarrow> library_manifest \<Rightarrow>
   'w lib_world \<Rightarrow> go_err option \<times> 'w lib_world" where
  "upgrade_validation_receipt text os root m lw =
     (case read_validation_receipt root m lw of
        (Inl err, lw1) \<Rightarrow> (Some err, lw1)
      | (Inr r, lw1) \<Rightarrow>
          (case on_src (collect_legacy_filesystems os (vrFilesystemIDs r) (mfFiles m) []) lw1 of
             (Inl err, lw2) \<Rightarrow> (Some err, lw2)
           | (Inr identities, lw2) \<Rightarrow>
               if same_map identities (vrFilesystemIDs r) \<or> identities = [] then (None, lw2)
               else persist_validation_receipt text root m (r\<lparr>vrFilesystemIDs := identities\<rparr>) lw2))"

section \<open>Validation\<close>

definition manifest_mode_ok :: "library_manifest \<Rightarrow> bool" where
  "manifest_mode_ok m \<longleftrightarrow>
     mfMode m = MemoryCardPhysical \<and> mfReadOnly m \<and> mfSaveOverlayVersion m = 0 \<and>
       mfSaveObjects m = [] \<and> mfSaveExtentCount m = 0 \<or>
     is_library_emulated (mfMode m) \<and> \<not> mfReadOnly m \<and>
       mfSaveOverlayVersion m = save_overlay_format_version \<and>
       mfSaveObjects m \<noteq> [] \<and> mfSaveExtentCount m > 0"

definition check_manifest_header :: "library_manifest \<Rightarrow> go_err option" where
  "check_manifest_header m =
     (if mfSchema m \<noteq> library_schema \<or> \<not> mfComplete m \<or> \<not> safe_generation_id (mfGenerationID m) \<or>
         mfFilesystem m \<noteq> ''fat32'' \<or>
         \<not> (mfMode m = MemoryCardPhysical \<or> is_library_emulated (mfMode m)) \<or> \<not> manifest_mode_ok m
      then Some (Msg ''stale or incomplete no-copy GameCube library manifest'')
      else if mfTitleCount m = 0 \<or> mfTitleCount m \<noteq> length (mfTitles m) \<or>
              mfMappedFileCount m = 0 \<or> mfMappedFileCount m \<noteq> length (mfFiles m)
      then Some (Msg ''GameCube library manifest count mismatch'')
      else None)"

fun save_object_map :: "save_object list \<Rightarrow> (string \<times> save_object) list \<Rightarrow> (string \<times> save_object) list option" where
  "save_object_map [] found = Some found"
| "save_object_map (obj # objs) found =
     (if map_of found (soID obj) \<noteq> None then None else save_object_map objs ((soID obj, obj) # found))"

text \<open>Each writable extent takes its object out of the map.\<close>

fun match_save_extents ::
  "library_manifest \<Rightarrow> save_extent list \<Rightarrow> (string \<times> save_object) list \<Rightarrow> (string \<times> save_object) list option" where
  "match_save_extents m [] objects = Some objects"
| "match_save_extents m (x # xs) objects =
     (case map_of objects (sxSaveObjectID x) of
        None \<Rightarrow> None
      | Some obj \<Rightarrow>
          if sxGenerationID x \<noteq> mfGenerationID m \<or> sxLayoutChecksum x \<noteq> mfLayoutChecksum m \<or>
             sxCardSize x \<noteq> soCardSize obj \<or> sxLength x \<noteq> soCardSize obj
          then None
          else match_save_extents m xs (AList.delete (sxSaveObjectID x) objects))"

definition check_manifest_layout :: "library_manifest \<Rightarrow> fat_layout \<Rightarrow> go_err option" where
  "check_manifest_layout m l =
     (if flSchema l \<noteq> library_schema \<or> flVirtualSize l \<noteq> mfVolumeSize m \<or>
         flMetadataHash l \<noteq> mfMetadataHash m \<or> flExtentMapHash l \<noteq> mfExtentMapHash m \<or>
         length (flSourceExtents l) \<noteq> mfMappedExtentCount m
      then Some (Msg ''GameCube no-copy layout checksum or geometry mismatch'')
      else if is_library_emulated (mfMode m) \<and>
              (length (flSaveExtents l) \<noteq> mfSaveExtentCount m \<or> flSaveExtentHash l \<noteq> mfSaveExtentHash m \<or>
               flLayoutChecksum l \<noteq> mfLayoutChecksum m)
      then Some (Msg ''GameCube writable save extent map mismatch'')
      else case save_object_map (mfSaveObjects m) [] of
             None \<Rightarrow> Some (Msg ''GameCube writable save object map is ambiguous'')
           | Some objects \<Rightarrow>
               (case match_save_extents m (flSaveExtents l) objects of
                  None \<Rightarrow> Some (Msg ''GameCube writable save extent generation mismatch'')
                | Some rest \<Rightarrow>
                    if is_library_emulated (mfMode m) \<and> rest \<noteq> []
                    then Some (Msg ''GameCube writable save object has no trusted extent'')
                    else if length (flFiles l) \<noteq> length (mfFiles m)
                    then Some (Msg ''GameCube virtual file map mismatch'')
                    else if flFiles l \<noteq> mfFiles m
                    then Some (Msg ''GameCube manifest and layout file maps differ'')
                    else None))"

definition trim_newline :: "byte list \<Rightarrow> byte list" where
  "trim_newline bs = (if bs \<noteq> [] \<and> last bs = 10 then butlast bs else bs)"

definition check_sums :: "library_manifest \<Rightarrow> byte list \<Rightarrow> json_value option \<Rightarrow> go_err option" where
  "check_sums m layoutData v =
     (case v of
        Some (ChecksumsJson schema sums) \<Rightarrow>
          let digest = (\<lambda>k. case map_of sums k of None \<Rightarrow> '''' | Some s \<Rightarrow> s)
          in if schema \<noteq> library_schema \<or>
                digest ''layout_sha256'' \<noteq> hash_bytes (trim_newline layoutData) \<or>
                digest ''metadata_sha256'' \<noteq> mfMetadataHash m \<or>
                digest ''extent_map_sha256'' \<noteq> mfExtentMapHash m
             then Some (Msg ''GameCube generation checksum document mismatch'')
             else if is_library_emulated (mfMode m) \<and>
                     (digest ''save_extent_map_sha256'' \<noteq> mfSaveExtentHash m \<or>
                      digest ''layout_checksum'' \<noteq> mfLayoutChecksum m)
             then Some (Msg ''GameCube save extent checksum document mismatch'')
             else None
      | _ \<Rightarrow> Some (Msg ''GameCube generation checksum document mismatch''))"

definition writable_file_ok :: "library_manifest \<Rightarrow> fat_file \<Rightarrow> bool" where
  "writable_file_ok m f \<longleftrightarrow>
     \<not> (\<not> is_library_emulated (mfMode m) \<or> ffFormat f \<noteq> ''save'' \<or> ffSaveObjectID f = '''' \<or>
        ffSourcePath f \<noteq> '''' \<or> ffLogicalSize f \<noteq> ffCardSize f \<or> ffCardSize f \<le> 0 \<or>
        ffGenerationID f \<noteq> mfGenerationID m \<or> ffVirtualOffset f < 0 \<or>
        ffAllocatedSize f < ffLogicalSize f \<or>
        i64 (ffVirtualOffset f + ffAllocatedSize f) > mfVolumeSize m)"

definition source_file_ok :: "library_manifest \<Rightarrow> fat_file \<Rightarrow> bool" where
  "source_file_ok m f \<longleftrightarrow>
     \<not> (\<not> valid_id (ffGameID f) \<or> ffDiscNumber f > 1 \<or> ffFormat f \<notin> set library_formats \<or>
        ffLogicalSize f < 0 \<or> ffSourceOffset f < 0 \<or>
        i64 (ffSourceOffset f + ffLogicalSize f) > ffSourceSize f \<or> ffVirtualOffset f < 0 \<or>
        ffAllocatedSize f < ffLogicalSize f \<or>
        i64 (ffVirtualOffset f + ffAllocatedSize f) > mfVolumeSize m)"

text \<open>The absolute path of a root, replaced by the trusted one when sources are checked.\<close>

definition resolve_root :: "'w lib_os \<Rightarrow> bool \<Rightarrow> string \<Rightarrow> ('w, string) call" where
  "resolve_root os checkSources p w =
     (case filepath_abs os p w of (r, w1) \<Rightarrow> if checkSources then trusted_root os p w1 else (r, w1))"

text \<open>The checks on the tree of an extracted disc; the trees already hashed are passed along.\<close>

definition check_tree ::
  "'w lib_os \<Rightarrow> 'w ctx_check \<Rightarrow> string \<Rightarrow> bool \<Rightarrow> bool \<Rightarrow> string list \<Rightarrow> fat_file \<Rightarrow> ('w, string list) call" where
  "check_tree os ctx rootAbsolute deep checkSources trees f =
     (if ffFormat f = ''fst''
      then if ffFSTRoot f = '''' \<or> ffFSTTreeSHA256 f = ''''
           then refuse (Msg ''missing extracted FST tree identity'')
           else
             tries (resolve_root os checkSources (ffFSTRoot f)) (\<lambda>fstRoot.
             tries (unless_err (within_root rootAbsolute fstRoot)) (\<lambda>_.
             tries (unless_err (within_root fstRoot (ffSourcePath f))) (\<lambda>_.
               if checkSources \<and> deep \<and> fstRoot \<notin> set trees
               then (\<lambda>w. case hash_tree_context os ctx fstRoot w of
                       (r, w1) \<Rightarrow>
                         tries (must ctx) (\<lambda>_.
                           case r of
                             Inr (h, _) \<Rightarrow> if h = ffFSTTreeSHA256 f then answer (fstRoot # trees)
                                           else refuse (Msg ''extracted FST tree changed'')
                           | Inl _ \<Rightarrow> refuse (Msg ''extracted FST tree changed'')) w1)
               else answer trees)))
      else if ffFSTRoot f \<noteq> '''' \<or> ffFSTTreeSHA256 f \<noteq> ''''
      then refuse (Msg ''unexpected extracted FST identity'')
      else answer trees)"

text \<open>The identity of a source, and in a deep validation its hash.\<close>

definition check_source ::
  "'w lib_os \<Rightarrow> 'w ctx_check \<Rightarrow> (string \<times> string) list \<Rightarrow> bool \<Rightarrow> fat_file \<Rightarrow> ('w, unit) call" where
  "check_source os ctx known deep f w =
     (case source_identity os (ffSourcePath f) (idSHA256 (ffIdentity f)) w of
        (Inl _, w1) \<Rightarrow> (Inl (Wrap ''identity'' err_source_unavailable), w1)
      | (Inr identity, w1) \<Rightarrow>
          if \<not> same_source_identity (supplied known f) identity then (Inl err_source_changed, w1)
          else if deep \<and> ffFormat f \<noteq> ''fst''
          then (case hash_file_context os ctx (ffSourcePath f) w1 of
                  (r, w2) \<Rightarrow>
                    tries (must ctx) (\<lambda>_.
                      case r of
                        Inl _ \<Rightarrow> refuse (Wrap ''hash'' err_source_unavailable)
                      | Inr digest \<Rightarrow>
                          if digest \<noteq> idSHA256 (ffIdentity f)
                          then refuse (Wrap ''source fingerprint changed'' err_source_changed)
                          else answer ()) w2)
          else (Inr (), w1))"

fun check_files ::
  "'w lib_os \<Rightarrow> 'w ctx_check \<Rightarrow> library_manifest \<Rightarrow> string \<Rightarrow> (string \<times> string) list \<Rightarrow> bool \<Rightarrow> bool \<Rightarrow>
   fat_file list \<Rightarrow> string list \<Rightarrow> string list \<Rightarrow> ('w, unit) call" where
  "check_files os ctx m rootAbsolute known deep checkSources [] seen trees = answer ()"
| "check_files os ctx m rootAbsolute known deep checkSources (f # fs) seen trees =
     tries (must ctx) (\<lambda>_.
       let key = to_lower (ffVirtualPath f)
       in if key \<in> set seen then refuse (Msg ''duplicate GameCube virtual path'')
          else if ffWritable f
          then if \<not> writable_file_ok m f then refuse (Msg ''invalid GameCube writable save file metadata'')
               else check_files os ctx m rootAbsolute known deep checkSources fs (key # seen) trees
          else if \<not> source_file_ok m f then refuse (Msg ''invalid GameCube virtual file metadata'')
          else
            tries (unless_err (within_root rootAbsolute (ffSourcePath f))) (\<lambda>_.
            tries (check_tree os ctx rootAbsolute deep checkSources trees f) (\<lambda>trees'.
            tries (if checkSources then check_source os ctx known deep f else answer ()) (\<lambda>_.
              check_files os ctx m rootAbsolute known deep checkSources fs (key # seen) trees'))))"

record validated_data =
  vdFilesystems :: "(string \<times> string) list"
  vdLayout :: fat_layout
  vdMetadata :: "byte list"

definition manifest_documents ::
  "mpath \<Rightarrow> library_manifest \<Rightarrow> ('w lib_world, fat_layout \<times> byte list) call" where
  "manifest_documents root m =
     tries (read_managed_file root (mfLayoutPath m)) (\<lambda>layoutDoc.
     tries (read_managed_file root (mfMetadataPath m)) (\<lambda>metadataDoc.
       case doValue layoutDoc of
         Some (LayoutJson l) \<Rightarrow>
           tries (unless_err (check_manifest_layout m l)) (\<lambda>_.
           tries (read_managed_file root (butlast (mfLayoutPath m) @ [''checksums.json''])) (\<lambda>sumsDoc.
           tries (unless_err (check_sums m (doText layoutDoc) (doValue sumsDoc))) (\<lambda>_.
           tries (unless_err (validate_layout l (doText metadataDoc))) (\<lambda>_.
             answer (l, doText metadataDoc)))))
       | _ \<Rightarrow> refuse (Msg ''unexpected end of JSON input'')))"

definition manifest_root :: "'w lib_os \<Rightarrow> library_manifest \<Rightarrow> bool \<Rightarrow> ('w, string) call" where
  "manifest_root os m checkSources w =
     (case resolve_root os checkSources (mfLibraryRoot m) w of
        (Inl _, w1) \<Rightarrow> (Inl (Msg ''invalid GameCube source root metadata''), w1)
      | (Inr r, w1) \<Rightarrow>
          if mfLibraryRoot m = '''' then (Inl (Msg ''invalid GameCube source root metadata''), w1)
          else (Inr r, w1))"

definition validate_library_manifest_data ::
  "'w lib_os \<Rightarrow> 'w ctx_check \<Rightarrow> mpath \<Rightarrow> library_manifest \<Rightarrow> bool \<Rightarrow> bool \<Rightarrow> ('w lib_world, validated_data) call" where
  "validate_library_manifest_data os ctx root m deep checkSources =
     tries (must (ctx_src ctx)) (\<lambda>_.
     tries (unless_err (check_manifest_header m)) (\<lambda>_.
     tries (manifest_documents root m) (\<lambda>(l, metadata).
     tries (on_src (manifest_root os m checkSources)) (\<lambda>rootAbsolute.
     tries (\<lambda>lw. if checkSources then (case prior_filesystems root m lw of (known, lw1) \<Rightarrow> (Inr known, lw1))
                 else (Inr [], lw)) (\<lambda>known.
     tries (on_src (check_files os ctx m rootAbsolute known deep checkSources (mfFiles m) [] [])) (\<lambda>_.
     tries (must (ctx_src ctx)) (\<lambda>_.
       answer \<lparr>vdFilesystems = known, vdLayout = l, vdMetadata = metadata\<rparr>)))))))"

end
