(* ===== verification/Lib_Build.thy ===== *)
theory Lib_Build
  imports Lib_Manifest
begin

text \<open>
  Building a generation of the GameCube library (\<open>build\<close>, \<open>promote\<close> and \<open>prune\<close> of
  \<open>gamecube/library.go\<close>): the sources are checked and hashed, mapped to virtual files and laid out;
  the documents are written to a staging directory, validated there, and published by two
  renames.  The progress display is left out.  \<open>ensureSaves\<close> is \<open>EnsureSaveObjects\<close>, which acts on
  the directories of the memory cards (\<open>Save_Recovery\<close> models it for one card).
\<close>

section \<open>The sources of a build\<close>

text \<open>The loop over the discs of one title: their checks, and the bytes of the payload so far.\<close>

fun check_discs :: "'w lib_os \<Rightarrow> string \<Rightarrow> gc_disc list \<Rightarrow> int \<Rightarrow> ('w, int) call" where
  "check_discs os root [] payload = answer payload"
| "check_discs os root (d # ds) payload =
     tries (validate_disc_source os root d) (\<lambda>_.
       if dcFormat d \<noteq> ''fst'' \<and> dcPhysicalSize d > fat32_maximum_file_size
       then refuse (Msg (dcID d @ '' disc '' @ show_nat (dcNumber d + 1) @ '' exceeds the FAT32 file limit''))
       else if payload > i64 (max_int64 - dcPhysicalSize d)
       then refuse (Msg ''GameCube library size overflow'')
       else check_discs os root ds (i64 (payload + dcPhysicalSize d)))"

fun check_games ::
  "'w lib_os \<Rightarrow> 'w ctx_check \<Rightarrow> string \<Rightarrow> gc_game list \<Rightarrow> int \<Rightarrow> ('w, gc_game list \<times> int) call" where
  "check_games os ctx root [] payload = answer ([], payload)"
| "check_games os ctx root (g # gs) payload =
     tries (must ctx) (\<lambda>_.
     tries (unless_err (check_title g)) (\<lambda>_.
     tries (hash_game_sources os ctx g) (\<lambda>h.
     tries (check_discs os root (ggDiscs h) payload) (\<lambda>payload'.
     tries (check_games os ctx root gs payload') (\<lambda>(hs, total).
       answer (h # hs, total))))))"

definition game_key :: "gc_game \<Rightarrow> string \<times> nat" where
  "game_key g = (ggID g, ggRevision g)"

definition save_file :: "string \<Rightarrow> save_object \<Rightarrow> fat_file" where
  "save_file generationID obj = zero_file\<lparr>ffVirtualPath := soVirtualPath obj, ffLogicalSize := soCardSize obj,
     ffWritable := True, ffSaveObjectID := soID obj, ffCardSize := soCardSize obj,
     ffGenerationID := generationID, ffFormat := ''save'', ffGameID := soGameID obj\<rparr>"

section \<open>The manifest\<close>

definition layout_checksums :: "fat_layout \<Rightarrow> byte list \<Rightarrow> (string \<times> string) list" where
  "layout_checksums l layoutData =
     [(''layout_sha256'', hash_bytes layoutData), (''metadata_sha256'', flMetadataHash l),
      (''extent_map_sha256'', flExtentMapHash l), (''save_extent_map_sha256'', flSaveExtentHash l),
      (''layout_checksum'', flLayoutChecksum l)]"

definition generation_manifest ::
  "library_config \<Rightarrow> mpath \<Rightarrow> string \<Rightarrow> int \<Rightarrow> int \<Rightarrow> string \<Rightarrow> gc_game list \<Rightarrow> save_object list \<Rightarrow>
   library_title list \<Rightarrow> fat_layout \<Rightarrow> library_manifest" where
  "generation_manifest config dir generationID now virtualSize fingerprint games objects titles l =
     \<lparr>mfSchema = library_schema, mfGenerationID = generationID, mfCreated = now,
      mfVolumeSize = virtualSize, mfFilesystem = ''fat32'', mfGeometry = flGeometry l,
      mfClusterSize = vcluster, mfMode = lcMode config, mfReadOnly = (lcMode config = MemoryCardPhysical),
      mfTitleCount = length games, mfDiscCount = sum_list (map (length \<circ> ggDiscs) games),
      mfMappedFileCount = length (flFiles l), mfMappedExtentCount = length (flSourceExtents l),
      mfCatalogFingerprint = fingerprint, mfMetadataHash = flMetadataHash l,
      mfExtentMapHash = flExtentMapHash l, mfLayoutPath = dir @ [''layout.bin''],
      mfMetadataPath = dir @ [''metadata.bin''], mfLibraryRoot = lcSourceRoot config,
      mfTitles = titles, mfFiles = flFiles l, mfComplete = True,
      mfSaveOverlayVersion = (if is_library_emulated (lcMode config) then save_overlay_format_version else 0),
      mfSaveObjects = objects, mfSaveExtentCount = length (flSaveExtents l),
      mfSaveExtentHash = flSaveExtentHash l, mfLayoutChecksum = flLayoutChecksum l,
      mfMaxSaveBackups = lcMaxSaveBackups config, mfApplication = lcApplication config\<rparr>"

section \<open>Publishing\<close>

definition promote ::
  "(json_value \<Rightarrow> byte list) \<Rightarrow> mpath \<Rightarrow> string \<Rightarrow> 'w lib_world \<Rightarrow> go_err option \<times> 'w lib_world" where
  "promote text root generationID =
     replace_file (root @ [''.active-tmp'']) (root @ [''active.json''])
       (document_of text (PointerJson library_schema generationID)) ms_nop"

text \<open>The generations \<open>prune\<close> keeps track of: complete ones of this schema, except the active one.\<close>

definition has_prefix :: "string \<Rightarrow> string \<Rightarrow> bool" where
  "has_prefix p s \<longleftrightarrow> take (length p) s = p"

fun prunable :: "mpath \<Rightarrow> string \<Rightarrow> string list \<Rightarrow> 'w lib_world \<Rightarrow> string list \<times> 'w lib_world" where
  "prunable root active [] lw = ([], lw)"
| "prunable root active (g # gs) lw =
     (if has_prefix ''.building-'' g \<or> g = active then prunable root active gs lw
      else case ms_lookup (entry_dir root g @ [''manifest.json'']) lw of
             (r, lw1) \<Rightarrow>
               (case prunable root active gs lw1 of
                  (rest, lw2) \<Rightarrow>
                    (case r of
                       Inr d \<Rightarrow> (case doValue d of
                            Some (ManifestJson m) \<Rightarrow> if mfSchema m = library_schema then (g # rest, lw2) else (rest, lw2)
                          | _ \<Rightarrow> (rest, lw2))
                     | Inl _ \<Rightarrow> (rest, lw2))))"

fun remove_generations :: "mpath \<Rightarrow> string list \<Rightarrow> 'w lib_world \<Rightarrow> 'w lib_world" where
  "remove_generations root [] lw = lw"
| "remove_generations root (g # gs) lw = remove_generations root gs (quietly (ms_remove_gen root g) lw)"

definition prune :: "int \<Rightarrow> mpath \<Rightarrow> string \<Rightarrow> 'w lib_world \<Rightarrow> go_err option \<times> 'w lib_world" where
  "prune retention root active lw =
     (case ms_nop lw of
        (Some err, lw1) \<Rightarrow> (Some err, lw1)
      | (None, lw1) \<Rightarrow>
          (case prunable root active (lwGens lw1) lw1 of
             (complete, lw2) \<Rightarrow>
               (None, remove_generations root (drop (nat (retention - 1)) (rev (sort complete))) lw2)))"

section \<open>The build\<close>

text \<open>What is known of a build before its staging directory is made.\<close>

record build_plan =
  bpGames :: "gc_game list"
  bpFingerprint :: string
  bpSize :: int
  bpGeneration :: string

definition plan_build ::
  "library_config \<Rightarrow> 'w lib_os \<Rightarrow> 'w ctx_check \<Rightarrow> string \<Rightarrow> gc_game list \<Rightarrow> ('w, build_plan) call" where
  "plan_build config os ctx stamp games =
     (if games = [] then refuse (Msg ''no validated GameCube titles are available'')
      else if lcSourceRoot config = ''''
      then refuse (Msg ''configured read-only GameCube source root is required'')
      else
        tries (check_games os ctx (lcSourceRoot config) games 0) (\<lambda>(hashed, payload).
          let gs = sort_slice game_key hashed; fingerprint = library_fingerprint config gs
          in case calculate_library_size payload config of
               Inl err \<Rightarrow> refuse err
             | Inr virtualSize \<Rightarrow>
                 answer \<lparr>bpGames = gs, bpFingerprint = fingerprint, bpSize = virtualSize,
                   bpGeneration = stamp @ CHR ''-'' # take 16 fingerprint\<rparr>))"

text \<open>The virtual files of a plan and the layout made of them.\<close>

definition lay_out ::
  "library_config \<Rightarrow> 'w lib_os \<Rightarrow> 'w ctx_check \<Rightarrow> (save_object list \<Rightarrow> 'w \<Rightarrow> go_err option \<times> 'w) \<Rightarrow> build_plan \<Rightarrow>
   ('w, save_object list \<times> library_title list \<times> fat_layout \<times> byte list) call" where
  "lay_out config os ctx ensureSaves plan =
     (case plan_save_objects (lcMode config) (map ggID (bpGames plan)) (lcSharedCardName config) (lcCardSize config) of
        Inl err \<Rightarrow> refuse err
      | Inr objects \<Rightarrow>
          tries (must (ensureSaves objects)) (\<lambda>_.
          tries (map_files os ctx (lcSourceRoot config) (bpGames plan) []) (\<lambda>(files, titles).
            case fat_build (bpSize plan) ''WIIBRIDGE'' (bpFingerprint plan)
                   (files @ map (save_file (bpGeneration plan)) objects) of
              Inl err \<Rightarrow> refuse err
            | Inr (l, metadata) \<Rightarrow> answer (objects, titles, l, metadata))))"

text \<open>The documents of a generation, in the order they are written and checked.\<close>

definition write_generation ::
  "library_config \<Rightarrow> (json_value \<Rightarrow> byte list) \<Rightarrow> 'w lib_os \<Rightarrow> 'w ctx_check \<Rightarrow> int \<Rightarrow> mpath \<Rightarrow> build_plan \<Rightarrow>
   save_object list \<times> library_title list \<times> fat_layout \<times> byte list \<Rightarrow> ('w lib_world, library_manifest) call" where
  "write_generation config text os ctx now root plan parts =
     (case parts of
        (objects, titles, l, metadata) \<Rightarrow>
          let staging = entry_dir root (''.building-'' @ bpGeneration plan);
              manifest_in = (\<lambda>dir. generation_manifest config dir (bpGeneration plan) now (bpSize plan)
                               (bpFingerprint plan) (bpGames plan) objects titles l);
              manifest = manifest_in (entry_dir root (bpGeneration plan)); staged = manifest_in staging
          in tries (must (ms_write_file (staging @ [''layout.bin'']) (document_of text (LayoutJson l)))) (\<lambda>_.
             tries (must (ms_write_file (staging @ [''metadata.bin'']) \<lparr>doText = metadata, doValue = None\<rparr>)) (\<lambda>_.
             tries (must (ms_write_file (staging @ [''checksums.json''])
                     (document_of text (ChecksumsJson library_schema
                        (layout_checksums l (text (LayoutJson l))))))) (\<lambda>_.
             tries (validate_library_manifest_data os ctx root staged True True) (\<lambda>_.
             tries (must (write_validation_receipt text os now root staged)) (\<lambda>_.
             tries (must (ms_write_file (staging @ [''manifest.json'']) (document_of text (ManifestJson manifest)))) (\<lambda>_.
             tries (must ms_nop) (\<lambda>_.
             tries (must (ctx_src ctx)) (\<lambda>_.
               answer manifest)))))))))"

definition publish ::
  "library_config \<Rightarrow> (json_value \<Rightarrow> byte list) \<Rightarrow> mpath \<Rightarrow> string \<Rightarrow> library_manifest \<Rightarrow>
   ('w lib_world, library_manifest) call" where
  "publish config text root g manifest =
     tries (must (ms_rename_gen root (''.building-'' @ g) g)) (\<lambda>_.
     tries (must ms_nop) (\<lambda>_.
     tries (must (promote text root g)) (\<lambda>_ lw.
       (Inr manifest, quietly (prune (lcRetention config) root g) lw))))"

text \<open>From the new staging directory to the published generation; the directory is removed at the end.\<close>

definition staged_build ::
  "library_config \<Rightarrow> (json_value \<Rightarrow> byte list) \<Rightarrow> 'w lib_os \<Rightarrow> 'w ctx_check \<Rightarrow>
   (save_object list \<Rightarrow> 'w \<Rightarrow> go_err option \<times> 'w) \<Rightarrow> int \<Rightarrow> mpath \<Rightarrow> build_plan \<Rightarrow> ('w lib_world, library_manifest) call" where
  "staged_build config text os ctx ensureSaves now root plan =
     tries (on_src (lay_out config os ctx ensureSaves plan)) (\<lambda>parts.
     tries (write_generation config text os ctx now root plan parts)
       (publish config text root (bpGeneration plan)))"

definition library_build ::
  "library_config \<Rightarrow> (json_value \<Rightarrow> byte list) \<Rightarrow> 'w lib_os \<Rightarrow> 'w ctx_check \<Rightarrow>
   (save_object list \<Rightarrow> 'w \<Rightarrow> go_err option \<times> 'w) \<Rightarrow> string \<Rightarrow> int \<Rightarrow> mpath \<Rightarrow> gc_game list \<Rightarrow>
   ('w lib_world, library_manifest) call" where
  "library_build config text os ctx ensureSaves stamp now root games =
     tries (on_src (plan_build config os ctx stamp games)) (\<lambda>plan.
       let staging = ''.building-'' @ bpGeneration plan
       in tries (must (ms_mkdir_gen staging)) (\<lambda>_ lw.
            (case staged_build config text os ctx ensureSaves now root plan lw of
               (r, lw1) \<Rightarrow> (r, quietly (ms_remove_gen root staging) lw1))))"

end
