(* ===== verification/Lib_Publish.thy ===== *)
theory Lib_Publish
  imports Lib_Build
begin

text \<open>
  Why a build of the library is safe to interrupt: which files each call may change, in every
  state it goes through, and what a generation holds when the pointer is moved to it.
\<close>

named_theorems touch_intros \<open>which files a call may change\<close>

section \<open>The files a call may change\<close>

definition only_changes :: "(mpath \<Rightarrow> bool) \<Rightarrow> 'w lib_world \<Rightarrow> 'w lib_world \<Rightarrow> bool" where
  "only_changes R lw lw' \<longleftrightarrow> (\<exists>hs. lwSeen lw' = hs @ lwSeen lw \<and>
     (\<forall>f \<in> set (lwFiles lw' # hs). \<forall>p. \<not> R p \<longrightarrow> f p = lwFiles lw p))"

definition touches :: "(mpath \<Rightarrow> bool) \<Rightarrow> ('w lib_world \<Rightarrow> 'r \<times> 'w lib_world) \<Rightarrow> bool" where
  "touches R c \<longleftrightarrow> (\<forall>lw. only_changes R lw (snd (c lw)))"

lemma only_changes_refl [simp]: "only_changes R lw lw"
  by (simp add: only_changes_def)

lemma only_changes_trans:
  assumes "only_changes R lw lw1" "only_changes R lw1 lw2"
  shows "only_changes R lw lw2"
proof -
  obtain h1 where h1: "lwSeen lw1 = h1 @ lwSeen lw" "\<forall>f \<in> set (lwFiles lw1 # h1). \<forall>p. \<not> R p \<longrightarrow> f p = lwFiles lw p"
    using assms(1) unfolding only_changes_def by blast
  obtain h2 where h2: "lwSeen lw2 = h2 @ lwSeen lw1" "\<forall>f \<in> set (lwFiles lw2 # h2). \<forall>p. \<not> R p \<longrightarrow> f p = lwFiles lw1 p"
    using assms(2) unfolding only_changes_def by blast
  have "lwSeen lw2 = (h2 @ h1) @ lwSeen lw" using h1(1) h2(1) by simp
  moreover have "\<forall>f \<in> set (lwFiles lw2 # h2 @ h1). \<forall>p. \<not> R p \<longrightarrow> f p = lwFiles lw p" using h1(2) h2(2) by auto
  ultimately show ?thesis unfolding only_changes_def by blast
qed

lemma only_changes_mono: "only_changes R lw lw' \<Longrightarrow> (\<And>p. R p \<Longrightarrow> S p) \<Longrightarrow> only_changes S lw lw'"
  unfolding only_changes_def by blast

lemma touches_mono: "touches R c \<Longrightarrow> (\<And>p. R p \<Longrightarrow> S p) \<Longrightarrow> touches S c"
  unfolding touches_def using only_changes_mono by blast

lemma touches_at: "touches R c \<Longrightarrow> c lw = (r, lw') \<Longrightarrow> only_changes R lw lw'"
  unfolding touches_def by (metis snd_conv)

lemma only_changes_file: "only_changes R lw lw' \<Longrightarrow> \<not> R p \<Longrightarrow> lwFiles lw' p = lwFiles lw p"
  by (auto simp: only_changes_def)

lemma touches_tries [touch_intros]:
  assumes "touches R m" "\<And>x. touches R (f x)"
  shows "touches R (tries m f)"
  unfolding touches_def
proof
  fix lw
  obtain r lw1 where m: "m lw = (r, lw1)" by (cases "m lw")
  have 1: "only_changes R lw lw1" by (rule touches_at [OF assms(1) m])
  show "only_changes R lw (snd (tries m f lw))"
  proof (cases r)
    case (Inr x)
    have "only_changes R lw1 (snd (f x lw1))" using assms(2) by (simp add: touches_def)
    with 1 m Inr show ?thesis by (auto simp: tries_def intro: only_changes_trans)
  qed (use 1 m in \<open>simp add: tries_def\<close>)
qed

lemma touches_err_and [touch_intros]:
  assumes "touches R c" "touches R d"
  shows "touches R (err_and c d)"
  unfolding touches_def
proof
  fix lw
  obtain r lw1 where m: "c lw = (r, lw1)" by (cases "c lw")
  have 1: "only_changes R lw lw1" by (rule touches_at [OF assms(1) m])
  have "only_changes R lw1 (snd (d lw1))" using assms(2) by (simp add: touches_def)
  with 1 m show "only_changes R lw (snd (err_and c d lw))"
    by (auto simp: err_and_def split: option.split intro: only_changes_trans)
qed

lemma touches_err_also [touch_intros]:
  assumes "touches R c" "touches R d"
  shows "touches R (err_also c d)"
  unfolding touches_def
proof
  fix lw
  obtain r lw1 where m: "c lw = (r, lw1)" by (cases "c lw")
  obtain s lw2 where n: "d lw1 = (s, lw2)" by (cases "d lw1")
  show "only_changes R lw (snd (err_also c d lw))"
    using only_changes_trans [OF touches_at [OF assms(1) m] touches_at [OF assms(2) n]] m n by (simp add: err_also_def)
qed

lemma touches_pure [touch_intros]:
  "touches R (answer x)" "touches R (refuse e)" "touches R (unless_err e')" "touches R (on_src m)"
  "touches R (\<lambda>w. (y, w))"
  by (auto simp: touches_def answer_def refuse_def unless_err_def on_src_def only_changes_def split: option.split prod.split)

lemma touches_must [touch_intros]: "touches R c \<Longrightarrow> touches R (must c)"
  unfolding touches_def must_def by (auto split: option.split prod.split) (metis snd_conv)+

lemma touches_ctx [touch_intros]: "touches R (ctx_src ctx)"
  by (auto simp: touches_def ctx_src_def only_changes_def split: prod.split)

lemma lw_fault_same [simp]:
  "lw_fault lw = (f, lw1) \<Longrightarrow> lwFiles lw1 = lwFiles lw \<and> lwSeen lw1 = lwSeen lw \<and> lwGens lw1 = lwGens lw \<and> lwSrc lw1 = lwSrc lw"
  by (auto simp: lw_fault_def split: list.splits)

lemma only_changes_same: "lwFiles lw' = lwFiles lw \<Longrightarrow> lwSeen lw' = lwSeen lw \<Longrightarrow> only_changes R lw lw'"
  by (simp add: only_changes_def)

lemma only_changes_fault: "lw_fault lw = (f, lw1) \<Longrightarrow> only_changes R lw lw1"
  by (rule only_changes_same) simp_all

lemma only_changes_gens: "lw_fault lw = (f, lw1) \<Longrightarrow> only_changes R lw (lw1\<lparr>lwGens := g\<rparr>)"
  by (rule only_changes_same) simp_all

lemma touches_reads [touch_intros]: "touches R ms_nop" "touches R (ms_lookup p)" "touches R (ms_mkdir_gen g)"
  unfolding touches_def ms_nop_def ms_lookup_def ms_mkdir_gen_def
  by (auto intro: only_changes_fault only_changes_gens split: prod.split option.split)

lemma only_changes_set:
  "lwFiles lw1 = lwFiles lw \<Longrightarrow> lwSeen lw1 = lwSeen lw \<Longrightarrow> (\<And>p. \<not> R p \<Longrightarrow> files p = lwFiles lw p) \<Longrightarrow>
   only_changes R lw (lw_set files lw1)"
  by (auto simp: only_changes_def lw_set_def)

lemma touches_remove [touch_intros]: "R p \<Longrightarrow> touches R (ms_remove p)"
  unfolding touches_def ms_remove_def
  by (auto intro: only_changes_fault intro!: only_changes_set split: prod.split option.split)

lemma touches_rename [touch_intros]: "R a \<Longrightarrow> R b \<Longrightarrow> touches R (ms_rename a b)"
  unfolding touches_def ms_rename_def
  by (auto intro: only_changes_fault intro!: only_changes_set split: prod.split option.split)

lemma touches_remove_gen [touch_intros]:
  "(\<And>p. below (entry_dir root g) p \<Longrightarrow> R p) \<Longrightarrow> touches R (ms_remove_gen root g)"
  unfolding touches_def ms_remove_gen_def
  by (auto intro: only_changes_fault intro!: only_changes_set split: prod.split option.split)

lemma touches_rename_gen [touch_intros]:
  "(\<And>p. below (entry_dir root a) p \<Longrightarrow> R p) \<Longrightarrow> (\<And>p. below (entry_dir root b) p \<Longrightarrow> R p) \<Longrightarrow>
   touches R (ms_rename_gen root a b)"
  unfolding touches_def ms_rename_gen_def
  by (auto simp: Let_def intro: only_changes_fault intro!: only_changes_set split: prod.split option.split)

lemma touches_write [touch_intros]:
  assumes "R p" shows "touches R (ms_write_file p d)"
  unfolding touches_def
proof
  fix lw
  obtain f lw1 where f: "lw_fault lw = (f, lw1)" by (cases "lw_fault lw")
  have "only_changes R lw (lw1\<lparr>lwFiles := last states, lwSeen := rev states @ lwSeen lw1\<rparr>)"
    if s: "states = map (\<lambda>k. (lwFiles lw1)(p := Some (torn k d))) [0..<Suc n]" for states n
  proof -
    have "last states \<in> set states" unfolding s by (intro last_in_set) simp
    moreover have "g q = lwFiles lw q" if "g \<in> set states" "\<not> R q" for g q
      using that f assms by (auto simp: s)
    ultimately have "\<forall>g \<in> set (last states # rev states). \<forall>q. \<not> R q \<longrightarrow> g q = lwFiles lw q"
      by (metis set_ConsD set_rev)
    then show ?thesis using f unfolding only_changes_def by (intro exI [of _ "rev states"]) simp
  qed
  with f show "only_changes R lw (snd (ms_write_file p d lw))"
    unfolding ms_write_file_def by (auto simp: Let_def intro: only_changes_fault split: option.split nat.split)
qed

lemma touches_quietly: "touches R c \<Longrightarrow> only_changes R lw (quietly c lw)"
  by (simp add: touches_def quietly_def)

lemma touches_replace [touch_intros]:
  assumes "R tmp" "R target" "touches R prepare"
  shows "touches R (replace_file tmp target d (prepare :: 'w lib_world \<Rightarrow> go_err option \<times> 'w lib_world))"
  unfolding touches_def
proof
  fix lw :: "'w lib_world"
  obtain e lw1 where w: "ms_write_file tmp \<lparr>doText = [], doValue = None\<rparr> lw = (e, lw1)" by fastforce
  have 1: "only_changes R lw lw1" using touches_at [OF touches_write w] assms(1) by blast
  let ?c = "err_and (err_also (err_and prepare (err_and (ms_write_file tmp d) ms_nop)) ms_nop) (err_and (ms_rename tmp target) ms_nop)"
  obtain e2 lw2 where c: "?c lw1 = (e2, lw2)" by fastforce
  have "touches R ?c" by (intro touch_intros assms)
  from only_changes_trans [OF 1 touches_at [OF this c]] have 2: "only_changes R lw lw2" .
  have "only_changes R lw2 (quietly (ms_remove tmp) lw2)" by (intro touches_quietly touch_intros assms)
  with 1 2 w c show "only_changes R lw (snd (replace_file tmp target d prepare lw))"
    by (auto simp: replace_file_def split: option.split intro: only_changes_trans)
qed

section \<open>Validation changes nothing, a build only its own directories\<close>

lemma touches_if [touch_intros]: "touches R c \<Longrightarrow> touches R d \<Longrightarrow> touches R (if b then c else d)"
  by simp

lemma only_changes_lookup: "ms_lookup p lw = (r, lw1) \<Longrightarrow> only_changes R lw lw1"
  by (rule touches_at [OF touches_reads(2)])

lemma touches_read_managed [touch_intros]: "touches R (read_managed_file root p)"
  unfolding touches_def
proof
  fix lw
  obtain r lw1 where 1: "ms_lookup p lw = (r, lw1)" by fastforce
  obtain s lw2 where 2: "ms_lookup p lw1 = (s, lw2)" by fastforce
  show "only_changes R lw (snd (read_managed_file root p lw))"
    using only_changes_lookup [OF 1] only_changes_trans [OF only_changes_lookup [OF 1] only_changes_lookup [OF 2]] 1 2
    by (auto simp: read_managed_file_def split: sum.split)
qed

lemma touches_manifest_documents [touch_intros]: "touches R (manifest_documents root m)"
  unfolding manifest_documents_def
  by (intro touch_intros) (auto split: option.split json_value.split intro!: touch_intros)

lemma only_changes_receipt: "read_validation_receipt root m lw = (r, lw1) \<Longrightarrow> only_changes R lw lw1"
  using touches_at [OF touches_read_managed, of root "validation_receipt_path m" lw]
  by (auto simp: read_validation_receipt_def split: prod.splits sum.splits option.splits json_value.splits if_splits)

lemma only_changes_prior: "prior_filesystems root m lw = (r, lw1) \<Longrightarrow> only_changes R lw lw1"
  using only_changes_receipt by (auto simp: prior_filesystems_def split: prod.splits sum.splits)

lemma touches_prior [touch_intros]:
  "touches R (\<lambda>lw. if b then (case prior_filesystems root m lw of (known, lw1) \<Rightarrow> (Inr known, lw1)) else (Inr [], lw))"
  by (auto simp: touches_def split: prod.split intro: only_changes_prior)

lemma touches_validate [touch_intros]:
  "touches R (validate_library_manifest_data os ctx root m deep checkSources)"
  unfolding validate_library_manifest_data_def by (intro touch_intros) (auto intro!: touch_intros)

text \<open>The receipt is replaced by a rename in the directory of its generation.\<close>

definition receipt_paths :: "library_manifest \<Rightarrow> mpath \<Rightarrow> bool" where
  "receipt_paths m p \<longleftrightarrow> p = validation_receipt_path m \<or> p = butlast (validation_receipt_path m) @ [''.validation-tmp'']"

lemma touches_persist: "touches (receipt_paths m) (persist_validation_receipt text root m r)"
proof -
  have "touches (receipt_paths m) (replace_file (butlast (validation_receipt_path m) @ [''.validation-tmp''])
      (validation_receipt_path m) (document_of text (ReceiptJson r)) (\<lambda>w. (None, w)))"
    by (intro touch_intros) (simp_all add: receipt_paths_def)
  then show ?thesis by (auto simp: persist_validation_receipt_def Let_def touches_def)
qed

lemma touches_write_receipt:
  fixes os :: "'w lib_os"
  shows "touches (receipt_paths m) (write_validation_receipt text os now root m)"
  unfolding touches_def
proof
  fix lw :: "'w lib_world"
  obtain known lw1 where p: "prior_filesystems root m lw = (known, lw1)" by fastforce
  obtain r lw2 where c: "on_src (collect_legacy_filesystems os known (mfFiles m) []) lw1 = (r, lw2)" by fastforce
  have 2: "only_changes (receipt_paths m) lw lw2"
    using only_changes_trans [OF only_changes_prior [OF p] touches_at [OF touches_pure(4) c]] .
  show "only_changes (receipt_paths m) lw (snd (write_validation_receipt text os now root m lw))"
  proof (cases r)
    case (Inr ids)
    have "only_changes (receipt_paths m) lw2 (snd (persist_validation_receipt text root m x lw2))" for x
      by (rule touches_persist [unfolded touches_def, rule_format])
    then show ?thesis using only_changes_trans [OF 2] p c Inr by (simp add: write_validation_receipt_def)
  qed (use 2 p c in \<open>simp add: write_validation_receipt_def\<close>)
qed

lemma below_append [simp]: "below d (d @ [x])"
  by (simp add: below_def)

abbreviation (input) staging_dir :: "mpath \<Rightarrow> build_plan \<Rightarrow> mpath" where
  "staging_dir root plan \<equiv> entry_dir root (''.building-'' @ bpGeneration plan)"

lemma touches_write_generation:
  "touches (below (staging_dir root plan)) (write_generation config text os ctx now root plan parts)"
proof -
  obtain objects titles l metadata where parts: "parts = (objects, titles, l, metadata)" by (cases parts) auto
  let ?R = "below (staging_dir root plan)"
  have receipt: "touches ?R (write_validation_receipt text os now root
      (generation_manifest config (staging_dir root plan) g now' sz fp gs objs ts l'))" for g now' sz fp gs objs ts l'
    by (rule touches_mono [OF touches_write_receipt])
      (auto simp: receipt_paths_def validation_receipt_path_def generation_manifest_def)
  show ?thesis
    unfolding write_generation_def parts prod.case Let_def
    by (intro touch_intros receipt below_append)
qed

section \<open>What a written generation holds\<close>

lemma write_file_ok:
  assumes "ms_write_file p d lw = (None, lw1)"
  shows "lwFiles lw1 = (lwFiles lw)(p := Some d)"
  using assms
  by (auto simp: ms_write_file_def Let_def torn_def dest: lw_fault_same split: prod.splits option.splits nat.splits)

lemma rename_ok: "ms_rename a b lw = (None, lw1) \<Longrightarrow> a \<noteq> b \<Longrightarrow> \<exists>d. lwFiles lw a = Some d \<and> lwFiles lw1 = (lwFiles lw)(b \<mapsto> d, a := None)"
  by (auto simp: ms_rename_def lw_set_def dest: lw_fault_same split: prod.splits option.splits)

lemma nop_ok: "ms_nop lw = (e, lw1) \<Longrightarrow> lwFiles lw1 = lwFiles lw \<and> lwSeen lw1 = lwSeen lw \<and> lwGens lw1 = lwGens lw"
  by (auto simp: ms_nop_def dest: lw_fault_same split: prod.splits)

lemma err_and_None [simp]: "err_and c d lw = (None, lw') \<longleftrightarrow> (\<exists>lw1. c lw = (None, lw1) \<and> d lw1 = (None, lw'))"
  by (auto simp: err_and_def split: prod.splits option.splits)

lemma err_also_None [simp]: "err_also c d lw = (None, lw') \<longleftrightarrow> (\<exists>lw1. c lw = (None, lw1) \<and> d lw1 = (None, lw'))"
  by (auto simp: err_also_def split: prod.splits option.splits)

text \<open>A prepared write of \<open>replace_file\<close>: the temporary file holds the document, the target is as it was.\<close>

lemma replace_file_ok:
  assumes "replace_file tmp target d prepare lw = (None, lw')" "tmp \<noteq> target" "touches (\<lambda>_. False) prepare"
  shows "lwFiles lw' target = Some d"
proof -
  obtain lw1 lw2 lw3 lw4 lw5 lw6 lw7 where
    s: "ms_write_file tmp \<lparr>doText = [], doValue = None\<rparr> lw = (None, lw1)" "prepare lw1 = (None, lw2)"
      "ms_write_file tmp d lw2 = (None, lw3)" "ms_nop lw3 = (None, lw4)" "ms_nop lw4 = (None, lw5)"
      "ms_rename tmp target lw5 = (None, lw6)" "ms_nop lw6 = (None, lw7)" "lw' = quietly (ms_remove tmp) lw7"
    using assms(1) by (auto simp: replace_file_def split: prod.splits option.splits)
  have "lwFiles lw5 tmp = Some d"
    using write_file_ok [OF s(3)] nop_ok [OF s(4)] nop_ok [OF s(5)] by simp
  then have "lwFiles lw7 target = Some d"
    using rename_ok [OF s(6) assms(2)] nop_ok [OF s(7)] assms(2) by auto
  moreover have "only_changes (\<lambda>p. p = tmp) lw7 lw'" unfolding s(8) by (intro touches_quietly touch_intros) simp
  ultimately show ?thesis using only_changes_file assms(2) by fastforce
qed

definition documents_ready :: "(mpath \<Rightarrow> document option) \<Rightarrow> mpath \<Rightarrow> library_manifest \<Rightarrow> bool" where
  "documents_ready files dir m \<longleftrightarrow>
     (\<exists>ld md sd rd l r. files (dir @ [''layout.bin'']) = Some ld \<and> files (dir @ [''metadata.bin'']) = Some md \<and>
        files (dir @ [''checksums.json'']) = Some sd \<and> files (dir @ [''validation.json'']) = Some rd \<and>
        doValue ld = Some (LayoutJson l) \<and> doValue rd = Some (ReceiptJson r) \<and>
        check_manifest_header m = None \<and> check_manifest_layout m l = None \<and>
        check_sums m (doText ld) (doValue sd) = None \<and> validate_layout l (doText md) = None \<and>
        receipt_matches m r \<and> list_all (supplement_ok m) (vrFilesystemIDs r))"

definition manifest_in :: "mpath \<Rightarrow> library_manifest \<Rightarrow> bool" where
  "manifest_in dir m \<longleftrightarrow> mfLayoutPath m = dir @ [''layout.bin''] \<and> mfMetadataPath m = dir @ [''metadata.bin'']"

text \<open>The collected identities are those of files without one.\<close>

lemma collect_legacy_allowed:
  "collect_legacy_filesystems os known fs found w = (Inr ids, w') \<Longrightarrow> set fs \<subseteq> set (mfFiles m) \<Longrightarrow>
   list_all (supplement_ok m) found \<Longrightarrow>
   list_all (supplement_ok m) ids"
proof (induction os known fs found arbitrary: w rule: collect_legacy_filesystems.induct)
  case (2 os known f fs found)
  have upd: "list_all (supplement_ok m) (AList.update k v xs)" if "list_all (supplement_ok m) xs" "supplement_ok m (k, v)" for k v xs
    using that by (induction xs) auto
  have "supplement_ok m (ffSourcePath f, v)" if "\<not> ffWritable f" "idFilesystemID (ffIdentity f) = ''''" "v \<noteq> ''''" for v
    using 2(4) that by (auto simp: supplement_ok_def supplemental_allowed_def)
  with 2 upd show ?case by (auto split: if_splits)
qed simp

lemma manifest_documents_ok:
  assumes "manifest_documents root m lw = (Inr (l, md), lw')"
  shows "\<exists>ld mdd sd. lwFiles lw (mfLayoutPath m) = Some ld \<and> lwFiles lw (mfMetadataPath m) = Some mdd \<and>
    lwFiles lw (butlast (mfLayoutPath m) @ [''checksums.json'']) = Some sd \<and> doValue ld = Some (LayoutJson l) \<and>
    md = doText mdd \<and> check_manifest_layout m l = None \<and> check_sums m (doText ld) (doValue sd) = None \<and>
    validate_layout l (doText mdd) = None"
proof -
  have rd: "lwFiles w p = Some d \<and> lwFiles w' = lwFiles w" if "read_managed_file root p w = (Inr d, w')"
    for p d and w w' :: "'a lib_world"
    using that
    by (auto simp: read_managed_file_def ms_lookup_def dest: lw_fault_same split: if_splits prod.splits sum.splits option.splits)
  from assms obtain ld w1 mdd w2 where r: "read_managed_file root (mfLayoutPath m) lw = (Inr ld, w1)"
    "read_managed_file root (mfMetadataPath m) w1 = (Inr mdd, w2)"
    by (auto simp: manifest_documents_def)
  with assms obtain v where v: "doValue ld = Some v" by (cases "doValue ld") (auto simp: manifest_documents_def)
  with assms r obtain l' where l': "v = LayoutJson l'" by (cases v) (auto simp: manifest_documents_def)
  with assms r v obtain sd w3 where "l' = l" "check_manifest_layout m l = None"
    "read_managed_file root (butlast (mfLayoutPath m) @ [''checksums.json'']) w2 = (Inr sd, w3)"
    "check_sums m (doText ld) (doValue sd) = None" "validate_layout l (doText mdd) = None" "md = doText mdd"
    by (auto simp: manifest_documents_def)
  then show ?thesis using rd r v l' by metis
qed

lemma validate_documents:
  fixes lw :: "'w lib_world"
  assumes "validate_library_manifest_data os ctx root m deep checkSources lw = (Inr vd, lw')"
  shows "check_manifest_header m = None \<and>
    (\<exists>(w :: 'w lib_world) (w' :: 'w lib_world). lwFiles w = lwFiles lw \<and> manifest_documents root m w = (Inr (vdLayout vd, vdMetadata vd), w'))"
proof -
  from assms obtain w l md w' where w: "ctx_src ctx lw = (None, w)" "check_manifest_header m = None"
    "manifest_documents root m w = (Inr (l, md), w')" "vdLayout vd = l" "vdMetadata vd = md"
    by (auto simp: validate_library_manifest_data_def)
  have "lwFiles w = lwFiles lw" using w(1) by (auto simp: ctx_src_def split: prod.splits)
  with w show ?thesis by blast
qed

lemma write_receipt_ok:
  assumes "write_validation_receipt text os now root m lw = (None, lw')" "mfLayoutPath m = dir @ [''layout.bin'']"
  shows "\<exists>r. lwFiles lw' (dir @ [''validation.json'']) = Some (document_of text (ReceiptJson r)) \<and>
    receipt_matches m r \<and> list_all (supplement_ok m) (vrFilesystemIDs r)"
proof -
  have path: "validation_receipt_path m = dir @ [''validation.json'']" using assms(2) by (simp add: validation_receipt_path_def)
  from assms(1) obtain known w1 ids w2 lw2 where c: "collect_legacy_filesystems os known (mfFiles m) [] w1 = (Inr ids, w2)"
    and p: "persist_validation_receipt text root m
      \<lparr>vrFilesystemIDs = ids, vrSchema = validation_receipt_schema, vrValidatorSchema = library_schema,
       vrGenerationID = mfGenerationID m, vrCatalogFingerprint = mfCatalogFingerprint m,
       vrSourceIdentitySetHash = source_identity_set_hash m, vrCompleted = Some now, vrResult = ''validated''\<rparr> lw2 = (None, lw')"
    by (auto simp: write_validation_receipt_def on_src_def split: prod.splits sum.splits)
  have ids: "list_all (supplement_ok m) ids" by (rule collect_legacy_allowed [OF c]) simp_all
  define r where "r = \<lparr>vrFilesystemIDs = ids, vrSchema = validation_receipt_schema, vrValidatorSchema = library_schema,
       vrGenerationID = mfGenerationID m, vrCatalogFingerprint = mfCatalogFingerprint m,
       vrSourceIdentitySetHash = source_identity_set_hash m, vrCompleted = Some now, vrResult = ''validated''\<rparr>"
  from p have "persist_validation_receipt text root m r lw2 = (None, lw')" by (simp add: r_def)
  then have "replace_file (dir @ [''.validation-tmp'']) (dir @ [''validation.json'']) (document_of text (ReceiptJson r))
      (\<lambda>w. (None, w)) lw2 = (None, lw')"
    by (auto simp: persist_validation_receipt_def path Let_def split: if_splits)
  from replace_file_ok [OF this] have "lwFiles lw' (dir @ [''validation.json'']) = Some (document_of text (ReceiptJson r))"
    using touches_pure(5) by fastforce
  then show ?thesis using ids by (intro exI [of _ r]) (simp add: receipt_matches_def r_def)
qed

lemma checks_of_paths [simp]:
  "check_manifest_header (m\<lparr>mfLayoutPath := a, mfMetadataPath := b\<rparr>) = check_manifest_header m"
  "check_manifest_layout (m\<lparr>mfLayoutPath := a, mfMetadataPath := b\<rparr>) l = check_manifest_layout m l"
  "check_sums (m\<lparr>mfLayoutPath := a, mfMetadataPath := b\<rparr>) t v = check_sums m t v"
  "receipt_matches (m\<lparr>mfLayoutPath := a, mfMetadataPath := b\<rparr>) r = receipt_matches m r"
  "supplement_ok (m\<lparr>mfLayoutPath := a, mfMetadataPath := b\<rparr>) = supplement_ok m"
proof -
  have s: "match_save_extents (m\<lparr>mfLayoutPath := a, mfMetadataPath := b\<rparr>) xs objs = match_save_extents m xs objs" for xs objs
    by (induction m xs objs rule: match_save_extents.induct) (auto split: option.split)
  show "check_manifest_layout (m\<lparr>mfLayoutPath := a, mfMetadataPath := b\<rparr>) l = check_manifest_layout m l"
    by (simp add: check_manifest_layout_def s cong: if_cong option.case_cong)
  show "check_manifest_header (m\<lparr>mfLayoutPath := a, mfMetadataPath := b\<rparr>) = check_manifest_header m"
    by (simp add: check_manifest_header_def manifest_mode_ok_def cong: if_cong)
qed (simp_all add: check_sums_def Let_def receipt_matches_def
      source_identity_set_hash_def supplement_ok_def supplemental_allowed_def fun_eq_iff split: option.split json_value.split)

lemma write_generation_ready:
  fixes lw :: "'w lib_world"
  assumes "write_generation config text os ctx now root plan (objects, titles, l, metadata) lw = (Inr m, lw')"
  defines "dir \<equiv> entry_dir root (bpGeneration plan)"
  shows "documents_ready (lwFiles lw') (staging_dir root plan)
      (m\<lparr>mfLayoutPath := staging_dir root plan @ [''layout.bin''], mfMetadataPath := staging_dir root plan @ [''metadata.bin'']\<rparr>) \<and>
    lwFiles lw' (staging_dir root plan @ [''manifest.json'']) = Some (document_of text (ManifestJson m)) \<and>
    lwFiles lw' (staging_dir root plan @ [''layout.bin'']) = Some (document_of text (LayoutJson l)) \<and>
    lwFiles lw' (staging_dir root plan @ [''metadata.bin'']) = Some \<lparr>doText = metadata, doValue = None\<rparr> \<and>
    m = generation_manifest config dir (bpGeneration plan) now (bpSize plan) (bpFingerprint plan) (bpGames plan)
          objects titles l"
proof -
  define sd where "sd = staging_dir root plan"
  define man where "man = (\<lambda>d. generation_manifest config d (bpGeneration plan) now (bpSize plan)
      (bpFingerprint plan) (bpGames plan) objects titles l)"
  from assms(1) obtain vd w1 w2 w3 w4 w5 w6 w7 where
    s: "ms_write_file (sd @ [''layout.bin'']) (document_of text (LayoutJson l)) lw = (None, w1)"
    "ms_write_file (sd @ [''metadata.bin'']) \<lparr>doText = metadata, doValue = None\<rparr> w1 = (None, w2)"
    "ms_write_file (sd @ [''checksums.json'']) (document_of text (ChecksumsJson library_schema
       (layout_checksums l (text (LayoutJson l))))) w2 = (None, w3)"
    "validate_library_manifest_data os ctx root (man sd) True True w3 = (Inr vd, w4)"
    "write_validation_receipt text os now root (man sd) w4 = (None, w5)"
    "ms_write_file (sd @ [''manifest.json'']) (document_of text (ManifestJson (man dir))) w5 = (None, w6)"
    "ms_nop w6 = (None, w7)" "ctx_src ctx w7 = (None, lw')" "m = man dir"
    by (auto simp: write_generation_def sd_def man_def dir_def Let_def)
  have layout: "mfLayoutPath (man d) = d @ [''layout.bin'']" "mfMetadataPath (man d) = d @ [''metadata.bin'']" for d
    by (simp_all add: man_def generation_manifest_def)
  have f3: "lwFiles w3 (sd @ [''layout.bin'']) = Some (document_of text (LayoutJson l))"
    "lwFiles w3 (sd @ [''metadata.bin'']) = Some \<lparr>doText = metadata, doValue = None\<rparr>"
    using write_file_ok [OF s(1)] write_file_ok [OF s(2)] write_file_ok [OF s(3)] by auto
  have f4: "lwFiles w4 = lwFiles w3"
    using only_changes_file [OF touches_at [OF touches_validate s(4)]] by fastforce
  have f5: "lwFiles w5 p = lwFiles w4 p" if "\<not> receipt_paths (man sd) p" for p
    by (rule only_changes_file [OF touches_at [OF touches_write_receipt s(5)] that])
  have f6: "lwFiles lw' = (lwFiles w5)(sd @ [''manifest.json''] \<mapsto> document_of text (ManifestJson (man dir)))"
    using write_file_ok [OF s(6)] nop_ok [OF s(7)] s(8) by (auto simp: ctx_src_def split: prod.splits)
  have kept: "lwFiles lw' (sd @ [x]) = lwFiles w3 (sd @ [x])"
    if "x \<in> {''layout.bin'', ''metadata.bin'', ''checksums.json''}" for x
    using that f4 f5 [of "sd @ [x]"] f6 by (auto simp: receipt_paths_def validation_receipt_path_def layout)
  obtain r where r: "lwFiles w5 (sd @ [''validation.json'']) = Some (document_of text (ReceiptJson r))"
    "receipt_matches (man sd) r" "list_all (supplement_ok (man sd)) (vrFilesystemIDs r)"
    using write_receipt_ok [OF s(5) layout(1)] by blast
  from validate_documents [OF s(4)] obtain w w' :: "'w lib_world" where v: "check_manifest_header (man sd) = None" "lwFiles w = lwFiles w3"
    "manifest_documents root (man sd) w = (Inr (vdLayout vd, vdMetadata vd), w')" by blast
  from manifest_documents_ok [OF v(3)] f3 obtain sumd where d:
    "lwFiles w3 (sd @ [''checksums.json'']) = Some sumd" "check_manifest_layout (man sd) l = None"
    "check_sums (man sd) (doText (document_of text (LayoutJson l))) (doValue sumd) = None" "validate_layout l metadata = None"
    by (auto simp: v(2) layout document_of_def)
  have paths: "m\<lparr>mfLayoutPath := sd @ [''layout.bin''], mfMetadataPath := sd @ [''metadata.bin'']\<rparr> = man sd"
    by (simp add: s(9) man_def generation_manifest_def)
  have fin: "lwFiles lw' (sd @ [''layout.bin'']) = Some (document_of text (LayoutJson l))"
    "lwFiles lw' (sd @ [''metadata.bin'']) = Some \<lparr>doText = metadata, doValue = None\<rparr>"
    "lwFiles lw' (sd @ [''checksums.json'']) = Some sumd"
    using kept f3 d(1) by simp_all
  have rec: "lwFiles lw' (sd @ [''validation.json'']) = Some (document_of text (ReceiptJson r))"
    "lwFiles lw' (sd @ [''manifest.json'']) = Some (document_of text (ManifestJson (man dir)))"
    using f6 r(1) by simp_all
  have "documents_ready (lwFiles lw') sd (man sd)"
    unfolding documents_ready_def
    by (rule exI [of _ "document_of text (LayoutJson l)"], rule exI [of _ "\<lparr>doText = metadata, doValue = None\<rparr>"],
        rule exI [of _ sumd], rule exI [of _ "document_of text (ReceiptJson r)"], rule exI [of _ l], rule exI [of _ r])
      (use fin rec d r v(1) in \<open>simp add: document_of_def\<close>)
  then show ?thesis
    unfolding sd_def [symmetric] using paths fin rec s(9) by (simp add: man_def)
qed

end
