(* ===== verification/Lib_Crash.thy ===== *)
theory Lib_Crash
  imports Lib_Publish
begin

text \<open>
  A build can be interrupted at any moment, by an error or by a crash of the host: the pointer
  to the active generation then leads either to the old one, untouched, or to the new one,
  complete and validated.
\<close>

section \<open>The states a call goes through\<close>

definition states_in :: "((mpath \<Rightarrow> document option) \<Rightarrow> bool) \<Rightarrow> 'w lib_world \<Rightarrow> 'w lib_world \<Rightarrow> bool" where
  "states_in P lw lw' \<longleftrightarrow> (\<exists>hs. lwSeen lw' = hs @ lwSeen lw \<and> list_all P (lwFiles lw' # hs))"

lemma states_in_trans:
  assumes "states_in P lw lw1" "states_in P lw1 lw2"
  shows "states_in P lw lw2"
proof -
  obtain h1 where h1: "lwSeen lw1 = h1 @ lwSeen lw" "list_all P (lwFiles lw1 # h1)" using assms(1) unfolding states_in_def by blast
  obtain h2 where h2: "lwSeen lw2 = h2 @ lwSeen lw1" "list_all P (lwFiles lw2 # h2)" using assms(2) unfolding states_in_def by blast
  show ?thesis unfolding states_in_def using h1 h2 by (intro exI [of _ "h2 @ h1"]) simp
qed

lemma states_in_mono: "states_in P lw lw' \<Longrightarrow> (\<And>f. P f \<Longrightarrow> Q f) \<Longrightarrow> states_in Q lw lw'"
  unfolding states_in_def by (metis list.pred_mono_strong)

lemma states_in_changes:
  assumes "only_changes R lw lw'" "\<And>f. (\<And>p. \<not> R p \<Longrightarrow> f p = lwFiles lw p) \<Longrightarrow> P f"
  shows "states_in P lw lw'"
  using assms unfolding only_changes_def states_in_def list_all_iff by meson

lemma states_in_last: "states_in P lw lw' \<Longrightarrow> P (lwFiles lw')"
  by (auto simp: states_in_def)

lemma states_in_step: "lwSeen lw' = hs @ lwSeen lw \<Longrightarrow> list_all P (lwFiles lw' # hs) \<Longrightarrow> states_in P lw lw'"
  unfolding states_in_def by blast

text \<open>A file replaced by a rename is the old one or the new one, never anything else.\<close>

lemma replace_file_states:
  fixes lw :: "'w lib_world"
  assumes r: "replace_file tmp target d prepare lw = (e, lw')" and ne: "tmp \<noteq> target"
    and prep: "touches (\<lambda>_. False) (prepare :: 'w lib_world \<Rightarrow> go_err option \<times> 'w lib_world)"
  defines "P \<equiv> \<lambda>f. (f target = lwFiles lw target \<or> f target = Some d) \<and> (\<forall>p. p \<noteq> tmp \<and> p \<noteq> target \<longrightarrow> f p = lwFiles lw p)"
  shows "states_in P lw lw'"
proof -
  let ?T = "\<lambda>p. p = tmp"
  have keep: "states_in P w w'" if "only_changes ?T w w'" "P (lwFiles w)" for w w' :: "'w lib_world"
    by (rule states_in_changes [OF that(1)]) (use that(2) ne in \<open>auto simp: P_def\<close>)
  obtain e1 lw1 where w: "ms_write_file tmp \<lparr>doText = [], doValue = None\<rparr> lw = (e1, lw1)" by fastforce
  have "touches ?T (ms_write_file tmp \<lparr>doText = [], doValue = None\<rparr> :: 'w lib_world \<Rightarrow> _)" by (intro touch_intros refl)
  from this w have "only_changes ?T lw lw1" by (rule touches_at)
  then have 1: "states_in P lw lw1" by (rule keep) (simp add: P_def)
  let ?c = "err_also (err_and prepare (err_and (ms_write_file tmp d) ms_nop)) ms_nop"
  obtain e2 lw2 where c: "?c lw1 = (e2, lw2)" by fastforce
  have "touches ?T ?c" using touches_mono [OF prep] by (intro touch_intros) auto
  from this c have "only_changes ?T lw1 lw2" by (rule touches_at)
  from keep [OF this states_in_last [OF 1]] have 2: "states_in P lw lw2"
    using states_in_trans [OF 1] by blast
  have "\<exists>lw3. states_in P lw lw3 \<and> lw' = (if e1 = None then quietly (ms_remove tmp) lw3 else lw1)"
  proof (cases "e1 = None \<and> e2 = None")
    case True
    then obtain a b :: "'w lib_world" where s: "ms_write_file tmp d a = (None, b)" "lwFiles lw2 = lwFiles b"
      using c by (auto dest!: nop_ok)
    obtain e3 lw3 where n: "ms_rename tmp target lw2 = (e3, lw3)" by fastforce
    have "states_in P lw2 lw3"
    proof (cases "e3 = None")
      case False
      with n have "lwFiles lw3 = lwFiles lw2" "lwSeen lw3 = lwSeen lw2"
        by (auto simp: ms_rename_def dest: lw_fault_same split: prod.splits option.splits)
      then show ?thesis using states_in_last [OF 2] by (intro states_in_step [of _ "[]"]) auto
    next
      case ok: True
      have "lwFiles lw2 tmp = Some d" using write_file_ok [OF s(1)] s(2) by simp
      then have f: "lwFiles lw3 = (lwFiles lw2)(target \<mapsto> d, tmp := None)" "lwSeen lw3 = lwFiles lw3 # lwSeen lw2"
        using n ok by (auto simp: ms_rename_def lw_set_def dest: lw_fault_same split: prod.splits option.splits)
      then show ?thesis using states_in_last [OF 2] ne by (intro states_in_step [of _ "[lwFiles lw3]"]) (auto simp: P_def)
    qed
    with 2 have 3: "states_in P lw lw3" by (rule states_in_trans)
    obtain e4 lw4 where p: "ms_nop lw3 = (e4, lw4)" by fastforce
    have 4: "states_in P lw lw4"
      by (rule states_in_trans [OF 3]) (use nop_ok [OF p] states_in_last [OF 3] in \<open>auto intro: states_in_step [of _ "[]"]\<close>)
    show ?thesis using r w c n p True 3 4 by (cases e3) (auto simp: replace_file_def err_and_def)
  next
    case False
    then show ?thesis using r w c 1 2 by (cases e1; cases e2) (auto simp: replace_file_def err_and_def)
  qed
  then obtain lw3 where 3: "states_in P lw lw3" "lw' = (if e1 = None then quietly (ms_remove tmp) lw3 else lw1)" by blast
  have "states_in P lw3 (quietly (ms_remove tmp) lw3)"
    by (rule keep [OF touches_quietly states_in_last [OF 3(1)]]) (intro touch_intros refl)
  with 1 3 show ?thesis by (auto intro: states_in_trans)
qed

section \<open>What the host finds when it starts\<close>

definition restart :: "(mpath \<Rightarrow> document option) \<Rightarrow> unit lib_world" where
  "restart files = \<lparr>lwFiles = files, lwGens = [], lwFaults = [], lwSeen = [], lwSrc = ()\<rparr>"

text \<open>The pointer, the manifest, its documents and its receipt are read and accepted.\<close>

definition opens_as :: "mpath \<Rightarrow> (mpath \<Rightarrow> document option) \<Rightarrow> library_manifest \<Rightarrow> bool" where
  "opens_as root files m \<longleftrightarrow>
     active_manifest root (restart files) = (Inr m, restart files) \<and> check_manifest_header m = None \<and>
     (\<exists>l md r. manifest_documents root m (restart files) = (Inr (l, md), restart files) \<and>
        read_validation_receipt root m (restart files) = (Inr r, restart files))"

lemma lookup_restart [simp]:
  "ms_lookup p (restart files) = ((case files p of None \<Rightarrow> Inl ErrNotExist | Some d \<Rightarrow> Inr d), restart files)"
  by (simp add: ms_lookup_def lw_fault_def restart_def)

lemma read_managed_restart:
  "files p = Some d \<Longrightarrow> below root p \<Longrightarrow> read_managed_file root p (restart files) = (Inr d, restart files)"
  by (simp add: read_managed_file_def)

lemma below_entry [simp]: "below root (entry_dir root g @ xs)"
  by (simp add: below_def entry_dir_def)

definition published :: "(json_value \<Rightarrow> byte list) \<Rightarrow> mpath \<Rightarrow> (mpath \<Rightarrow> document option) \<Rightarrow> library_manifest \<Rightarrow> bool" where
  "published text root files m \<longleftrightarrow>
     (let dir = entry_dir root (mfGenerationID m)
      in files (dir @ [''manifest.json'']) = Some (document_of text (ManifestJson m)) \<and>
         documents_ready files dir m \<and> manifest_in dir m \<and> mfGenerationID m \<noteq> ''.'')"

lemma published_opens:
  assumes "published text root files m"
    and "files (root @ [''active.json'']) = Some (document_of text (PointerJson library_schema (mfGenerationID m)))"
  shows "opens_as root files m"
proof -
  define dir where "dir = entry_dir root (mfGenerationID m)"
  from assms(1) have p: "files (dir @ [''manifest.json'']) = Some (document_of text (ManifestJson m))"
    "documents_ready files dir m" "manifest_in dir m" "mfGenerationID m \<noteq> ''.''"
    by (simp_all add: published_def dir_def Let_def)
  from p(2) obtain ld md sd rd l r where d: "files (dir @ [''layout.bin'']) = Some ld" "files (dir @ [''metadata.bin'']) = Some md"
    "files (dir @ [''checksums.json'']) = Some sd" "files (dir @ [''validation.json'']) = Some rd"
    "doValue ld = Some (LayoutJson l)" "doValue rd = Some (ReceiptJson r)" "check_manifest_header m = None"
    "check_manifest_layout m l = None" "check_sums m (doText ld) (doValue sd) = None" "validate_layout l (doText md) = None"
    "receipt_matches m r" "list_all (supplement_ok m) (vrFilesystemIDs r)"
    unfolding documents_ready_def by blast
  have paths: "mfLayoutPath m = dir @ [''layout.bin'']" "mfMetadataPath m = dir @ [''metadata.bin'']"
    using p(3) by (simp_all add: manifest_in_def)
  have below: "below root (dir @ xs)" for xs by (simp add: dir_def)
  have rm: "read_managed_file root (dir @ [x]) (restart files) = (Inr y, restart files)"
    if "files (dir @ [x]) = Some y" for x y
    using that below by (rule read_managed_restart)
  have dirs: "generation_dir root (mfGenerationID m) = dir" using p(4) by (simp add: generation_dir_def entry_dir_def dir_def)
  have "safe_generation_id (mfGenerationID m)" using d(7) by (auto simp: check_manifest_header_def split: if_splits)
  then have "active_manifest root (restart files) = (Inr m, restart files)"
    using assms(2) p(1) below by (simp add: active_manifest_def document_of_def dirs load_library_manifest_def answer_def)
  moreover have "manifest_documents root m (restart files) = (Inr (l, doText md), restart files)"
    using rm [OF d(1)] rm [OF d(2)] rm [OF d(3)] d(5,8,9,10)
    by (simp add: manifest_documents_def paths unless_err_def answer_def)
  moreover have "read_validation_receipt root m (restart files) = (Inr r, restart files)"
    using rm [OF d(4)] d(6,11,12) by (simp add: read_validation_receipt_def validation_receipt_path_def paths)
  ultimately show ?thesis using d(7) by (auto simp: opens_as_def)
qed

definition current :: "(json_value \<Rightarrow> byte list) \<Rightarrow> mpath \<Rightarrow> (mpath \<Rightarrow> document option) \<Rightarrow> library_manifest \<Rightarrow> bool" where
  "current text root files m \<longleftrightarrow> published text root files m \<and>
     files (root @ [''active.json'']) = Some (document_of text (PointerJson library_schema (mfGenerationID m)))"

lemma current_opens: "current text root files m \<Longrightarrow> opens_as root files m"
  by (auto simp: current_def intro: published_opens)

text \<open>The pointer names a generation whose documents, all in its own directory, are accepted.\<close>

definition opens_in :: "mpath \<Rightarrow> string \<Rightarrow> (mpath \<Rightarrow> document option) \<Rightarrow> library_manifest \<Rightarrow> bool" where
  "opens_in root g files m \<longleftrightarrow> opens_as root files m \<and> manifest_in (generation_dir root g) m \<and>
     (\<exists>d s. files (root @ [''active.json'']) = Some d \<and> doValue d = Some (PointerJson s g))"

lemma current_opens_in: "current text root files m \<Longrightarrow> opens_in root (mfGenerationID m) files m"
  using current_opens [of _ root files m]
  by (simp add: opens_in_def current_def published_def Let_def document_of_def generation_dir_def entry_dir_def)

lemma documents_ready_cong:
  "(\<And>x. f (dir @ [x]) = g (dir' @ [x])) \<Longrightarrow> documents_ready f dir m = documents_ready g dir' m"
  by (simp add: documents_ready_def)

lemma published_cong:
  "(\<And>x. f (entry_dir root (mfGenerationID m) @ [x]) = g (entry_dir root (mfGenerationID m) @ [x])) \<Longrightarrow>
   published text root f m = published text root g m"
  using documents_ready_cong [of f _ g] by (simp add: published_def Let_def)

lemma entry_disjoint:
  "a \<noteq> b \<Longrightarrow> below (entry_dir root a) p \<Longrightarrow> \<not> below (entry_dir root b) p"
  "\<not> below (entry_dir root a) (root @ [x])"
proof -
  assume ab: "a \<noteq> b" "below (entry_dir root a) p"
  have "take (length root + 2) p = root @ [''generations'', g]" if "below (entry_dir root g) p" for g
    using that by (simp add: below_def entry_dir_def)
  from this [OF ab(2)] this [of b] ab(1) show "\<not> below (entry_dir root b) p" by auto
qed (simp add: below_def entry_dir_def)

lemma only_changes_remove_gens:
  "(\<And>g p. g \<in> set gs \<Longrightarrow> below (entry_dir root g) p \<Longrightarrow> R p) \<Longrightarrow> only_changes R lw (remove_generations root gs lw)"
proof (induction gs arbitrary: lw)
  case (Cons g gs)
  have "only_changes R lw (quietly (ms_remove_gen root g) lw)"
    by (intro touches_quietly touch_intros) (use Cons.prems in auto)
  then show ?case using Cons only_changes_trans by fastforce
qed simp

lemma prunable_others:
  "prunable root active gs lw = (names, lw') \<Longrightarrow> active \<notin> set names \<and> only_changes R lw lw'"
proof (induction root active gs lw arbitrary: names lw' rule: prunable.induct)
  case (2 root active g gs lw)
  show ?case
  proof (cases "has_prefix ''.building-'' g \<or> g = active")
    case False
    obtain d lw1 where l: "ms_lookup (entry_dir root g @ [''manifest.json'']) lw = (d, lw1)" by fastforce
    obtain rest lw2 where p: "prunable root active gs lw1 = (rest, lw2)" by fastforce
    have "active \<notin> set rest \<and> only_changes R lw1 lw2" using "2.IH"(2) False l p by auto
    then show ?thesis
      using 2(3) False l p only_changes_trans [OF only_changes_lookup [OF l]]
      by (auto split: sum.splits option.splits json_value.splits if_splits)
  qed (use 2 in auto)
qed simp

lemma prune_keeps:
  "prune retention root active lw = (e, lw') \<Longrightarrow>
   only_changes (\<lambda>p. \<exists>g. g \<noteq> active \<and> below (entry_dir root g) p) lw lw'"
proof -
  let ?R = "\<lambda>p. \<exists>g. g \<noteq> active \<and> below (entry_dir root g) p"
  assume a: "prune retention root active lw = (e, lw')"
  obtain e1 lw1 where n: "ms_nop lw = (e1, lw1)" by fastforce
  obtain names lw2 where p: "prunable root active (lwGens lw1) lw1 = (names, lw2)" by fastforce
  have 1: "only_changes ?R lw lw1" by (rule touches_at [OF touches_reads(1) n])
  note 2 = prunable_others [OF p, of ?R]
  define gs where "gs = drop (nat (retention - 1)) (rev (sort names))"
  have "set gs \<subseteq> set names" using set_drop_subset [of "nat (retention - 1)" "rev (sort names)"] by (simp add: gs_def)
  with 2 have "only_changes ?R lw2 (remove_generations root gs lw2)" by (intro only_changes_remove_gens) auto
  with a n p 1 2 show ?thesis
    unfolding prune_def gs_def by (auto split: option.splits intro: only_changes_trans)
qed

section \<open>Publishing\<close>

definition same_active ::
  "mpath \<Rightarrow> string \<Rightarrow> (mpath \<Rightarrow> document option) \<Rightarrow> (mpath \<Rightarrow> document option) \<Rightarrow> bool" where
  "same_active root g0 files f \<longleftrightarrow> f (root @ [''active.json'']) = files (root @ [''active.json'']) \<and>
     (\<forall>p. below (generation_dir root g0) p \<longrightarrow> f p = files p)"

lemma same_active_trans: "same_active root g0 a b \<Longrightarrow> same_active root g0 b c \<Longrightarrow> same_active root g0 a c"
  by (simp add: same_active_def)

lemma same_active_below:
  "same_active root g0 files f \<Longrightarrow> f (generation_dir root g0 @ [x]) = files (generation_dir root g0 @ [x])"
  by (simp add: same_active_def)

text \<open>Documents that did not change open as they did.\<close>

lemma same_active_opens:
  assumes "same_active root g files f" "opens_in root g files m"
  shows "opens_in root g f m"
proof -
  note same = same_active_below [OF assms(1)]
  have p: "f (root @ [''active.json'']) = files (root @ [''active.json''])" using assms(1) by (simp add: same_active_def)
  from assms(2) obtain d s where d: "files (root @ [''active.json'']) = Some d" "doValue d = Some (PointerJson s g)"
    and o: "opens_as root files m" and i: "manifest_in (generation_dir root g) m" unfolding opens_in_def by blast
  from i have l: "mfLayoutPath m = generation_dir root g @ [''layout.bin'']"
    "mfMetadataPath m = generation_dir root g @ [''metadata.bin'']" by (simp_all add: manifest_in_def)
  have "active_manifest root (restart f) = (Inr m, restart f) \<longleftrightarrow> active_manifest root (restart files) = (Inr m, restart files)"
    using d by (auto simp: active_manifest_def p load_library_manifest_def same split: option.splits json_value.splits if_splits)
  moreover have "manifest_documents root m (restart f) = (Inr x, restart f) \<longleftrightarrow>
      manifest_documents root m (restart files) = (Inr x, restart files)" for x
    by (auto simp: manifest_documents_def l read_managed_file_def same split: option.splits json_value.splits if_splits)
  moreover have "read_validation_receipt root m (restart f) = (Inr x, restart f) \<longleftrightarrow>
      read_validation_receipt root m (restart files) = (Inr x, restart files)" for x
    by (auto simp: read_validation_receipt_def validation_receipt_path_def l read_managed_file_def same
        split: option.splits json_value.splits if_splits)
  ultimately show ?thesis using o d p i by (simp add: opens_as_def opens_in_def)
qed

lemma same_active_other:
  assumes "\<And>p. \<not> below (entry_dir root a) p \<and> \<not> below (entry_dir root b) p \<Longrightarrow> f p = files p" "g0 \<notin> {''.'', a, b}"
  shows "same_active root g0 files f"
proof -
  have "generation_dir root g0 = entry_dir root g0" using assms(2) by (simp add: generation_dir_def entry_dir_def)
  then show ?thesis
    unfolding same_active_def using assms entry_disjoint(1) [of g0] entry_disjoint(2) [of root _ "''active.json''"] by auto
qed

lemma documents_ready_paths [simp]:
  "documents_ready files dir (m\<lparr>mfLayoutPath := a, mfMetadataPath := b\<rparr>) = documents_ready files dir m"
  by (simp add: documents_ready_def)

lemma rename_gen_states:
  assumes "ms_rename_gen root a g lw = (e, lw')" "g0 \<notin> {''.'', a, g}"
  shows "states_in (same_active root g0 (lwFiles lw)) lw lw'"
    "e = None \<Longrightarrow> lwFiles lw' (entry_dir root g @ [x]) = lwFiles lw (entry_dir root a @ [x])"
proof -
  have "touches (\<lambda>p. below (entry_dir root a) p \<or> below (entry_dir root g) p) (ms_rename_gen root a g)"
    by (intro touch_intros) simp_all
  from this assms(1) have "only_changes (\<lambda>p. below (entry_dir root a) p \<or> below (entry_dir root g) p) lw lw'"
    by (rule touches_at)
  then show "states_in (same_active root g0 (lwFiles lw)) lw lw'"
    by (rule states_in_changes) (rule same_active_other [OF _ assms(2)], simp)
  show "e = None \<Longrightarrow> lwFiles lw' (entry_dir root g @ [x]) = lwFiles lw (entry_dir root a @ [x])"
    using assms(1) by (auto simp: ms_rename_gen_def lw_set_def Let_def dest: lw_fault_same split: prod.splits option.splits if_splits)
qed

lemma promote_states:
  fixes lw :: "'w lib_world"
  assumes p: "promote text root (mfGenerationID m) lw = (e, lw')" and m: "published text root (lwFiles lw) m"
  shows "states_in (\<lambda>f. same_active root g0 (lwFiles lw) f \<or> current text root f m) lw lw'"
    "published text root (lwFiles lw') m"
    "e = None \<Longrightarrow> lwFiles lw' (root @ [''active.json'']) = Some (document_of text (PointerJson library_schema (mfGenerationID m)))"
proof -
  have nop: "touches (\<lambda>_. False) (ms_nop :: 'w lib_world \<Rightarrow> go_err option \<times> 'w lib_world)" by (rule touch_intros)
  note r = p [unfolded promote_def]
  have ne: "root @ [''.active-tmp''] \<noteq> root @ [''active.json'']" by simp
  have keep: "published text root f m"
    if "\<And>p. p \<noteq> root @ [''.active-tmp''] \<and> p \<noteq> root @ [''active.json''] \<Longrightarrow> f p = lwFiles lw p" for f
  proof -
    have "f (entry_dir root (mfGenerationID m) @ [x]) = lwFiles lw (entry_dir root (mfGenerationID m) @ [x])" for x
      by (rule that) (simp add: entry_dir_def)
    then show ?thesis using m published_cong by blast
  qed
  have other: "\<not> below (generation_dir root g0) (root @ [x])" if "x \<noteq> ''generations''" for x
    using that by (auto simp: below_def generation_dir_def)
  note s = replace_file_states [OF r ne nop]
  show "states_in (\<lambda>f. same_active root g0 (lwFiles lw) f \<or> current text root f m) lw lw'"
  proof (rule states_in_mono [OF s])
    fix f
    assume f: "(f (root @ [''active.json'']) = lwFiles lw (root @ [''active.json'']) \<or>
        f (root @ [''active.json'']) = Some (document_of text (PointerJson library_schema (mfGenerationID m)))) \<and>
      (\<forall>p. p \<noteq> root @ [''.active-tmp''] \<and> p \<noteq> root @ [''active.json''] \<longrightarrow> f p = lwFiles lw p)"
    show "same_active root g0 (lwFiles lw) f \<or> current text root f m"
    proof (cases "f (root @ [''active.json'']) = lwFiles lw (root @ [''active.json''])")
      case True
      have "f p = lwFiles lw p" if "below (generation_dir root g0) p" for p
      proof -
        have "p \<noteq> root @ [''.active-tmp'']" "p \<noteq> root @ [''active.json'']"
          using that other [of "''.active-tmp''"] other [of "''active.json''"] by auto
        with conjunct2 [OF f] show ?thesis by simp
      qed
      with True show ?thesis by (simp add: same_active_def)
    next
      case False
      with conjunct1 [OF f]
      have "f (root @ [''active.json'']) = Some (document_of text (PointerJson library_schema (mfGenerationID m)))"
        by simp
      moreover have "published text root f m" using conjunct2 [OF f] by (intro keep) simp
      ultimately show ?thesis by (simp add: current_def)
    qed
  qed
  show "published text root (lwFiles lw') m" using states_in_last [OF s] keep by blast
  show "e = None \<Longrightarrow> lwFiles lw' (root @ [''active.json'']) = Some (document_of text (PointerJson library_schema (mfGenerationID m)))"
    using replace_file_ok [OF _ ne nop] r by blast
qed

lemma prune_states:
  fixes lw :: "'w lib_world"
  assumes "published text root (lwFiles lw) m"
    "lwFiles lw (root @ [''active.json'']) = Some (document_of text (PointerJson library_schema (mfGenerationID m)))"
  shows "states_in (\<lambda>f. current text root f m) lw (quietly (prune retention root (mfGenerationID m)) lw)"
proof -
  obtain e lw' where p: "prune retention root (mfGenerationID m) lw = (e, lw')" by fastforce
  let ?R = "\<lambda>p. \<exists>g. g \<noteq> mfGenerationID m \<and> below (entry_dir root g) p"
  have "states_in (\<lambda>f. current text root f m) lw lw'"
  proof (rule states_in_changes [OF prune_keeps [OF p]])
    fix f
    assume f: "\<And>p. \<not> ?R p \<Longrightarrow> f p = lwFiles lw p"
    have "f (entry_dir root (mfGenerationID m) @ [x]) = lwFiles lw (entry_dir root (mfGenerationID m) @ [x])" for x
      by (rule f) (use entry_disjoint(1) below_append in blast)
    then have pub: "published text root f m" using assms(1) published_cong by blast
    have "f (root @ [''active.json'']) = lwFiles lw (root @ [''active.json''])"
      by (rule f) (use entry_disjoint(2) in blast)
    with assms(2) have "f (root @ [''active.json'']) = Some (document_of text (PointerJson library_schema (mfGenerationID m)))"
      by simp
    with pub show "current text root f m" by (simp add: current_def)
  qed
  then show ?thesis by (simp add: quietly_def p)
qed

lemma publish_states:
  fixes lw :: "'w lib_world"
  assumes p: "publish config text root (mfGenerationID m) m lw = (r, lw')"
    and ready: "documents_ready (lwFiles lw) (entry_dir root (''.building-'' @ mfGenerationID m)) m"
      "lwFiles lw (entry_dir root (''.building-'' @ mfGenerationID m) @ [''manifest.json'']) = Some (document_of text (ManifestJson m))"
      "manifest_in (entry_dir root (mfGenerationID m)) m" "mfGenerationID m \<noteq> ''.''"
    and g0: "g0 \<notin> {''.'', ''.building-'' @ mfGenerationID m, mfGenerationID m}"
  shows "states_in (\<lambda>f. same_active root g0 (lwFiles lw) f \<or> current text root f m) lw lw'"
    "case r of Inr m' \<Rightarrow> m' = m \<and> current text root (lwFiles lw') m | Inl _ \<Rightarrow> True"
proof -
  define a where "a = ''.building-'' @ mfGenerationID m"
  define g where "g = mfGenerationID m"
  let ?Q = "\<lambda>f. same_active root g0 (lwFiles lw) f \<or> current text root f m"
  obtain e1 w1 where r1: "ms_rename_gen root a g lw = (e1, w1)" by fastforce
  have g0': "g0 \<notin> {''.'', a, g}" using g0 by (simp add: a_def g_def)
  have 1: "states_in (same_active root g0 (lwFiles lw)) lw w1" by (rule rename_gen_states(1) [OF r1 g0'])
  then have Q1: "states_in ?Q lw w1" by (rule states_in_mono) simp
  obtain e2 w2 where r2: "ms_nop w1 = (e2, w2)" by fastforce
  have same: "lwFiles w2 = lwFiles w1" "lwSeen w2 = lwSeen w1" using nop_ok [OF r2] by auto
  have Q2: "states_in ?Q lw w2"
    by (rule states_in_trans [OF Q1], rule states_in_step [of _ "[]"]) (use same states_in_last [OF Q1] in auto)
  obtain e3 w3 where r3: "promote text root (mfGenerationID m) w2 = (e3, w3)" by fastforce
  have run: "publish config text root (mfGenerationID m) m lw =
      (case e1 of Some err \<Rightarrow> (Inl err, w1) | None \<Rightarrow> (case e2 of Some err \<Rightarrow> (Inl err, w2) | None \<Rightarrow>
        (case e3 of Some err \<Rightarrow> (Inl err, w3) | None \<Rightarrow>
          (Inr m, quietly (prune (lcRetention config) root (mfGenerationID m)) w3))))"
    using r1 r2 r3 by (simp add: publish_def tries_def must_def a_def g_def split: option.split)
  have "states_in ?Q lw lw' \<and> (case r of Inr m' \<Rightarrow> m' = m \<and> current text root (lwFiles lw') m | Inl _ \<Rightarrow> True)"
  proof (cases "e1 = None \<and> e2 = None")
    case False
    then show ?thesis using p Q1 Q2 unfolding run by (auto split: option.splits)
  next
    case True
    have moved: "lwFiles w1 (entry_dir root g @ [x]) = lwFiles lw (entry_dir root a @ [x])" for x
      using rename_gen_states(2) [OF r1 g0'] True by blast
    have dr: "documents_ready (lwFiles w1) (entry_dir root g) m = documents_ready (lwFiles lw) (entry_dir root a) m"
      by (rule documents_ready_cong) (rule moved)
    have pub: "published text root (lwFiles w2) m"
      using ready moved [of "''manifest.json''"] dr unfolding a_def [symmetric]
      by (simp add: published_def Let_def g_def [symmetric] same)
    note pr = promote_states [OF r3 pub]
    have s2: "same_active root g0 (lwFiles lw) (lwFiles w2)" using states_in_last [OF 1] by (simp add: same)
    have "states_in ?Q w2 w3"
      by (rule states_in_mono [OF pr(1) [of g0]]) (use same_active_trans [OF s2] in blast)
    with Q2 have Q3: "states_in ?Q lw w3" by (rule states_in_trans)
    show ?thesis
    proof (cases e3)
      case None
      note last = prune_states [OF pr(2) pr(3) [OF None], of "lcRetention config"]
      have "states_in ?Q lw (quietly (prune (lcRetention config) root (mfGenerationID m)) w3)"
        by (rule states_in_trans [OF Q3], rule states_in_mono [OF last]) simp
      then show ?thesis using p states_in_last [OF last] True None unfolding run by auto
    qed (use p [unfolded run] Q3 True in auto)
  qed
  then show "states_in ?Q lw lw'"
    "case r of Inr m' \<Rightarrow> m' = m \<and> current text root (lwFiles lw') m | Inl _ \<Rightarrow> True" by auto
qed

section \<open>Properties\<close>

lemma on_src_kept: "on_src c lw = (r, lw1) \<Longrightarrow> lwFiles lw1 = lwFiles lw \<and> lwSeen lw1 = lwSeen lw"
  by (auto simp: on_src_def split: prod.splits)

lemma states_in_same: "lwFiles lw' = lwFiles lw \<Longrightarrow> lwSeen lw' = lwSeen lw \<Longrightarrow> P (lwFiles lw) \<Longrightarrow> states_in P lw lw'"
  by (rule states_in_step [of _ "[]"]) auto

text \<open>What a staged build has done when its staging directory is taken away again.\<close>

lemma staged_build_states:
  fixes lw :: "'w lib_world"
  assumes b: "staged_build config text os ctx ensureSaves now root plan lw = (r, lw')"
    and g: "bpGeneration plan \<noteq> ''.''" "g0 \<notin> {''.'', ''.building-'' @ bpGeneration plan, bpGeneration plan}"
  shows "states_in (\<lambda>f. same_active root g0 (lwFiles lw) f \<or> (\<exists>m. mfGenerationID m = bpGeneration plan \<and> current text root f m)) lw lw' \<and>
    (case r of Inr m \<Rightarrow> mfGenerationID m = bpGeneration plan \<and> current text root (lwFiles lw') m | Inl _ \<Rightarrow> True)"
proof -
  let ?Q = "\<lambda>f. same_active root g0 (lwFiles lw) f \<or> (\<exists>m. mfGenerationID m = bpGeneration plan \<and> current text root f m)"
  have refl: "same_active root g0 (lwFiles lw) (lwFiles lw)" by (simp add: same_active_def)
  obtain r1 w1 where 1: "on_src (lay_out config os ctx ensureSaves plan) lw = (r1, w1)" by fastforce
  note k1 = on_src_kept [OF 1]
  show ?thesis
  proof (cases r1)
    case (Inl err)
    then show ?thesis using b 1 k1 refl by (auto simp: staged_build_def tries_def intro!: states_in_same)
  next
    case (Inr parts)
    obtain objects titles l metadata where parts: "parts = (objects, titles, l, metadata)" by (cases parts) auto
    obtain r2 w2 where 2: "write_generation config text os ctx now root plan (objects, titles, l, metadata) w1 = (r2, w2)" by fastforce
    have "touches (below (entry_dir root (''.building-'' @ bpGeneration plan)))
        (write_generation config text os ctx now root plan (objects, titles, l, metadata))" by (rule touches_write_generation)
    from this 2 have c: "only_changes (below (entry_dir root (''.building-'' @ bpGeneration plan))) w1 w2" by (rule touches_at)
    have "states_in (same_active root g0 (lwFiles w1)) w1 w2"
      by (rule states_in_changes [OF c])
        (rule same_active_other [of root "''.building-'' @ bpGeneration plan" "bpGeneration plan"], use g(2) in auto)
    then have "states_in (same_active root g0 (lwFiles lw)) lw w2"
      using k1 by (simp add: states_in_def)
    then have Q2: "states_in ?Q lw w2" by (rule states_in_mono) simp
    show ?thesis
    proof (cases r2)
      case (Inl err)
      then show ?thesis using b 1 \<open>r1 = Inr parts\<close> 2 Q2 parts by (auto simp: staged_build_def tries_def)
    next
      case (Inr m)
      have w: "write_generation config text os ctx now root plan (objects, titles, l, metadata) w1 = (Inr m, w2)"
        using 2 Inr by simp
      note ready = write_generation_ready [OF w]
      have m: "mfGenerationID m = bpGeneration plan" "manifest_in (entry_dir root (mfGenerationID m)) m"
        using ready by (simp_all add: generation_manifest_def manifest_in_def)
      have p: "publish config text root (mfGenerationID m) m w2 = (r, lw')"
        using b 1 \<open>r1 = Inr parts\<close> w parts m(1) by (simp add: staged_build_def tries_def)
      have pub: "states_in (\<lambda>f. same_active root g0 (lwFiles w2) f \<or> current text root f m) w2 lw'"
        "case r of Inr m' \<Rightarrow> m' = m \<and> current text root (lwFiles lw') m | Inl _ \<Rightarrow> True"
        using publish_states [OF p _ _ m(2), of g0] ready g m(1) by auto
      have s2: "same_active root g0 (lwFiles lw) (lwFiles w2)"
        using states_in_last \<open>states_in (same_active root g0 (lwFiles lw)) lw w2\<close> by blast
      have "states_in ?Q w2 lw'"
        by (rule states_in_mono [OF pub(1)]) (use same_active_trans [OF s2] m(1) in blast)
      with Q2 have "states_in ?Q lw lw'" by (rule states_in_trans)
      then show ?thesis using pub(2) m(1) by (cases r) auto
    qed
  qed
qed

lemma plan_build_generation:
  assumes "plan_build config os ctx stamp games w = (Inr plan, w')"
  shows "\<exists>fp. bpGeneration plan = stamp @ CHR ''-'' # fp"
proof -
  from assms obtain hashed payload w1 where c: "check_games os ctx (lcSourceRoot config) games 0 w = (Inr (hashed, payload), w1)"
    by (auto simp: plan_build_def split: if_splits)
  show ?thesis
    using assms c by (cases "calculate_library_size payload config") (auto simp: plan_build_def Let_def split: if_splits)
qed

text \<open>Taking away the staging directory changes neither the old generation nor a current one.\<close>

lemma unstage_states:
  assumes "only_changes (below (entry_dir root (''.building-'' @ g))) lw lw'" "g0 \<notin> {''.'', ''.building-'' @ g}"
    and "same_active root g0 files (lwFiles lw) \<or> (\<exists>m. mfGenerationID m = g \<and> current text root (lwFiles lw) m)"
  shows "states_in (\<lambda>f. same_active root g0 files f \<or> (\<exists>m. mfGenerationID m = g \<and> current text root f m)) lw lw'"
    "mfGenerationID m = g \<Longrightarrow> current text root (lwFiles lw) m \<Longrightarrow> current text root (lwFiles lw') m"
proof -
  let ?R = "below (entry_dir root (''.building-'' @ g))"
  have cur: "current text root f m" if "\<And>p. \<not> ?R p \<Longrightarrow> f p = lwFiles lw p" "mfGenerationID m = g" "current text root (lwFiles lw) m" for f m
  proof -
    have "f (entry_dir root (mfGenerationID m) @ [x]) = lwFiles lw (entry_dir root (mfGenerationID m) @ [x])" for x
      by (rule that(1), rule entry_disjoint(1) [OF _ below_append]) (simp add: that(2))
    moreover have "f (root @ [''active.json'']) = lwFiles lw (root @ [''active.json''])"
      by (rule that(1)) (rule entry_disjoint(2))
    ultimately show ?thesis using that(3) published_cong [of f root m "lwFiles lw"] by (simp add: current_def)
  qed
  have old: "same_active root g0 (lwFiles lw) f" if "\<And>p. \<not> ?R p \<Longrightarrow> f p = lwFiles lw p" for f
    by (rule same_active_other [of root "''.building-'' @ g" "''.building-'' @ g"]) (use that assms(2) in auto)
  show "states_in (\<lambda>f. same_active root g0 files f \<or> (\<exists>m. mfGenerationID m = g \<and> current text root f m)) lw lw'"
  proof (rule states_in_changes [OF assms(1)])
    fix f
    assume f: "\<And>p. \<not> ?R p \<Longrightarrow> f p = lwFiles lw p"
    from assms(3) show "same_active root g0 files f \<or> (\<exists>m. mfGenerationID m = g \<and> current text root f m)"
    proof
      assume "same_active root g0 files (lwFiles lw)"
      from same_active_trans [OF this old [OF f]] show ?thesis by simp
    next
      assume "\<exists>m. mfGenerationID m = g \<and> current text root (lwFiles lw) m"
      then obtain m where "mfGenerationID m = g" "current text root (lwFiles lw) m" by (elim exE conjE)
      with cur [OF f this] show ?thesis by (intro disjI2 exI [of _ m] conjI)
    qed
  qed
  show "mfGenerationID m = g \<Longrightarrow> current text root (lwFiles lw) m \<Longrightarrow> current text root (lwFiles lw') m"
    by (rule cur [OF only_changes_file [OF assms(1)]])
qed

lemma library_build_states:
  fixes lw :: "'w lib_world"
  assumes b: "library_build config text os ctx ensureSaves stamp now root games lw = (r, lw')"
    and g0: "g0 \<noteq> ''.''" "\<not> has_prefix ''.building-'' g0" "\<not> has_prefix stamp g0"
  shows "states_in (\<lambda>f. same_active root g0 (lwFiles lw) f \<or> (\<exists>m. has_prefix stamp (mfGenerationID m) \<and> current text root f m)) lw lw' \<and>
    (case r of Inr m \<Rightarrow> current text root (lwFiles lw') m | Inl _ \<Rightarrow> True)"
proof -
  let ?Q = "\<lambda>f. same_active root g0 (lwFiles lw) f \<or> (\<exists>m. has_prefix stamp (mfGenerationID m) \<and> current text root f m)"
  have refl: "same_active root g0 (lwFiles lw) (lwFiles lw)" by (simp add: same_active_def)
  obtain r1 w1 where 1: "on_src (plan_build config os ctx stamp games) lw = (r1, w1)" by fastforce
  note k1 = on_src_kept [OF 1]
  show ?thesis
  proof (cases r1)
    case (Inl err)
    then show ?thesis using b 1 k1 refl by (auto simp: library_build_def tries_def intro!: states_in_same)
  next
    case (Inr plan)
    define g where "g = bpGeneration plan"
    have "plan_build config os ctx stamp games (lwSrc lw) = (Inr plan, lwSrc w1)"
      using 1 Inr by (auto simp: on_src_def split: prod.splits)
    from plan_build_generation [OF this] have "\<exists>fp. g = stamp @ CHR ''-'' # fp" by (simp add: g_def)
    then have g: "g \<noteq> ''.''" "g0 \<notin> {''.'', ''.building-'' @ g, g}" "has_prefix stamp g"
      using g0 by (auto simp: has_prefix_def append_eq_Cons_conv)
    obtain e w2 where 2: "ms_mkdir_gen (''.building-'' @ g) w1 = (e, w2)" by fastforce
    have k2: "lwFiles w2 = lwFiles lw" "lwSeen w2 = lwSeen lw"
      using 2 k1 by (auto simp: ms_mkdir_gen_def dest: lw_fault_same split: prod.splits option.splits if_splits)
    show ?thesis
    proof (cases e)
      case (Some err)
      then show ?thesis using b 1 Inr 2 k2 refl
        by (auto simp: library_build_def tries_def must_def g_def [symmetric] Let_def intro!: states_in_same)
    next
      case None
      obtain r3 w3 where 3: "staged_build config text os ctx ensureSaves now root plan w2 = (r3, w3)" by fastforce
      have run: "r = r3 \<and> lw' = quietly (ms_remove_gen root (''.building-'' @ g)) w3"
        using b 1 Inr 2 None 3 by (simp add: library_build_def tries_def must_def g_def [symmetric] Let_def)
      note s = staged_build_states [OF 3 g(1,2) [unfolded g_def]]
      have c: "only_changes (below (entry_dir root (''.building-'' @ g))) w3 lw'"
        using run touches_quietly [OF touches_remove_gen] by blast
      let ?P = "\<lambda>f. same_active root g0 (lwFiles lw) f \<or> (\<exists>m. mfGenerationID m = g \<and> current text root f m)"
      have s3: "states_in ?P lw w3" using s k2 by (simp add: states_in_def g_def)
      have "g0 \<notin> {''.'', ''.building-'' @ g}" using g(2) by simp
      note u = unstage_states [OF c this states_in_last [OF s3]]
      have "states_in ?Q lw lw'" by (rule states_in_mono [OF states_in_trans [OF s3 u(1)]]) (use g(3) in \<open>elim disjE exE conjE; blast\<close>)
      then show ?thesis using u(2) s run by (cases r) (auto simp: g_def)
    qed
  qed
qed

text \<open>
  C4. A build never loses the library.  Whatever calls fail, in every state the storage goes
  through between the start of a build and its return (so after a crash at any moment), either
  the pointer and every file of the active generation are as before, and the library opens as it
  did, or the pointer names a new generation that is complete: its manifest, layout, metadata,
  checksums and receipt are read back and accepted.  A build that succeeds has published the
  manifest it returns.
\<close>

theorem build_keeps_library:
  fixes lw :: "'w lib_world"
  assumes "library_build config text os ctx ensureSaves stamp now root games lw = (r, lw')"
    and "g0 \<noteq> ''.''" "\<not> has_prefix ''.building-'' g0" "\<not> has_prefix stamp g0"
  shows "states_in (\<lambda>f.
      (same_active root g0 (lwFiles lw) f \<and> (\<forall>m. opens_in root g0 (lwFiles lw) m \<longrightarrow> opens_in root g0 f m)) \<or>
      (\<exists>m. has_prefix stamp (mfGenerationID m) \<and> opens_in root (mfGenerationID m) f m)) lw lw' \<and>
    (case r of Inr m \<Rightarrow> opens_in root (mfGenerationID m) (lwFiles lw') m | Inl _ \<Rightarrow> True)"
proof
  note s = library_build_states [OF assms]
  show "states_in (\<lambda>f.
      (same_active root g0 (lwFiles lw) f \<and> (\<forall>m. opens_in root g0 (lwFiles lw) m \<longrightarrow> opens_in root g0 f m)) \<or>
      (\<exists>m. has_prefix stamp (mfGenerationID m) \<and> opens_in root (mfGenerationID m) f m)) lw lw'"
    by (rule states_in_mono [OF conjunct1 [OF s]]) (use same_active_opens current_opens_in in blast)
  show "case r of Inr m \<Rightarrow> opens_in root (mfGenerationID m) (lwFiles lw') m | Inl _ \<Rightarrow> True"
    using conjunct2 [OF s] current_opens_in by (cases r) auto
qed

text \<open>A library with one disc, whose second write to the storage fails after five bytes.\<close>

definition sample_lib_os :: "unit lib_os" where
  "sample_lib_os = \<lparr>loOS = mem_os [(''/games/a.iso'',
        \<lparr>fiRegular = True, fiIsDir = False, fiSymlink = False, fiSize = 4, fiModNano = 0, fiSys = None\<rparr>, [1, 2, 3, 4])],
     loEval = answer, loCwd = answer ''/'', loCopy = (\<lambda>h w. (([1, 2, 3, 4], None), w)), loWalk = (\<lambda>_ w. ([], w))\<rparr>"

definition sample_games :: "gc_game list" where
  "sample_games = [\<lparr>ggID = ''GALE01'', ggTitle = ''Melee'', ggRegion = ''NTSC-U'', ggRevision = 0, ggDiscCount = 1,
     ggFormat = ''iso'', ggValidation = ''valid'',
     ggDiscs = [\<lparr>dcID = ''GALE01'', dcTitle = ''Melee'', dcRegion = ''NTSC-U'', dcRevision = 0, dcNumber = 0,
       dcSourcePath = ''/games/a.iso'', dcFormat = ''iso'', dcLogicalSize = 4, dcPhysicalSize = 4,
       dcSHA256 = '''', dcValidation = ''valid''\<rparr>], ggAvailability = ''ready''\<rparr>]"

definition sample_storage :: "unit lib_world" where
  "sample_storage = \<lparr>lwFiles = (\<lambda>_. None)([''var'', ''active.json''] \<mapsto> document_of (\<lambda>_. []) (PointerJson 2 ''2023-a'')),
     lwGens = [''2023-a''], lwFaults = [None, None, Some (Msg ''disk full'', 6)], lwSeen = [], lwSrc = ()\<rparr>"

definition sample_build :: "(go_err + library_manifest) \<times> unit lib_world" where
  "sample_build = library_build (default_library_config\<lparr>lcSourceRoot := ''/games''\<rparr>) (\<lambda>_. []) sample_lib_os background
     (\<lambda>_ w. (None, w)) ''2024-b'' 0 [''var''] sample_games sample_storage"

theorem build_keeps_library_witness:
  "states_in (\<lambda>f.
      (same_active [''var''] ''2023-a'' (lwFiles sample_storage) f \<and>
        (\<forall>m. opens_in [''var''] ''2023-a'' (lwFiles sample_storage) m \<longrightarrow> opens_in [''var''] ''2023-a'' f m)) \<or>
      (\<exists>m. has_prefix ''2024-b'' (mfGenerationID m) \<and> opens_in [''var''] (mfGenerationID m) f m))
      sample_storage (snd sample_build) \<and>
    (case fst sample_build of Inr m \<Rightarrow> opens_in [''var''] (mfGenerationID m) (lwFiles (snd sample_build)) m | Inl _ \<Rightarrow> True)"
  by (rule build_keeps_library [of _ _ _ _ _ _ _ _ _ sample_storage]) (simp_all add: sample_build_def has_prefix_def)

end
