(* ===== verification/Lib_Manager.thy ===== *)
theory Lib_Manager
  imports Lib_Crash
begin

text \<open>
  \<open>LibraryManager\<close> of \<open>gamecube/library.go\<close>: what it knows of the active generation, the build or
  validation that runs in the background, and the recheck of the sources.  Its lock makes each
  access to its fields one atomic step; \<open>RecheckActive\<close> reads the storage before it takes the lock,
  and the background operations run without it.  The times of day of the progress display are
  left out, \<open>msg\<close> is the text of an error.
\<close>

section \<open>Loading and opening a generation\<close>

definition validate_library_manifest ::
  "'w lib_os \<Rightarrow> 'w ctx_check \<Rightarrow> mpath \<Rightarrow> library_manifest \<Rightarrow> bool \<Rightarrow> bool \<Rightarrow> ('w lib_world, unit) call" where
  "validate_library_manifest os ctx root m deep checkSources =
     tries (validate_library_manifest_data os ctx root m deep checkSources) (\<lambda>_. answer ())"

definition validate_receipt :: "mpath \<Rightarrow> library_manifest \<Rightarrow> ('w lib_world, unit) call" where
  "validate_receipt root m = tries (read_validation_receipt root m) (\<lambda>_. answer ())"

text \<open>
  \<open>openSaves\<close> is \<open>EnsureSaveObjects\<close> and \<open>OpenSaveStore\<close>, \<open>closeSaves\<close> the \<open>Close\<close> of the store.
\<close>

definition open_library_backend ::
  "'w lib_os \<Rightarrow> (library_manifest \<Rightarrow> ('w, 's save_store) call) \<Rightarrow> ('w \<Rightarrow> 'w) \<Rightarrow> mpath \<Rightarrow> library_manifest \<Rightarrow>
   ('w lib_world, 's backend \<times> 's save_store option) call" where
  "open_library_backend os openSaves closeSaves root m =
     tries (validate_library_manifest_data os background root m False True) (\<lambda>d.
     tries (validate_receipt root m) (\<lambda>_.
     tries (if is_library_emulated (mfMode m) then on_src (tries (openSaves m) (\<lambda>s. answer (Some s)))
            else answer None) (\<lambda>saves lw.
       (case open_with_options (vdLayout d) (vdMetadata d)
               \<lparr>ooSourceFilesystems = vdFilesystems d, ooCacheLimit = 32, ooSaveStore = saves\<rparr> of
          Inr b \<Rightarrow> (Inr (b, saves), lw)
        | Inl err \<Rightarrow> (Inl err, if saves = None then lw else lw\<lparr>lwSrc := closeSaves (lwSrc lw)\<rparr>)))))"

section \<open>The state\<close>

record library_progress =
  lpState :: string
  lpGenerationID :: string
  lpGamesCompleted :: nat
  lpTotalGames :: nat
  lpDiscsCompleted :: nat
  lpTotalDiscs :: nat
  lpFilesMapped :: nat
  lpCurrentTitle :: string
  lpPhase :: string
  lpMetadataGeneration :: string
  lpMetadataBytes :: nat
  lpExtentCount :: nat
  lpValidation :: string
  lpValidationFiles :: nat
  lpValidationTotal :: nat
  lpValidationBytes :: int
  lpError :: string

text \<open>\<open>cancel\<close> is set while an operation runs; the flag inside says whether it was called.\<close>

record library_manager =
  lmConfig :: library_config
  lmProgress :: library_progress
  lmActive :: "library_manifest option"
  lmValidated :: bool
  lmCancel :: "bool option"
  lmLegacy :: "string list"

definition zero_progress :: library_progress where
  "zero_progress = \<lparr>lpState = '''', lpGenerationID = '''', lpGamesCompleted = 0, lpTotalGames = 0,
     lpDiscsCompleted = 0, lpTotalDiscs = 0, lpFilesMapped = 0, lpCurrentTitle = '''', lpPhase = '''',
     lpMetadataGeneration = '''', lpMetadataBytes = 0, lpExtentCount = 0, lpValidation = '''',
     lpValidationFiles = 0, lpValidationTotal = 0, lpValidationBytes = 0, lpError = ''''\<rparr>"

definition bounded_error :: "string \<Rightarrow> string" where
  "bounded_error value =
     (if list_ex (\<lambda>safe. contains_sub safe value)
           [''requires'', ''capacity'', ''overflow'', ''no validated GameCube'', ''FAT32'',
            ''build canceled'', ''source'', ''duplicate'', ''symlink'', ''no-copy'']
      then take 240 value
      else ''GameCube library build failed during source indexing or metadata generation'')"

definition err_canceled :: go_err where
  "err_canceled = Coded ''context canceled''"

section \<open>The active generation\<close>

definition validate_configured_sources ::
  "library_config \<Rightarrow> 'w lib_os \<Rightarrow> mpath \<Rightarrow> library_manifest \<Rightarrow> ('w lib_world, unit) call" where
  "validate_configured_sources config os root m =
     (if lcSourceRoot config \<noteq> '''' \<and> path_clean (mfLibraryRoot m) \<noteq> lcSourceRoot config
      then refuse (Wrap ''configured library path changed'' err_source_changed)
      else validate_library_manifest os background root m False True)"

text \<open>\<open>activeFast\<close> returns the manifest beside an error about its documents or sources.\<close>

definition active_fast ::
  "library_config \<Rightarrow> 'w lib_os \<Rightarrow> mpath \<Rightarrow> 'w lib_world \<Rightarrow>
   (go_err \<times> library_manifest option + library_manifest) \<times> 'w lib_world" where
  "active_fast config os root lw =
     (case active_manifest root lw of
        (Inl err, lw1) \<Rightarrow> (Inl (err, None), lw1)
      | (Inr m, lw1) \<Rightarrow>
          (case validate_configured_sources config os root m lw1 of
             (Inl err, lw2) \<Rightarrow> (Inl (err, Some m), lw2)
           | (Inr _, lw2) \<Rightarrow> (Inr m, lw2)))"

definition active_managed :: "'w lib_os \<Rightarrow> mpath \<Rightarrow> ('w lib_world, library_manifest) call" where
  "active_managed os root =
     tries (active_manifest root) (\<lambda>m.
     tries (validate_library_manifest os background root m False False) (\<lambda>_. answer m))"

definition active_library :: "library_config \<Rightarrow> 'w lib_os \<Rightarrow> mpath \<Rightarrow> ('w lib_world, library_manifest) call" where
  "active_library config os root lw =
     (case active_fast config os root lw of
        (Inl (err, _), lw1) \<Rightarrow> (Inl err, lw1)
      | (Inr m, lw1) \<Rightarrow> tries (validate_receipt root m) (\<lambda>_. answer m) lw1)"

text \<open>\<open>Current\<close>: whether the active generation was built from these games.\<close>

definition library_current ::
  "library_config \<Rightarrow> 'w lib_os \<Rightarrow> mpath \<Rightarrow> gc_game list \<Rightarrow> ('w lib_world, bool) call" where
  "library_current config os root games =
     tries (active_library config os root) (\<lambda>m.
     tries (on_src (tries_each (hash_game_sources os background) games)) (\<lambda>hashed.
       answer (mfCatalogFingerprint m = library_fingerprint config (sort_slice game_key hashed))))"

section \<open>Starting the manager\<close>

text \<open>
  A source root that cannot be resolved is to be kept as an absolute path; the code takes the
  absolute path of what \<open>trustedRoot\<close> returned beside its error, which is empty.
\<close>

definition resolve_source_root :: "'w lib_os \<Rightarrow> string \<Rightarrow> ('w, string) call" where
  "resolve_source_root os p w =
     (if p = '''' then (Inr '''', w)
      else case trusted_root os p w of
             (Inr r, w1) \<Rightarrow> (Inr r, w1)
           | (Inl _, w1) \<Rightarrow> wrapping ''GameCube source root'' (filepath_abs os '''') w1)"

definition resolve_config :: "'w lib_os \<Rightarrow> library_config \<Rightarrow> ('w, library_config) call" where
  "resolve_config os c =
     tries (resolve_source_root os (lcSourceRoot c)) (\<lambda>src.
     tries (if lcSavesRoot c = '''' then answer ''''
            else wrapping ''GameCube save root'' (filepath_abs os (lcSavesRoot c))) (\<lambda>saves.
       answer (c\<lparr>lcSourceRoot := src, lcSavesRoot := saves\<rparr>)))"

fun detect_legacy :: "mpath \<Rightarrow> string list \<Rightarrow> 'w lib_world \<Rightarrow> string list \<times> 'w lib_world" where
  "detect_legacy root [] lw = ([], lw)"
| "detect_legacy root (g # gs) lw =
     (if has_prefix ''.building-'' g \<or> \<not> safe_generation_id g then detect_legacy root gs lw
      else case ms_lookup (entry_dir root g @ [''library.img'']) lw of
             (Inr _, lw1) \<Rightarrow> (case detect_legacy root gs lw1 of (rest, lw2) \<Rightarrow> (g # rest, lw2))
           | (Inl _, lw1) \<Rightarrow>
               (case ms_lookup (entry_dir root g @ [''manifest.json'']) lw1 of
                  (r, lw2) \<Rightarrow>
                    (case detect_legacy root gs lw2 of
                       (rest, lw3) \<Rightarrow>
                         (case r of
                            Inr d \<Rightarrow> (case doValue d of
                                 Some (ManifestJson m) \<Rightarrow> if mfSchema m = 1 then (g # rest, lw3) else (rest, lw3)
                               | _ \<Rightarrow> (rest, lw3))
                          | Inl _ \<Rightarrow> (rest, lw3)))))"

text \<open>The generation found at the start: what of it stands, and how it is shown.\<close>

definition recover_active ::
  "'w lib_os \<Rightarrow> mpath \<Rightarrow> go_err \<times> library_manifest option + library_manifest \<Rightarrow>
   ('w lib_world, library_manifest) call" where
  "recover_active os root r =
     (case r of
        Inr m \<Rightarrow> answer m
      | Inl (err, Some m) \<Rightarrow>
          if mfGenerationID m \<noteq> ''''
          then tries (validate_library_manifest os background root m False False) (\<lambda>_. answer m)
          else refuse err
      | Inl (err, None) \<Rightarrow> refuse err)"

definition enroll_active ::
  "(go_err \<Rightarrow> string) \<Rightarrow> (json_value \<Rightarrow> byte list) \<Rightarrow> 'w lib_os \<Rightarrow> mpath \<Rightarrow> bool \<Rightarrow> library_manifest \<Rightarrow>
   'w lib_world \<Rightarrow> (string \<times> string \<times> string \<times> string) \<times> 'w lib_world" where
  "enroll_active msg text os root fast m lw =
     (if \<not> fast then ((''blocked'', ''Source unavailable'', ''Source validation blocked'', ''''), lw)
      else case validate_receipt root m lw of
             (Inl _, lw1) \<Rightarrow> ((''pending'', ''Validating'', ''Deep validation pending'', ''''), lw1)
           | (Inr _, lw1) \<Rightarrow>
               (case upgrade_validation_receipt text os root m lw1 of
                  (Some err, lw2) \<Rightarrow>
                    ((''blocked'', ''Source unavailable'', ''Filesystem identity enrollment blocked'',
                      bounded_error (msg err)), lw2)
                | (None, lw2) \<Rightarrow> ((''validated'', ''Ready'', ''Ready'', ''''), lw2)))"

definition start_manager ::
  "(go_err \<Rightarrow> string) \<Rightarrow> (json_value \<Rightarrow> byte list) \<Rightarrow> 'w lib_os \<Rightarrow> mpath \<Rightarrow> library_config \<Rightarrow> string list \<Rightarrow>
   'w lib_world \<Rightarrow> library_manager \<times> 'w lib_world" where
  "start_manager msg text os root c legacy lw =
     (let lm = \<lparr>lmConfig = c, lmProgress = zero_progress\<lparr>lpState := ''Not built''\<rparr>, lmActive = None,
                lmValidated = False, lmCancel = None, lmLegacy = legacy\<rparr>
      in case active_fast c os root lw of
           (r, lw1) \<Rightarrow>
             (case recover_active os root r lw1 of
                (Inl err, lw2) \<Rightarrow>
                  (if errors_Is err ErrNotExist then lm
                   else lm\<lparr>lmProgress := zero_progress\<lparr>lpState := ''Failed'',
                          lpPhase := ''Fast generation validation failed'',
                          lpMetadataGeneration := ''Fast generation validation failed'',
                          lpValidation := ''failed'', lpError := bounded_error (msg err)\<rparr>\<rparr>, lw2)
              | (Inr m, lw2) \<Rightarrow>
                  (case enroll_active msg text os root (\<not> isl r) m lw2 of
                     ((validation, state, phase, err), lw3) \<Rightarrow>
                       (case ms_lookup (mfMetadataPath m) lw3 of
                          (info, lw4) \<Rightarrow>
                            (lm\<lparr>lmActive := Some m, lmValidated := (validation = ''validated''),
                                lmProgress := zero_progress\<lparr>lpState := state, lpGenerationID := mfGenerationID m,
                                  lpGamesCompleted := mfTitleCount m, lpTotalGames := mfTitleCount m,
                                  lpDiscsCompleted := mfDiscCount m, lpTotalDiscs := mfDiscCount m,
                                  lpFilesMapped := mfMappedFileCount m, lpPhase := phase,
                                  lpMetadataGeneration := phase, lpExtentCount := mfMappedExtentCount m,
                                  lpValidation := validation, lpError := err,
                                  lpMetadataBytes := (case info of Inr d \<Rightarrow> length (doText d) | Inl _ \<Rightarrow> 0)\<rparr>\<rparr>,
                             lw4)))))"

definition new_library_manager ::
  "(go_err \<Rightarrow> string) \<Rightarrow> (json_value \<Rightarrow> byte list) \<Rightarrow> 'w lib_os \<Rightarrow> mpath \<Rightarrow> library_config \<Rightarrow>
   ('w lib_world, library_manager) call" where
  "new_library_manager msg text os root config =
     tries (unless_err (config_validate config)) (\<lambda>_.
     tries (on_src (resolve_config os config)) (\<lambda>c.
     tries (must ms_nop) (\<lambda>_.
     tries (must ms_nop) (\<lambda>_ lw.
       (case detect_legacy root (lwGens lw) lw of
          (legacy, lw1) \<Rightarrow>
            (case start_manager msg text os root c (sort legacy) lw1 of (lm, lw2) \<Rightarrow> (Inr lm, lw2)))))))"

section \<open>Operations\<close>

definition configure_saves :: "save_selection \<Rightarrow> library_manager \<Rightarrow> go_err option \<times> library_manager" where
  "configure_saves s lm =
     (case selection_validate s of
        Some err \<Rightarrow> (Some err, lm)
      | None \<Rightarrow>
          if lmCancel lm \<noteq> None then (Some (Msg ''GameCube library build is active''), lm)
          else
            let c = (lmConfig lm)\<lparr>lcMode := slMode s, lcCardSize := slCardSize s,
                      lcSharedCardName := slSharedCardName s, lcAutoCreateCards := slAutomaticCreation s,
                      lcMaxSaveBackups := slMaximumRetainedBackups s\<rparr>
            in case config_validate c of
                 Some err \<Rightarrow> (Some err, lm)
               | None \<Rightarrow> (None, lm\<lparr>lmConfig := c\<rparr>))"

definition validated_summary :: "library_manager \<Rightarrow> library_manifest option" where
  "validated_summary lm = (if lmValidated lm then lmActive lm else None)"

definition known_generation_id :: "library_manager \<Rightarrow> string" where
  "known_generation_id lm = (case lmActive lm of None \<Rightarrow> '''' | Some m \<Rightarrow> mfGenerationID m)"

definition cancel_operation :: "library_manager \<Rightarrow> bool \<times> library_manager" where
  "cancel_operation lm = (case lmCancel lm of None \<Rightarrow> (False, lm) | Some _ \<Rightarrow> (True, lm\<lparr>lmCancel := Some True\<rparr>))"

text \<open>A deep validation: its start under the lock, its run, and what it leaves.\<close>

definition start_active_validation ::
  "'w lib_os \<Rightarrow> mpath \<Rightarrow> library_manager \<Rightarrow> 'w lib_world \<Rightarrow>
   (go_err + library_manifest) \<times> library_manager \<times> 'w lib_world" where
  "start_active_validation os root lm lw =
     (if lmCancel lm \<noteq> None then (Inl (Msg ''GameCube library operation is already running''), lm, lw)
      else case active_fast (lmConfig lm) os root lw of
             (Inl (err, _), lw1) \<Rightarrow> (Inl err, lm, lw1)
           | (Inr m, lw1) \<Rightarrow>
               (Inr m, lm\<lparr>lmCancel := Some False, lmProgress := (lmProgress lm)\<lparr>lpState := ''Validating'',
                  lpPhase := ''Deep source validation'', lpMetadataGeneration := ''Deep source validation'',
                  lpValidation := ''validating'', lpValidationFiles := 0, lpValidationTotal := length (mfFiles m),
                  lpValidationBytes := 0, lpError := ''''\<rparr>\<rparr>, lw1))"

definition run_validation ::
  "(json_value \<Rightarrow> byte list) \<Rightarrow> 'w lib_os \<Rightarrow> 'w ctx_check \<Rightarrow> int \<Rightarrow> mpath \<Rightarrow> library_manifest \<Rightarrow>
   ('w lib_world, unit) call" where
  "run_validation text os ctx now root m =
     tries (validate_library_manifest os ctx root m True True) (\<lambda>_.
       must (write_validation_receipt text os now root m))"

definition finish_validation ::
  "(go_err \<Rightarrow> string) \<Rightarrow> library_manifest \<Rightarrow> go_err + unit \<Rightarrow> library_manager \<Rightarrow> library_manager" where
  "finish_validation msg m r lm =
     (case r of
        Inl err \<Rightarrow>
          let p = (lmProgress lm)\<lparr>lpValidation := ''failed'', lpPhase := ''Deep validation failed'',
                    lpMetadataGeneration := ''Deep validation failed''\<rparr>
          in lm\<lparr>lmCancel := None, lmValidated := False,
               lmProgress := (if errors_Is err err_canceled
                 then p\<lparr>lpState := ''Canceled'', lpError := ''validation canceled''\<rparr>
                 else p\<lparr>lpState := ''Failed'', lpError := bounded_error (msg err)\<rparr>)\<rparr>
      | Inr _ \<Rightarrow>
          lm\<lparr>lmCancel := None, lmActive := Some m, lmValidated := True,
            lmProgress := (lmProgress lm)\<lparr>lpState := ''Ready'', lpGenerationID := mfGenerationID m,
              lpValidation := ''validated'', lpPhase := ''Ready'', lpMetadataGeneration := ''Ready''\<rparr>\<rparr>)"

definition start_build :: "gc_game list \<Rightarrow> library_manager \<Rightarrow> go_err option \<times> library_manager" where
  "start_build games lm =
     (if lmCancel lm \<noteq> None then (Some (Msg ''GameCube library build is already running''), lm)
      else (None, lm\<lparr>lmCancel := Some False, lmProgress := zero_progress\<lparr>lpState := ''Building'',
        lpTotalGames := length games, lpTotalDiscs := sum_list (map (length \<circ> ggDiscs) games),
        lpPhase := ''Fingerprinting'', lpMetadataGeneration := ''Fingerprinting'', lpValidation := ''pending''\<rparr>\<rparr>))"

definition finish_build ::
  "(go_err \<Rightarrow> string) \<Rightarrow> go_err + library_manifest \<Rightarrow> library_manager \<Rightarrow> library_manager" where
  "finish_build msg r lm =
     (case r of
        Inl err \<Rightarrow>
          lm\<lparr>lmCancel := None,
            lmProgress := (if errors_Is err err_canceled
              then (lmProgress lm)\<lparr>lpState := ''Canceled'', lpError := ''build canceled''\<rparr>
              else (lmProgress lm)\<lparr>lpState := ''Failed'', lpError := bounded_error (msg err)\<rparr>)\<rparr>
      | Inr m \<Rightarrow>
          lm\<lparr>lmCancel := None, lmActive := Some m, lmValidated := True,
            lmProgress := (lmProgress lm)\<lparr>lpState := ''Ready'', lpGenerationID := mfGenerationID m,
              lpGamesCompleted := mfTitleCount m, lpDiscsCompleted := mfDiscCount m,
              lpFilesMapped := mfMappedFileCount m, lpCurrentTitle := '''', lpPhase := ''Ready'',
              lpMetadataGeneration := ''Ready'', lpValidation := ''validated''\<rparr>\<rparr>)"

section \<open>The recheck\<close>

text \<open>What \<open>RecheckActive\<close> does under the lock with the result \<open>activeFast\<close> had before it.\<close>

definition revoke_receipt :: "mpath \<Rightarrow> string \<Rightarrow> 'w lib_world \<Rightarrow> 'w lib_world" where
  "revoke_receipt root g lw =
     (if \<not> safe_generation_id g then lw
      else quietly ms_nop (quietly (ms_remove (generation_dir root g @ [''validation.json''])) lw))"

definition recheck_failed ::
  "(go_err \<Rightarrow> string) \<Rightarrow> mpath \<Rightarrow> go_err \<Rightarrow> library_manifest option \<Rightarrow> library_manager \<Rightarrow> 'w lib_world \<Rightarrow>
   go_err \<times> library_manager \<times> 'w lib_world" where
  "recheck_failed msg root err mo lm lw =
     (let changed = errors_Is err err_source_changed;
          p = (lmProgress lm)\<lparr>lpState := (if changed then ''Source changed'' else ''Source unavailable''),
                lpValidation := ''blocked'', lpPhase := ''Source validation blocked'', lpError := bounded_error (msg err)\<rparr>;
          g0 = (case mo of None \<Rightarrow> '''' | Some m \<Rightarrow> mfGenerationID m);
          g = (if g0 = '''' then lpGenerationID (lmProgress lm) else g0)
      in (err, lm\<lparr>lmValidated := False, lmProgress := p\<rparr>, if changed then revoke_receipt root g lw else lw))"

definition recheck_commit ::
  "(go_err \<Rightarrow> string) \<Rightarrow> (json_value \<Rightarrow> byte list) \<Rightarrow> 'w lib_os \<Rightarrow> mpath \<Rightarrow>
   go_err \<times> library_manifest option + library_manifest \<Rightarrow> library_manager \<Rightarrow> 'w lib_world \<Rightarrow>
   go_err option \<times> library_manager \<times> 'w lib_world" where
  "recheck_commit msg text os root r lm lw =
     (case r of
        Inl (err, mo) \<Rightarrow> (case recheck_failed msg root err mo lm lw of (e, res) \<Rightarrow> (Some e, res))
      | Inr m \<Rightarrow>
          let p = (lmProgress lm)\<lparr>lpGenerationID := mfGenerationID m, lpError := ''''\<rparr>
          in case validate_receipt root m lw of
               (Inl err, lw1) \<Rightarrow>
                 (Some err, lm\<lparr>lmActive := Some m, lmValidated := False,
                    lmProgress := p\<lparr>lpState := ''Validating'', lpValidation := ''pending'',
                      lpPhase := ''Deep validation pending''\<rparr>\<rparr>, lw1)
             | (Inr _, lw1) \<Rightarrow>
                 (case upgrade_validation_receipt text os root m lw1 of
                    (Some err, lw2) \<Rightarrow>
                      (Some err, lm\<lparr>lmActive := Some m, lmValidated := False,
                         lmProgress := p\<lparr>lpState := ''Source unavailable'', lpValidation := ''blocked'',
                           lpPhase := ''Filesystem identity enrollment blocked'', lpError := bounded_error (msg err)\<rparr>\<rparr>, lw2)
                  | (None, lw2) \<Rightarrow>
                      (None, lm\<lparr>lmActive := Some m, lmValidated := True,
                         lmProgress := p\<lparr>lpState := ''Ready'', lpValidation := ''validated'', lpPhase := ''Ready''\<rparr>\<rparr>, lw2)))"

definition recheck_active ::
  "(go_err \<Rightarrow> string) \<Rightarrow> (json_value \<Rightarrow> byte list) \<Rightarrow> 'w lib_os \<Rightarrow> mpath \<Rightarrow> library_manager \<Rightarrow> 'w lib_world \<Rightarrow>
   go_err option \<times> library_manager \<times> 'w lib_world" where
  "recheck_active msg text os root lm lw =
     (case active_fast (lmConfig lm) os root lw of (r, lw1) \<Rightarrow> recheck_commit msg text os root r lm lw1)"

section \<open>A start without the source\<close>

lemma manager_source_root:
  assumes "new_library_manager msg text os root config lw = (Inr lm, lw')"
  shows "\<exists>w w'. resolve_source_root os (lcSourceRoot config) (lwSrc lw) = (Inr (lcSourceRoot (lmConfig lm)), w)"
proof -
  have keeps: "lmConfig (fst (start_manager msg text os root c legacy w)) = c" for c legacy and w :: "'a lib_world"
    by (auto simp: start_manager_def Let_def split: prod.split sum.split)
  from assms obtain c w1 w2 where c: "on_src (resolve_config os config) lw = (Inr c, w1)"
    and s: "(case detect_legacy root (lwGens w2) w2 of (legacy, w) \<Rightarrow>
      (case start_manager msg text os root c (sort legacy) w of (x, w') \<Rightarrow> (Inr x :: go_err + library_manager, w'))) = (Inr lm, lw')"
    by (auto simp: new_library_manager_def)
  obtain legacy w3 where d: "detect_legacy root (lwGens w2) w2 = (legacy, w3)" by fastforce
  obtain x w4 where x: "start_manager msg text os root c (sort legacy) w3 = (x, w4)" by fastforce
  have "lmConfig lm = c" using s d x keeps [of c "sort legacy" w3] by simp
  moreover obtain w5 where "resolve_config os config (lwSrc lw) = (Inr c, w5)"
    using c by (auto simp: on_src_def split: prod.splits)
  ultimately show ?thesis by (auto simp: resolve_config_def)
qed

lemma remove_calm:
  "lwFaults lw = [] \<Longrightarrow> lwFiles (quietly (ms_remove p) lw) = (lwFiles lw)(p := None)"
  by (auto simp: quietly_def ms_remove_def lw_fault_def lw_set_def)

lemma nop_quietly: "lwFiles (quietly ms_nop lw) = lwFiles lw"
  using nop_ok [of lw "fst (ms_nop lw)" "snd (ms_nop lw)"] by (simp add: quietly_def)

text \<open>
  C40. A host that starts while its GameCube source is offline loses the path of the source: the
  manager's root becomes the working directory.  Every later recheck then reports that the
  source has changed and deletes the receipt of the deep validation, although the source may be
  back, unchanged.
\<close>

theorem offline_start_revokes_receipt:
  assumes start: "new_library_manager msg text os root config lw0 = (Inr lm, lw1)" "lcSourceRoot config \<noteq> ''''"
    and offline: "loEval os (lcSourceRoot config) (lwSrc lw0) = (Inl err, w1)" "loCwd os w1 = (Inr cwd, w2)"
    and later: "active_manifest root lw2 = (Inr m, lw3)" "lwFaults lw3 = []" "safe_generation_id (mfGenerationID m)"
    and elsewhere: "path_clean (mfLibraryRoot m) \<noteq> path_clean (cwd @ ''/'')" "path_clean (cwd @ ''/'') \<noteq> ''''"
  shows "lcSourceRoot (lmConfig lm) = path_clean (cwd @ ''/'') \<and>
    (\<exists>lm' lw4. recheck_active msg text os root lm lw2 =
       (Some (Wrap ''configured library path changed'' err_source_changed), lm', lw4) \<and>
     \<not> lmValidated lm' \<and>
     lwFiles lw4 (generation_dir root (mfGenerationID m) @ [''validation.json'']) = None)"
proof -
  have "resolve_source_root os (lcSourceRoot config) (lwSrc lw0) = (Inr (path_clean (cwd @ ''/'')), w2)"
    using start(2) offline
    by (simp add: resolve_source_root_def trusted_root_def tries_def filepath_abs_def wrapping_def answer_def)
  with manager_source_root [OF start(1)] have r: "lcSourceRoot (lmConfig lm) = path_clean (cwd @ ''/'')" by auto
  have "active_fast (lmConfig lm) os root lw2 =
      (Inl (Wrap ''configured library path changed'' err_source_changed, Some m), lw3)"
    using later(1) elsewhere by (simp add: active_fast_def validate_configured_sources_def r refuse_def)
  moreover have "mfGenerationID m \<noteq> ''''" using later(3) by (simp add: safe_generation_id_def)
  ultimately show ?thesis using r later(2,3)
    by (simp add: recheck_active_def recheck_commit_def recheck_failed_def revoke_receipt_def Let_def
        err_source_changed_def remove_calm nop_quietly)
qed

text \<open>A source that is mounted only after the start, and a generation built from it before.\<close>

definition late_os :: "bool lib_os" where
  "late_os = \<lparr>loOS = \<lparr>os_stat = (\<lambda>p w. (Inl ErrNotExist, w)), os_lstat = (\<lambda>p w. (Inl ErrNotExist, w)),
       os_statfs = (\<lambda>p w. (Inr (0, 0, 0), w)), os_open = (\<lambda>p w. (Inl ErrNotExist, w)),
       os_pread = (\<lambda>h n off w. (([], Some EOF), w)), os_close = (\<lambda>h w. (None, w))\<rparr>,
     loEval = (\<lambda>p w. (if w then Inr p else Inl ErrNotExist, w)), loCwd = answer ''/var/lib'',
     loCopy = (\<lambda>h w. (([], None), w)), loWalk = (\<lambda>_ w. ([], w))\<rparr>"

definition old_manifest :: library_manifest where
  "old_manifest = \<lparr>mfSchema = 2, mfGenerationID = ''g1'', mfCreated = 0, mfVolumeSize = 0, mfFilesystem = ''fat32'',
     mfGeometry = \<lparr>fgPartitionSectors = 0, fgFATSectors = 0, fgFirstDataSector = 0, fgVolumeID = 0\<rparr>,
     mfClusterSize = 0, mfMode = MemoryCardPhysical, mfReadOnly = True, mfTitleCount = 0,
     mfDiscCount = 0, mfMappedFileCount = 0, mfMappedExtentCount = 0, mfCatalogFingerprint = '''', mfMetadataHash = '''',
     mfExtentMapHash = '''', mfLayoutPath = [''lib'', ''generations'', ''g1'', ''layout.bin''],
     mfMetadataPath = [''lib'', ''generations'', ''g1'', ''metadata.bin''], mfLibraryRoot = ''/mnt/games'', mfTitles = [],
     mfFiles = [], mfComplete = True, mfSaveOverlayVersion = 0, mfSaveObjects = [], mfSaveExtentCount = 0,
     mfSaveExtentHash = '''', mfLayoutChecksum = '''', mfMaxSaveBackups = 5, mfApplication = ''''\<rparr>"

definition old_storage :: "bool \<Rightarrow> bool lib_world" where
  "old_storage mounted = \<lparr>lwFiles = [[''lib'', ''active.json''] \<mapsto> document_of (\<lambda>_. []) (PointerJson 2 ''g1''),
       [''lib'', ''generations'', ''g1'', ''manifest.json''] \<mapsto> document_of (\<lambda>_. []) (ManifestJson old_manifest),
       [''lib'', ''generations'', ''g1'', ''validation.json''] \<mapsto> \<lparr>doText = [], doValue = None\<rparr>],
     lwGens = [''g1''], lwFaults = [], lwSeen = [], lwSrc = mounted\<rparr>"

lemma safe_g1: "safe_generation_id ''g1''"
  by code_simp

lemma old_storage_active: "active_manifest [''lib''] (old_storage b) = (Inr old_manifest, old_storage b)"
  using safe_g1 by (simp add: active_manifest_def old_storage_def ms_lookup_def lw_fault_def document_of_def safe_g1
      load_library_manifest_def below_def generation_dir_def answer_def)

lemma late_start:
  "\<exists>lm lw1. new_library_manager (\<lambda>_. '''') (\<lambda>_. []) late_os [''lib''] (default_library_config\<lparr>lcSourceRoot := ''/mnt/games''\<rparr>)
     (old_storage False) = (Inr lm, lw1)"
proof -
  let ?c = "default_library_config\<lparr>lcSourceRoot := ''/mnt/games''\<rparr>"
  have "\<exists>c lw. on_src (resolve_config late_os ?c) (old_storage False) = (Inr c, lw) \<and> lwFaults lw = []"
    by (simp add: on_src_def resolve_config_def resolve_source_root_def trusted_root_def late_os_def tries_def answer_def
        wrapping_def filepath_abs_def default_library_config_def old_storage_def)
  then obtain c lw where c: "on_src (resolve_config late_os ?c) (old_storage False) = (Inr c, lw)" "lwFaults lw = []" by blast
  have nop: "ms_nop lw = (None, lw)" using c(2) by (simp add: ms_nop_def lw_fault_def)
  have "config_validate ?c = None" by (simp add: config_validate_def default_library_config_def is_library_emulated_def)
  with c nop show ?thesis
    by (auto simp: new_library_manager_def tries_def must_def unless_err_def split: prod.split)
qed

theorem offline_start_revokes_receipt_witness:
  "\<exists>lm lm' lw4. lcSourceRoot (lmConfig lm) = ''/var/lib'' \<and>
     recheck_active (\<lambda>_. '''') (\<lambda>_. []) late_os [''lib''] lm (old_storage True) =
       (Some (Wrap ''configured library path changed'' err_source_changed), lm', lw4) \<and> \<not> lmValidated lm' \<and>
     lwFiles lw4 [''lib'', ''generations'', ''g1'', ''validation.json''] = None"
proof -
  obtain lm lw1 where start: "new_library_manager (\<lambda>_. '''') (\<lambda>_. []) late_os [''lib'']
      (default_library_config\<lparr>lcSourceRoot := ''/mnt/games''\<rparr>) (old_storage False) = (Inr lm, lw1)"
    using late_start by blast
  have off: "loEval late_os (lcSourceRoot (default_library_config\<lparr>lcSourceRoot := ''/mnt/games''\<rparr>)) (lwSrc (old_storage False)) =
      (Inl ErrNotExist, False)" "loCwd late_os False = (Inr ''/var/lib'', False)"
    by (simp_all add: late_os_def old_storage_def answer_def)
  have clean: "path_clean (''/var/lib'' @ ''/'') = ''/var/lib''" by code_simp
  have "path_clean (mfLibraryRoot old_manifest) \<noteq> path_clean (''/var/lib'' @ ''/'')" by code_simp
  moreover have "lwFaults (old_storage True) = []" by (simp add: old_storage_def)
  moreover have "safe_generation_id (mfGenerationID old_manifest)" by code_simp
  ultimately show ?thesis
    using offline_start_revokes_receipt [OF start _ off old_storage_active [of True]]
    unfolding clean by (auto simp: generation_dir_def old_manifest_def)
qed

section \<open>Runs of the manager\<close>

text \<open>
  The operations in the background, one for each goroutine that \<open>StartBuild\<close> and
  \<open>StartActiveValidation\<close> launch: any number of them, each at its own pace.  A worker holds what it
  was started with, and then its result until it takes the lock to report and ends.  \<open>lsRechecks\<close> are the rechecks that have read the storage and not
  yet taken the lock, \<open>lsPast\<close> the states of the storage before each step.  The calls of one run
  of an operation on the storage form one step; the sources, the faults and the context may
  change between steps.
\<close>

datatype library_worker =
    Building library_config "gc_game list" | Built "go_err + library_manifest"
  | Validating library_manifest | Checked library_manifest "go_err + unit"

record 'w library_run =
  lsManager :: library_manager
  lsWorld :: "'w lib_world"
  lsWorkers :: "library_worker list"
  lsRechecks :: "(go_err \<times> library_manifest option + library_manifest) list"
  lsPast :: "(mpath \<Rightarrow> document option) list"

definition advance :: "'w lib_world \<Rightarrow> 'w library_run \<Rightarrow> 'w library_run" where
  "advance lw s = s\<lparr>lsWorld := lw, lsPast := lwFiles (lsWorld s) # lsPast s\<rparr>"

inductive library_step ::
  "(go_err \<Rightarrow> string) \<Rightarrow> (json_value \<Rightarrow> byte list) \<Rightarrow> 'w lib_os \<Rightarrow> mpath \<Rightarrow> 'w library_run \<Rightarrow> 'w library_run \<Rightarrow> bool"
  for msg enc os root where
  configure: "configure_saves sel (lsManager s) = (e, lm) \<Longrightarrow>
    library_step msg enc os root s (s\<lparr>lsManager := lm\<rparr>)"
| cancel: "cancel_operation (lsManager s) = (b, lm) \<Longrightarrow> library_step msg enc os root s (s\<lparr>lsManager := lm\<rparr>)"
| begin_validation: "start_active_validation os root (lsManager s) (lsWorld s) = (r, lm, lw) \<Longrightarrow>
    library_step msg enc os root s
      ((advance lw s)\<lparr>lsManager := lm,
        lsWorkers := (case r of Inr m \<Rightarrow> Validating m # lsWorkers s | Inl _ \<Rightarrow> lsWorkers s)\<rparr>)"
| validate: "lsWorkers s = ws @ Validating m # ws' \<Longrightarrow> run_validation enc os ctx now root m (lsWorld s) = (r, lw) \<Longrightarrow>
    library_step msg enc os root s ((advance lw s)\<lparr>lsWorkers := ws @ Checked m r # ws'\<rparr>)"
| end_validation: "lsWorkers s = ws @ Checked m r # ws' \<Longrightarrow>
    library_step msg enc os root s
      (s\<lparr>lsManager := finish_validation msg m r (lsManager s), lsWorkers := ws @ ws'\<rparr>)"
| begin_build: "start_build games (lsManager s) = (e, lm) \<Longrightarrow>
    library_step msg enc os root s (s\<lparr>lsManager := lm,
      lsWorkers := (if e = None then Building (lmConfig (lsManager s)) games # lsWorkers s else lsWorkers s)\<rparr>)"
| build: "lsWorkers s = ws @ Building c games # ws' \<Longrightarrow> stamp \<noteq> '''' \<Longrightarrow>
    library_build (lmConfig (lsManager s)) enc os ctx ensureSaves stamp now root games (lsWorld s) = (r, lw) \<Longrightarrow>
    library_step msg enc os root s ((advance lw s)\<lparr>lsWorkers := ws @ Built r # ws'\<rparr>)"
| end_build: "lsWorkers s = ws @ Built r # ws' \<Longrightarrow>
    library_step msg enc os root s (s\<lparr>lsManager := finish_build msg r (lsManager s), lsWorkers := ws @ ws'\<rparr>)"
| recheck_read: "active_fast (lmConfig (lsManager s)) os root (lsWorld s) = (r, lw) \<Longrightarrow>
    library_step msg enc os root s ((advance lw s)\<lparr>lsRechecks := r # lsRechecks s\<rparr>)"
| recheck_lock: "lsRechecks s = rs @ r # rs' \<Longrightarrow>
    recheck_commit msg enc os root r (lsManager s) (lsWorld s) = (e, lm, lw) \<Longrightarrow>
    library_step msg enc os root s ((advance lw s)\<lparr>lsManager := lm, lsRechecks := rs @ rs'\<rparr>)"
| surroundings: "library_step msg enc os root s (s\<lparr>lsWorld := (lsWorld s)\<lparr>lwSrc := w, lwFaults := fs\<rparr>\<rparr>)"

inductive_cases library_stepE: "library_step msg enc os root s s'"

inductive library_reachable ::
  "(go_err \<Rightarrow> string) \<Rightarrow> (json_value \<Rightarrow> byte list) \<Rightarrow> 'w lib_os \<Rightarrow> mpath \<Rightarrow> 'w library_run \<Rightarrow> bool"
  for msg enc os root where
  start: "new_library_manager msg enc os root config lw = (Inr lm, lw') \<Longrightarrow>
    library_reachable msg enc os root
      \<lparr>lsManager = lm, lsWorld = lw', lsWorkers = [], lsRechecks = [], lsPast = [lwFiles lw]\<rparr>"
| step: "library_reachable msg enc os root s \<Longrightarrow> library_step msg enc os root s s' \<Longrightarrow>
    library_reachable msg enc os root s'"

section \<open>What was accepted\<close>

text \<open>A state of the storage from which the documents of a manifest, or its receipt, are accepted.\<close>

definition documents_accepted :: "mpath \<Rightarrow> library_manifest \<Rightarrow> (mpath \<Rightarrow> document option) \<Rightarrow> bool" where
  "documents_accepted root m f \<longleftrightarrow> check_manifest_header m = None \<and>
     (\<exists>l md. manifest_documents root m (restart f) = (Inr (l, md), restart f))"

definition receipt_accepted :: "mpath \<Rightarrow> library_manifest \<Rightarrow> (mpath \<Rightarrow> document option) \<Rightarrow> bool" where
  "receipt_accepted root m f \<longleftrightarrow> (\<exists>r. read_validation_receipt root m (restart f) = (Inr r, restart f))"

lemma read_managed_files:
  "read_managed_file root p lw = (Inr d, lw') \<Longrightarrow> below root p \<and> lwFiles lw p = Some d \<and> lwFiles lw' = lwFiles lw"
  by (auto simp: read_managed_file_def ms_lookup_def dest: lw_fault_same split: if_splits prod.splits sum.splits option.splits)

lemma read_managed_accepted:
  "read_managed_file root p lw = (Inr d, lw') \<Longrightarrow>
   read_managed_file root p (restart (lwFiles lw)) = (Inr d, restart (lwFiles lw)) \<and> lwFiles lw' = lwFiles lw"
  using read_managed_files [of root p lw d lw'] read_managed_restart [of "lwFiles lw" p d root] by simp

lemma documents_accepted_read:
  assumes "manifest_documents root m lw = (Inr (l, md), lw')"
  shows "manifest_documents root m (restart (lwFiles lw)) = (Inr (l, md), restart (lwFiles lw))"
proof -
  from assms obtain ld w1 mdd w2 where r: "read_managed_file root (mfLayoutPath m) lw = (Inr ld, w1)"
    "read_managed_file root (mfMetadataPath m) w1 = (Inr mdd, w2)"
    by (auto simp: manifest_documents_def)
  with assms obtain v where v: "doValue ld = Some v" by (cases "doValue ld") (auto simp: manifest_documents_def)
  with assms r obtain l' where l': "v = LayoutJson l'" by (cases v) (auto simp: manifest_documents_def)
  with assms r v obtain sd w3 where c: "l' = l" "check_manifest_layout m l = None"
    "read_managed_file root (butlast (mfLayoutPath m) @ [''checksums.json'']) w2 = (Inr sd, w3)"
    "check_sums m (doText ld) (doValue sd) = None" "validate_layout l (doText mdd) = None" "md = doText mdd"
    by (auto simp: manifest_documents_def)
  from read_managed_accepted [OF r(1)] read_managed_accepted [OF r(2)] read_managed_accepted [OF c(3)]
  show ?thesis using v l' c by (simp add: manifest_documents_def unless_err_def answer_def)
qed

lemma receipt_accepted_read:
  "read_validation_receipt root m lw = (Inr r, lw') \<Longrightarrow> receipt_accepted root m (lwFiles lw)"
  unfolding receipt_accepted_def
  using read_managed_accepted [of root "validation_receipt_path m" lw]
  by (fastforce simp: read_validation_receipt_def split: prod.splits sum.splits option.splits json_value.splits if_splits)

lemma validate_accepted:
  assumes "validate_library_manifest os ctx root m deep checkSources lw = (Inr u, lw')"
  shows "documents_accepted root m (lwFiles lw)"
proof -
  from assms obtain vd w where "validate_library_manifest_data os ctx root m deep checkSources lw = (Inr vd, w)"
    by (auto simp: validate_library_manifest_def)
  from validate_documents [OF this] documents_accepted_read show ?thesis
    unfolding documents_accepted_def by metis
qed

text \<open>Reading calls leave the files as they are.\<close>

abbreviation (input) reads :: "('w lib_world \<Rightarrow> 'r \<times> 'w lib_world) \<Rightarrow> bool" where
  "reads c \<equiv> touches (\<lambda>_. False) c"

lemma reads_files: "reads c \<Longrightarrow> c lw = (r, lw') \<Longrightarrow> lwFiles lw' = lwFiles lw"
  using only_changes_file touches_at by fastforce

lemma reads_active_manifest: "reads (active_manifest root)"
proof -
  have load: "reads (load_library_manifest root p)" for p
    unfolding touches_def
  proof
    fix lw :: "'w lib_world"
    obtain r1 lw1 where l: "ms_lookup p lw = (r1, lw1)" by fastforce
    have "reads (tries (ms_lookup p) (\<lambda>d. case doValue d of Some (ManifestJson m) \<Rightarrow> answer m
        | _ \<Rightarrow> refuse (Msg ''unexpected end of JSON input'')))"
      by (intro touch_intros) (auto split: option.split json_value.split intro!: touch_intros)
    then have "only_changes (\<lambda>_. False) lw1 (snd (tries (ms_lookup p) (\<lambda>d. case doValue d of Some (ManifestJson m) \<Rightarrow> answer m
        | _ \<Rightarrow> refuse (Msg ''unexpected end of JSON input'')) lw1))" by (rule touches_def [THEN iffD1, rule_format])
    with only_changes_lookup [OF l, of "\<lambda>_. False"]
    have "only_changes (\<lambda>_. False) lw (snd (tries (ms_lookup p) (\<lambda>d. case doValue d of Some (ManifestJson m) \<Rightarrow> answer m
        | _ \<Rightarrow> refuse (Msg ''unexpected end of JSON input'')) lw1))" by (rule only_changes_trans)
    with only_changes_lookup [OF l, of "\<lambda>_. False"] show "only_changes (\<lambda>_. False) lw (snd (load_library_manifest root p lw))"
      by (cases r1) (simp_all add: load_library_manifest_def l)
  qed
  show ?thesis
    unfolding active_manifest_def
    by (intro touch_intros) (auto split: option.split json_value.split intro!: touch_intros load)
qed

lemma reads_validate: "reads (validate_library_manifest os ctx root m deep checkSources)"
  unfolding validate_library_manifest_def by (intro touch_intros)

lemma reads_receipt: "reads (validate_receipt root m)"
  unfolding validate_receipt_def
  by (intro touch_intros) (auto simp: touches_def only_changes_receipt [OF prod.collapse [symmetric]])

lemma reads_configured: "reads (validate_configured_sources config os root m)"
  using reads_validate [of os background root m False True]
  by (auto simp: validate_configured_sources_def intro: touch_intros)

lemma active_fast_accepted:
  assumes "active_fast config os root lw = (r, lw')"
  shows "lwFiles lw' = lwFiles lw \<and> (case r of Inr m \<Rightarrow> documents_accepted root m (lwFiles lw) | Inl _ \<Rightarrow> True)"
proof -
  obtain r1 lw1 where 1: "active_manifest root lw = (r1, lw1)" by fastforce
  have f1: "lwFiles lw1 = lwFiles lw" by (rule reads_files [OF reads_active_manifest 1])
  show ?thesis
  proof (cases r1)
    case (Inl err)
    with assms 1 f1 show ?thesis by (auto simp: active_fast_def)
  next
    case (Inr m)
    obtain r2 lw2 where 2: "validate_configured_sources config os root m lw1 = (r2, lw2)" by fastforce
    have f2: "lwFiles lw2 = lwFiles lw" using reads_files [OF reads_configured 2] f1 by simp
    have "documents_accepted root m (lwFiles lw)" if "r2 = Inr u" for u
    proof -
      have "validate_library_manifest os background root m False True lw1 = (Inr u, lw2)"
        using 2 that by (auto simp: validate_configured_sources_def split: if_splits)
      from validate_accepted [OF this] f1 show ?thesis by simp
    qed
    with assms 1 2 f2 Inr show ?thesis by (auto simp: active_fast_def split: sum.splits)
  qed
qed

lemma validate_receipt_accepted:
  "validate_receipt root m lw = (Inr u, lw') \<Longrightarrow> receipt_accepted root m (lwFiles lw)"
  by (auto simp: validate_receipt_def intro: receipt_accepted_read)

lemma write_receipt_accepted:
  assumes "write_validation_receipt enc os now root m lw = (None, lw')"
  shows "receipt_accepted root m (lwFiles lw')"
proof -
  define path where "path = validation_receipt_path m"
  from assms obtain known w1 ids w2 lw2 where c: "collect_legacy_filesystems os known (mfFiles m) [] w1 = (Inr ids, w2)"
    and p: "persist_validation_receipt enc root m
      \<lparr>vrFilesystemIDs = ids, vrSchema = validation_receipt_schema, vrValidatorSchema = library_schema,
       vrGenerationID = mfGenerationID m, vrCatalogFingerprint = mfCatalogFingerprint m,
       vrSourceIdentitySetHash = source_identity_set_hash m, vrCompleted = Some now, vrResult = ''validated''\<rparr> lw2 = (None, lw')"
    by (auto simp: write_validation_receipt_def on_src_def split: prod.splits sum.splits)
  have ids: "list_all (supplement_ok m) ids" by (rule collect_legacy_allowed [OF c]) simp_all
  define r where "r = \<lparr>vrFilesystemIDs = ids, vrSchema = validation_receipt_schema, vrValidatorSchema = library_schema,
       vrGenerationID = mfGenerationID m, vrCatalogFingerprint = mfCatalogFingerprint m,
       vrSourceIdentitySetHash = source_identity_set_hash m, vrCompleted = Some now, vrResult = ''validated''\<rparr>"
  from p have p': "persist_validation_receipt enc root m r lw2 = (None, lw')" by (simp add: r_def)
  then have below: "below root path"
    and f: "replace_file (butlast path @ [''.validation-tmp'']) path (document_of enc (ReceiptJson r)) (\<lambda>w. (None, w)) lw2 = (None, lw')"
    by (auto simp: persist_validation_receipt_def path_def Let_def split: if_splits)
  have ne: "butlast path @ [''.validation-tmp''] \<noteq> path"
    by (simp add: path_def validation_receipt_path_def)
  have "touches (\<lambda>_. False) (\<lambda>w. (None :: go_err option, w))" by (simp add: touches_def)
  from replace_file_ok [OF f ne this] have "lwFiles lw' path = Some (document_of enc (ReceiptJson r))" .
  from read_managed_restart [of "lwFiles lw'", OF this below] ids
  have "read_validation_receipt root m (restart (lwFiles lw')) = (Inr r, restart (lwFiles lw'))"
    by (simp add: read_validation_receipt_def path_def [symmetric] document_of_def receipt_matches_def r_def)
  then show ?thesis unfolding receipt_accepted_def by blast
qed

lemma build_accepted:
  assumes "library_build config enc os ctx ensureSaves stamp now root games lw = (Inr m, lw')" "stamp \<noteq> ''''"
  shows "documents_accepted root m (lwFiles lw') \<and> receipt_accepted root m (lwFiles lw')"
proof -
  obtain c cs where stamp: "stamp = c # cs" using assms(2) by (cases stamp) auto
  define g0 where "g0 = (if c = CHR ''a'' then ''b'' else ''a'')"
  have g0: "g0 \<noteq> ''.''" "\<not> has_prefix ''.building-'' g0" "\<not> has_prefix stamp g0"
    by (auto simp: g0_def stamp has_prefix_def)
  from conjunct2 [OF library_build_states [OF assms(1) g0]] have "current enc root (lwFiles lw') m" by simp
  from current_opens [OF this] show ?thesis
    by (auto simp: opens_as_def documents_accepted_def receipt_accepted_def)
qed

definition was_accepted :: "mpath \<Rightarrow> library_manifest \<Rightarrow> (mpath \<Rightarrow> document option) list \<Rightarrow> bool" where
  "was_accepted root m past \<longleftrightarrow> list_ex (documents_accepted root m) past \<and> list_ex (receipt_accepted root m) past"

lemma recheck_commit_effect:
  assumes "recheck_commit msg enc os root r lm lw = (e, lm', lw')"
  shows "lmConfig lm' = lmConfig lm \<and> lmCancel lm' = lmCancel lm \<and>
    (lmValidated lm' \<longrightarrow> (\<exists>m. r = Inr m \<and> lmActive lm' = Some m \<and> receipt_accepted root m (lwFiles lw)))"
proof (cases r)
  case (Inl x)
  then show ?thesis using assms
    by (auto simp: recheck_commit_def recheck_failed_def Let_def split: prod.splits)
next
  case (Inr m)
  obtain v lw1 where v: "validate_receipt root m lw = (v, lw1)" by fastforce
  obtain u lw2 where u: "upgrade_validation_receipt enc os root m lw1 = (u, lw2)" by fastforce
  show ?thesis using assms Inr v u validate_receipt_accepted
    by (cases v; cases u) (auto simp: recheck_commit_def Let_def)
qed

lemma start_validation_effect:
  assumes "start_active_validation os root lm lw = (r, lm', lw')"
  shows "lmConfig lm' = lmConfig lm \<and> lmActive lm' = lmActive lm \<and> lmValidated lm' = lmValidated lm \<and>
    (case r of Inl _ \<Rightarrow> lm' = lm
     | Inr m \<Rightarrow> lmCancel lm = None \<and> lmCancel lm' \<noteq> None \<and> documents_accepted root m (lwFiles lw))"
proof -
  obtain x lw1 where x: "active_fast (lmConfig lm) os root lw = (x, lw1)" by fastforce
  from active_fast_accepted [OF x] assms x show ?thesis
    by (auto simp: start_active_validation_def split: if_splits sum.splits)
qed

lemma configure_effect:
  "configure_saves sel lm = (e, lm') \<Longrightarrow> lmCancel lm' = lmCancel lm \<and> lmActive lm' = lmActive lm \<and>
     lmValidated lm' = lmValidated lm \<and> (lmCancel lm \<noteq> None \<longrightarrow> lm' = lm)"
  by (auto simp: configure_saves_def Let_def split: option.splits if_splits)

lemma start_build_effect:
  "start_build games lm = (e, lm') \<Longrightarrow> lmConfig lm' = lmConfig lm \<and> lmActive lm' = lmActive lm \<and>
     lmValidated lm' = lmValidated lm \<and>
     (if e = None then lmCancel lm = None \<and> lmCancel lm' \<noteq> None else lm' = lm)"
  by (auto simp: start_build_def split: if_splits)

lemma cancel_effect:
  "cancel_operation lm = (b, lm') \<Longrightarrow> lmConfig lm' = lmConfig lm \<and> lmActive lm' = lmActive lm \<and>
     lmValidated lm' = lmValidated lm \<and> (lmCancel lm' = None \<longleftrightarrow> lmCancel lm = None)"
  by (auto simp: cancel_operation_def split: option.splits)

text \<open>
  The invariant: at most one operation runs, exactly while \<open>cancel\<close> is set, and with the
  configuration it was started with; what is shown as validated was accepted.
\<close>

definition past_of :: "'w library_run \<Rightarrow> (mpath \<Rightarrow> document option) list" where
  "past_of s = lwFiles (lsWorld s) # lsPast s"

definition worker_ok ::
  "mpath \<Rightarrow> library_config \<Rightarrow> (mpath \<Rightarrow> document option) list \<Rightarrow> library_worker \<Rightarrow> bool" where
  "worker_ok root config past wk =
     (case wk of
        Building c games \<Rightarrow> c = config
      | Built r \<Rightarrow> (\<forall>m. r = Inr m \<longrightarrow> was_accepted root m past)
      | Validating m \<Rightarrow> True
      | Checked m r \<Rightarrow> isl r \<or> was_accepted root m past)"

definition library_inv :: "mpath \<Rightarrow> 'w library_run \<Rightarrow> bool" where
  "library_inv root s \<longleftrightarrow>
     length (lsWorkers s) \<le> 1 \<and>
     (lmCancel (lsManager s) = None \<longleftrightarrow> lsWorkers s = []) \<and>
     (\<forall>wk \<in> set (lsWorkers s). worker_ok root (lmConfig (lsManager s)) (past_of s) wk) \<and>
     (\<forall>m. Inr m \<in> set (lsRechecks s) \<longrightarrow> list_ex (documents_accepted root m) (past_of s)) \<and>
     (lmValidated (lsManager s) \<longrightarrow> (\<exists>m. lmActive (lsManager s) = Some m \<and> was_accepted root m (past_of s)))"

lemma past_advance [simp]: "past_of (advance lw s) = lwFiles lw # past_of s"
  by (simp add: past_of_def advance_def)

lemma was_accepted_later: "was_accepted root m past \<Longrightarrow> was_accepted root m (f # past)"
  by (auto simp: was_accepted_def)

lemma worker_ok_later: "worker_ok root c past wk \<Longrightarrow> worker_ok root c (f # past) wk"
  by (cases wk) (auto simp: worker_ok_def intro: was_accepted_later)

lemma past_updates [simp]:
  "past_of (s\<lparr>lsManager := lm\<rparr>) = past_of s" "past_of (s\<lparr>lsWorkers := ws\<rparr>) = past_of s"
  "past_of (s\<lparr>lsRechecks := rs\<rparr>) = past_of s"
  "past_of (s\<lparr>lsWorld := (lsWorld s)\<lparr>lwSrc := w, lwFaults := fs\<rparr>\<rparr>) = past_of s"
  by (simp_all add: past_of_def)

lemma advance_fields [simp]:
  "lsManager (advance lw s) = lsManager s" "lsWorkers (advance lw s) = lsWorkers s" "lsRechecks (advance lw s) = lsRechecks s"
  by (simp_all add: advance_def)

lemma advance_inv: "library_inv root s \<Longrightarrow> library_inv root (advance lw s)"
  by (auto simp: library_inv_def intro: was_accepted_later worker_ok_later)

lemma library_step_inv:
  assumes "library_step msg enc os root s s'" "library_inv root s"
  shows "library_inv root s'"
  using assms
proof (cases rule: library_step.cases)
  case (configure sel e lm)
  from configure_effect [OF configure(2)] assms(2) show ?thesis
    unfolding configure(1) library_inv_def by auto
next
  case (cancel b lm)
  from cancel_effect [OF cancel(2)] assms(2) show ?thesis
    unfolding cancel(1) library_inv_def by auto
next
  case (begin_validation r lm lw)
  from start_validation_effect [OF begin_validation(2)] advance_inv [OF assms(2), of lw] show ?thesis
    unfolding begin_validation(1) library_inv_def by (cases r) (auto simp: worker_ok_def)
next
  case (validate ws m ws' ctx now r lw)
  have "was_accepted root m (lwFiles lw # past_of s)" if "r = Inr u" for u
  proof -
    from validate(3) that obtain w where v: "validate_library_manifest os ctx root m True True (lsWorld s) = (Inr (), w)"
      "write_validation_receipt enc os now root m w = (None, lw)" by (auto simp: run_validation_def)
    from validate_accepted [OF v(1)] write_receipt_accepted [OF v(2)] show ?thesis
      by (simp add: was_accepted_def past_of_def)
  qed
  then show ?thesis using advance_inv [OF assms(2), of lw] validate(2)
    unfolding validate(1) library_inv_def by (cases r) (auto simp: worker_ok_def)
next
  case (end_validation ws m r ws')
  then show ?thesis using assms(2)
    unfolding library_inv_def by (cases r) (auto simp: finish_validation_def Let_def worker_ok_def)
next
  case (begin_build games e lm)
  from start_build_effect [OF begin_build(2)] assms(2) show ?thesis
    unfolding begin_build(1) library_inv_def by (cases "e = None") (auto simp: worker_ok_def)
next
  case (build ws c games ws' stamp ctx ensureSaves now r lw)
  have "was_accepted root m (lwFiles lw # past_of s)" if "r = Inr m" for m
    using build_accepted [OF build(4) [unfolded that] build(3)] by (simp add: was_accepted_def)
  then show ?thesis using advance_inv [OF assms(2), of lw] build(2)
    unfolding build(1) library_inv_def by (auto simp: worker_ok_def)
next
  case (end_build ws r ws')
  then show ?thesis using assms(2)
    unfolding library_inv_def by (cases r) (auto simp: finish_build_def worker_ok_def)
next
  case (recheck_read r lw)
  from active_fast_accepted [OF recheck_read(2)]
  have "list_ex (documents_accepted root m) (past_of s)" if "r = Inr m" for m
    using that by (simp add: past_of_def)
  then show ?thesis using advance_inv [OF assms(2), of lw]
    unfolding recheck_read(1) library_inv_def by auto
next
  case (recheck_lock rs r rs' e lm lw)
  have acc: "was_accepted root m (lwFiles lw # past_of s)"
    if "r = Inr m" "receipt_accepted root m (lwFiles (lsWorld s))" for m
  proof -
    have "list_ex (documents_accepted root m) (past_of s)"
      using assms(2) recheck_lock(2) that(1) by (auto simp: library_inv_def)
    then show ?thesis using that(2) by (simp add: was_accepted_def past_of_def)
  qed
  from recheck_commit_effect [OF recheck_lock(3)] advance_inv [OF assms(2), of lw] acc show ?thesis
    unfolding recheck_lock(1) library_inv_def by (auto simp: recheck_lock(2))
next
  case (surroundings w fs)
  then show ?thesis using assms(2) by (simp add: library_inv_def)
qed

lemma detect_legacy_files: "detect_legacy root gs lw = (names, lw') \<Longrightarrow> lwFiles lw' = lwFiles lw"
proof (induction gs arbitrary: lw names lw')
  case (Cons g gs)
  have rd: "ms_lookup p w = (r, w') \<Longrightarrow> lwFiles w' = lwFiles w" for p r and w w' :: "'a lib_world"
    using only_changes_file [OF only_changes_lookup] by fastforce
  show ?case
  proof (cases "has_prefix ''.building-'' g \<or> \<not> safe_generation_id g")
    case True
    with Cons show ?thesis by auto
  next
    case False
    obtain r1 lw1 where l1: "ms_lookup (entry_dir root g @ [''library.img'']) lw = (r1, lw1)" by fastforce
    obtain r2 lw2 where l2: "ms_lookup (entry_dir root g @ [''manifest.json'']) lw1 = (r2, lw2)" by fastforce
    show ?thesis
    proof (cases r1)
      case (Inr d)
      obtain rest lw3 where d: "detect_legacy root gs lw1 = (rest, lw3)" by fastforce
      have "lwFiles lw3 = lwFiles lw1" by (rule Cons.IH [OF d])
      with Cons.prems False l1 Inr d rd [OF l1] show ?thesis by auto
    next
      case (Inl err)
      obtain rest lw3 where d: "detect_legacy root gs lw2 = (rest, lw3)" by fastforce
      have "lwFiles lw3 = lwFiles lw2" by (rule Cons.IH [OF d])
      with Cons.prems False l1 Inl l2 d rd [OF l1] rd [OF l2] show ?thesis
        by (auto split: sum.splits option.splits json_value.splits if_splits)
    qed
  qed
qed simp

lemma start_manager_effect:
  assumes "start_manager msg enc os root c legacy lw = (lm, lw')"
  shows "lmCancel lm = None \<and> (lmValidated lm \<longrightarrow> (\<exists>m. lmActive lm = Some m \<and> was_accepted root m [lwFiles lw]))"
proof -
  obtain r lw1 where r: "active_fast c os root lw = (r, lw1)" by fastforce
  note a = active_fast_accepted [OF r]
  obtain x lw2 where x: "recover_active os root r lw1 = (x, lw2)" by fastforce
  show ?thesis
  proof (cases x)
    case (Inl err)
    then show ?thesis using assms r x by (auto simp: start_manager_def Let_def split: if_splits)
  next
    case (Inr m)
    obtain q lw3 where q: "enroll_active msg enc os root (\<not> isl r) m lw2 = (q, lw3)" by fastforce
    obtain v state phase err where "q = (v, state, phase, err)" by (cases q) auto
    with q have e: "enroll_active msg enc os root (\<not> isl r) m lw2 = ((v, state, phase, err), lw3)" by simp
    obtain i lw4 where i: "ms_lookup (mfMetadataPath m) lw3 = (i, lw4)" by fastforce
    let ?lm = "fst (start_manager msg enc os root c legacy lw)"
    have "lmCancel ?lm = None \<and> lmActive ?lm = Some m \<and> lmValidated ?lm = (v = ''validated'')"
      by (simp add: start_manager_def Let_def r x Inr e i)
    then have lm: "lmCancel lm = None" "lmActive lm = Some m" "lmValidated lm = (v = ''validated'')"
      using assms by simp_all
    have "was_accepted root m [lwFiles lw]" if v: "v = ''validated''"
    proof -
      obtain m' where m': "r = Inr m'" using e v by (cases r) (auto simp: enroll_active_def)
      then have "m' = m" "lw2 = lw1" using x Inr by (auto simp: recover_active_def answer_def)
      moreover obtain u lw5 where u: "validate_receipt root m lw2 = (Inr u, lw5)"
        using e v m' by (auto simp: enroll_active_def split: prod.splits sum.splits)
      ultimately show ?thesis using a m' validate_receipt_accepted [OF u] by (simp add: was_accepted_def)
    qed
    with lm show ?thesis by simp
  qed
qed

lemma new_manager_inv:
  assumes "new_library_manager msg enc os root config lw = (Inr lm, lw')"
  shows "library_inv root \<lparr>lsManager = lm, lsWorld = lw', lsWorkers = [], lsRechecks = [], lsPast = [lwFiles lw]\<rparr>"
proof -
  from assms obtain c w1 w2 w3 where c: "on_src (resolve_config os config) lw = (Inr c, w1)"
    and n: "ms_nop w1 = (None, w2)" "ms_nop w2 = (None, w3)"
    and s: "(case detect_legacy root (lwGens w3) w3 of (legacy, w) \<Rightarrow>
      (case start_manager msg enc os root c (sort legacy) w of (x, w') \<Rightarrow> (Inr x :: go_err + library_manager, w'))) = (Inr lm, lw')"
    by (auto simp: new_library_manager_def)
  obtain legacy w4 where d: "detect_legacy root (lwGens w3) w3 = (legacy, w4)" by fastforce
  obtain x w5 where x: "start_manager msg enc os root c (sort legacy) w4 = (x, w5)" by fastforce
  have "lwFiles w4 = lwFiles lw"
    using detect_legacy_files [OF d] nop_ok [OF n(1)] nop_ok [OF n(2)] on_src_kept [OF c] by simp
  with start_manager_effect [OF x] s d x show ?thesis
    by (auto simp: library_inv_def past_of_def was_accepted_def)
qed

lemma library_reachable_inv: "library_reachable msg enc os root s \<Longrightarrow> library_inv root s"
  by (induction rule: library_reachable.induct) (rule new_manager_inv, assumption, rule library_step_inv)

section \<open>Properties of the runs\<close>

text \<open>
  \<open>RecheckActive\<close> reads the active generation before it takes the lock.  When a build reports in
  between, the recheck puts the generation it read, which is no longer the active one, back in its
  place.
\<close>

lemma stale_recheck_replaces_build:
  assumes "lsWorkers s = [Built (Inr new)]" "lsRechecks s = rs @ Inr old # rs'"
    and "recheck_commit msg enc os root (Inr old) (finish_build msg (Inr new) (lsManager s)) (lsWorld s) = (None, lm, lw)"
  shows "\<exists>s1 s2. library_step msg enc os root s s1 \<and> validated_summary (lsManager s1) = Some new \<and>
    library_step msg enc os root s1 s2 \<and> validated_summary (lsManager s2) = Some old"
proof -
  define s1 where "s1 = s\<lparr>lsManager := finish_build msg (Inr new) (lsManager s), lsWorkers := []\<rparr>"
  have "recheck_commit msg enc os root (Inr old) (lsManager s1) (lsWorld s1) = (None, lm, lw)" "lsRechecks s1 = rs @ Inr old # rs'"
    using assms(2,3) by (simp_all add: s1_def)
  then have "library_step msg enc os root s1 ((advance lw s1)\<lparr>lsManager := lm, lsRechecks := rs @ rs'\<rparr>)"
    by (rule recheck_lock [rotated])
  moreover have "library_step msg enc os root s s1" unfolding s1_def
    using end_build [of s "[]" "Inr new" "[]"] assms(1) by simp
  moreover have "validated_summary (lsManager s1) = Some new"
    by (simp add: s1_def finish_build_def validated_summary_def)
  moreover have "validated_summary lm = Some old"
    using assms(3) by (auto simp: recheck_commit_def Let_def validated_summary_def split: sum.splits prod.splits option.splits)
  ultimately show ?thesis by fastforce
qed

text \<open>
  C5. Whatever the order in which configuration, cancellation, builds, validations and rechecks
  take the lock, however many requests to start an operation come, and whatever calls fail in
  between: at most one background operation runs, and one runs exactly while the manager holds
  its cancel function; a build reads, without the lock, the
  configuration it was started with; and a generation that is shown as validated has had its
  documents and its receipt read back and accepted from the storage.
\<close>

theorem validated_library_accepted:
  assumes "library_reachable msg enc os root s"
  shows "length (lsWorkers s) \<le> 1 \<and> (lmCancel (lsManager s) = None \<longleftrightarrow> lsWorkers s = []) \<and>
    (\<forall>c games. Building c games \<in> set (lsWorkers s) \<longrightarrow> lmConfig (lsManager s) = c) \<and>
    (\<forall>m. validated_summary (lsManager s) = Some m \<longrightarrow> was_accepted root m (past_of s))"
  using library_reachable_inv [OF assms]
  by (fastforce simp: library_inv_def validated_summary_def worker_ok_def split: if_splits)

theorem validated_library_accepted_witness:
  "\<exists>s. library_reachable (\<lambda>_. '''') (\<lambda>_. []) late_os [''lib''] s \<and>
     (\<exists>c. lsWorkers s = [Building c sample_games] \<and> lmConfig (lsManager s) = c) \<and> lmCancel (lsManager s) \<noteq> None"
proof -
  obtain lm lw where start: "new_library_manager (\<lambda>_. '''') (\<lambda>_. []) late_os [''lib'']
      (default_library_config\<lparr>lcSourceRoot := ''/mnt/games''\<rparr>) (old_storage False) = (Inr lm, lw)"
    using late_start by blast
  define s0 where "s0 = \<lparr>lsManager = lm, lsWorld = lw, lsWorkers = [], lsRechecks = [], lsPast = [lwFiles (old_storage False)]\<rparr>"
  have r0: "library_reachable (\<lambda>_. '''') (\<lambda>_. []) late_os [''lib''] s0"
    unfolding s0_def by (rule library_reachable.start [OF start])
  have "lmCancel lm = None" using validated_library_accepted [OF r0] by (simp add: s0_def)
  then obtain lm' where b: "start_build sample_games (lsManager s0) = (None, lm')"
    by (simp add: s0_def start_build_def)
  define s1 where "s1 = s0\<lparr>lsManager := lm', lsWorkers := [Building (lmConfig (lsManager s0)) sample_games]\<rparr>"
  have "library_step (\<lambda>_. '''') (\<lambda>_. []) late_os [''lib''] s0 s1"
    using begin_build [OF b] by (simp add: s1_def s0_def)
  with r0 have r1: "library_reachable (\<lambda>_. '''') (\<lambda>_. []) late_os [''lib''] s1" by (rule library_reachable.step)
  have wk: "lsWorkers s1 = [Building (lmConfig (lsManager s0)) sample_games]" by (simp add: s1_def)
  from validated_library_accepted [OF r1] wk
  have "lmConfig (lsManager s1) = lmConfig (lsManager s0) \<and> lmCancel (lsManager s1) \<noteq> None" by simp
  with r1 wk show ?thesis by (intro exI [of _ s1]) simp
qed

end
