(* ===== verification/Save_Limits.thy ===== *)
theory Save_Limits
  imports Save_Session
begin

text \<open>
  The bounds of a card's overlay under every pattern of failing calls: dirty blocks, pending
  bytes and the journal file itself.  The counters that \<open>WriteSaveAt\<close> checks are tied to the
  records in the file \<open>pending.log\<close>; the one way in which they can fall behind it is stated.
\<close>

section \<open>Calls that leave the journal alone\<close>

definition keeps_log :: "(world \<Rightarrow> 'a \<times> world) \<Rightarrow> bool" where
  "keeps_log call \<longleftrightarrow> (\<forall>w. wDir (snd (call w)) PendingLog = wDir w PendingLog)"

lemma keeps_logD: "keeps_log call \<Longrightarrow> call w = (r, w') \<Longrightarrow> wDir w' PendingLog = wDir w PendingLog"
  by (metis keeps_log_def snd_conv)

lemma log_fault: "next_fault w = (f, w') \<Longrightarrow> wDir w' = wDir w"
  by (auto simp: next_fault_def split: list.splits)

lemma keeps_log_calls:
  "keeps_log sys_nop" "n \<noteq> PendingLog \<Longrightarrow> keeps_log (sys_remove n)" "keeps_log (sys_lstat n)"
  "n \<noteq> PendingLog \<Longrightarrow> m \<noteq> PendingLog \<Longrightarrow> keeps_log (sys_rename n m)"
  "m \<noteq> PendingLog \<Longrightarrow> keeps_log (sys_link n m)" "n \<noteq> PendingLog \<Longrightarrow> keeps_log (sys_create x n)"
  "n \<noteq> PendingLog \<Longrightarrow> keeps_log (sys_put n c)"
  unfolding keeps_log_def
  by (auto simp: sys_nop_def sys_remove_def sys_rename_def sys_link_def sys_create_def sys_put_def sys_lstat_def
      set_dir_def Let_def dest!: log_fault split: prod.splits option.splits if_splits)

lemma put_raw_log: "n \<noteq> PendingLog \<Longrightarrow> put_raw n bs d PendingLog = d PendingLog"
  by (simp add: put_raw_def split: option.split)

lemma keeps_log_write: "n \<noteq> PendingLog \<Longrightarrow> keeps_log (sys_write n off bs)"
  unfolding keeps_log_def
  by (auto simp: sys_write_def Let_def put_raw_log last_map dest!: log_fault split: prod.splits)

text \<open>
  \<open>kept world L r\<close>: the world in the second component of \<open>r\<close> has \<open>L\<close> under the journal's name.
  Its rules follow the shape of the code, branch by branch.
\<close>

definition kept :: "('s \<Rightarrow> world) \<Rightarrow> node option \<Rightarrow> 'a \<times> 's \<Rightarrow> bool" where
  "kept g L r \<longleftrightarrow> wDir (g (snd r)) PendingLog = L"

named_theorems log_intros \<open>rules for calls that leave the journal alone\<close>

lemma keeps_logI: "(\<And>L w. wDir w PendingLog = L \<Longrightarrow> kept id L (call w)) \<Longrightarrow> keeps_log call"
  by (simp add: keeps_log_def kept_def)

lemma kept_return [log_intros]: "wDir (g s) PendingLog = L \<Longrightarrow> kept g L (x, s)"
  by (simp add: kept_def)

lemma kept_call: "keeps_log call \<Longrightarrow> wDir w PendingLog = L \<Longrightarrow> kept id L (call w)"
  by (simp add: kept_def keeps_log_def)

lemma kept_pair [log_intros]:
  "kept id L r \<Longrightarrow> (\<And>e w. wDir w PendingLog = L \<Longrightarrow> kept g L (f e w)) \<Longrightarrow> kept g L (case r of (e, w) \<Rightarrow> f e w)"
  by (cases r) (simp add: kept_def)

lemma kept_option [log_intros]:
  "kept g L a \<Longrightarrow> (\<And>x. kept g L (f x)) \<Longrightarrow> kept g L (case p of None \<Rightarrow> a | Some x \<Rightarrow> f x)"
  by (cases p) simp_all

lemma kept_sum [log_intros]:
  "(\<And>x. kept g L (f x)) \<Longrightarrow> (\<And>y. kept g L (h y)) \<Longrightarrow> kept g L (case p of Inl x \<Rightarrow> f x | Inr y \<Rightarrow> h y)"
  by (cases p) simp_all

lemma kept_if [log_intros]: "kept g L a \<Longrightarrow> kept g L b \<Longrightarrow> kept g L (if p then a else b)"
  by simp

lemma kept_then [log_intros]: "keeps_log call \<Longrightarrow> kept id L r \<Longrightarrow> kept id L (and_then call r)"
  by (cases r; cases "fst r") (auto simp: and_then_def kept_def keeps_log_def)

lemma kept_also [log_intros]: "keeps_log call \<Longrightarrow> kept id L r \<Longrightarrow> kept id L (and_also call r)"
  by (cases r) (auto simp: and_also_def kept_def dest: keeps_logD split: prod.splits)

lemma ignore_log [log_intros]:
  "keeps_log call \<Longrightarrow> wDir w PendingLog = L \<Longrightarrow> wDir (ignore_error call w) PendingLog = L"
  by (simp add: ignore_error_def keeps_log_def)

lemmas kept_calls [log_intros] = keeps_log_calls [THEN kept_call] keeps_log_write [THEN kept_call]

declare keeps_log_calls [log_intros] keeps_log_write [log_intros]

lemma keeps_log_tolerant [log_intros]: "n \<noteq> PendingLog \<Longrightarrow> keeps_log (tolerant_remove n)"
  unfolding tolerant_remove_def by (rule keeps_logI) (intro log_intros | simp)+

lemmas [log_intros] = keeps_log_tolerant [THEN kept_call]

lemma keeps_log_atomic [log_intros]: "n \<noteq> PendingLog \<Longrightarrow> keeps_log (atomic_write n c)"
  unfolding atomic_write_def by (rule keeps_logI) (intro log_intros | simp)+

lemmas [log_intros] = keeps_log_atomic [THEN kept_call]

lemma keeps_log_copy [log_intros]: "n \<noteq> PendingLog \<Longrightarrow> keeps_log (sys_copy n bs sz)"
  unfolding sys_copy_def by (rule keeps_logI) (intro log_intros | simp)+

lemmas [log_intros] = keeps_log_copy [THEN kept_call]

lemma keeps_log_hash [log_intros]: "keeps_log (hash_regular_file n sz)"
  unfolding hash_regular_file_def by (rule keeps_logI) (intro log_intros | simp)+

lemmas [log_intros] = keeps_log_hash [THEN kept_call]

lemma keeps_log_validate [log_intros]: "keeps_log (validate_candidate n sz digest)"
  unfolding validate_candidate_def by (rule keeps_logI) (intro log_intros | simp)+

lemmas [log_intros] = keeps_log_validate [THEN kept_call]

lemma keeps_log_candidate [log_intros]: "dst \<noteq> PendingLog \<Longrightarrow> keeps_log (copy_validated_candidate src dst sz digest)"
  unfolding copy_validated_candidate_def by (rule keeps_logI) (intro log_intros | simp)+

lemmas [log_intros] = keeps_log_candidate [THEN kept_call]

lemma keeps_log_prepare [log_intros]: "keeps_log (prepare_previous spec md)"
  unfolding prepare_previous_def by (rule keeps_logI) (intro log_intros | simp)+

lemmas [log_intros] = keeps_log_prepare [THEN kept_call]

lemma keeps_log_commit [log_intros]: "keeps_log commit_previous"
  unfolding commit_previous_def by (rule keeps_logI) (intro log_intros | simp)+

lemmas [log_intros] = keeps_log_commit [THEN kept_call]

lemma kept_write_blocks [log_intros]: "kept id L r \<Longrightarrow> kept id L (write_blocks dirty r)"
proof -
  have "kept id L r \<Longrightarrow> kept id L (foldl (\<lambda>r (block, bs).
      and_then (sys_write CheckpointTmp (nat (block * save_block_size)) bs) r) r bl)" for bl r
  proof (induction bl arbitrary: r)
    case (Cons b bl)
    have "kept id L (and_then (sys_write CheckpointTmp (nat (fst b * save_block_size)) (snd b)) r)"
      by (intro log_intros Cons.prems) simp
    from Cons.IH [OF this] show ?case by (simp add: case_prod_beta)
  qed simp
  then show "kept id L r \<Longrightarrow> kept id L (write_blocks dirty r)" unfolding write_blocks_def by blast
qed

lemma keeps_log_stage [log_intros]: "keeps_log (stage_checkpoint sz dirty)"
  unfolding stage_checkpoint_def by (rule keeps_logI) (intro log_intros | simp)+

lemmas [log_intros] = keeps_log_stage [THEN kept_call]

lemma kept_restore: "wDir (scWorld c) PendingLog = L \<Longrightarrow> kept scWorld L (restore_previous md c)"
  unfolding restore_previous_def by (intro log_intros | simp)+

lemma kept_activate: "wDir (scWorld c) PendingLog = L \<Longrightarrow> kept scWorld L (activate_checkpoint cfg digest c)"
  unfolding activate_checkpoint_def Let_def by (intro log_intros | simp)+

text \<open>The truncation at the end of a checkpoint empties the journal or leaves it.\<close>

lemma truncate_log:
  assumes "truncate_journal w = (e, w')"
  shows "journal_bytes w' = [] \<or> journal_bytes w' = journal_bytes w \<and> e \<noteq> None"
proof -
  obtain e1 w1 where 1: "sys_put PendingLog (Raw []) w = (e1, w1)" by (metis prod.exhaust)
  have p: "journal_bytes w1 = [] \<or> journal_bytes w1 = journal_bytes w \<and> e1 \<noteq> None"
    using 1 by (auto simp: sys_put_def journal_bytes_def set_dir_def raw_of_def dest!: log_fault
        split: prod.splits option.splits)
  have "kept id (wDir w1 PendingLog) (and_then sys_nop (and_then sys_nop (e1, w1)))" by (intro log_intros) simp
  then have "journal_bytes w' = journal_bytes w1"
    using assms by (simp add: truncate_journal_def 1 kept_def journal_bytes_def)
  moreover have "e1 \<noteq> None \<Longrightarrow> e \<noteq> None" using assms by (auto simp: truncate_journal_def 1 and_then_def)
  ultimately show ?thesis using p by auto
qed

lemma flush_card_log:
  assumes "flush_card cfg c = (e, c')"
  shows "journal_bytes (scWorld c') = [] \<or> journal_bytes (scWorld c') = journal_bytes (scWorld c) \<and>
    (scDirty c \<noteq> [] \<longrightarrow> e \<noteq> None)"
proof (cases "scDirty c = []")
  case False
  let ?L = "wDir (scWorld c) PendingLog"
  have same: "wDir v PendingLog = ?L \<Longrightarrow> journal_bytes v = journal_bytes (scWorld c)" for v
    by (simp add: journal_bytes_def)
  obtain r w1 where 1: "stage_checkpoint (soCardSize (scSpec c)) (scDirty c) (scWorld c) = (r, w1)"
    by (metis prod.exhaust)
  have l1: "wDir w1 PendingLog = ?L" by (rule keeps_logD [OF keeps_log_stage 1])
  show ?thesis
  proof (cases r)
    case (Inl err)
    with assms False 1 same [OF l1] show ?thesis by (auto simp: flush_card_def flush_fail_def)
  next
    case (Inr digest)
    obtain e2 w2 where 2: "prepare_previous (scSpec c) (scMetadata c) w1 = (e2, w2)" by (metis prod.exhaust)
    have l2: "wDir w2 PendingLog = ?L" using keeps_logD [OF keeps_log_prepare 2] l1 by simp
    show ?thesis
    proof (cases e2)
      case (Some err)
      have "wDir (ignore_error (sys_remove CheckpointTmp) w2) PendingLog = ?L"
        by (intro log_intros l2) simp
      from same [OF this] Some assms False 1 2 Inr show ?thesis by (auto simp: flush_card_def flush_fail_def)
    next
      case None
      obtain e3 c1 where 3: "activate_checkpoint cfg digest (c\<lparr>scWorld := w2\<rparr>) = (e3, c1)" by (metis prod.exhaust)
      have l3: "wDir (scWorld c1) PendingLog = ?L"
        using kept_activate [of "c\<lparr>scWorld := w2\<rparr>" ?L cfg digest] l2 by (simp add: kept_def 3)
      show ?thesis
      proof (cases e3)
        case (Some err)
        have "kept scWorld ?L (restore_previous (scMetadata c) (flush_fail c1))"
          by (rule kept_restore) (simp add: flush_fail_def l3)
        then have "journal_bytes (scWorld (snd (restore_previous (scMetadata c) (flush_fail c1)))) = journal_bytes (scWorld c)"
          by (intro same) (simp add: kept_def)
        moreover have "flush_card cfg c = (Some err, snd (restore_previous (scMetadata c) (flush_fail c1)))"
          by (simp add: flush_card_def False 1 2 3 Inr None Some)
        ultimately show ?thesis using assms by simp
      next
        case e3: None
        obtain e4 w3 where 4: "truncate_journal (scWorld c1) = (e4, w3)" by (metis prod.exhaust)
        have "fst (flush_card cfg c) = e4" "scWorld (snd (flush_card cfg c)) = w3"
          by (simp_all add: flush_card_def flush_fail_def False 1 2 3 4 Inr None e3 split: option.split)
        then have "e = e4" "scWorld c' = w3" using assms by simp_all
        with truncate_log [OF 4] same [OF l3] show ?thesis by auto
      qed
    qed
  qed
qed (use assms in \<open>simp add: flush_card_def\<close>)

section \<open>The overlay under failing calls\<close>

lemma apply_blocks_keys:
  "apply_blocks fl off buf done dirty w = ((d', e), dirty', w') \<Longrightarrow> distinct (map fst dirty) \<Longrightarrow>
   distinct (map fst dirty') \<and> (dirty \<noteq> [] \<or> e = None \<and> done < length buf \<longrightarrow> dirty' \<noteq> []) \<and>
   fst ` set dirty' \<subseteq> fst ` set dirty \<union> {off div 512..(off + int (length buf) - 1) div 512}"
proof (induction fl off buf "done" dirty w rule: apply_blocks.induct)
  case (1 fl off buf "done" dirty w)
  show ?case
  proof (cases "done < length buf")
    case False
    with 1(3,4) show ?thesis by (simp add: apply_blocks.simps)
  next
    case True
    define i where "i = (off + int done) div save_block_size"
    define inb where "inb = nat ((off + int done) mod save_block_size)"
    define n where "n = min (length buf - done) (nat save_block_size - inb)"
    have i: "i \<in> {off div 512..(off + int (length buf) - 1) div 512}"
      using True by (auto simp: i_def intro!: zdiv_mono1)
    have upd: "distinct (map fst (AList.update i b dirty))" "fst ` set (AList.update i b dirty) = insert i (fst ` set dirty)" for b
      using 1(4) by (simp_all add: distinct_update dom_update)
    have ne: "AList.update i b dirty \<noteq> []" for b using upd(2) [of b] by auto
    show ?thesis
    proof (cases "map_of dirty i")
      case (Some block)
      with 1(3) True have "apply_blocks fl off buf (done + n)
          (AList.update i (put_at block inb (slice buf done n)) dirty) w = ((d', e), dirty', w')"
        by (subst (asm) apply_blocks.simps) (simp add: Let_def i_def inb_def n_def)
      from "1.IH"(2) [OF True refl i_def inb_def n_def refl Some this upd(1)] upd(2) i ne show ?thesis by auto
    next
      case None
      obtain bs e1 w1 where rd: "file_read_at fl (i * save_block_size) (nat save_block_size) w = ((bs, e1), w1)"
        by (metis prod.exhaust)
      show ?thesis
      proof (cases e1)
        case (Some err)
        with 1(3,4) True None rd show ?thesis
          by (subst (asm) apply_blocks.simps) (auto simp: Let_def i_def)
      next
        case e1: None
        with 1(3) True None rd have "apply_blocks fl off buf (done + n)
            (AList.update i (put_at bs inb (slice buf done n)) dirty) w1 = ((d', e), dirty', w')"
          by (subst (asm) apply_blocks.simps) (simp add: Let_def i_def inb_def n_def)
        from "1.IH"(1) [OF True refl i_def inb_def n_def refl None rd [symmetric] refl e1 this upd(1)] upd(2) i ne
        show ?thesis by auto
      qed
    qed
  qed
qed

lemma restore_previous_overlay:
  "scDirty (snd (restore_previous md c)) = scDirty c \<and> scPending (snd (restore_previous md c)) = scPending c \<and>
   scJournalBytes (snd (restore_previous md c)) = scJournalBytes c \<and> scBlocked (snd (restore_previous md c)) = scBlocked c"
  by (simp add: restore_previous_def split: prod.splits sum.splits option.splits)

lemma activate_checkpoint_overlay:
  "activate_checkpoint cfg digest c = (e, c') \<Longrightarrow>
   scDirty c' = scDirty c \<and> scPending c' = scPending c \<and> scJournalBytes c' = scJournalBytes c \<and>
   scBlocked c' = scBlocked c"
  by (auto simp: activate_checkpoint_def Let_def split: prod.splits sum.splits option.splits)

text \<open>A checkpoint either empties the overlay or leaves it, with its journal, as it was.\<close>

lemma flush_card_overlay:
  assumes "flush_card cfg c = (e, c')"
  shows "scBlocked c' = scBlocked c \<and> (e = None \<and> scDirty c' = [] \<and> scPending c' = 0 \<and> scJournalBytes c' = 0 \<or>
    scDirty c' = scDirty c \<and> scPending c' = scPending c \<and> scJournalBytes c' = scJournalBytes c)"
proof (cases "scDirty c = []")
  case False
  with assms show ?thesis
    using activate_checkpoint_overlay [of cfg _ "c\<lparr>scWorld := _\<rparr>"] restore_previous_overlay
    by (auto simp: flush_card_def flush_fail_def split: prod.splits sum.splits option.splits)
qed (use assms in \<open>simp add: flush_card_def\<close>)

lemma flush_ok_empty:
  assumes "flush_card cfg c = (None, c')"
  shows "scDirty c' = [] \<and> (scDirty c = [] \<longrightarrow> c' = c) \<and>
    (scDirty c \<noteq> [] \<longrightarrow> scPending c' = 0 \<and> scJournalBytes c' = 0)"
  using assms by (auto simp: flush_card_def split: if_splits prod.splits sum.splits option.splits)

lemma new_blocks_bound:
  assumes "distinct (map fst dirty)" "distinct (map fst dirty')"
    and "fst ` set dirty' \<subseteq> fst ` set dirty \<union> {a..b}"
  shows "int (length dirty') \<le> int (length dirty) + new_blocks dirty a b"
proof -
  have "set (map fst dirty') \<subseteq> set (map fst dirty) \<union> set (filter (\<lambda>x. map_of dirty x = None) [a..b])"
    using assms(3) by (auto simp: map_of_eq_None_iff)
  then have "card (set (map fst dirty')) \<le> card (set (map fst dirty) \<union> set (filter (\<lambda>x. map_of dirty x = None) [a..b]))"
    by (intro card_mono finite_UnI finite_set)
  also have "\<dots> \<le> card (set (map fst dirty)) + card (set (filter (\<lambda>x. map_of dirty x = None) [a..b]))"
    by (rule card_Un_le)
  finally show ?thesis
    unfolding distinct_card [OF assms(1)] distinct_card [OF assms(2)]
    using card_length [of "filter (\<lambda>x. map_of dirty x = None) [a..b]"] by (simp add: new_blocks_def)
qed

lemma file_read_dir: "file_read_at fl off n w = (r, w') \<Longrightarrow> wDir w' = wDir w"
  by (auto simp: file_read_at_def sys_pread_def Let_def dest!: log_fault split: option.splits prod.splits)

lemma apply_blocks_dir: "apply_blocks fl off buf done dirty w = (r, dirty', w') \<Longrightarrow> wDir w' = wDir w"
proof (induction fl off buf "done" dirty w arbitrary: r dirty' w' rule: apply_blocks.induct)
  case (1 fl off buf "done" dirty w)
  show ?case
  proof (cases "done < length buf")
    case False
    with "1.prems" show ?thesis by (simp add: apply_blocks.simps)
  next
    case True
    define i where "i = (off + int done) div save_block_size"
    define inb where "inb = nat ((off + int done) mod save_block_size)"
    define n where "n = min (length buf - done) (nat save_block_size - inb)"
    show ?thesis
    proof (cases "map_of dirty i")
      case (Some block)
      with "1.prems" True have "apply_blocks fl off buf (done + n)
          (AList.update i (put_at block inb (slice buf done n)) dirty) w = (r, dirty', w')"
        by (subst (asm) apply_blocks.simps) (simp add: Let_def i_def inb_def n_def)
      with "1.IH"(2) [OF True refl i_def inb_def n_def refl Some] show ?thesis by blast
    next
      case None
      obtain bs e1 w1 where rd: "file_read_at fl (i * save_block_size) (nat save_block_size) w = ((bs, e1), w1)"
        by (metis prod.exhaust)
      show ?thesis
      proof (cases e1)
        case (Some err)
        with "1.prems" True None rd show ?thesis
          by (subst (asm) apply_blocks.simps) (auto simp: Let_def i_def dest: file_read_dir)
      next
        case e1: None
        with "1.prems" True None rd have "apply_blocks fl off buf (done + n)
            (AList.update i (put_at bs inb (slice buf done n)) dirty) w1 = (r, dirty', w')"
          by (subst (asm) apply_blocks.simps) (simp add: Let_def i_def inb_def n_def)
        from "1.IH"(1) [OF True refl i_def inb_def n_def refl None rd [symmetric] refl e1 this] file_read_dir [OF rd]
        show ?thesis by simp
      qed
    qed
  qed
qed

lemma card_read_loop_dir: "card_read_loop dirty fl off len done acc w = (r, w') \<Longrightarrow> wDir w' = wDir w"
proof (induction dirty fl off len "done" acc w arbitrary: r w' rule: card_read_loop.induct)
  case (1 dirty fl off len "done" acc w)
  show ?case
  proof (cases "done < len")
    case False
    with "1.prems" show ?thesis by (simp add: card_read_loop.simps)
  next
    case True
    define n where "n = min (int (len - done)) (save_block_size - (off + int done) mod save_block_size)"
    show ?thesis
    proof (cases "map_of dirty ((off + int done) div save_block_size)")
      case (Some block)
      with "1.prems" True have "card_read_loop dirty fl off len (done + nat n)
          (acc @ slice block (nat ((off + int done) mod save_block_size)) (nat n)) w = (r, w')"
        by (subst (asm) card_read_loop.simps) (simp add: Let_def n_def)
      with "1.IH"(2) [OF True refl refl refl n_def Some] show ?thesis by blast
    next
      case None
      obtain bs e w1 where rd: "file_read_at fl (off + int done)
          (nat (clean_span dirty (off + int done) n (int (len - done)))) w = ((bs, e), w1)" by (metis prod.exhaust)
      show ?thesis
      proof (cases e)
        case (Some err)
        with "1.prems" True None rd show ?thesis
          by (subst (asm) card_read_loop.simps) (auto simp: Let_def n_def dest: file_read_dir)
      next
        case e: None
        with "1.prems" True None rd have "card_read_loop dirty fl off len (done + length bs) (acc @ bs) w1 = (r, w')"
          by (subst (asm) card_read_loop.simps) (simp add: Let_def n_def)
        from "1.IH"(1) [OF True refl refl refl n_def None rd [symmetric] refl e this] file_read_dir [OF rd]
        show ?thesis by simp
      qed
    qed
  qed
qed

lemma card_read_log:
  assumes "card_read len off c = (r, c')"
  shows "c' = c\<lparr>scWorld := scWorld c'\<rparr> \<and> journal_bytes (scWorld c') = journal_bytes (scWorld c)"
proof -
  let ?rd = "if scDirty c = [] then file_read_at (scFile c) off len (scWorld c)
    else card_read_loop (scDirty c) (scFile c) off len 0 [] (scWorld c)"
  obtain x w where rd: "?rd = (x, w)" by (metis prod.exhaust)
  then have d: "wDir w = wDir (scWorld c)" by (auto dest: file_read_dir card_read_loop_dir split: if_splits)
  show ?thesis
  proof (cases "off < 0 \<or> int len > soCardSize (scSpec c) - off")
    case True
    with assms have "c' = c" by (simp add: card_read_def)
    then show ?thesis by simp
  next
    case False
    with assms rd have "c' = c\<lparr>scWorld := w\<rparr>" by (simp add: card_read_def)
    with d show ?thesis by (simp add: journal_bytes_def)
  qed
qed

section \<open>The journal file\<close>

lemma journal_write_log:
  assumes "journal_write bs w = (e, w')"
  shows "if wDir w PendingLog = None then wDir w' PendingLog = None
    else wDir w' PendingLog \<noteq> None \<and>
      (\<exists>k. journal_bytes w' = journal_bytes w @ take k bs \<and> (e = None \<longrightarrow> k = length bs))"
proof -
  obtain f w1 where f: "next_fault w = (f, w1)" by (metis prod.exhaust)
  define k where "k = (case f of None \<Rightarrow> length bs | Some (_, k) \<Rightarrow> min k (length bs))"
  define old where "old = journal_bytes w"
  have d: "wDir w1 = wDir w" by (rule log_fault [OF f])
  have w': "wDir w' = put_raw PendingLog (write_prefix old (length old) bs k) (wDir w)" "e = map_option fst f"
    using assms f by (auto simp: journal_write_def sys_write_def k_def old_def journal_bytes_def Let_def last_map d
        split: option.splits)
  have "write_prefix old (length old) bs k = old @ take k bs" by (simp add: write_prefix_def)
  with w' show ?thesis
    by (cases "wDir w PendingLog") (auto simp: put_raw_def journal_bytes_def raw_of_def old_def k_def)
qed

lemma append_log:
  assumes "append_journal off buf w = (e, w')"
  shows "if wDir w PendingLog = None then wDir w' PendingLog = None
    else \<exists>k. journal_bytes w' = journal_bytes w @ take k (journal_header off buf @ buf) \<and>
      (e = None \<longrightarrow> k = 52 + length buf)"
proof -
  obtain e1 w1 where 1: "journal_write (journal_header off buf) w = (e1, w1)" by (metis prod.exhaust)
  obtain e2 w2 where 2: "and_then (journal_write buf) (e1, w1) = (e2, w2)" by (metis prod.exhaust)
  have "kept id (wDir w2 PendingLog) (and_then sys_nop (e2, w2))" by (intro log_intros) simp
  then have log: "wDir w' PendingLog = wDir w2 PendingLog"
    using assms by (simp add: append_journal_def 1 2 kept_def)
  have "and_then sys_nop (e2, w2) = (e, w')" using assms by (simp add: append_journal_def 1 2)
  then have err: "e2 \<noteq> None \<Longrightarrow> e \<noteq> None" by (auto simp: and_then_def)
  note h = journal_write_log [OF 1]
  show ?thesis
  proof (cases e1)
    case (Some x)
    then have w2: "w2 = w1" "e2 = Some x" using 2 by (simp_all add: and_then_def)
    show ?thesis
    proof (cases "wDir w PendingLog = None")
      case True
      with h log w2 show ?thesis by simp
    next
      case False
      with h obtain k where "journal_bytes w1 = journal_bytes w @ take k (journal_header off buf)" by auto
      then have "journal_bytes w' = journal_bytes w @ take (min k 52) (journal_header off buf @ buf)"
        using log w2 by (cases "k \<le> 52") (simp_all add: journal_bytes_def min_def)
      moreover have "e \<noteq> None" using err w2 by simp
      ultimately show ?thesis using False by (auto simp del: take_append intro!: exI [of _ "min k 52"])
    qed
  next
    case None
    then have w: "journal_write buf w1 = (e2, w2)" using 2 by (simp add: and_then_def)
    note b = journal_write_log [OF w]
    show ?thesis
    proof (cases "wDir w PendingLog = None")
      case True
      with h b log show ?thesis by simp
    next
      case False
      with h None have w1: "wDir w1 PendingLog \<noteq> None" "journal_bytes w1 = journal_bytes w @ journal_header off buf" by auto
      with b obtain k where k: "journal_bytes w2 = journal_bytes w1 @ take k buf" "e2 = None \<longrightarrow> k = length buf" by auto
      have "journal_bytes w' = journal_bytes w @ take (52 + k) (journal_header off buf @ buf)"
        using log w1(2) k(1) by (simp add: journal_bytes_def)
      with False err k(2) show ?thesis by (auto intro!: exI [of _ "52 + k"])
    qed
  qed
qed

section \<open>The bounds\<close>

text \<open>
  \<open>bounded\<close>: the overlay and the journal file are within the configured limits, the journal
  also where its counter says less.  \<open>accounted\<close>: the journal is a sequence of whole records and
  the two counters cover them.
\<close>

definition bounded :: "store_config \<Rightarrow> save_card \<Rightarrow> bool" where
  "bounded cfg c \<longleftrightarrow> distinct (map fst (scDirty c)) \<and>
     (scDirty c = [] \<longrightarrow> scPending c = 0 \<and> scJournalBytes c = 0) \<and>
     int (length (scDirty c)) \<le> cfMaxDirtyBlocks cfg \<and>
     scPending c \<le> cfMaxPendingBytes cfg \<and> scJournalBytes c \<le> cfMaxJournalBytes cfg \<and>
     int (length (journal_bytes (scWorld c))) \<le> cfMaxJournalBytes cfg"

definition accounted :: "save_card \<Rightarrow> save_record list \<Rightarrow> bool" where
  "accounted c recs \<longleftrightarrow> record_bytes recs \<le> scPending c \<and> int (length (encode_journal recs)) \<le> scJournalBytes c"

text \<open>A card whose append has failed is blocked: its journal may be torn, and takes no more writes.\<close>

definition within_limits :: "store_config \<Rightarrow> save_card \<Rightarrow> bool" where
  "within_limits cfg c \<longleftrightarrow> bounded cfg c \<and>
     (scBlocked c \<or> (\<exists>recs. journal_bytes (scWorld c) = encode_journal recs \<and> accounted c recs))"

text \<open>
  A write that failed after its record was journalled: the counters cover the journal but for
  that last record.
\<close>

definition journal_ahead :: "store_config \<Rightarrow> int \<Rightarrow> byte list \<Rightarrow> save_card \<Rightarrow> bool" where
  "journal_ahead cfg off buf c \<longleftrightarrow> bounded cfg c \<and> \<not> scBlocked c \<and>
     (\<exists>recs. journal_bytes (scWorld c) = encode_journal (recs @ [(off, buf)]) \<and> accounted c recs)"

lemma accounted_empty: "accounted c recs \<Longrightarrow> accounted c []"
  using record_bytes_nonneg [of recs] by (simp add: accounted_def)

lemma within_limitsI:
  "bounded cfg c \<Longrightarrow> journal_bytes (scWorld c) = encode_journal recs \<Longrightarrow> accounted c recs \<Longrightarrow> within_limits cfg c"
  by (auto simp: within_limits_def)

lemma within_limits_read:
  assumes "card_read len off c = (r, c')" "within_limits cfg c"
  shows "within_limits cfg c'"
proof -
  from card_read_log [OF assms(1)] have "scDirty c' = scDirty c \<and> scPending c' = scPending c \<and>
      scJournalBytes c' = scJournalBytes c \<and> scBlocked c' = scBlocked c" by (metis save_card.select_convs(4-7) save_card.surjective save_card.update_convs(8))
  with card_read_log [OF assms(1)] assms(2) show ?thesis
    by (simp add: within_limits_def bounded_def accounted_def)
qed

lemma flush_card_limits:
  assumes "flush_card cfg c = (e, c')" "within_limits cfg c" "0 \<le> cfMaxPendingBytes cfg"
    "0 \<le> cfMaxJournalBytes cfg" "0 \<le> cfMaxDirtyBlocks cfg"
  shows "within_limits cfg c'"
proof -
  note log = flush_card_log [OF assms(1)] and over = flush_card_overlay [OF assms(1)]
  have b: "bounded cfg c'" using log over assms(2-5) by (auto simp: within_limits_def bounded_def)
  moreover have "scBlocked c' \<or> (\<exists>recs. journal_bytes (scWorld c') = encode_journal recs \<and> accounted c' recs)"
  proof (cases "scBlocked c")
    case False
    with assms(2) obtain recs where recs: "journal_bytes (scWorld c) = encode_journal recs" "accounted c recs"
      by (auto simp: within_limits_def)
    show ?thesis
    proof (cases "journal_bytes (scWorld c') = []")
      case True
      have "accounted c' []" using over accounted_empty [OF recs(2)] by (auto simp: accounted_def)
      with True show ?thesis by (intro disjI2 exI [of _ "[]"]) (simp add: encode_journal_def)
    next
      case False
      with log have "journal_bytes (scWorld c') = encode_journal recs" using recs(1) by simp
      moreover have "scPending c' = scPending c \<and> scJournalBytes c' = scJournalBytes c"
        using over log False flush_ok_empty [of cfg c c'] assms(1) by auto
      ultimately show ?thesis using recs(2) by (auto simp: accounted_def)
    qed
  qed (use over in simp)
  ultimately show ?thesis by (simp add: within_limits_def)
qed

lemma card_write_limits:
  assumes "card_write cfg buf off c = ((n, e), c')" "within_limits cfg c" "0 \<le> cfMaxPendingBytes cfg"
    "0 \<le> cfMaxJournalBytes cfg" "0 \<le> cfMaxDirtyBlocks cfg"
  shows "within_limits cfg c' \<or> e \<noteq> None \<and> journal_ahead cfg off buf c'"
proof -
  let ?n = "int (length buf)"
  let ?a = "off div 512" and ?b = "(off + ?n - 1) div 512"
  define b1 where "b1 \<longleftrightarrow> scPending c + ?n > cfMaxPendingBytes cfg \<or> scJournalBytes c + ?n + 52 > cfMaxJournalBytes cfg"
  obtain e1 c1 where f1: "(if b1 then flush_card cfg c else (None, c)) = (e1, c1)" by (metis prod.exhaust)
  define b2 where "b2 \<longleftrightarrow> int (length (scDirty c1)) + new_blocks (scDirty c1) ?a ?b > cfMaxDirtyBlocks cfg"
  obtain e2 c2 where f2: "(if b2 then flush_card cfg c1 else (None, c1)) = (e2, c2)" by (metis prod.exhaust)
  have lim1: "within_limits cfg c1"
    using f1 assms(2) flush_card_limits [OF _ assms(2-5)] by (auto split: if_splits)
  have lim2: "within_limits cfg c2"
    using f2 lim1 flush_card_limits [OF _ lim1 assms(3-5)] by (auto split: if_splits)
  define refused where "refused \<longleftrightarrow> off < 0 \<or> ?n = 0 \<or> ?n > soCardSize (scSpec c) - off \<or> scBlocked c \<or>
      ?n > cfMaxPendingBytes cfg \<or> ?n + 52 > cfMaxJournalBytes cfg \<or> ?b - ?a + 1 > cfMaxDirtyBlocks cfg"
  show ?thesis
  proof (cases "refused \<or> e1 \<noteq> None \<or> e2 \<noteq> None")
    case True
    have "c' \<in> {c, c1, c2}"
    proof (cases refused)
      case True
      with assms(1) show ?thesis by (auto simp: card_write_def Let_def refused_def split: if_splits)
    next
      case False
      with True assms(1) f1 f2 show ?thesis
        by (cases e1; cases e2; simp add: card_write_def Let_def refused_def b1_def b2_def)
    qed
    with assms(2) lim1 lim2 show ?thesis by auto
  next
    case False
    then have ok: "\<not> refused" "e1 = None" "e2 = None" by auto
    have nb: "\<not> scBlocked c2"
      using ok(1) f1 f2 flush_card_overlay [of cfg c] flush_card_overlay [of cfg c1]
      by (auto simp: refused_def split: if_splits)
    have p1: "scPending c1 + ?n \<le> cfMaxPendingBytes cfg" "scJournalBytes c1 + ?n + 52 \<le> cfMaxJournalBytes cfg"
      using f1 ok lim1 flush_ok_empty [of cfg c c1]
      by (auto simp: b1_def refused_def within_limits_def bounded_def split: if_splits)
    then have p2: "scPending c2 + ?n \<le> cfMaxPendingBytes cfg" "scJournalBytes c2 + ?n + 52 \<le> cfMaxJournalBytes cfg"
      using f2 ok lim2 flush_ok_empty [of cfg c1 c2]
      by (auto simp: refused_def within_limits_def bounded_def split: if_splits)
    from lim2 nb obtain recs where recs: "journal_bytes (scWorld c2) = encode_journal recs" "accounted c2 recs"
      by (auto simp: within_limits_def)
    obtain e3 w3 where ap: "append_journal off buf (scWorld c2) = (e3, w3)" by (metis prod.exhaust)
    note log = append_log [OF ap]
    have len3: "int (length (journal_bytes w3)) \<le> cfMaxJournalBytes cfg"
    proof (cases "wDir (scWorld c2) PendingLog = None")
      case True
      with log assms(4) show ?thesis by (simp add: journal_bytes_def)
    next
      case False
      with log obtain k where "journal_bytes w3 = encode_journal recs @ take k (journal_header off buf @ buf)"
        using recs(1) by auto
      then have "length (journal_bytes w3) \<le> length (encode_journal recs) + 52 + length buf" by simp
      with p2(2) recs(2) show ?thesis by (simp add: accounted_def)
    qed
    show ?thesis
    proof (cases e3)
      case (Some err)
      have "\<exists>md. c' = c2\<lparr>scBlocked := True, scWorld := w3, scMetadata := md\<rparr>"
        using assms(1) ok f1 f2 ap Some by (auto simp: card_write_def Let_def b1_def b2_def refused_def)
      with lim2 len3 show ?thesis by (auto simp: within_limits_def bounded_def)
    next
      case None
      obtain d e4 dirty w4 where bl: "apply_blocks (scFile c2) off buf 0 (scDirty c2) w3 = ((d, e4), dirty, w4)"
        by (metis prod.exhaust)
      have j4: "journal_bytes w4 = journal_bytes w3"
        using apply_blocks_dir [OF bl] by (simp add: journal_bytes_def)
      have keys: "distinct (map fst dirty)" "scDirty c2 \<noteq> [] \<or> e4 = None \<longrightarrow> dirty \<noteq> []"
        "fst ` set dirty \<subseteq> fst ` set (scDirty c2) \<union> {?a..?b}"
        using apply_blocks_keys [OF bl] lim2 ok(1) by (auto simp: within_limits_def bounded_def refused_def)
      have "int (length (scDirty c2)) + new_blocks (scDirty c2) ?a ?b \<le> cfMaxDirtyBlocks cfg"
      proof (cases b2)
        case True
        have "new_blocks [] ?a ?b \<le> max 0 (?b - ?a + 1)" by (simp add: new_blocks_def)
        with True f2 ok flush_ok_empty [of cfg c1 c2] assms(5) show ?thesis by (auto simp: refused_def)
      next
        case False
        with f2 show ?thesis by (simp add: b2_def)
      qed
      moreover have "int (length dirty) \<le> int (length (scDirty c2)) + new_blocks (scDirty c2) ?a ?b"
        using new_blocks_bound [OF _ keys(1,3)] lim2 by (simp add: within_limits_def bounded_def)
      ultimately have dl: "int (length dirty) \<le> cfMaxDirtyBlocks cfg" by linarith
      have c': "if e4 = None then e = None \<and> (\<exists>md. c' = c2\<lparr>scDirty := dirty, scWorld := w4, scPending := scPending c2 + ?n,
             scJournalBytes := scJournalBytes c2 + ?n + 52, scMetadata := md\<rparr>)
          else e = e4 \<and> c' = c2\<lparr>scDirty := dirty, scWorld := w4\<rparr>"
        using assms(1) ok f1 f2 ap None bl
        by (auto simp: card_write_def Let_def b1_def b2_def refused_def split: option.splits)
      have rec3: "journal_bytes w3 = encode_journal (recs @ [(off, buf)]) \<or> journal_bytes w3 = encode_journal []"
      proof (cases "wDir (scWorld c2) PendingLog = None")
        case True
        with log show ?thesis by (simp add: journal_bytes_def encode_journal_def)
      next
        case False
        with log None show ?thesis by (auto simp: recs(1) encode_journal_def)
      qed
      show ?thesis
      proof (cases "e4 = None")
        case True
        with c' obtain md where md: "c' = c2\<lparr>scDirty := dirty, scWorld := w4, scPending := scPending c2 + ?n,
             scJournalBytes := scJournalBytes c2 + ?n + 52, scMetadata := md\<rparr>" by auto
        have "accounted c' (recs @ [(off, buf)])" using recs(2) by (simp add: accounted_def md)
        moreover have "bounded cfg c'"
          using p2 dl keys True len3 j4 by (simp add: bounded_def md)
        moreover have "journal_bytes (scWorld c') = journal_bytes w3" by (simp add: md j4)
        ultimately have "within_limits cfg c'"
          using rec3 by (metis within_limitsI accounted_empty)
        then show ?thesis ..
      next
        case False
        with c' have md: "e = e4" "c' = c2\<lparr>scDirty := dirty, scWorld := w4\<rparr>" by auto
        have "accounted c' recs" using recs(2) by (simp add: accounted_def md)
        moreover have "bounded cfg c'"
          using lim2 dl keys False len3 j4 by (auto simp: within_limits_def bounded_def md)
        moreover have "journal_bytes (scWorld c') = journal_bytes w3" "\<not> scBlocked c'" using nb by (simp_all add: md j4)
        ultimately have "within_limits cfg c' \<or> journal_ahead cfg off buf c'"
          using rec3 unfolding journal_ahead_def by (metis within_limitsI accounted_empty)
        then show ?thesis using md(1) False by blast
      qed
    qed
  qed
qed

text \<open>The exception does happen: the fourth call of this write, the read of its block, fails.\<close>

lemma demo_journal: "journal_bytes (scWorld demo_card) = encode_journal [(0, [42])]"
  by (simp add: journal_bytes_def demo_card_def demo_dir_def raw_of_def encode_journal_def)

lemma demo_card_limits: "within_limits demo_config demo_card"
proof -
  have "accounted demo_card [(0, [42])]" by (simp add: accounted_def demo_card_def encode_journal_def)
  moreover have "bounded demo_config demo_card"
    by (simp add: bounded_def demo_journal) (simp add: demo_card_def demo_config_def encode_journal_def)
  ultimately show ?thesis using demo_journal by (auto simp: within_limits_def)
qed

lemma journal_falls_behind:
  "\<exists>c'. card_write demo_config [7, 8] 600
      (demo_card\<lparr>scWorld := (scWorld demo_card)\<lparr>wFaults := [None, None, None, Some (Msg ''input/output error'', 0)]\<rparr>\<rparr>) =
        ((0, Some (Msg ''input/output error'')), c') \<and>
     scJournalBytes c' = 53 \<and> length (journal_bytes (scWorld c')) = 107"
proof -
  obtain w where w: "append_journal 600 [7, 8] ((scWorld demo_card)\<lparr>wFaults := [None, None, None, Some (Msg ''input/output error'', 0)]\<rparr>) =
      (None, w)" "wFaults w = [Some (Msg ''input/output error'', 0)]" "length (journal_bytes w) = 107"
    by (simp add: append_journal_def and_then_def sys_nop_def journal_write_def sys_write_def next_fault_def Let_def
        last_map journal_bytes_def demo_card_def demo_dir_def put_raw_def write_prefix_def raw_of_def)
  have "apply_blocks (Some (zeros 524288)) 600 [7, 8] 0 [(0, 42 # zeros 511)] w =
      ((0, Some (Msg ''input/output error'')), [(0, 42 # zeros 511)], w\<lparr>wFaults := []\<rparr>)"
    using w(2) by (subst apply_blocks.simps) (simp add: file_read_at_def sys_pread_def next_fault_def)
  moreover have "scFile demo_card = Some (zeros 524288)" "scDirty demo_card = [(0, 42 # zeros 511)]" "\<not> scBlocked demo_card"
    "scPending demo_card = 1" "scJournalBytes demo_card = 53" "soCardSize (scSpec demo_card) = 524288"
    by (simp_all add: demo_card_def demo_spec_def)
  moreover have "new_blocks [(0, 42 # zeros 511)] 1 1 = 1" by (simp add: new_blocks_def)
  ultimately show ?thesis using w
    by (simp add: card_write_def Let_def demo_config_def) (simp add: journal_bytes_def)
qed

section \<open>Properties\<close>

text \<open>
  C17.  With limits that are not negative, and whatever calls fail, a read, a checkpoint or a write
  keeps a card that is within its limits there: the configured numbers of dirty blocks, pending
  bytes and journal bytes, of the file \<open>pending.log\<close> itself as of the counters, and as long as the card takes writes the journal is a
  sequence of whole records that the counters cover.  The one exception is a write that reports
  an error: when reading a block of the confirmed card fails after the record was journalled,
  the limits hold still, but the counters lack that record, so later writes may pass them.
\<close>

theorem card_write_within_limits:
  assumes "within_limits cfg c" "0 \<le> cfMaxPendingBytes cfg" "0 \<le> cfMaxJournalBytes cfg" "0 \<le> cfMaxDirtyBlocks cfg"
  shows "within_limits cfg (snd (card_read len pos c)) \<and> within_limits cfg (snd (flush_card cfg c)) \<and>
    (case card_write cfg buf off c of ((n, e), c') \<Rightarrow>
       within_limits cfg c' \<or> e \<noteq> None \<and> journal_ahead cfg off buf c')"
proof -
  obtain r1 c1 where rd: "card_read len pos c = (r1, c1)" by (metis prod.exhaust)
  obtain e2 c2 where fl: "flush_card cfg c = (e2, c2)" by (metis prod.exhaust)
  obtain n e c' where wr: "card_write cfg buf off c = ((n, e), c')" by (metis prod.exhaust)
  from within_limits_read [OF rd assms(1)] flush_card_limits [OF fl assms] card_write_limits [OF wr assms]
  show ?thesis by (simp add: rd fl wr)
qed

theorem card_write_within_limits_witness:
  "\<exists>c'. card_write demo_config [7, 8] 600 demo_card = ((2, None), c') \<and> within_limits demo_config c'"
proof -
  have rec: "record_ok (soCardSize (scSpec demo_card)) (600, [7, 8])" by (simp add: demo_card_def demo_spec_def record_ok_def)
  obtain c' where w: "card_write demo_config [7, 8] 600 demo_card = ((length [7, 8 :: byte], None), c')"
    using card_write_journalled [OF demo_card_journalled rec] by (auto simp: demo_config_def)
  have "within_limits demo_config demo_card" by (rule demo_card_limits)
  from card_write_within_limits [OF this, where buf = "[7, 8]" and off = 600] w show ?thesis
    by (auto simp: demo_config_def)
qed

end
