(* ===== verification/Spec2Isabelle.thy ===== *)
theory Spec2Isabelle
  imports Export_Profile Vdisk_Layout Fat_Alias Export_Disks Gc_Pair Compat Ram_Cache Auth_Manager Fat_Accepted Lib_Manager Save_Limits
begin

text \<open>
  WiiBridge: a verification library of the Go programs under \<open>src/\<close>.

  \<^bold>\<open>The program.\<close>  A host daemon indexes a library of Wii (WBFS) and GameCube (ISO, CISO,
  extracted) games and exports it, without copying a payload, as a virtual FAT32 disk.  An NBD
  server with mutual TLS serves the disk to a Raspberry Pi, which shows it to the console as a USB
  drive.  The Wii disk is read-only; the GameCube disk may hold memory cards, whose writes go to a
  journalled overlay on the host.  The parts modelled call each other as follows: the scanner finds
  discs, the layout builder turns files into a FAT32 layout, the backend serves that layout from
  the source files and the save store, the NBD session calls the backend, the export manager
  decides which platform is exported, and the compatibility contract decides whether host and Pi
  may talk at all.

  \<^bold>\<open>Theories and the code they model.\<close>

  \<^item> \<open>Prelude\<close>, \<open>Go_Std\<close>: Go's integers, byte slices, \<open>encoding/binary\<close>, \<open>sort.Search\<close>, strings,
    \<open>fmt\<close>, UTF-8, SHA-256 (by its standard) and hexadecimal; generic lemmas and the hint
    collections \<open>go_simps\<close> and \<open>go_len\<close>.
  \<^item> \<open>Extents\<close>, \<open>Block_Device\<close>: the interfaces.  \<open>extent_table\<close> is a binary search over sorted
    extents; \<open>readable_device\<close> and \<open>writable_device\<close> are the devices the NBD server calls
    (\<open>reliable_device\<close> of \<open>Nbd_Requests\<close> one whose storage works);
    \<open>card_service\<close> and \<open>durable_cards\<close> are the save store as the GameCube backend sees it.
  \<^item> \<open>Host_OS\<close>: \<open>shared/model/model.go\<close>, \<open>shared/sourceidentity/filesystem.go\<close>, \<open>VerifySource\<close> of
    \<open>host-daemon/scanner/scanner.go\<close>, and the record \<open>os\<close> of the kernel's answers.
  \<^item> \<open>Export_Profile\<close>: \<open>host-daemon/exportprofile/manager.go\<close>, every method, with the reachable states
    of the manager as an inductive relation.
  \<^item> \<open>Vdisk_Geometry\<close>, \<open>Vdisk_Fat\<close>, \<open>Vdisk_Build\<close>, \<open>Vdisk_Layout\<close>, \<open>Vdisk_Read\<close>:
    \<open>host-daemon/vdisk/vdisk.go\<close>, the Wii disk, from the choice of a geometry to \<open>ReadAt\<close>.
  \<^item> \<open>Fat_Names\<close>, \<open>Fat_Alias\<close>, \<open>Fat_Dir\<close>, \<open>Fat_Layout\<close>, with the proofs \<open>Fat_Chain\<close>,
    \<open>Fat_Entries\<close>, \<open>Fat_Build\<close>: \<open>host-daemon/fat32virtual/layout.go\<close>, \<open>Build\<close> of the GameCube disk.
  \<^item> \<open>Fat_Accepted\<close>: what \<open>Build\<close> accepts, from its result: every file of the layout has the extent of its
    source or its card.
  \<^item> \<open>Fat_Backend\<close>, with the proofs \<open>Fat_Read\<close>, \<open>Fat_Disk\<close>: \<open>host-daemon/fat32virtual/backend.go\<close>,
    opening, validating, reading, writing and syncing the GameCube disk.
  \<^item> \<open>Save_Objects\<close>, \<open>Save_World\<close>, \<open>Save_Overlay\<close>, \<open>Save_Checkpoint\<close>, \<open>Save_Recovery\<close>,
    \<open>Save_Store\<close>, with the proofs \<open>Save_Crash\<close>, \<open>Save_Reopen\<close>, \<open>Save_Session\<close>,
    \<open>Save_Limits\<close>:
    \<open>host-daemon/gamecube/saveoverlay.go\<close>, the memory cards.
  \<^item> \<open>Nbd\<close>, with the proofs \<open>Nbd_Session\<close>, \<open>Nbd_Requests\<close>: \<open>server/nbd-plugin/nbd.go\<close>.
  \<^item> \<open>Export_Disks\<close>: the two disks as devices of the NBD server, end to end.
  \<^item> \<open>Gc_Disc\<close>, \<open>Gc_Pair\<close>: \<open>host-daemon/gamecube/scanner.go\<close>, one image and the pairing of discs.
  \<^item> \<open>Lib_Config\<close>, \<open>Lib_Sources\<close>, \<open>Lib_World\<close>, \<open>Lib_Manifest\<close>, \<open>Lib_Build\<close>, \<open>Lib_Manager\<close>, with the proofs
    \<open>Lib_Publish\<close>, \<open>Lib_Crash\<close>: \<open>host-daemon/gamecube/library.go\<close> with the parts of \<open>scanner.go\<close> and
    \<open>volume.go\<close> it calls: configuration and size of the disk, hashing and identities of sources, the
    map from discs to virtual files, the manifest and its validation, the build of a generation, and
    \<open>LibraryManager\<close> with any number of background operations as a step relation.
  \<^item> \<open>Compat\<close>: \<open>shared/compat/compat.go\<close> and \<open>shared/contract/error.go\<close>.
  \<^item> \<open>Ram_Cache\<close>: \<open>pi/controller/cache/cache.go\<close>.
  \<^item> \<open>Auth_Manager\<close>: \<open>host-daemon/auth/manager.go\<close>.

  \<^bold>\<open>How state and effects are modelled.\<close>  A Go struct is a record, a method takes the record and
  returns it updated, an error is a value of a datatype with one constructor per error the callers
  can tell apart.  Integers whose overflow matters are words.  A mutex makes a method one atomic
  step, so concurrent calls are sequences of steps.  System calls of the save overlay act on a
  \<open>world\<close> (the card's directory) that records every intermediate state and may make any call fail;
  the library's storage is a \<open>lib_world\<close>
  of the same kind; reads of source files ask the record \<open>os\<close>, which is arbitrary except where a theorem says
  \<open>honest_os\<close>.  A client of the NBD server is the byte sequence it sends together with the point at
  which its writes start to fail.

  \<^bold>\<open>What the lemmas show.\<close>  The disks: \<open>Build\<close> gives well-formed layouts (disjoint extents, FAT
  chains that end, directories that decode to the tree), and \<open>ReadAt\<close> refines an array of reference
  bytes whatever calls fail.  The cards: reads see acknowledged writes, the limits on dirty blocks
  and on the journal file hold unless a write fails after its record was journalled, and opening after a crash at any point of a checkpoint gives every
  acknowledged byte back.  The library: a build leaves the old generation or a complete new one at every
  moment, at most one background operation runs, what the manager shows as validated was accepted, and the size of the disk is exact.  The session: nothing but the greeting crosses the wire in clear, every
  call to the device is in range, and a sequence of requests is answered as an array would.  The
  compositions: a session over the GameCube disk reads and writes the bytes of the source files and
  the cards, one over the Wii disk reads those of its sources and is refused every write.  The control plane: the manager pins the profile while a session is open, \<open>Evaluate\<close>
  authorizes exactly what it should, sessions of the browser are valid exactly until they expire
  or are revoked, and the Pi's cache never returns a stale block.

  \<^bold>\<open>Loops and fuel.\<close>  One definition is bounded by a number: \<open>alias_loop\<close> tries one alias more than
  there are in use, and \<open>alias_loop_fresh\<close> shows that one of them is free (below a million names in
  a directory), so the bound never ends it.  Loops whose end is not structural are
  \<open>partial_function (option)\<close> (\<open>backend_loop\<close>, \<open>ciso_loop\<close>, \<open>evict_loop\<close>) and the theorems about them
  state that the result is \<open>Some\<close>; the others are functions with a termination proof.

  \<^bold>\<open>Parameters.\<close>  The answers of the kernel (\<open>os\<close>, \<open>lib_os\<close>), a context's \<open>Err\<close>, the text of a JSON
  value, the creation of missing cards as the library's build sees it, the outcome of the TLS handshake (\<open>ncTLS\<close>), Argon2,
  the clock and the random bytes are arguments of the definitions that use them.

  \<^bold>\<open>Not modelled.\<close>  Wiring, HTTP handlers and HTML (\<open>host-daemon/main.go\<close>, \<open>features.go\<close>, \<open>libraries.go\<close>,
  \<open>web\<close>, \<open>pi/controller/main.go\<close>, \<open>bridgecontrol\<close>), which call the parts above through \<open>net/http\<close>;
  the SQL store, whose meaning is that of SQLite; metrics; the encodings of JSON documents, where the
  model keeps the value that is encoded; directory walks of the scanners; backups and restores of
  memory cards and the legacy copied volumes (\<open>gamecube/volume.go\<close>, \<open>saves.go\<close>); the settings file;
  source health probes; the storage report and the progress callbacks of the library.
\<close>

end
